(* ===== verification/Rust_Text.thy ===== *)
theory Rust_Text
  imports Prelude
begin

text \<open>
  The parts of Rust's standard library on \<^verbatim>\<open>str\<close> that the sources use, over UTF-8 bytes:
  \<^verbatim>\<open>trim\<close>, \<^verbatim>\<open>split\<close>, \<^verbatim>\<open>lines\<close>, \<^verbatim>\<open>chars().count()\<close>, \<^verbatim>\<open>char::is_control\<close>, decimal and
  hexadecimal formatting, \<^verbatim>\<open>str::parse::<u64>\<close>. Every function is total; on byte lists that
  are not UTF-8 (no Rust \<^verbatim>\<open>str\<close>) the result has no meaning for the program.
\<close>

abbreviation code :: "char \<Rightarrow> nat" where
  "code c \<equiv> of_char c"

section \<open>White space, control characters, counting\<close>

text \<open>The number of bytes of the \<^verbatim>\<open>White_Space\<close> character that starts the text, 0 for none.\<close>

fun ws_prefix :: "string \<Rightarrow> nat" where
  "ws_prefix [] = 0"
| "ws_prefix (a # s) =
     (if (9 \<le> code a \<and> code a \<le> 13) \<or> code a = 32 then 1
      else (case s of
          [] \<Rightarrow> 0
        | b # t \<Rightarrow>
            (if code a = 194 \<and> (code b = 133 \<or> code b = 160) then 2
             else (case t of
                 [] \<Rightarrow> 0
               | c # _ \<Rightarrow>
                   (if (code a = 225 \<and> code b = 154 \<and> code c = 128)
                     \<or> (code a = 226 \<and> code b = 128
                         \<and> ((128 \<le> code c \<and> code c \<le> 138) \<or> code c = 168 \<or> code c = 169 \<or> code c = 175))
                     \<or> (code a = 226 \<and> code b = 129 \<and> code c = 159)
                     \<or> (code a = 227 \<and> code b = 128 \<and> code c = 128)
                    then 3 else 0)))))"

function trim_start :: "string \<Rightarrow> string" where
  "trim_start s = (if s = [] \<or> ws_prefix s = 0 then s else trim_start (drop (ws_prefix s) s))"
  by pat_completeness auto
termination
  by (relation "measure length") auto

declare trim_start.simps [simp del]

text \<open>The same at the end of the text: the last bytes, read backwards.\<close>

definition ws_suffix :: "string \<Rightarrow> nat" where
  "ws_suffix s =
     (if s \<noteq> [] \<and> ws_prefix (drop (length s - 1) s) = 1 then 1
      else if 2 \<le> length s \<and> ws_prefix (drop (length s - 2) s) = 2 then 2
      else if 3 \<le> length s \<and> ws_prefix (drop (length s - 3) s) = 3 then 3
      else 0)"

function trim_end :: "string \<Rightarrow> string" where
  "trim_end s = (if s = [] \<or> ws_suffix s = 0 then s
     else trim_end (take (length s - ws_suffix s) s))"
  by pat_completeness auto
termination
  by (relation "measure length") auto

declare trim_end.simps [simp del]

definition trim :: "string \<Rightarrow> string" where
  "trim s = trim_end (trim_start s)"

fun has_whitespace :: "string \<Rightarrow> bool" where
  "has_whitespace [] = False"
| "has_whitespace (a # s) = (0 < ws_prefix (a # s) \<or> has_whitespace s)"

text \<open>\<^verbatim>\<open>char::is_control\<close> is the category Cc: U+0000 to U+001F and U+007F to U+009F.\<close>

fun has_control :: "string \<Rightarrow> bool" where
  "has_control [] = False"
| "has_control (a # s) =
     (code a < 32 \<or> code a = 127
      \<or> (code a = 194 \<and> (case s of [] \<Rightarrow> False | b # _ \<Rightarrow> 128 \<le> code b \<and> code b \<le> 159))
      \<or> has_control s)"

text \<open>\<^verbatim>\<open>chars().count()\<close>: every byte that does not continue a character starts one.\<close>

definition char_count :: "string \<Rightarrow> nat" where
  "char_count s = length (filter (\<lambda>c. \<not> (128 \<le> code c \<and> code c < 192)) s)"

definition is_ascii :: "string \<Rightarrow> bool" where
  "is_ascii s = list_all (\<lambda>c. code c < 128) s"

lemma char_count_le_length: "char_count s \<le> length s"
  by (simp add: char_count_def)

lemma trim_start_plain:
  assumes "32 < code a" and "code a < 128"
  shows "trim_start (a # s) = a # s"
  using assms by (subst trim_start.simps) (auto split: list.splits)

lemma trim_end_plain:
  assumes "32 < code a" and "code a < 128"
  shows "trim_end (s @ [a]) = s @ [a]"
proof -
  have last: "ws_prefix [a] = 0" using assms by simp
  have "\<not> (2 \<le> length (s @ [a]) \<and> ws_prefix (drop (length (s @ [a]) - 2) (s @ [a])) = 2)"
  proof (cases s rule: rev_cases)
    case (snoc t b)
    then show ?thesis using assms by simp
  qed simp
  moreover have "\<not> (3 \<le> length (s @ [a]) \<and> ws_prefix (drop (length (s @ [a]) - 3) (s @ [a])) = 3)"
  proof (cases s rule: rev_cases)
    case (snoc t b)
    show ?thesis
    proof (cases t rule: rev_cases)
      case (snoc u c)
      with \<open>s = t @ [b]\<close> show ?thesis using assms by simp
    qed (use snoc in simp)
  qed simp
  ultimately have "ws_suffix (s @ [a]) = 0" using last by (auto simp: ws_suffix_def)
  then show ?thesis by (subst trim_end.simps) simp
qed

lemma trim_plain:
  assumes "s \<noteq> []" and "32 < code (hd s)" and "code (hd s) < 128"
    and "32 < code (last s)" and "code (last s) < 128"
  shows "trim s = s"
proof -
  have "trim_start s = s" using assms(1-3) by (cases s) (auto simp: trim_start_plain)
  moreover have "trim_end s = s"
    using trim_end_plain [of "last s" "butlast s"] assms by simp
  ultimately show ?thesis by (simp add: trim_def)
qed

section \<open>Splitting\<close>

text \<open>\<^verbatim>\<open>s.split(c)\<close>: the pieces between separators; never an empty list of pieces.\<close>

fun split_on :: "char \<Rightarrow> string \<Rightarrow> string list" where
  "split_on c [] = [[]]"
| "split_on c (x # xs) =
     (if x = c then [] # split_on c xs
      else (case split_on c xs of [] \<Rightarrow> [[x]] | p # ps \<Rightarrow> (x # p) # ps))"

text \<open>\<^verbatim>\<open>s.split_once(c)\<close>.\<close>

fun split_once :: "char \<Rightarrow> string \<Rightarrow> (string \<times> string) option" where
  "split_once c [] = None"
| "split_once c (x # xs) =
     (if x = c then Some ([], xs) else map_option (\<lambda>(a, b). (x # a, b)) (split_once c xs))"

text \<open>\<^verbatim>\<open>s.lines()\<close>: split at line feeds, a final empty piece dropped, a carriage return before
  a line feed (or at the end of a terminated line) removed.\<close>

definition strip_cr :: "string \<Rightarrow> string" where
  "strip_cr s = (if s \<noteq> [] \<and> last s = CHR 0x0D then butlast s else s)"

definition lines :: "string \<Rightarrow> string list" where
  "lines s =
     (let ps = split_on (CHR 0x0A) s
      in map strip_cr (butlast ps) @ (if last ps = [] then [] else [last ps]))"

fun strip_prefix :: "string \<Rightarrow> string \<Rightarrow> string option" where
  "strip_prefix [] s = Some s"
| "strip_prefix (p # ps) [] = None"
| "strip_prefix (p # ps) (x # xs) = (if p = x then strip_prefix ps xs else None)"

definition strip_suffix :: "string \<Rightarrow> string \<Rightarrow> string option" where
  "strip_suffix p s = map_option rev (strip_prefix (rev p) (rev s))"

definition starts_with :: "string \<Rightarrow> string \<Rightarrow> bool" where
  "starts_with p s = (strip_prefix p s \<noteq> None)"

fun join :: "string \<Rightarrow> string list \<Rightarrow> string" where
  "join sep [] = []"
| "join sep [x] = x"
| "join sep (x # y # ys) = x @ sep @ join sep (y # ys)"

lemma split_on_not_Nil [simp]: "split_on c s \<noteq> []"
  by (cases s) (auto split: list.splits)

lemma split_on_no_sep: "c \<notin> set s \<Longrightarrow> split_on c s = [s]"
  by (induction s) auto

lemma split_on_append_sep: "c \<notin> set s \<Longrightarrow> split_on c (s @ c # t) = s # split_on c t"
  by (induction s) auto

lemma strip_prefix_Some_iff: "strip_prefix p s = Some t \<longleftrightarrow> s = p @ t"
  by (induction p s rule: strip_prefix.induct) auto

lemma strip_suffix_Some_iff: "strip_suffix p s = Some t \<longleftrightarrow> s = t @ p"
proof -
  have "strip_suffix p s = Some t \<longleftrightarrow> rev s = rev p @ rev t"
    by (force simp: strip_suffix_def strip_prefix_Some_iff)
  also have "\<dots> \<longleftrightarrow> s = t @ p"
    by (metis rev_append rev_rev_ident)
  finally show ?thesis .
qed

lemma starts_with_iff: "starts_with p s \<longleftrightarrow> (\<exists>t. s = p @ t)"
  by (auto simp: starts_with_def strip_prefix_Some_iff)

lemma split_once_Some_iff:
  "split_once c s = Some (a, b) \<longleftrightarrow> s = a @ c # b \<and> c \<notin> set a"
  by (induction s arbitrary: a) (force simp: Cons_eq_append_conv)+

section \<open>Decimal numbers\<close>

definition is_digit :: "char \<Rightarrow> bool" where
  "is_digit c = (48 \<le> code c \<and> code c \<le> 57)"

definition all_digits :: "string \<Rightarrow> bool" where
  "all_digits s = list_all is_digit s"

definition digits_val :: "string \<Rightarrow> nat" where
  "digits_val s = fold (\<lambda>c n. n * 10 + (code c - 48)) s 0"

text \<open>\<^verbatim>\<open>str::parse::<u64>\<close>: an optional plus sign, at least one digit, no overflow.\<close>

definition parse_u64 :: "string \<Rightarrow> nat option" where
  "parse_u64 s =
     (let d = (if s \<noteq> [] \<and> hd s = CHR ''+'' then tl s else s)
      in if d \<noteq> [] \<and> all_digits d \<and> digits_val d < u64_bound then Some (digits_val d) else None)"

definition digit_char :: "nat \<Rightarrow> char" where
  "digit_char d = char_of (48 + d)"

text \<open>\<^verbatim>\<open>n.to_string()\<close> and \<^verbatim>\<open>format!("{n:0w$}")\<close>.\<close>

fun dec :: "nat \<Rightarrow> string" where
  "dec n = (if n < 10 then [digit_char n] else dec (n div 10) @ [digit_char (n mod 10)])"

declare dec.simps [simp del]

primrec dec_padded :: "nat \<Rightarrow> nat \<Rightarrow> string" where
  "dec_padded 0 n = []"
| "dec_padded (Suc w) n = dec_padded w (n div 10) @ [digit_char (n mod 10)]"

lemma code_digit_char [simp]: "d < 10 \<Longrightarrow> code (digit_char d) = 48 + d"
  by (simp add: digit_char_def)

lemma is_digit_digit_char [simp]: "d < 10 \<Longrightarrow> is_digit (digit_char d)"
  by (simp add: is_digit_def)

lemma digits_val_snoc: "digits_val (s @ [c]) = digits_val s * 10 + (code c - 48)"
  by (simp add: digits_val_def)

lemma digits_val_Nil [simp]: "digits_val [] = 0"
  by (simp add: digits_val_def)

lemma all_digits_append [simp]: "all_digits (s @ t) \<longleftrightarrow> all_digits s \<and> all_digits t"
  by (simp add: all_digits_def)

lemma all_digits_simps [simp]:
  "all_digits []" "all_digits (c # s) \<longleftrightarrow> is_digit c \<and> all_digits s"
  by (simp_all add: all_digits_def)

lemma digits_val_dec [simp]: "digits_val (dec n) = n"
  by (induction n rule: dec.induct) (subst dec.simps, auto simp: digits_val_snoc digits_val_def)

lemma all_digits_dec [simp]: "all_digits (dec n)"
  by (induction n rule: dec.induct) (subst dec.simps, auto)

lemma dec_not_Nil [simp]: "dec n \<noteq> []"
  by (subst dec.simps) simp

lemma length_dec_padded [simp]: "length (dec_padded w n) = w"
  by (induction w arbitrary: n) auto

lemma all_digits_dec_padded [simp]: "all_digits (dec_padded w n)"
  by (induction w arbitrary: n) auto

lemma digits_val_dec_padded: "n < 10 ^ w \<Longrightarrow> digits_val (dec_padded w n) = n"
proof (induction w arbitrary: n)
  case (Suc w)
  then have "n div 10 < 10 ^ w" by (simp add: less_mult_imp_div_less mult.commute)
  with Suc.IH show ?case by (simp add: digits_val_snoc)
qed simp

lemma digits_val_append: "digits_val (s @ t) = digits_val s * 10 ^ length t + digits_val t"
proof (induction t rule: rev_induct)
  case (snoc c t)
  then show ?case
    unfolding append_assoc [symmetric] digits_val_snoc by (simp add: algebra_simps)
qed simp

lemma digits_val_less:
  assumes "all_digits s"
  shows "digits_val s < 10 ^ length s"
  using assms
proof (induction s rule: rev_induct)
  case (snoc c s)
  then have "digits_val s + 1 \<le> 10 ^ length s" and "code c - 48 < 10"
    by (auto simp: is_digit_def)
  then have "digits_val s * 10 + (code c - 48) < 10 * 10 ^ length s" by linarith
  then show ?case by (simp add: digits_val_snoc)
qed simp

lemma length_dec: "n < 10 ^ k \<Longrightarrow> 0 < k \<Longrightarrow> length (dec n) \<le> k"
proof (induction n arbitrary: k rule: dec.induct)
  case (1 n)
  show ?case
  proof (cases "n < 10")
    case True
    then show ?thesis using 1 by (subst dec.simps) simp
  next
    case False
    with "1.prems" obtain j where k: "k = Suc (Suc j)"
      by (cases k; cases "k - 1") auto
    have "n div 10 < 10 ^ Suc j" using "1.prems" k by (simp add: less_mult_imp_div_less mult.commute)
    with "1.IH" False k show ?thesis by (subst dec.simps) simp
  qed
qed

lemma is_digit_code: "is_digit c \<Longrightarrow> 32 < code c \<and> code c < 128"
  by (simp add: is_digit_def)

lemma all_digits_set: "all_digits s \<Longrightarrow> c \<in> set s \<Longrightarrow> is_digit c"
  by (simp add: all_digits_def list_all_iff)

lemma dot_not_digit [simp]: "\<not> is_digit (CHR ''.'')" "\<not> is_digit (CHR ''+'')"
  by (simp_all add: is_digit_def)

lemma parse_u64_digits:
  "s \<noteq> [] \<Longrightarrow> all_digits s \<Longrightarrow>
   parse_u64 s = (if digits_val s < u64_bound then Some (digits_val s) else None)"
  by (cases s) (auto simp: parse_u64_def)

section \<open>Hexadecimal\<close>

definition hex_digit :: "nat \<Rightarrow> char" where
  "hex_digit d = (if d < 10 then char_of (48 + d) else char_of (87 + d))"

section \<open>Searching, and bytes\<close>

lemma strip_prefix_shorter:
  assumes "(if p = [] then None else strip_prefix p s) = Some t"
  shows "length t < length s"
proof -
  have "s = p @ t" "p \<noteq> []" using assms by (auto simp: strip_prefix_Some_iff split: if_splits)
  then show ?thesis by (cases p) simp_all
qed

text \<open>\<^verbatim>\<open>s.replace(p, r)\<close> and \<^verbatim>\<open>s.matches(p).count()\<close> for a nonempty pattern: disjoint matches
  from the left.\<close>

function replace_all :: "string \<Rightarrow> string \<Rightarrow> string \<Rightarrow> string" where
  "replace_all p r [] = []"
| "replace_all p r (c # s) =
     (case (if p = [] then None else strip_prefix p (c # s)) of
        Some t \<Rightarrow> r @ replace_all p r t
      | None \<Rightarrow> c # replace_all p r s)"
  by pat_completeness auto
termination
  by (relation "measure (\<lambda>(p, r, s). length s)") (auto dest: strip_prefix_shorter)

function matches_count :: "string \<Rightarrow> string \<Rightarrow> nat" where
  "matches_count p [] = 0"
| "matches_count p (c # s) =
     (case (if p = [] then None else strip_prefix p (c # s)) of
        Some t \<Rightarrow> Suc (matches_count p t)
      | None \<Rightarrow> matches_count p s)"
  by pat_completeness auto
termination
  by (relation "measure (\<lambda>(p, s). length s)") (auto dest: strip_prefix_shorter)

text \<open>\<^verbatim>\<open>trim_start_matches\<close> of a fixed nonempty text.\<close>

function trim_start_matches :: "string \<Rightarrow> string \<Rightarrow> string" where
  "trim_start_matches p [] = []"
| "trim_start_matches p (c # s) =
     (case (if p = [] then None else strip_prefix p (c # s)) of
        Some t \<Rightarrow> trim_start_matches p t
      | None \<Rightarrow> c # s)"
  by pat_completeness auto
termination
  by (relation "measure (\<lambda>(p, s). length s)") (auto dest: strip_prefix_shorter)

text \<open>\<^verbatim>\<open>str::from_utf8\<close>: the well-formed byte sequences of the Unicode standard, table 3-7.\<close>

definition cont :: "char \<Rightarrow> bool" where
  "cont c = (128 \<le> code c \<and> code c < 192)"

fun utf8_valid :: "string \<Rightarrow> bool" where
  "utf8_valid [] = True"
| "utf8_valid (a # s) =
     (if code a < 128 then utf8_valid s
      else (case s of [] \<Rightarrow> False | b # s2 \<Rightarrow>
        if 194 \<le> code a \<and> code a \<le> 223 then cont b \<and> utf8_valid s2
        else (case s2 of [] \<Rightarrow> False | c # s3 \<Rightarrow>
          if 224 \<le> code a \<and> code a \<le> 239
          then cont b \<and> cont c \<and> (code a = 224 \<longrightarrow> 160 \<le> code b) \<and> (code a = 237 \<longrightarrow> code b < 160)
            \<and> utf8_valid s3
          else (case s3 of [] \<Rightarrow> False | d # s4 \<Rightarrow>
            240 \<le> code a \<and> code a \<le> 244 \<and> cont b \<and> cont c \<and> cont d
            \<and> (code a = 240 \<longrightarrow> 144 \<le> code b) \<and> (code a = 244 \<longrightarrow> code b < 144)
            \<and> utf8_valid s4))))"

text \<open>A text as the bytes it is made of, and back.\<close>

definition bytes_of :: "string \<Rightarrow> byte list" where
  "bytes_of s = map of_char s"

definition text_of :: "byte list \<Rightarrow> string" where
  "text_of bs = map (\<lambda>b. char_of (unat b)) bs"

lemma text_of_bytes_of [simp]: "text_of (bytes_of s) = s"
proof -
  have "unat (of_char c :: byte) = (of_char c :: nat)" for c
  proof -
    have "(of_char c :: byte) = of_nat (of_char c)" by (simp add: of_nat_of_char)
    moreover have "(of_char c :: nat) < 2 ^ LENGTH(8)" using nat_of_char_less_256 [of c] by simp
    ultimately show ?thesis by (metis of_nat_inverse)
  qed
  then show ?thesis by (simp add: bytes_of_def text_of_def comp_def)
qed

end
