(* ===== verification/Amount.thy ===== *)
theory Amount
  imports Rust_Text
begin

text \<open>
  \<^verbatim>\<open>crates/tundra-core/src/amount.rs\<close>: decimal BTC and fee-rate texts to integer satoshis and
  back. Every branch of the parsers is kept; the lemmas show that parsing is exact (no digit is
  dropped or rounded), that formatting and parsing are inverse on the whole supply, and that a fee
  rate is only ever rounded up, into the range that transaction construction accepts.
\<close>

definition MAX_SATS :: nat where
  "MAX_SATS = 21000000 * 100000000"

definition parse_btc :: "string \<Rightarrow> nat result" where
  "parse_btc input =
     (let s = trim input in
      if s = [] \<or> 32 < length s then Inl (InvalidInput ''enter a BTC amount'')
      else
        (let parts = split_on (CHR ''.'') s;
             whole = hd parts;
             fraction = (case tl parts of [] \<Rightarrow> [] | f # _ \<Rightarrow> f)
         in
         if 2 < length parts \<or> whole = [] \<or> \<not> all_digits whole
            \<or> 8 < length fraction \<or> \<not> all_digits fraction
            \<or> (CHR ''.'' \<in> set s \<and> fraction = [])
         then Inl (InvalidInput ''use BTC with at most eight decimal places'')
         else
           rbind (ok_or (parse_u64 whole) (InvalidInput ''amount overflow'')) (\<lambda>n.
           rbind (if fraction = [] then Inr 0
                  else rbind (ok_or (parse_u64 fraction) (InvalidInput ''amount'')) (\<lambda>v.
                       Inr (v * 10 ^ (8 - length fraction)))) (\<lambda>f.
           ok_or
             (Option.bind (checked_mul_u64 n 100000000) (\<lambda>n.
              Option.bind (checked_add_u64 n f) (\<lambda>n.
              if n \<le> MAX_SATS then Some n else None)))
             (InvalidInput ''amount exceeds Bitcoin supply'')))))"

definition trim_end_zeros :: "string \<Rightarrow> string" where
  "trim_end_zeros s = rev (dropWhile (\<lambda>c. c = CHR ''0'') (rev s))"

definition format_btc :: "nat \<Rightarrow> string" where
  "format_btc sats =
     (let whole = sats div 100000000; fraction = sats mod 100000000
      in if fraction = 0 then dec whole
         else dec whole @ ''.'' @ trim_end_zeros (dec_padded 8 fraction))"

definition parse_fee_rate :: "string \<Rightarrow> nat result" where
  "parse_fee_rate input =
     rbind (parse_btc input) (\<lambda>sats.
     if sats = 0 \<or> 1000 * 100000000 < sats
     then Inl (InvalidInput ''fee rate must be greater than zero and at most 1000 sat/vB'')
     else Inr (div_ceil sats 400000))"

definition format_fee_rate :: "nat \<Rightarrow> string" where
  "format_fee_rate sat_per_kwu = format_btc (saturating_mul_u64 sat_per_kwu 400000)"

section \<open>What the parser accepts\<close>

text \<open>The exact value of a decimal text with whole part \<open>w\<close> and fraction \<open>f\<close>.\<close>

definition btc_value :: "string \<Rightarrow> string \<Rightarrow> nat" where
  "btc_value w f = digits_val w * 10 ^ 8 + digits_val f * 10 ^ (8 - length f)"

lemma MAX_SATS_u64: "MAX_SATS < u64_bound"
  by (simp add: MAX_SATS_def u64_bound_def)

lemma fraction_value_less:
  assumes "all_digits f" and "length f \<le> 8"
  shows "digits_val f * 10 ^ (8 - length f) < 10 ^ 8"
proof -
  have "digits_val f * 10 ^ (8 - length f) < 10 ^ length f * 10 ^ (8 - length f)"
    using digits_val_less [OF assms(1)] by simp
  also have "\<dots> = 10 ^ 8" using assms(2) by (simp flip: power_add)
  finally show ?thesis .
qed

lemma fraction_parses:
  assumes "all_digits f" and "length f \<le> 8" and "f \<noteq> []"
  shows "parse_u64 f = Some (digits_val f)"
proof -
  have "digits_val f < 10 ^ length f" by (rule digits_val_less [OF assms(1)])
  also have "\<dots> \<le> 10 ^ 8" using assms(2) by (rule power_increasing) simp
  finally have "digits_val f < u64_bound" by (simp add: u64_bound_def)
  then show ?thesis using assms by (simp add: parse_u64_digits)
qed

text \<open>The arithmetic of the last steps, with its three ways to fail, is one bound.\<close>

lemma parse_btc_arith:
  assumes "w \<noteq> []" and "all_digits w" and "all_digits f" and "length f \<le> 8"
  shows "rbind (ok_or (parse_u64 w) (InvalidInput ''amount overflow'')) (\<lambda>n.
           rbind (if f = [] then Inr 0
                  else rbind (ok_or (parse_u64 f) (InvalidInput ''amount'')) (\<lambda>v.
                       Inr (v * 10 ^ (8 - length f)))) (\<lambda>f.
           ok_or
             (Option.bind (checked_mul_u64 n 100000000) (\<lambda>n.
              Option.bind (checked_add_u64 n f) (\<lambda>n.
              if n \<le> MAX_SATS then Some n else None)))
             (InvalidInput ''amount exceeds Bitcoin supply''))) = Inr n
         \<longleftrightarrow> n = btc_value w f \<and> n \<le> MAX_SATS"
    (is "?lhs = Inr n \<longleftrightarrow> _")
proof -
  let ?v = "digits_val f * 10 ^ (8 - length f)"
  have frac: "(if f = [] then Inr 0
      else rbind (ok_or (parse_u64 f) (InvalidInput ''amount'')) (\<lambda>v.
        Inr (v * 10 ^ (8 - length f)))) = Inr ?v"
    using fraction_parses assms(3,4) by simp
  show ?thesis
    unfolding frac
    using parse_u64_digits [OF assms(1,2)] MAX_SATS_u64
    by (auto simp: btc_value_def result_simps Option.bind_eq_Some_conv ok_or_Inr_iff
        split: if_splits)
qed

lemma split_dot_cases:
  fixes s :: string
  obtains (none) "CHR ''.'' \<notin> set s" "split_on (CHR ''.'') s = [s]"
  | (one) w f where "s = w @ CHR ''.'' # f" "CHR ''.'' \<notin> set w" "CHR ''.'' \<notin> set f"
      "split_on (CHR ''.'') s = [w, f]"
  | (more) "2 < length (split_on (CHR ''.'') s)" "\<And>w f. s = w @ CHR ''.'' # f \<Longrightarrow>
      CHR ''.'' \<notin> set w \<Longrightarrow> CHR ''.'' \<in> set f"
proof (cases "CHR ''.'' \<in> set s")
  case False
  then show ?thesis using none by (simp add: split_on_no_sep)
next
  case True
  then obtain w f where s: "s = w @ CHR ''.'' # f" and w: "CHR ''.'' \<notin> set w"
    by (auto dest: split_list_first)
  show ?thesis
  proof (cases "CHR ''.'' \<in> set f")
    case False
    then show ?thesis using s w one by (simp add: split_on_append_sep split_on_no_sep)
  next
    case True
    then obtain g h where "f = g @ CHR ''.'' # h" "CHR ''.'' \<notin> set g"
      by (auto dest: split_list_first)
    then have "2 < length (split_on (CHR ''.'') s)"
      using s w by (simp add: split_on_append_sep Suc_le_eq)
    moreover have "CHR ''.'' \<in> set f'" if "s = w' @ CHR ''.'' # f'" "CHR ''.'' \<notin> set w'" for w' f'
      using that s w True by (metis append_eq_append_conv_if append_Cons_eq_iff)
    ultimately show ?thesis using more by blast
  qed
qed

text \<open>The shape of an accepted text: a whole part, and at most eight decimals after a point.\<close>

definition btc_text :: "string \<Rightarrow> string \<Rightarrow> string \<Rightarrow> bool" where
  "btc_text s w f \<longleftrightarrow>
     w \<noteq> [] \<and> all_digits w \<and> all_digits f \<and> length f \<le> 8 \<and>
     s = (if f = [] then w else w @ ''.'' @ f)"

lemma digits_no_dot: "all_digits w \<Longrightarrow> CHR ''.'' \<notin> set w"
  by (auto dest: all_digits_set)

lemma btc_text_split:
  assumes "btc_text s w f"
  shows "split_on (CHR ''.'') s = (if f = [] then [w] else [w, f])"
    and "CHR ''.'' \<in> set s \<longleftrightarrow> f \<noteq> []"
  using assms digits_no_dot [of w] digits_no_dot [of f]
  by (auto simp: btc_text_def split_on_no_sep split_on_append_sep split: if_splits)

lemma parse_btc_shape:
  assumes "s \<noteq> []" and "length s \<le> 32" and "trim input = s"
  shows "parse_btc input = Inr n \<longleftrightarrow>
    (\<exists>w f. btc_text s w f \<and> n = btc_value w f \<and> n \<le> MAX_SATS)"
proof (cases s rule: split_dot_cases)
  case none
  have "btc_text s w f \<longleftrightarrow> f = [] \<and> w = s \<and> all_digits s" for w f
    using none assms(1) by (auto simp: btc_text_def)
  then show ?thesis
    using none assms parse_btc_arith [of s "[]" n]
    by (auto simp: parse_btc_def Let_def result_simps)
next
  case (one w f)
  have "btc_text s w' f' \<longleftrightarrow>
      w' = w \<and> f' = f \<and> w \<noteq> [] \<and> all_digits w \<and> all_digits f \<and> length f \<le> 8 \<and> f \<noteq> []"
    for w' f'
  proof
    assume t: "btc_text s w' f'"
    then have "f' \<noteq> []" using one(1) btc_text_split(2) [OF t] by auto
    with t one show "w' = w \<and> f' = f \<and> w \<noteq> [] \<and> all_digits w \<and> all_digits f \<and> length f \<le> 8 \<and> f \<noteq> []"
      using btc_text_split(1) [OF t] by (auto simp: btc_text_def)
  qed (use one in \<open>auto simp: btc_text_def\<close>)
  then show ?thesis
    using one assms parse_btc_arith [of w f n]
    by (auto simp: parse_btc_def Let_def result_simps)
next
  case more
  have "\<not> btc_text s w f" for w f
    using more btc_text_split(1) [of s w f] by (auto split: if_splits)
  then show ?thesis using more assms by (auto simp: parse_btc_def Let_def)
qed

text \<open>
  C37. \<^verbatim>\<open>parse_btc\<close> accepts exactly the decimal texts of at most 32 bytes with a whole part and at
  most eight decimals whose exact value is within the supply, and returns that value: no rounding,
  no overflow, no sign, exponent or locale separator.
\<close>

theorem parse_btc_exact:
  "parse_btc input = Inr n \<longleftrightarrow>
     trim input \<noteq> [] \<and> length (trim input) \<le> 32 \<and>
     (\<exists>w f. btc_text (trim input) w f \<and> n = btc_value w f \<and> n \<le> MAX_SATS)"
proof (cases "trim input \<noteq> [] \<and> length (trim input) \<le> 32")
  case True
  then show ?thesis using parse_btc_shape [of "trim input" input n] by simp
qed (auto simp: parse_btc_def Let_def)

section \<open>Formatting\<close>

lemma trim_end_zeros_decomp:
  "\<exists>k. s = trim_end_zeros s @ replicate k (CHR ''0'')"
proof -
  let ?z = "takeWhile (\<lambda>c. c = CHR ''0'') (rev s)"
  have z: "replicate (length ?z) (CHR ''0'') = ?z"
    by (rule replicate_length_same) (auto dest: set_takeWhileD)
  have "rev s = ?z @ rev (trim_end_zeros s)"
    by (simp add: trim_end_zeros_def)
  then have "s = trim_end_zeros s @ rev ?z"
    using rev_append [of ?z "rev (trim_end_zeros s)"] by (metis rev_rev_ident)
  also have "rev ?z = replicate (length ?z) (CHR ''0'')"
    using arg_cong [OF z, of rev] by simp
  finally show ?thesis by blast
qed

lemma digits_val_zeros [simp]: "digits_val (replicate k (CHR ''0'')) = 0"
proof (induction k)
  case (Suc k)
  have "replicate (Suc k) (CHR ''0'') = replicate k (CHR ''0'') @ ''0''"
    by (simp add: replicate_append_same)
  with Suc show ?case by (simp only: digits_val_snoc) simp
qed simp

lemma trim_end_zeros_value:
  assumes "length s = n"
  shows "digits_val (trim_end_zeros s) * 10 ^ (n - length (trim_end_zeros s)) = digits_val s"
proof -
  obtain k where k: "s = trim_end_zeros s @ replicate k (CHR ''0'')"
    using trim_end_zeros_decomp by blast
  then have "length s = length (trim_end_zeros s) + k" by (metis length_append length_replicate)
  moreover have "digits_val s = digits_val (trim_end_zeros s) * 10 ^ k"
    using arg_cong [OF k, of digits_val] by (simp add: digits_val_append)
  ultimately show ?thesis using assms by simp
qed

lemma format_btc_text:
  "\<exists>f. btc_text (format_btc sats) (dec (sats div 100000000)) f
     \<and> btc_value (dec (sats div 100000000)) f = sats"
proof (cases "sats mod 100000000 = 0")
  case True
  then have "btc_text (format_btc sats) (dec (sats div 100000000)) []"
    by (simp add: btc_text_def format_btc_def)
  moreover have "btc_value (dec (sats div 100000000)) [] = sats"
    using True div_mult_mod_eq [of sats 100000000] by (simp add: btc_value_def)
  ultimately show ?thesis by blast
next
  case False
  let ?d = "dec_padded 8 (sats mod 100000000)"
  let ?f = "trim_end_zeros ?d"
  have val: "digits_val ?d = sats mod 100000000"
    by (rule digits_val_dec_padded) simp
  obtain k where d: "?d = ?f @ replicate k (CHR ''0'')" using trim_end_zeros_decomp by blast
  have digits: "all_digits ?f" using all_digits_dec_padded [of 8 "sats mod 100000000"] d
    by (metis all_digits_append)
  have len: "length ?f \<le> 8" by (metis d length_append length_dec_padded le_add1)
  have "?f \<noteq> []" using val False d by (metis append_Nil digits_val_zeros)
  then have "btc_text (format_btc sats) (dec (sats div 100000000)) ?f"
    using False digits len by (simp add: btc_text_def format_btc_def Let_def)
  moreover have "btc_value (dec (sats div 100000000)) ?f = sats"
    using trim_end_zeros_value [of ?d 8] val div_mult_mod_eq [of sats 100000000]
    by (simp add: btc_value_def)
  ultimately show ?thesis by blast
qed

lemma btc_text_trim:
  assumes "btc_text s w f"
  shows "trim s = s" and "s \<noteq> []"
proof -
  have w: "w \<noteq> []" "all_digits w" "all_digits f" using assms by (auto simp: btc_text_def)
  have "is_digit (hd s)" using assms w by (cases w) (auto simp: btc_text_def)
  moreover have "is_digit (last s)"
    using assms w by (auto simp: btc_text_def intro: all_digits_set)
  ultimately show "trim s = s" and "s \<noteq> []"
    using assms is_digit_code [of "hd s"] is_digit_code [of "last s"]
    by (auto intro!: trim_plain simp: btc_text_def split: if_splits)
qed

lemma format_btc_length:
  assumes "sats < u64_bound"
  shows "length (format_btc sats) \<le> 32"
proof -
  have "sats div 100000000 < 10 ^ 12" using assms by (simp add: u64_bound_def less_mult_imp_div_less)
  then have "length (dec (sats div 100000000)) \<le> 12" by (rule length_dec) simp
  moreover have "length (trim_end_zeros (dec_padded 8 (sats mod 100000000))) \<le> 8"
    by (metis le_add1 length_append length_dec_padded trim_end_zeros_decomp)
  ultimately show ?thesis by (simp add: format_btc_def Let_def)
qed

lemma btc_roundtrip:
  assumes "sats \<le> MAX_SATS"
  shows "parse_btc (format_btc sats) = Inr sats"
proof -
  obtain f where f: "btc_text (format_btc sats) (dec (sats div 100000000)) f"
      "btc_value (dec (sats div 100000000)) f = sats"
    using format_btc_text by blast
  have len: "length (format_btc sats) \<le> 32"
    using assms MAX_SATS_u64 by (intro format_btc_length) simp
  show ?thesis
    unfolding parse_btc_shape [OF btc_text_trim(2) [OF f(1)] len btc_text_trim(1) [OF f(1)]]
    using f(1) f(2) [symmetric] assms by blast
qed

text \<open>
  Formatting then parsing an amount within the supply gives the amount back.
\<close>

theorem parse_format_btc:
  assumes "sats \<le> MAX_SATS"
  shows "parse_btc (format_btc sats) = Inr sats"
  using assms by (rule btc_roundtrip)

theorem parse_format_btc_witness:
  "(80000001 :: nat) \<le> MAX_SATS \<and> parse_btc (format_btc 80000001) = Inr 80000001"
proof -
  have h: "(80000001 :: nat) \<le> MAX_SATS" by (simp add: MAX_SATS_def)
  show ?thesis using h parse_format_btc [OF h] by simp
qed

section \<open>Fee rates\<close>

lemma div_ceil_mult: "0 < b \<Longrightarrow> div_ceil (k * b) b = k"
proof -
  assume b: "0 < b"
  have "k * b + b - 1 = k * b + (b - 1)" using b by simp
  moreover have "(b - 1) div b = 0" using b by simp
  ultimately show ?thesis using b unfolding div_ceil_def
    by (metis add.right_neutral div_mult_self3 less_not_refl2 mult.commute)
qed

text \<open>
  A fee rate is only rounded up, by less than one unit, and the result is a rate that
  \<^verbatim>\<open>create_draft\<close> accepts (1 to 250000 sat/kwu).
\<close>

lemma parse_fee_rate_bounds:
  assumes "parse_fee_rate input = Inr k"
  shows "\<exists>sats. parse_btc input = Inr sats \<and> sats \<le> 400000 * k \<and> 400000 * k < sats + 400000
    \<and> 1 \<le> k \<and> k \<le> 250000"
proof -
  obtain sats where sats: "parse_btc input = Inr sats" and pos: "sats \<noteq> 0"
    and max: "sats \<le> 1000 * 100000000" and k: "k = div_ceil sats 400000"
    using assms by (auto simp: parse_fee_rate_def result_simps)
  have lo: "sats \<le> 400000 * k" and hi: "400000 * k < sats + 400000"
    using div_ceil_bounds [of 400000 sats] k by auto
  have "1 \<le> k" using lo pos by (cases k) auto
  moreover have "k \<le> 250000" using hi max by simp
  ultimately show ?thesis using sats lo hi by blast
qed

lemma parse_fee_rate_1_001: "parse_fee_rate ''1.001'' = Inr 251"
proof -
  have t: "trim ''1.001'' = ''1.001''" by (rule trim_plain) simp_all
  have "parse_btc ''1.001'' = Inr 100100000"
    unfolding parse_btc_def t
    by (simp add: all_digits_def is_digit_def parse_u64_def digits_val_def u64_bound_def
        checked_mul_u64_def checked_add_u64_def MAX_SATS_def)
  then show ?thesis by (simp add: parse_fee_rate_def div_ceil_def)
qed

theorem parse_fee_rate_bounds_witness:
  "\<exists>sats. parse_btc ''1.001'' = Inr sats \<and> sats \<le> 400000 * (251::nat)
    \<and> 400000 * 251 < sats + 400000 \<and> (1::nat) \<le> 251 \<and> (251::nat) \<le> 250000"
  using parse_fee_rate_bounds [OF parse_fee_rate_1_001] .

text \<open>A rate in the accepted range survives being shown and read back.\<close>

lemma parse_format_fee_rate:
  assumes "1 \<le> k" and "k \<le> 250000"
  shows "parse_fee_rate (format_fee_rate k) = Inr k"
proof -
  have "saturating_mul_u64 k 400000 = k * 400000"
    using assms by (simp add: saturating_mul_u64_def u64_bound_def)
  moreover have "parse_btc (format_btc (k * 400000)) = Inr (k * 400000)"
    using assms by (intro btc_roundtrip) (simp add: MAX_SATS_def)
  ultimately show ?thesis
    using assms div_ceil_mult [of 400000 k] by (simp add: parse_fee_rate_def format_fee_rate_def)
qed

end
