(* ===== verification/Session.thy ===== *)
theory Session
  imports Prelude
begin

text \<open>
  The contract shared by the bounded, single-use exchanges of the core (the Ledger response
  reader, the QR decoder and the USB protocol session): an input is answered by a result and the
  next state, an error closes the exchange, and a closed exchange answers nothing but errors. The
  components interpret the locale on their own step functions.
\<close>

text \<open>A machine fed with a list of inputs: every answer in order, and the last state.\<close>

fun run_machine :: "('s \<Rightarrow> 'i \<Rightarrow> 'o result \<times> 's) \<Rightarrow> 's \<Rightarrow> 'i list \<Rightarrow> 'o result list \<times> 's" where
  "run_machine step s [] = ([], s)"
| "run_machine step s (i # is) =
     (let (r, s') = step s i; (rs, t) = run_machine step s' is in (r # rs, t))"

lemma run_machine_append:
  "run_machine step s (is @ js) =
     (let (rs, t) = run_machine step s is; (qs, u) = run_machine step t js in (rs @ qs, u))"
  by (induction "is" arbitrary: s) (auto simp: Let_def split_def)

lemma length_run_machine [simp]: "length (fst (run_machine step s is)) = length is"
  by (induction "is" arbitrary: s) (auto simp: Let_def split_def)

locale closing_machine =
  fixes step :: "'s \<Rightarrow> 'i \<Rightarrow> 'o result \<times> 's"
    and closed :: "'s \<Rightarrow> bool"
  assumes closed_rejects: "closed s \<Longrightarrow> \<not> is_ok (fst (step s i)) \<and> closed (snd (step s i))"
    and error_closes: "\<not> is_ok (fst (step s i)) \<Longrightarrow> closed (snd (step s i))"
begin

lemma run_closed:
  "closed s \<Longrightarrow> closed (snd (run_machine step s is))
     \<and> (\<forall>r \<in> set (fst (run_machine step s is)). \<not> is_ok r)"
proof (induction "is" arbitrary: s)
  case (Cons i "is")
  from Cons.IH [of "snd (step s i)"] closed_rejects [OF Cons.prems, of i]
  show ?case by (auto simp: Let_def split_def)
qed simp

text \<open>Once an input is answered by an error, so is every later one.\<close>

lemma errors_are_final:
  assumes "j < k" and "k < length is"
    and "\<not> is_ok (fst (run_machine step s is) ! j)"
  shows "\<not> is_ok (fst (run_machine step s is) ! k)"
proof -
  have split: "is = take j is @ is ! j # drop (Suc j) is"
    using assms by (simp add: id_take_nth_drop)
  let ?t = "snd (run_machine step s (take j is))"
  let ?after = "run_machine step (snd (step ?t (is ! j))) (drop (Suc j) is)"
  have run: "fst (run_machine step s is) =
      fst (run_machine step s (take j is)) @ fst (step ?t (is ! j)) # fst ?after"
    by (subst split, simp only: run_machine_append) (simp add: Let_def split_def)
  have "\<not> is_ok (fst (step ?t (is ! j)))"
    using assms unfolding run by (simp add: nth_append)
  then have "\<forall>r \<in> set (fst ?after). \<not> is_ok r"
    using run_closed [OF error_closes] by blast
  moreover have "fst (run_machine step s is) ! k = fst ?after ! (k - Suc j)"
    using assms unfolding run by (simp add: nth_append nth_Cons')
  moreover have "fst ?after ! (k - Suc j) \<in> set (fst ?after)"
    using assms by (intro nth_mem) simp
  ultimately show ?thesis by simp
qed

end

end
