(* ===== verification/Framing.thy ===== *)
theory Framing
  imports Session
begin

text \<open>
  \<^verbatim>\<open>crates/tundra-core/src/usb/framing.rs\<close>: Ledger HID framing in 64-byte reports.
  \<open>command_reports\<close> cuts a command into reports, \<open>receive\<close> is one call of
  \<^verbatim>\<open>ResponseReader::receive\<close>. A byte is an \<open>8 word\<close>; the sequence number, a \<^verbatim>\<open>u16\<close>, is a \<open>nat\<close>
  with its overflow check written out. The lemmas characterise the reader completely: it completes
  exactly on an in-order, full-length, correctly headed run of reports whose stream starts with the
  announced size, and padding never enters the payload.
\<close>


definition REPORT_BYTES :: nat where "REPORT_BYTES = 64"

definition MAX_RESPONSE_BYTES :: nat where "MAX_RESPONSE_BYTES = 4096"

definition CHANNEL :: "byte list" where "CHANNEL = [1, 1]"

definition TAG :: byte where "TAG = 5"

definition framing_invalid :: error where
  "framing_invalid = InvalidInput ''invalid Ledger USB report or sequence''"

text \<open>\<^verbatim>\<open>(n as u16).to_be_bytes()\<close> and \<^verbatim>\<open>u16::from_be_bytes\<close>.\<close>

definition be16 :: "nat \<Rightarrow> byte list" where
  "be16 n = [word_of_nat (n div 256), word_of_nat n]"

definition from_be16 :: "byte \<Rightarrow> byte \<Rightarrow> nat" where
  "from_be16 a b = unat a * 256 + unat b"

text \<open>\<^verbatim>\<open>slice::chunks\<close>.\<close>

function chunks :: "nat \<Rightarrow> 'a list \<Rightarrow> 'a list list" where
  "chunks n xs = (if xs = [] \<or> n = 0 then [] else take n xs # chunks n (drop n xs))"
  by pat_completeness auto
termination
  by (relation "measure (\<lambda>(n, xs). length xs)") auto

declare chunks.simps [simp del]

text \<open>A zeroed report with the header and the chunk written over its start.\<close>

definition make_report :: "nat \<Rightarrow> byte list \<Rightarrow> byte list" where
  "make_report seq chunk =
     CHANNEL @ [TAG] @ be16 seq @ chunk @ replicate (REPORT_BYTES - 5 - length chunk) 0"

definition command_reports :: "byte list \<Rightarrow> byte list list result" where
  "command_reports apdu =
     (if \<not> (5 \<le> length apdu \<and> length apdu \<le> 260) \<or> unat (apdu ! 4) \<noteq> length apdu - 5
      then Inl framing_invalid
      else Inr (map (\<lambda>(seq, chunk). make_report seq chunk)
                 (enumerate 0 (chunks (REPORT_BYTES - 5) (be16 (length apdu) @ apdu)))))"

record reader =
  next_seq :: nat
  expected :: "nat option"
  data :: "byte list"
  closed :: bool

definition reader_default :: reader where
  "reader_default = \<lparr>next_seq = 0, expected = None, data = [], closed = False\<rparr>"

definition reader_receive_inner :: "reader \<Rightarrow> byte list \<Rightarrow> byte list option result \<times> reader" where
  "reader_receive_inner r report =
     (if closed r \<or> length report \<noteq> REPORT_BYTES \<or> take 2 report \<noteq> CHANNEL
         \<or> report ! 2 \<noteq> TAG \<or> from_be16 (report ! 3) (report ! 4) \<noteq> next_seq r
      then (Inl framing_invalid, r)
      else
        (let size = from_be16 (report ! 5) (report ! 6) in
         if next_seq r = 0 \<and> \<not> (2 \<le> size \<and> size \<le> MAX_RESPONSE_BYTES)
         then (Inl framing_invalid, r)
         else
           (let r = (if next_seq r = 0 then r\<lparr>expected := Some size\<rparr> else r);
                offset = (if next_seq r = 0 then 7 else 5) in
            case expected r of
              None \<Rightarrow> (Inl framing_invalid, r)
            | Some e \<Rightarrow>
                (case checked_sub e (length (data r)) of
                  None \<Rightarrow> (Inl framing_invalid, r)
                | Some remaining \<Rightarrow>
                    (let r = r\<lparr>data := data r @
                          take (min remaining (REPORT_BYTES - offset)) (drop offset report)\<rparr> in
                     if 65536 \<le> next_seq r + 1 then (Inl framing_invalid, r)
                     else
                       (let r = r\<lparr>next_seq := next_seq r + 1\<rparr> in
                        if length (data r) = e
                        then (Inr (Some (data r)), r\<lparr>closed := True, data := []\<rparr>)
                        else (Inr None, r)))))))"

definition reader_receive :: "reader \<Rightarrow> byte list \<Rightarrow> byte list option result \<times> reader" where
  "reader_receive r report =
     (case reader_receive_inner r report of
        (Inl e, r') \<Rightarrow> (Inl e, r'\<lparr>closed := True, data := []\<rparr>)
      | (Inr v, r') \<Rightarrow> (Inr v, r'))"

section \<open>An error is final\<close>

lemma reader_closed_rejects:
  "closed r \<Longrightarrow> reader_receive r report = (Inl framing_invalid, r\<lparr>closed := True, data := []\<rparr>)"
  by (simp add: reader_receive_def reader_receive_inner_def)

lemma reader_error_closes:
  "reader_receive r report = (Inl e, r') \<Longrightarrow> closed r' \<and> data r' = []"
  by (auto simp: reader_receive_def split: prod.splits sum.splits)

interpretation framing: closing_machine reader_receive closed
proof
  fix r report
  show "closed r \<Longrightarrow> \<not> is_ok (fst (reader_receive r report)) \<and> closed (snd (reader_receive r report))"
    by (simp add: reader_closed_rejects)
  show "\<not> is_ok (fst (reader_receive r report)) \<Longrightarrow> closed (snd (reader_receive r report))"
    by (cases "reader_receive r report") (auto simp: not_is_ok_iff dest: reader_error_closes)
qed

section \<open>What the reader accepts\<close>

text \<open>A report with the header of sequence number \<open>i\<close>; its stream is what follows the header.\<close>

definition headed :: "nat \<Rightarrow> byte list \<Rightarrow> bool" where
  "headed i report \<longleftrightarrow> length report = 64 \<and> take 5 report = CHANNEL @ [TAG] @ be16 i"

definition stream_of :: "byte list list \<Rightarrow> byte list" where
  "stream_of reports = concat (map (drop 5) reports)"

text \<open>
  The reports that carry a payload: headed in order from 0, just as many as the announced size and
  the payload need, and starting with the size and the payload. Bytes after these are padding.
\<close>

definition response_frames :: "byte list \<Rightarrow> byte list list \<Rightarrow> bool" where
  "response_frames payload reports \<longleftrightarrow>
     2 \<le> length payload \<and> length payload \<le> 4096
     \<and> length reports = div_ceil (length payload + 2) 59
     \<and> (\<forall>i < length reports. headed i (reports ! i))
     \<and> take (length payload + 2) (stream_of reports) = be16 (length payload) @ payload"

lemma byte_less [simp]: "unat (a :: byte) < 256"
proof -
  have "unat a < 2 ^ LENGTH(8)" by (rule unsigned_less)
  then show ?thesis by simp
qed

lemma from_be16_be16: "n < 65536 \<Longrightarrow> from_be16 (be16 n ! 0) (be16 n ! 1) = n"
  by (simp add: from_be16_def be16_def unat_of_nat less_mult_imp_div_less)

lemma be16_from_be16: "be16 (from_be16 a b) = [a, b]"
proof -
  have "(unat a * 256 + unat b) div 256 = unat a" by simp
  moreover have "(word_of_nat (unat a * 256 + unat b) :: byte) = b"
  proof -
    have "(256 :: byte) = 0" by simp
    then have "a * 256 = 0" by (simp only: mult_zero_right)
    then show ?thesis by simp
  qed
  ultimately show ?thesis by (simp add: be16_def from_be16_def)
qed

lemma from_be16_less: "from_be16 a b < 65536"
proof -
  have "unat a < 256" and "unat b < 256" by simp_all
  then show ?thesis unfolding from_be16_def by linarith
qed

lemma from_be16_eq_iff: "n < 65536 \<Longrightarrow> from_be16 a b = n \<longleftrightarrow> [a, b] = be16 n"
  by (metis be16_from_be16 from_be16_be16 nth_Cons_0 nth_Cons_Suc One_nat_def)

lemma headed_iff:
  assumes "k < 65536"
  shows "headed k report \<longleftrightarrow> length report = REPORT_BYTES \<and> take 2 report = CHANNEL
     \<and> report ! 2 = TAG \<and> from_be16 (report ! 3) (report ! 4) = k"
proof (cases "length report = 64")
  case True
  then have "5 \<le> length report" by simp
  then obtain a b c d e rest where "report = [a, b, c, d, e] @ rest"
    by (auto simp: numeral_eq_Suc Suc_le_length_iff)
  then show ?thesis
    using True from_be16_eq_iff [OF assms, of d e]
    by (auto simp: headed_def REPORT_BYTES_def CHANNEL_def be16_def)
qed (simp add: headed_def REPORT_BYTES_def)

text \<open>The reader in the middle of a response: \<open>k\<close> reports read, their stream so far.\<close>

definition size_of_stream :: "byte list \<Rightarrow> nat" where
  "size_of_stream s = from_be16 (s ! 0) (s ! 1)"

definition reading :: "nat \<Rightarrow> byte list \<Rightarrow> reader \<Rightarrow> bool" where
  "reading k s r \<longleftrightarrow>
     \<not> closed r \<and> next_seq r = k \<and> length s = 59 * k
     \<and> (if k = 0 then r = reader_default
        else expected r = Some (size_of_stream s) \<and> 2 \<le> size_of_stream s \<and> size_of_stream s \<le> 4096
          \<and> 59 * k < size_of_stream s + 2 \<and> data r = take (size_of_stream s) (drop 2 s))"

lemma reading_init: "reading 0 [] reader_default"
  by (simp add: reading_def reader_default_def)

lemma reading_bound: "reading k s r \<Longrightarrow> k < 70"
  by (auto simp: reading_def split: if_splits)

lemma step_not_headed:
  assumes "reading k s r" and "\<not> headed k report"
  shows "\<not> is_ok (fst (reader_receive r report))"
  using assms headed_iff [of k report] reading_bound [OF assms(1)]
  by (auto simp: reader_receive_def reader_receive_inner_def reading_def)

text \<open>A headed report met by an open reader: the two outcomes, after the checks.\<close>

lemma receive_open:
  assumes "\<not> closed r" and "next_seq r < 65535" and "headed (next_seq r) report"
    and "next_seq r = 0 \<Longrightarrow> 2 \<le> from_be16 (report ! 5) (report ! 6)
           \<and> from_be16 (report ! 5) (report ! 6) \<le> 4096"
    and "expected (if next_seq r = 0
           then r\<lparr>expected := Some (from_be16 (report ! 5) (report ! 6))\<rparr> else r) = Some e"
    and "length (data r) \<le> e"
    and "d = data r @ take (min (e - length (data r)) (64 - off)) (drop off report)"
    and "off = (if next_seq r = 0 then 7 else 5)"
  shows "\<exists>r'. next_seq r' = Suc (next_seq r) \<and> expected r' = Some e \<and> \<not> closed r' \<and>
    reader_receive r report =
      (if length d = e then (Inr (Some d), r'\<lparr>closed := True, data := []\<rparr>)
       else (Inr None, r'\<lparr>data := d\<rparr>))"
proof -
  let ?r = "(if next_seq r = 0
     then r\<lparr>expected := Some (from_be16 (report ! 5) (report ! 6))\<rparr> else r)\<lparr>data := d, next_seq := Suc (next_seq r)\<rparr>"
  have "length report = REPORT_BYTES \<and> take 2 report = CHANNEL
     \<and> report ! 2 = TAG \<and> from_be16 (report ! 3) (report ! 4) = next_seq r"
    using assms(2,3) headed_iff [of "next_seq r" report] by simp
  then have "reader_receive r report =
      (if length d = e then (Inr (Some d), ?r\<lparr>closed := True, data := []\<rparr>)
       else (Inr None, ?r\<lparr>data := d\<rparr>))"
    using assms
    by (cases "next_seq r = 0") (simp_all add: reader_receive_def reader_receive_inner_def
        checked_sub_def REPORT_BYTES_def MAX_RESPONSE_BYTES_def Let_def)
  moreover have "next_seq ?r = Suc (next_seq r)" "expected ?r = Some e" "\<not> closed ?r"
    using assms(1,5) by auto
  ultimately show ?thesis by blast
qed

lemma step_first:
  assumes "reading 0 s r" and "headed 0 report" and "t = drop 5 report"
  shows "\<not> (2 \<le> size_of_stream t \<and> size_of_stream t \<le> 4096)
       \<Longrightarrow> \<not> is_ok (fst (reader_receive r report))"
    and "2 \<le> size_of_stream t \<Longrightarrow> size_of_stream t \<le> 57
       \<Longrightarrow> fst (reader_receive r report) = Inr (Some (take (size_of_stream t) (drop 2 t)))"
    and "57 < size_of_stream t \<Longrightarrow> size_of_stream t \<le> 4096
       \<Longrightarrow> fst (reader_receive r report) = Inr None \<and> reading 1 t (snd (reader_receive r report))"
proof -
  have len: "length report = 64" using assms(2) by (simp add: headed_def)
  have size: "from_be16 (report ! 5) (report ! 6) = size_of_stream t"
    using len assms(3) by (simp add: size_of_stream_def)
  have r: "r = reader_default" using assms(1) by (simp add: reading_def)
  have t: "drop 7 report = drop 2 t" "length t = 59" using assms(3) len by auto
  show "\<not> (2 \<le> size_of_stream t \<and> size_of_stream t \<le> 4096)
       \<Longrightarrow> \<not> is_ok (fst (reader_receive r report))"
    using headed_iff [of 0 report] assms(2) size r
    by (auto simp: reader_receive_def reader_receive_inner_def reader_default_def
        MAX_RESPONSE_BYTES_def)
  let ?n = "size_of_stream t"
  have open_r: "\<exists>r'. next_seq r' = Suc 0 \<and> expected r' = Some ?n \<and> \<not> closed r' \<and> reader_receive r report =
      (if length (take (min ?n 57) (drop 2 t)) = ?n
       then (Inr (Some (take (min ?n 57) (drop 2 t))), r'\<lparr>closed := True, data := []\<rparr>)
       else (Inr None, r'\<lparr>data := take (min ?n 57) (drop 2 t)\<rparr>))"
    if "2 \<le> ?n" "?n \<le> 4096"
    using receive_open [of r report ?n "take (min ?n 57) (drop 2 t)" 7] that assms(2) r size t
    by (simp add: reader_default_def)
  show "2 \<le> ?n \<Longrightarrow> ?n \<le> 57
       \<Longrightarrow> fst (reader_receive r report) = Inr (Some (take ?n (drop 2 t)))"
    using open_r t by auto
  show "57 < ?n \<Longrightarrow> ?n \<le> 4096
       \<Longrightarrow> fst (reader_receive r report) = Inr None \<and> reading 1 t (snd (reader_receive r report))"
    using open_r t by (auto simp: reading_def)
qed

lemma step_next:
  assumes "reading k s r" and "headed k report" and "0 < k" and "t = s @ drop 5 report"
  shows "2 \<le> size_of_stream t \<and> size_of_stream t \<le> 4096 \<and> 59 * k < size_of_stream t + 2"
    and "size_of_stream t + 2 \<le> 59 * Suc k
       \<Longrightarrow> fst (reader_receive r report) = Inr (Some (take (size_of_stream t) (drop 2 t)))"
    and "59 * Suc k < size_of_stream t + 2
       \<Longrightarrow> fst (reader_receive r report) = Inr None \<and> reading (Suc k) t (snd (reader_receive r report))"
proof -
  have len: "length report = 64" using assms(2) by (simp add: headed_def)
  have s: "length s = 59 * k" "2 \<le> length s" using assms(1,3) by (auto simp: reading_def)
  have size: "size_of_stream t = size_of_stream s"
    using s assms(4) by (simp add: size_of_stream_def nth_append)
  show bounds: "2 \<le> size_of_stream t \<and> size_of_stream t \<le> 4096 \<and> 59 * k < size_of_stream t + 2"
    using assms(1,3) size by (auto simp: reading_def)
  let ?n = "size_of_stream t"
  have data: "data r = drop 2 s" using assms(1,3) size s bounds by (auto simp: reading_def)
  have new: "drop 2 s @ take (min (?n - length (data r)) 59) (drop 5 report) = take ?n (drop 2 t)"
    using s len assms(4) bounds data by (auto simp: min_def)
  have "length (take ?n (drop 2 t)) = min ?n (59 * Suc k - 2)"
    using s len assms(4) by simp
  then have L: "length (take ?n (drop 2 t)) = ?n \<longleftrightarrow> ?n + 2 \<le> 59 * Suc k"
    by (auto simp: min_def)
  have k: "next_seq r = k" "\<not> closed r" "expected r = Some ?n" "k < 65535"
    using assms(1,3) size reading_bound [OF assms(1)] by (auto simp: reading_def)
  have len_data: "length (data r) \<le> ?n" using data s bounds by auto
  have d: "take ?n (drop 2 t) = data r @ take (min (?n - length (data r)) (64 - 5)) (drop 5 report)"
    using new data by simp
  have exp: "expected (if next_seq r = 0
      then r\<lparr>expected := Some (from_be16 (report ! 5) (report ! 6))\<rparr> else r) = Some ?n"
    using k(1,3) assms(3) by simp
  have pre: "next_seq r < 65535" "headed (next_seq r) report" "next_seq r \<noteq> 0"
    "5 = (if next_seq r = 0 then 7 else 5 :: nat)"
    using k assms(2,3) by auto
  obtain r' where r': "next_seq r' = Suc k" "expected r' = Some ?n" "\<not> closed r'" "reader_receive r report =
      (if length (take ?n (drop 2 t)) = ?n
       then (Inr (Some (take ?n (drop 2 t))), r'\<lparr>closed := True, data := []\<rparr>)
       else (Inr None, r'\<lparr>data := take ?n (drop 2 t)\<rparr>))"
    using receive_open [OF k(2) pre(1,2) _ exp len_data d pre(4)] k(1) pre(3) by metis
  show "?n + 2 \<le> 59 * Suc k
       \<Longrightarrow> fst (reader_receive r report) = Inr (Some (take ?n (drop 2 t)))"
    using r' L by simp
  show "59 * Suc k < ?n + 2
       \<Longrightarrow> fst (reader_receive r report) = Inr None \<and> reading (Suc k) t (snd (reader_receive r report))"
    using r' L assms(4) s len bounds by (simp add: reading_def)
qed

text \<open>The whole exchange: nothing but the last report completes, and only a full stream does.\<close>

definition completes :: "byte list option result list \<Rightarrow> byte list \<Rightarrow> bool" where
  "completes answers p \<longleftrightarrow>
     answers \<noteq> [] \<and> answers = replicate (length answers - 1) (Inr None) @ [Inr (Some p)]"

lemma completes_Cons:
  "completes (a # as) p \<longleftrightarrow>
     (if as = [] then a = Inr (Some p) else a = Inr None \<and> completes as p)"
  by (cases as) (auto simp: completes_def)

lemma completes_run_Cons:
  assumes "fst (step s i) = a" and "snd (step s i) = s'"
  shows "completes (fst (run_machine step s (i # is))) p \<longleftrightarrow>
    (if is = [] then a = Inr (Some p) else a = Inr None \<and> completes (fst (run_machine step s' is)) p)"
proof -
  have "fst (run_machine step s (i # is)) = a # fst (run_machine step s' is)"
    using assms by (auto simp: Let_def split_def)
  moreover have "fst (run_machine step s' is) = [] \<longleftrightarrow> is = []"
    by (metis length_0_conv length_run_machine)
  ultimately show ?thesis by (simp add: completes_Cons)
qed

definition frames_from :: "nat \<Rightarrow> byte list \<Rightarrow> byte list list \<Rightarrow> byte list \<Rightarrow> bool" where
  "frames_from k s reports p \<longleftrightarrow>
     (let t = s @ stream_of reports; n = size_of_stream t in
      reports \<noteq> [] \<and> (\<forall>i < length reports. headed (k + i) (reports ! i))
      \<and> 2 \<le> n \<and> n \<le> 4096 \<and> p = take n (drop 2 t)
      \<and> n + 2 \<le> 59 * (k + length reports) \<and> 59 * (k + length reports - 1) < n + 2)"

lemma size_of_stream_append: "2 \<le> length s \<Longrightarrow> size_of_stream (s @ t) = size_of_stream s"
  by (auto simp: size_of_stream_def nth_append)

lemma frames_from_Cons:
  "frames_from k s (x # xs) p \<longleftrightarrow> headed k x \<and>
     (if xs = [] then
        (let t = s @ drop 5 x; n = size_of_stream t in
         2 \<le> n \<and> n \<le> 4096 \<and> p = take n (drop 2 t) \<and> n + 2 \<le> 59 * Suc k \<and> 59 * k < n + 2)
      else frames_from (Suc k) (s @ drop 5 x) xs p)"
proof -
  have "(\<forall>i < length (x # xs). headed (k + i) ((x # xs) ! i)) \<longleftrightarrow>
      headed k x \<and> (\<forall>i < length xs. headed (Suc k + i) (xs ! i))"
    by (auto simp: less_Suc_eq_0_disj all_conj_distrib imp_conjL nth_Cons' split: if_splits)
  then show ?thesis by (auto simp: frames_from_def stream_of_def Let_def)
qed

lemma frames_from_bounds:
  assumes "frames_from k s reports p" and "2 \<le> length s" and "0 < k"
  shows "2 \<le> size_of_stream s \<and> size_of_stream s \<le> 4096 \<and> 59 * k < size_of_stream s + 2"
proof -
  have "reports \<noteq> []" and "59 * (k + length reports - 1) < size_of_stream s + 2"
    and n: "2 \<le> size_of_stream s \<and> size_of_stream s \<le> 4096"
    using assms by (auto simp: frames_from_def Let_def size_of_stream_append)
  then have "59 * k \<le> 59 * (k + length reports - 1)" by (cases reports) auto
  with n \<open>59 * (k + length reports - 1) < size_of_stream s + 2\<close> show ?thesis by linarith
qed

lemma run_reading:
  "reading k s r \<Longrightarrow>
     completes (fst (run_machine reader_receive r reports)) p \<longleftrightarrow> frames_from k s reports p"
proof (induction reports arbitrary: k s r)
  case Nil
  show ?case by (simp add: completes_def frames_from_def)
next
  case (Cons x xs)
  let ?a = "fst (reader_receive r x)" and ?r = "snd (reader_receive r x)"
  let ?t = "s @ drop 5 x" let ?n = "size_of_stream ?t"
  let ?P = "take ?n (drop 2 ?t)"
  have run: "completes (fst (run_machine reader_receive r (x # xs))) p \<longleftrightarrow>
    (if xs = [] then ?a = Inr (Some p)
     else ?a = Inr None \<and> completes (fst (run_machine reader_receive ?r xs)) p)"
    by (rule completes_run_Cons) simp_all
  show ?case
  proof (cases "headed k x")
    case False
    then have "\<not> is_ok ?a" using step_not_headed [OF Cons.prems] by simp
    then show ?thesis unfolding run frames_from_Cons using False by auto
  next
    case True
    have len: "length ?t = 59 * Suc k" "2 \<le> length ?t"
      using Cons.prems True by (auto simp: reading_def headed_def)
    consider (bad) "\<not> is_ok ?a" "\<not> (2 \<le> ?n \<and> ?n \<le> 4096 \<and> 59 * k < ?n + 2)"
      | (last) "?a = Inr (Some ?P)" "2 \<le> ?n" "?n \<le> 4096" "59 * k < ?n + 2" "?n + 2 \<le> 59 * Suc k"
      | (more) "?a = Inr None" "reading (Suc k) ?t ?r" "59 * Suc k < ?n + 2"
    proof (cases "k = 0")
      case True
      then have "s = []" using Cons.prems by (simp add: reading_def)
      then have t: "drop 5 x = ?t" by simp
      note first = step_first [OF _ _ t [symmetric], of s r]
      have pre: "reading 0 s r" "headed 0 x" using Cons.prems \<open>headed k x\<close> True by simp_all
      show ?thesis
      proof (cases "2 \<le> ?n \<and> ?n \<le> 4096")
        case out: False
        show ?thesis by (rule that(1)) (use first(1) [OF pre out] out in blast)+
      next
        case size: True
        show ?thesis
        proof (cases "?n \<le> 57")
          case True
          show ?thesis by (rule that(2)) (use first(2) [OF pre] size True \<open>k = 0\<close> in simp_all)
        next
          case False
          show ?thesis by (rule that(3)) (use first(3) [OF pre] size False \<open>k = 0\<close> in simp_all)
        qed
      qed
    next
      case False
      then have k: "0 < k" by simp
      note next_step = step_next [OF Cons.prems \<open>headed k x\<close> k refl]
      show ?thesis
      proof (cases "?n + 2 \<le> 59 * Suc k")
        case True
        show ?thesis by (rule that(2)) (use next_step(1,2) True in blast)+
      next
        case False
        then have "59 * Suc k < ?n + 2" by simp
        then show ?thesis by (intro that(3)) (use next_step(3) in blast)+
      qed
    qed
    then show ?thesis
    proof cases
      case bad
      have "\<not> frames_from (Suc k) ?t xs p"
        using bad(2) frames_from_bounds [of "Suc k" ?t xs p] len(2) by auto
      then show ?thesis unfolding run frames_from_Cons using bad by (auto simp: Let_def)
    next
      case last
      have "\<not> frames_from (Suc k) ?t xs p"
        using last frames_from_bounds [of "Suc k" ?t xs p] len(2) by auto
      then show ?thesis unfolding run frames_from_Cons using last True by (auto simp: Let_def)
    next
      case more
      then show ?thesis
        unfolding run frames_from_Cons using True Cons.IH [OF more(2)] by (auto simp: Let_def)
    qed
  qed
qed

lemma ceil_59: "n = div_ceil m 59 \<longleftrightarrow> m \<le> 59 * n \<and> 59 * n < m + 59"
proof
  show "n = div_ceil m 59 \<Longrightarrow> m \<le> 59 * n \<and> 59 * n < m + 59"
    using div_ceil_bounds [of 59 m] by simp
  show "m \<le> 59 * n \<and> 59 * n < m + 59 \<Longrightarrow> n = div_ceil m 59"
    using div_ceil_bounds [of 59 m] by linarith
qed

lemma headed_stream_length:
  "\<forall>i < length reports. headed (k + i) (reports ! i) \<Longrightarrow> length (stream_of reports) = 59 * length reports"
proof (induction reports arbitrary: k)
  case (Cons x xs)
  have "headed (k + 0) x" using Cons.prems by (metis length_Cons nth_Cons_0 zero_less_Suc)
  moreover have "\<forall>i < length xs. headed (Suc k + i) (xs ! i)"
    using Cons.prems by (metis Suc_less_eq add_Suc_shift length_Cons nth_Cons_Suc)
  ultimately show ?case using Cons.IH [of "Suc k"] by (auto simp: stream_of_def headed_def)
qed (simp add: stream_of_def)

lemma frames_from_0: "frames_from 0 [] reports p \<longleftrightarrow> response_frames p reports"
proof (cases "\<forall>i < length reports. headed i (reports ! i)")
  case True
  let ?t = "stream_of reports"
  have len: "length ?t = 59 * length reports" using headed_stream_length [of reports 0] True by simp
  show ?thesis
  proof
    assume f: "frames_from 0 [] reports p"
    let ?n = "size_of_stream ?t"
    have n: "2 \<le> ?n" "?n \<le> 4096" "p = take ?n (drop 2 ?t)" "?n + 2 \<le> 59 * length reports"
      "59 * (length reports - 1) < ?n + 2" "reports \<noteq> []"
      using f by (auto simp: frames_from_def Let_def)
    have lp: "length p = ?n" using n len by simp
    have "2 \<le> length ?t" using len n by simp
    then have "take 2 ?t = be16 ?n"
      by (auto simp: size_of_stream_def be16_from_be16 numeral_eq_Suc Suc_le_length_iff)
    then have "take (2 + ?n) ?t = be16 ?n @ p" unfolding take_add n(3) by simp
    moreover have "length reports = div_ceil (?n + 2) 59"
      using n by (cases reports) (auto simp: ceil_59)
    ultimately show "response_frames p reports"
      using True n lp by (simp add: response_frames_def add.commute)
  next
    assume f: "response_frames p reports"
    then have t: "take (length p + 2) ?t = be16 (length p) @ p" and p: "2 \<le> length p" "length p \<le> 4096"
      and r: "length p + 2 \<le> 59 * length reports" "59 * length reports < length p + 2 + 59"
      by (auto simp: response_frames_def ceil_59)
    have "?t ! 0 = (take (length p + 2) ?t) ! 0" "?t ! 1 = (take (length p + 2) ?t) ! 1" by auto
    then have "?t ! 0 = be16 (length p) ! 0" "?t ! 1 = be16 (length p) ! 1"
      unfolding t by (simp_all add: be16_def)
    then have size: "size_of_stream ?t = length p"
      using p from_be16_be16 [of "length p"] by (simp add: size_of_stream_def)
    have "take (length p) (drop 2 ?t) = drop 2 (take (length p + 2) ?t)" by (simp add: drop_take)
    also have "\<dots> = p" unfolding t by (simp add: be16_def)
    finally have "p = take (length p) (drop 2 ?t)" by simp
    moreover have "reports \<noteq> []" "59 * (length reports - 1) < length p + 2"
      using r p by (cases reports; simp)+
    ultimately show "frames_from 0 [] reports p"
      using True size p r by (simp add: frames_from_def Let_def)
  qed
qed (auto simp: frames_from_def response_frames_def Let_def)

text \<open>
  C38. A fresh reader answers every report of a list with "not yet" and the last one with the payload
  exactly when the reports are the in-order frames of that payload: full-length reports, the right
  channel, tag and sequence numbers, the announced size between 2 and 4096, no report missing or to
  spare; whatever padding follows the payload is ignored.
\<close>

theorem reader_completes_iff:
  "completes (fst (run_machine reader_receive reader_default reports)) payload
     \<longleftrightarrow> response_frames payload reports"
  using run_reading [OF reading_init] frames_from_0 by simp

text \<open>
  After one rejected report nothing succeeds any more: the exchange is closed.
\<close>

theorem reader_error_final:
  assumes "j < k" and "k < length reports"
    and "\<not> is_ok (fst (run_machine reader_receive r reports) ! j)"
  shows "\<not> is_ok (fst (run_machine reader_receive r reports) ! k)"
  using assms by (rule framing.errors_are_final)

theorem reader_error_final_witness:
  "\<not> is_ok (fst (run_machine reader_receive reader_default [[], make_report 0 [0, 2, 7, 8]]) ! 1)"
proof (rule reader_error_final [of 0])
  show "\<not> is_ok (fst (run_machine reader_receive reader_default [[], make_report 0 [0, 2, 7, 8]]) ! 0)"
    by (simp add: Let_def split_def reader_receive_def reader_receive_inner_def REPORT_BYTES_def
        reader_default_def)
qed simp_all

section \<open>Commands\<close>

lemma concat_chunks: "0 < n \<Longrightarrow> concat (chunks n xs) = xs"
proof (induction n xs rule: chunks.induct)
  case (1 n xs)
  then show ?case by (cases "xs = []") (simp_all add: chunks.simps [of n xs] chunks.simps [of n "[]"])
qed

lemma length_chunks: "0 < n \<Longrightarrow> length (chunks n xs) = div_ceil (length xs) n"
proof (induction n xs rule: chunks.induct)
  case (1 n xs)
  show ?case
  proof (cases "xs = []")
    case True
    then show ?thesis using "1.prems" by (simp add: chunks.simps div_ceil_def)
  next
    case False
    have "div_ceil (length xs) n = Suc (div_ceil (length xs - n) n)"
    proof (cases "n \<le> length xs")
      case True
      have "length xs + n - 1 = (length xs - n + n - 1) + n" using True "1.prems" by simp
      then show ?thesis using "1.prems" unfolding div_ceil_def by (metis add_Suc_right Nat.add_0_right
            div_add_self2 less_not_refl2 Suc_eq_plus1)
    next
      case short: False
      then have "(length xs + n - 1) div n = 1"
        using False "1.prems" by (intro div_nat_eqI) (cases xs; auto)+
      moreover have "(n - 1) div n = 0" using "1.prems" by simp
      ultimately show ?thesis using short by (simp add: div_ceil_def)
    qed
    then show ?thesis using False 1 by (simp add: chunks.simps [of n xs])
  qed
qed

lemma take_padded_chunks:
  assumes "0 < n"
  shows "take (length xs) (concat (map (\<lambda>c. c @ replicate (n - length c) z) (chunks n xs))) = xs"
  using assms
proof (induction n xs rule: chunks.induct)
  case (1 n xs)
  show ?case
  proof (cases "xs = []")
    case False
    then show ?thesis
      using 1 by (cases "n \<le> length xs") (simp_all add: chunks.simps [of n xs] take_add min_def chunks.simps [of n "[]"])
  qed simp
qed

lemma chunk_length: "0 < n \<Longrightarrow> c \<in> set (chunks n xs) \<Longrightarrow> length c \<le> n"
proof (induction n xs rule: chunks.induct)
  case (1 n xs)
  then show ?case
    by (cases "xs = []") (auto simp: chunks.simps [of n xs] chunks.simps [of n "[]"])
qed

lemma headed_make_report: "length chunk \<le> 59 \<Longrightarrow> headed i (make_report i chunk)"
  by (simp add: headed_def make_report_def CHANNEL_def be16_def REPORT_BYTES_def)

lemma drop_make_report: "drop 5 (make_report i chunk) = chunk @ replicate (59 - length chunk) 0"
  by (simp add: make_report_def CHANNEL_def be16_def REPORT_BYTES_def)

text \<open>
  The reports of a command are exactly the in-order frames of the command: sending what
  \<^verbatim>\<open>command_reports\<close> produced and reading it back gives the command, zero padding and all.
\<close>

theorem command_reports_roundtrip:
  assumes "command_reports apdu = Inr reports"
  shows "completes (fst (run_machine reader_receive reader_default reports)) apdu
    \<and> list_all (\<lambda>r. length r = 64) reports"
proof -
  let ?cs = "chunks 59 (be16 (length apdu) @ apdu)"
  have len: "5 \<le> length apdu" "length apdu \<le> 260"
    and reports: "reports = map (\<lambda>(seq, chunk). make_report seq chunk) (enumerate 0 ?cs)"
    using assms by (auto simp: command_reports_def REPORT_BYTES_def split: if_splits)
  have nth: "reports ! i = make_report i (?cs ! i)" if "i < length ?cs" for i
    using that by (simp add: reports nth_enumerate_eq)
  have L: "length reports = length ?cs" by (simp add: reports)
  have short: "length (?cs ! i) \<le> 59" if "i < length ?cs" for i
    by (rule chunk_length [OF _ nth_mem [OF that]]) simp
  have heads: "\<forall>i < length reports. headed i (reports ! i)"
    using nth short headed_make_report by (simp add: L)
  have "map (drop 5) reports = map (\<lambda>c. c @ replicate (59 - length c) 0) ?cs"
    by (rule nth_equalityI) (simp_all add: L nth drop_make_report)
  then have "take (length (be16 (length apdu) @ apdu)) (stream_of reports) = be16 (length apdu) @ apdu"
    using take_padded_chunks [of 59 "be16 (length apdu) @ apdu" 0] by (simp add: stream_of_def)
  then have "response_frames apdu reports"
    using len heads by (simp add: response_frames_def L length_chunks be16_def)
  then have "completes (fst (run_machine reader_receive reader_default reports)) apdu"
    using run_reading [OF reading_init] frames_from_0 by simp
  moreover have "list_all (\<lambda>r. length r = 64) reports"
    using heads by (simp add: list_all_length headed_def)
  ultimately show ?thesis ..
qed

lemma command_get_version: "\<exists>reports. command_reports [0xb0, 1, 0, 0, 0] = Inr reports"
  by (simp add: command_reports_def)

theorem command_reports_roundtrip_witness:
  "\<exists>reports. completes (fst (run_machine reader_receive reader_default reports)) [0xb0, 1, 0, 0, 0]
     \<and> list_all (\<lambda>r. length r = 64) reports"
  using command_get_version command_reports_roundtrip by blast

end
