(* ===== verification/Table.thy ===== *)
theory Table
  imports Prelude
begin

text \<open>
  SQLite tables as lists of (primary key, rest of the row), in insertion order, and the statements
  the core executes on them: \<^verbatim>\<open>INSERT\<close> (a duplicate key is the error every \<^verbatim>\<open>rusqlite\<close> failure
  becomes), \<^verbatim>\<open>INSERT OR IGNORE\<close>, \<^verbatim>\<open>INSERT ... ON CONFLICT DO UPDATE\<close>, \<^verbatim>\<open>DELETE ... WHERE\<close>. The
  locale is the contract the components use: a table is a finite map from keys to rows.
\<close>

type_synonym ('k, 'v) table = "('k \<times> 'v) list"

definition keys :: "('k, 'v) table \<Rightarrow> 'k set" where
  "keys t = fst ` set t"

definition has_key :: "'k \<Rightarrow> ('k, 'v) table \<Rightarrow> bool" where
  "has_key k t = list_ex (\<lambda>r. fst r = k) t"

definition unique_keys :: "('k, 'v) table \<Rightarrow> bool" where
  "unique_keys t = distinct (map fst t)"

definition tbl_insert :: "'k \<Rightarrow> 'v \<Rightarrow> ('k, 'v) table \<Rightarrow> ('k, 'v) table result" where
  "tbl_insert k v t = (if has_key k t then Inl Storage else Inr (t @ [(k, v)]))"

definition tbl_insert_ignore :: "'k \<Rightarrow> 'v \<Rightarrow> ('k, 'v) table \<Rightarrow> ('k, 'v) table" where
  "tbl_insert_ignore k v t = (if has_key k t then t else t @ [(k, v)])"

definition tbl_upsert :: "'k \<Rightarrow> 'v \<Rightarrow> ('k, 'v) table \<Rightarrow> ('k, 'v) table" where
  "tbl_upsert k v t =
     (if has_key k t then map (\<lambda>r. if fst r = k then (k, v) else r) t else t @ [(k, v)])"

definition tbl_delete :: "('k \<Rightarrow> bool) \<Rightarrow> ('k, 'v) table \<Rightarrow> ('k, 'v) table" where
  "tbl_delete P t = filter (\<lambda>r. \<not> P (fst r)) t"

definition tbl_update :: "('k \<Rightarrow> bool) \<Rightarrow> ('v \<Rightarrow> 'v) \<Rightarrow> ('k, 'v) table \<Rightarrow> ('k, 'v) table" where
  "tbl_update P f t = map (\<lambda>r. if P (fst r) then (fst r, f (snd r)) else r) t"

lemma has_key_iff: "has_key k t \<longleftrightarrow> k \<in> keys t"
  by (auto simp: has_key_def keys_def list_ex_iff)

lemma keys_Nil [simp]: "keys [] = {}"
  by (simp add: keys_def)

lemma keys_append [simp]: "keys (t @ u) = keys t \<union> keys u"
  by (auto simp: keys_def)

lemma keys_Cons [simp]: "keys (r # t) = insert (fst r) (keys t)"
  by (simp add: keys_def)

lemma map_of_None_iff: "map_of t k = None \<longleftrightarrow> k \<notin> keys t"
  by (simp add: keys_def map_of_eq_None_iff)

lemma map_of_Some_key: "map_of t k = Some v \<Longrightarrow> k \<in> keys t"
  by (auto simp: keys_def dest: map_of_SomeD intro: rev_image_eqI)

lemma key_map_of: "k \<in> keys t \<Longrightarrow> \<exists>v. map_of t k = Some v"
  using map_of_None_iff [of t k] by (cases "map_of t k") auto

lemma unique_keys_Nil [simp]: "unique_keys []"
  by (simp add: unique_keys_def)

lemma keys_insert_ignore [simp]: "keys (tbl_insert_ignore k v t) = insert k (keys t)"
  by (auto simp: tbl_insert_ignore_def has_key_iff)

lemma fst_upsert: "k \<in> keys t \<Longrightarrow> map fst (tbl_upsert k v t) = map fst t"
  by (simp add: tbl_upsert_def has_key_iff comp_def)

lemma keys_map_fst: "keys t = set (map fst t)"
  by (simp add: keys_def)

lemma keys_upsert [simp]: "keys (tbl_upsert k v t) = insert k (keys t)"
proof (cases "k \<in> keys t")
  case True
  then show ?thesis by (metis fst_upsert insert_absorb keys_map_fst)
qed (simp add: tbl_upsert_def has_key_iff)

lemma keys_delete [simp]: "keys (tbl_delete P t) = {k \<in> keys t. \<not> P k}"
  by (auto simp: tbl_delete_def keys_def)

lemma keys_update [simp]: "keys (tbl_update P f t) = keys t"
  by (induction t) (auto simp: tbl_update_def)

lemma tbl_insert_Inr_iff [result_simps]:
  "tbl_insert k v t = Inr u \<longleftrightarrow> k \<notin> keys t \<and> u = t @ [(k, v)]"
  by (auto simp: tbl_insert_def has_key_iff)

lemma unique_insert: "unique_keys t \<Longrightarrow> k \<notin> keys t \<Longrightarrow> unique_keys (t @ [(k, v)])"
  by (auto simp: unique_keys_def keys_def)

lemma unique_insert_ignore [simp]: "unique_keys t \<Longrightarrow> unique_keys (tbl_insert_ignore k v t)"
  by (simp add: tbl_insert_ignore_def has_key_iff unique_insert)

lemma unique_upsert [simp]: "unique_keys t \<Longrightarrow> unique_keys (tbl_upsert k v t)"
proof (cases "k \<in> keys t")
  case True
  then show "unique_keys t \<Longrightarrow> ?thesis" by (simp add: unique_keys_def fst_upsert)
next
  case False
  then show "unique_keys t \<Longrightarrow> ?thesis" by (simp add: tbl_upsert_def has_key_iff unique_insert)
qed

lemma unique_delete [simp]: "unique_keys t \<Longrightarrow> unique_keys (tbl_delete P t)"
  by (simp add: unique_keys_def tbl_delete_def distinct_map_filter)

lemma fst_update [simp]: "map fst (tbl_update P f t) = map fst t"
  by (simp add: tbl_update_def)

lemma unique_update [simp]: "unique_keys t \<Longrightarrow> unique_keys (tbl_update P f t)"
  by (simp add: unique_keys_def)

lemma map_of_insert:
  "k' \<notin> keys t \<Longrightarrow> map_of (t @ [(k', v)]) k = (if k = k' then Some v else map_of t k)"
  by (induction t) auto

lemma map_of_insert_ignore:
  "map_of (tbl_insert_ignore k v t) = (if k \<in> keys t then map_of t else (map_of t)(k \<mapsto> v))"
  by (rule ext) (auto simp: tbl_insert_ignore_def has_key_iff map_of_insert simp del: map_of_append)

lemma map_of_upsert: "map_of (tbl_upsert k v t) = (map_of t)(k \<mapsto> v)"
proof (cases "k \<in> keys t")
  case True
  have "map_of (map (\<lambda>r. if fst r = k then (k, v) else r) u) x =
      (if x = k \<and> k \<in> keys u then Some v else map_of u x)" for u :: "('a \<times> 'b) list" and x
    by (induction u) auto
  then show ?thesis using True by (auto simp: tbl_upsert_def has_key_iff)
next
  case False
  show ?thesis
    by (rule ext) (use False in \<open>simp add: tbl_upsert_def has_key_iff map_of_insert del: map_of_append\<close>)
qed

lemma map_of_delete: "map_of (tbl_delete P t) k = (if P k then None else map_of t k)"
  by (induction t) (auto simp: tbl_delete_def)

lemma map_of_update: "map_of (tbl_update P f t) k = (if P k then map_option f (map_of t k) else map_of t k)"
  by (induction t) (auto simp: tbl_update_def)

lemma unique_map_of: "unique_keys t \<Longrightarrow> (k, v) \<in> set t \<longleftrightarrow> map_of t k = Some v"
  by (simp add: unique_keys_def)

lemmas table_keys = keys_insert_ignore keys_upsert keys_delete keys_update
lemmas table_lookup = map_of_insert_ignore map_of_upsert map_of_delete map_of_update

section \<open>The contract of a table\<close>

locale keyed_store =
  fixes lookup :: "'t \<Rightarrow> 'k \<Rightarrow> 'v option"
    and insert_ignore :: "'k \<Rightarrow> 'v \<Rightarrow> 't \<Rightarrow> 't"
    and upsert :: "'k \<Rightarrow> 'v \<Rightarrow> 't \<Rightarrow> 't"
    and delete :: "('k \<Rightarrow> bool) \<Rightarrow> 't \<Rightarrow> 't"
    and invar :: "'t \<Rightarrow> bool"
  assumes lookup_upsert: "lookup (upsert k v t) = (lookup t)(k \<mapsto> v)"
    and lookup_insert_ignore:
      "lookup (insert_ignore k v t) = (if lookup t k = None then (lookup t)(k \<mapsto> v) else lookup t)"
    and lookup_delete: "lookup (delete P t) k = (if P k then None else lookup t k)"
    and invar_upsert: "invar t \<Longrightarrow> invar (upsert k v t)"
    and invar_insert_ignore: "invar t \<Longrightarrow> invar (insert_ignore k v t)"
    and invar_delete: "invar t \<Longrightarrow> invar (delete P t)"
begin

text \<open>Writing a key for every element of a list, as the bulk operations do.\<close>

lemma fold_upsert_lookup:
  "lookup (fold (\<lambda>x. upsert (f x) v) xs t) k = (if k \<in> f ` set xs then Some v else lookup t k)"
  by (induction xs arbitrary: t) (auto simp: lookup_upsert)

lemma fold_insert_ignore_keys:
  "lookup (fold (\<lambda>x. insert_ignore (f x) v) xs t) k \<noteq> None
     \<longleftrightarrow> k \<in> f ` set xs \<or> lookup t k \<noteq> None"
  by (induction xs arbitrary: t) (auto simp: lookup_insert_ignore)

lemma fold_delete_lookup:
  "lookup (fold (\<lambda>x. delete (\<lambda>k. k = f x)) xs t) k = (if k \<in> f ` set xs then None else lookup t k)"
  by (induction xs arbitrary: t) (auto simp: lookup_delete)

lemma fold_invar:
  "invar t \<Longrightarrow> (\<And>x t. invar t \<Longrightarrow> invar (g x t)) \<Longrightarrow> invar (fold g xs t)"
  by (induction xs arbitrary: t) auto

lemma upsert_frame: "k' \<noteq> k \<Longrightarrow> lookup (upsert k v t) k' = lookup t k'"
  by (simp add: lookup_upsert)

lemma insert_ignore_keeps: "lookup t k = Some w \<Longrightarrow> lookup (insert_ignore k' v t) k = Some w"
  by (auto simp: lookup_insert_ignore)

end

interpretation tbl: keyed_store map_of tbl_insert_ignore tbl_upsert tbl_delete unique_keys
  by unfold_locales
    (auto simp: map_of_upsert map_of_insert_ignore map_of_delete map_of_None_iff)

end
