(* ===== verification/Model.thy ===== *)
theory Model
  imports Rust_Text
begin

text \<open>
  The data of \<^verbatim>\<open>crates/tundra-core/src/model.rs\<close>: networks, policies, coins, payments, drafts and
  their reviews. Amounts are \<^verbatim>\<open>u64\<close> satoshis, as \<open>nat\<close>; the bound is stated where code depends
  on it.
\<close>

datatype network = Mainnet | Signet | Testnet | Regtest

fun network_key :: "network \<Rightarrow> string" where
  "network_key Mainnet = ''mainnet''"
| "network_key Signet = ''signet''"
| "network_key Testnet = ''testnet''"
| "network_key Regtest = ''regtest''"

definition network_parse :: "string \<Rightarrow> network result" where
  "network_parse s =
     (if s = ''mainnet'' then Inr Mainnet
      else if s = ''signet'' then Inr Signet
      else if s = ''testnet'' then Inr Testnet
      else if s = ''regtest'' then Inr Regtest
      else Inl (InvalidInput ''network''))"

datatype policy = SingleSig | TwoOfThree

fun policy_key :: "policy \<Rightarrow> string" where
  "policy_key SingleSig = ''single_sig''"
| "policy_key TwoOfThree = ''two_of_three''"

record import_preview =
  ip_id :: string
  ip_network :: network
  ip_policy :: policy
  receive_descriptor :: string
  change_descriptor :: string
  first_address :: string

record wallet_summary =
  ws_id :: string
  ws_name :: string
  ws_network :: network
  ws_policy :: policy
  ws_synced_at :: "nat option"
  total_sats :: "nat option"
  available_sats :: "nat option"

record receive_address =
  ra_address :: string
  ra_index :: nat
  hardware_verified :: bool

datatype coin_status = Available | Frozen | Reserved | Pending | Immature

record coin =
  coin_outpoint :: string
  coin_sats :: nat
  coin_label :: string
  coin_address :: string
  coin_status :: coin_status

record activity =
  act_txid :: string
  act_label :: string
  delta_sats :: int
  act_confirmed :: bool

datatype payment =
    Send string nat
  | SendMax string
  | Consolidate bool

record draft_request =
  dr_wallet_id :: string
  dr_payment :: payment
  selected_outpoints :: "string list option"
  dr_fee_sat_per_kwu :: nat
  dr_label :: string

record reviewed_input =
  ri_outpoint :: string
  ri_sats :: nat
  ri_label :: string

record reviewed_output =
  ro_address :: string
  ro_sats :: nat
  is_change :: bool
  ro_is_mine :: bool

record draft_review =
  dv_id :: string
  dv_wallet_id :: string
  dv_inputs :: "reviewed_input list"
  dv_outputs :: "reviewed_output list"
  fee_sats :: nat
  dv_fee_sat_per_kwu :: "nat option"
  dv_label :: string
  is_consolidation :: bool
  dv_state :: string

record input_signing_progress =
  isp_outpoint :: string
  valid_signatures :: nat
  required_signatures :: nat

record signing_progress =
  sp_draft_id :: string
  sp_inputs :: "input_signing_progress list"
  sp_complete :: bool

record finalized_review =
  fr_wallet_id :: string
  fr_draft_id :: string
  fr_txid :: string
  fr_wtxid :: string
  fr_fee_sats :: nat
  weight_wu :: nat
  vsize :: nat
  transaction_bytes :: "byte list"

lemma network_parse_key [simp]: "network_parse (network_key n) = Inr n"
  by (cases n) (simp_all add: network_parse_def)

lemma network_parse_Inr: "network_parse s = Inr n \<Longrightarrow> s = network_key n"
  by (auto simp: network_parse_def split: if_splits)

end
