(* ===== verification/Store.thy ===== *)
theory Store
  imports Table Model
begin

text \<open>
  The database of \<^verbatim>\<open>crates/tundra-core/src/schema.sql\<close> (version 8) and the statements of the core
  that touch more than one table: foreign keys are on, so an insert needs its parent row and
  deleting a draft cascades. A JSON column is represented by what \<^verbatim>\<open>serde_json\<close> decodes it to
  (\<open>None\<close>: text that does not decode, the error \<open>CorruptState\<close> of \<^verbatim>\<open>engine::from_json\<close>); the BDK
  change set of a wallet is the type parameter \<open>'cs\<close>. Input and output failures of SQLite
  itself are not modelled.
\<close>

record 'cs wallet_row =
  w_name :: string
  w_network :: string
  w_policy :: string
  w_state :: "'cs option"
  w_synced_at :: "nat option"
  w_created_at :: nat

record draft_row =
  d_psbt :: string
  d_review :: "draft_review option"
  d_label :: string
  d_created_at :: nat

record attempt_row =
  a_wallet :: string
  a_draft :: string
  a_endpoint :: string
  a_txid :: string
  a_wtxid :: string
  a_requested_at :: nat
  a_acknowledged :: bool

text \<open>
  Drafts are keyed by (wallet, id): the table's primary key is the id alone and (wallet, id) is
  unique too, so the insert below also refuses an id that another wallet uses.
  \<open>attempt_seq\<close> is the AUTOINCREMENT counter, which never hands out an id twice.
\<close>

record 'cs db =
  wallets :: "(string, 'cs wallet_row) table"
  labels :: "(string \<times> string \<times> string, string) table"
  freezes :: "(string \<times> string, unit) table"
  drafts :: "(string \<times> string, draft_row) table"
  reservations :: "(string \<times> string, string) table"
  sync_state :: "(string, nat \<times> string) table"
  draft_signatures :: "(string \<times> string, string) table"
  finalized_drafts :: "(string \<times> string, byte list) table"
  hardware_registrations :: "(string \<times> string \<times> byte list, byte list) table"
  broadcast_attempts :: "(nat, attempt_row) table"
  attempt_seq :: nat
  draft_label_applications :: "(string \<times> string, unit) table"
  output_provenance :: "(string \<times> string, string) table"
  recovered_submissions :: "(string \<times> string, unit) table"
  recovery_holds :: "(string \<times> string \<times> string, unit) table"

definition empty_db :: "'cs db" where
  "empty_db = \<lparr>wallets = [], labels = [], freezes = [], drafts = [], reservations = [],
     sync_state = [], draft_signatures = [], finalized_drafts = [], hardware_registrations = [],
     broadcast_attempts = [], attempt_seq = 0, draft_label_applications = [],
     output_provenance = [], recovered_submissions = [], recovery_holds = []\<rparr>"

section \<open>Statements\<close>

definition wallet_exists :: "'cs db \<Rightarrow> string \<Rightarrow> bool" where
  "wallet_exists db w = has_key w (wallets db)"

definition draft_exists :: "'cs db \<Rightarrow> string \<Rightarrow> string \<Rightarrow> bool" where
  "draft_exists db w d = has_key (w, d) (drafts db)"

definition label_kinds :: "string list" where
  "label_kinds = [''tx'', ''addr'', ''output'']"

text \<open>The CHECK constraints of \<^verbatim>\<open>labels\<close>.\<close>

definition label_check :: "string \<Rightarrow> string \<Rightarrow> bool" where
  "label_check kind label = (List.member label_kinds kind \<and> char_count label \<le> 255)"

text \<open>
  \<^verbatim>\<open>INSERT OR IGNORE\<close> skips a row that violates a key or a CHECK constraint; a missing parent row
  is an error all the same.
\<close>

definition ignore_insert ::
  "bool \<Rightarrow> bool \<Rightarrow> 'k \<Rightarrow> 'v \<Rightarrow> ('k, 'v) table \<Rightarrow> ('k, 'v) table result" where
  "ignore_insert check parent k v t =
     (if has_key k t \<or> \<not> check then Inr t
      else if parent then Inr (tbl_insert_ignore k v t)
      else Inl Storage)"

definition sql_upsert_label ::
  "string \<Rightarrow> string \<Rightarrow> string \<Rightarrow> string \<Rightarrow> 'cs db \<Rightarrow> 'cs db result" where
  "sql_upsert_label w kind reference label db =
     (if label_check kind label \<and> (has_key (w, kind, reference) (labels db) \<or> wallet_exists db w)
      then Inr (db\<lparr>labels := tbl_upsert (w, kind, reference) label (labels db)\<rparr>)
      else Inl Storage)"

definition sql_ignore_label ::
  "string \<Rightarrow> string \<Rightarrow> string \<Rightarrow> string \<Rightarrow> 'cs db \<Rightarrow> 'cs db result" where
  "sql_ignore_label w kind reference label db =
     rbind (ignore_insert (label_check kind label) (wallet_exists db w) (w, kind, reference) label
              (labels db)) (\<lambda>t. Inr (db\<lparr>labels := t\<rparr>))"

definition sql_freeze :: "string \<Rightarrow> string \<Rightarrow> 'cs db \<Rightarrow> 'cs db result" where
  "sql_freeze w outpoint db =
     rbind (ignore_insert True (wallet_exists db w) (w, outpoint) () (freezes db)) (\<lambda>t.
     Inr (db\<lparr>freezes := t\<rparr>))"

definition sql_unfreeze :: "string \<Rightarrow> string \<Rightarrow> 'cs db \<Rightarrow> 'cs db" where
  "sql_unfreeze w outpoint db =
     db\<lparr>freezes := tbl_delete (\<lambda>k. k = (w, outpoint)) (freezes db)\<rparr>"

definition sql_insert_draft ::
  "string \<Rightarrow> string \<Rightarrow> draft_row \<Rightarrow> 'cs db \<Rightarrow> 'cs db result" where
  "sql_insert_draft w d row db =
     (if wallet_exists db w \<and> \<not> list_ex (\<lambda>r. snd (fst r) = d) (drafts db)
      then Inr (db\<lparr>drafts := drafts db @ [((w, d), row)]\<rparr>)
      else Inl Storage)"

definition sql_insert_reservation ::
  "string \<Rightarrow> string \<Rightarrow> string \<Rightarrow> 'cs db \<Rightarrow> 'cs db result" where
  "sql_insert_reservation w outpoint d db =
     (if draft_exists db w d
      then rbind (tbl_insert (w, outpoint) d (reservations db)) (\<lambda>t. Inr (db\<lparr>reservations := t\<rparr>))
      else Inl Storage)"

text \<open>The review of a draft is replaced, in every wallet when no wallet is given.\<close>

definition sql_set_review :: "string \<Rightarrow> string \<Rightarrow> draft_review \<Rightarrow> 'cs db \<Rightarrow> 'cs db" where
  "sql_set_review w d review db =
     db\<lparr>drafts := tbl_update (\<lambda>k. k = (w, d)) (\<lambda>r. r\<lparr>d_review := Some review\<rparr>) (drafts db)\<rparr>"

definition sql_set_review_by_id :: "string \<Rightarrow> draft_review \<Rightarrow> 'cs db \<Rightarrow> 'cs db" where
  "sql_set_review_by_id d review db =
     db\<lparr>drafts := tbl_update (\<lambda>k. snd k = d) (\<lambda>r. r\<lparr>d_review := Some review\<rparr>) (drafts db)\<rparr>"

definition sql_release :: "string \<Rightarrow> string \<Rightarrow> 'cs db \<Rightarrow> 'cs db" where
  "sql_release w d db =
     db\<lparr>reservations := filter (\<lambda>r. \<not> (fst (fst r) = w \<and> snd r = d)) (reservations db)\<rparr>"

text \<open>\<^verbatim>\<open>DELETE FROM recovered_submissions\<close> cascades to the holds of that submission.\<close>

definition sql_delete_recovered :: "string \<Rightarrow> string \<Rightarrow> 'cs db \<Rightarrow> 'cs db" where
  "sql_delete_recovered w d db =
     db\<lparr>recovered_submissions := tbl_delete (\<lambda>k. k = (w, d)) (recovered_submissions db),
        recovery_holds := tbl_delete (\<lambda>k. fst k = w \<and> snd (snd k) = d) (recovery_holds db)\<rparr>"

text \<open>
  \<^verbatim>\<open>DELETE FROM drafts\<close> cascades to reservations, signatures, the finalized transaction, its
  broadcast attempts and recovery records, the label marker and the provenance of the draft.
\<close>

definition sql_delete_draft :: "string \<Rightarrow> string \<Rightarrow> 'cs db \<Rightarrow> 'cs db" where
  "sql_delete_draft w d db =
     (sql_delete_recovered w d (sql_release w d db))
       \<lparr>drafts := tbl_delete (\<lambda>k. k = (w, d)) (drafts db),
        draft_signatures := tbl_delete (\<lambda>k. k = (w, d)) (draft_signatures db),
        finalized_drafts := tbl_delete (\<lambda>k. k = (w, d)) (finalized_drafts db),
        broadcast_attempts := filter (\<lambda>r. \<not> (a_wallet (snd r) = w \<and> a_draft (snd r) = d))
                                (broadcast_attempts db),
        draft_label_applications := tbl_delete (\<lambda>k. k = (w, d)) (draft_label_applications db),
        output_provenance := filter (\<lambda>r. \<not> (fst (fst r) = w \<and> snd r = d)) (output_provenance db)\<rparr>"

definition sql_upsert_signatures :: "string \<Rightarrow> string \<Rightarrow> string \<Rightarrow> 'cs db \<Rightarrow> 'cs db result" where
  "sql_upsert_signatures w d psbt db =
     (if draft_exists db w d
      then Inr (db\<lparr>draft_signatures := tbl_upsert (w, d) psbt (draft_signatures db)\<rparr>)
      else Inl Storage)"

definition sql_insert_finalized :: "string \<Rightarrow> string \<Rightarrow> byte list \<Rightarrow> 'cs db \<Rightarrow> 'cs db result" where
  "sql_insert_finalized w d bytes db =
     (if draft_exists db w d
      then rbind (tbl_insert (w, d) bytes (finalized_drafts db)) (\<lambda>t. Inr (db\<lparr>finalized_drafts := t\<rparr>))
      else Inl Storage)"

text \<open>The new attempt's id is the next of the sequence, as \<^verbatim>\<open>last_insert_rowid\<close> returns it.\<close>

definition sql_insert_attempt :: "attempt_row \<Rightarrow> 'cs db \<Rightarrow> (nat \<times> 'cs db) result" where
  "sql_insert_attempt row db =
     (if has_key (a_wallet row, a_draft row) (finalized_drafts db)
         \<and> char_count (a_txid row) = 64 \<and> char_count (a_wtxid row) = 64
      then (let i = attempt_seq db + 1 in
            Inr (i, db\<lparr>broadcast_attempts := broadcast_attempts db @ [(i, row)], attempt_seq := i\<rparr>))
      else Inl Storage)"

definition sql_acknowledge :: "nat \<Rightarrow> string \<Rightarrow> string \<Rightarrow> 'cs db \<Rightarrow> 'cs db" where
  "sql_acknowledge i w d db =
     db\<lparr>broadcast_attempts := map (\<lambda>(j, r).
          if j = i \<and> a_wallet r = w \<and> a_draft r = d then (j, r\<lparr>a_acknowledged := True\<rparr>) else (j, r))
        (broadcast_attempts db)\<rparr>"

definition sql_ignore_provenance :: "string \<Rightarrow> string \<Rightarrow> string \<Rightarrow> 'cs db \<Rightarrow> 'cs db result" where
  "sql_ignore_provenance w outpoint d db =
     rbind (ignore_insert True (draft_exists db w d) (w, outpoint) d (output_provenance db)) (\<lambda>t.
     Inr (db\<lparr>output_provenance := t\<rparr>))"

text \<open>Rows inserted (0 or 1) and the new database.\<close>

definition sql_ignore_marker :: "string \<Rightarrow> string \<Rightarrow> 'cs db \<Rightarrow> (nat \<times> 'cs db) result" where
  "sql_ignore_marker w d db =
     rbind (ignore_insert True (draft_exists db w d) (w, d) () (draft_label_applications db)) (\<lambda>t.
     Inr (if has_key (w, d) (draft_label_applications db) then 0 else 1,
          db\<lparr>draft_label_applications := t\<rparr>))"

definition sql_insert_recovered :: "string \<Rightarrow> string \<Rightarrow> 'cs db \<Rightarrow> 'cs db result" where
  "sql_insert_recovered w d db =
     (if has_key (w, d) (finalized_drafts db)
      then rbind (tbl_insert (w, d) () (recovered_submissions db)) (\<lambda>t.
           Inr (db\<lparr>recovered_submissions := t\<rparr>))
      else Inl Storage)"

definition sql_insert_hold :: "string \<Rightarrow> string \<Rightarrow> string \<Rightarrow> 'cs db \<Rightarrow> 'cs db result" where
  "sql_insert_hold w outpoint d db =
     (if has_key (w, d) (recovered_submissions db)
      then rbind (tbl_insert (w, outpoint, d) () (recovery_holds db)) (\<lambda>t.
           Inr (db\<lparr>recovery_holds := t\<rparr>))
      else Inl Storage)"

definition sql_ignore_reservation ::
  "string \<Rightarrow> string \<Rightarrow> string \<Rightarrow> 'cs db \<Rightarrow> 'cs db result" where
  "sql_ignore_reservation w outpoint d db =
     rbind (ignore_insert True (draft_exists db w d) (w, outpoint) d (reservations db)) (\<lambda>t.
     Inr (db\<lparr>reservations := t\<rparr>))"

definition sql_set_state :: "string \<Rightarrow> 'cs \<Rightarrow> 'cs db \<Rightarrow> 'cs db" where
  "sql_set_state w state db =
     db\<lparr>wallets := tbl_update (\<lambda>k. k = w) (\<lambda>r. r\<lparr>w_state := Some state\<rparr>) (wallets db)\<rparr>"

definition sql_set_synced :: "string \<Rightarrow> nat \<Rightarrow> 'cs db \<Rightarrow> 'cs db" where
  "sql_set_synced w t db =
     db\<lparr>wallets := tbl_update (\<lambda>k. k = w) (\<lambda>r. r\<lparr>w_synced_at := Some t\<rparr>) (wallets db)\<rparr>"

definition sql_insert_wallet :: "string \<Rightarrow> 'cs wallet_row \<Rightarrow> 'cs db \<Rightarrow> 'cs db result" where
  "sql_insert_wallet w row db =
     (if 1 \<le> char_count (w_name row) \<and> char_count (w_name row) \<le> 80
      then rbind (tbl_insert w row (wallets db)) (\<lambda>t. Inr (db\<lparr>wallets := t\<rparr>))
      else Inl Storage)"

text \<open>\<^verbatim>\<open>INSERT INTO sync_state ... ON CONFLICT DO UPDATE\<close>, one row per wallet.\<close>

definition sql_upsert_sync :: "string \<Rightarrow> nat \<Rightarrow> string \<Rightarrow> 'cs db \<Rightarrow> 'cs db result" where
  "sql_upsert_sync w revision endpoint db =
     (if wallet_exists db w
      then Inr (db\<lparr>sync_state := tbl_upsert w (revision, endpoint) (sync_state db)\<rparr>)
      else Inl Storage)"

definition sql_upsert_registration ::
  "string \<Rightarrow> string \<Rightarrow> byte list \<Rightarrow> byte list \<Rightarrow> 'cs db \<Rightarrow> 'cs db result" where
  "sql_upsert_registration w fingerprint policy_id hmac db =
     (if wallet_exists db w \<and> char_count fingerprint = 8 \<and> length policy_id = 32 \<and> length hmac = 32
      then Inr (db\<lparr>hardware_registrations :=
             tbl_upsert (w, fingerprint, policy_id) hmac (hardware_registrations db)\<rparr>)
      else Inl Storage)"

section \<open>The schema's invariant\<close>

text \<open>The key of the row another row refers to.\<close>

definition owner :: "(string \<times> 'k) \<times> 'v \<Rightarrow> string" where
  "owner r = fst (fst r)"

definition row_draft :: "(string \<times> 'k) \<times> string \<Rightarrow> string \<times> string" where
  "row_draft r = (fst (fst r), snd r)"

definition attempt_draft :: "nat \<times> attempt_row \<Rightarrow> string \<times> string" where
  "attempt_draft r = (a_wallet (snd r), a_draft (snd r))"

definition hold_draft :: "(string \<times> string \<times> string) \<times> unit \<Rightarrow> string \<times> string" where
  "hold_draft r = (fst (fst r), snd (snd (fst r)))"

definition refs :: "('r \<Rightarrow> 'k) \<Rightarrow> 'r list \<Rightarrow> ('k, 'v) table \<Rightarrow> bool" where
  "refs f t p \<longleftrightarrow> (\<forall>r \<in> set t. f r \<in> keys p)"

definition unique_ids :: "(string \<times> string, 'v) table \<Rightarrow> bool" where
  "unique_ids t \<longleftrightarrow> distinct (map (\<lambda>r. snd (fst r)) t)"

definition ids_below :: "nat \<Rightarrow> (nat, 'v) table \<Rightarrow> bool" where
  "ids_below n t \<longleftrightarrow> (\<forall>i \<in> keys t. i \<le> n)"

definition wf_db :: "'cs db \<Rightarrow> bool" where
  "wf_db db \<longleftrightarrow>
     unique_keys (wallets db) \<and> unique_keys (labels db) \<and> unique_keys (freezes db)
     \<and> unique_keys (drafts db) \<and> unique_keys (reservations db) \<and> unique_keys (sync_state db)
     \<and> unique_keys (draft_signatures db) \<and> unique_keys (finalized_drafts db)
     \<and> unique_keys (hardware_registrations db) \<and> unique_keys (broadcast_attempts db)
     \<and> unique_keys (draft_label_applications db) \<and> unique_keys (output_provenance db)
     \<and> unique_keys (recovered_submissions db) \<and> unique_keys (recovery_holds db)
     \<and> unique_ids (drafts db) \<and> ids_below (attempt_seq db) (broadcast_attempts db)
     \<and> refs owner (labels db) (wallets db) \<and> refs owner (freezes db) (wallets db)
     \<and> refs owner (drafts db) (wallets db) \<and> refs fst (sync_state db) (wallets db)
     \<and> refs owner (hardware_registrations db) (wallets db)
     \<and> refs row_draft (reservations db) (drafts db)
     \<and> refs fst (draft_signatures db) (drafts db)
     \<and> refs fst (finalized_drafts db) (drafts db)
     \<and> refs attempt_draft (broadcast_attempts db) (finalized_drafts db)
     \<and> refs fst (draft_label_applications db) (drafts db)
     \<and> refs row_draft (output_provenance db) (drafts db)
     \<and> refs fst (recovered_submissions db) (finalized_drafts db)
     \<and> refs hold_draft (recovery_holds db) (recovered_submissions db)"

named_theorems wf_intros \<open>statements keep the schema's invariant\<close>

lemma row_simps [simp]:
  "owner ((w, k), v) = w" "row_draft ((w, k), d) = (w, d)"
  "attempt_draft (i, a) = (a_wallet a, a_draft a)" "hold_draft ((w, op, d), u) = (w, d)"
  by (simp_all add: owner_def row_draft_def attempt_draft_def hold_draft_def)

lemma refs_Nil [simp]: "refs f [] p"
  by (simp add: refs_def)

lemma refs_snoc [simp]: "refs f (t @ [r]) p \<longleftrightarrow> refs f t p \<and> f r \<in> keys p"
  by (auto simp: refs_def)

lemma refs_parent_snoc [simp]: "refs f t p \<Longrightarrow> refs f t (p @ [r])"
  by (auto simp: refs_def)

lemma refs_parent_update [simp]: "refs f t (tbl_update P g p) = refs f t p"
  by (simp add: refs_def)

lemma refs_filter [simp]: "refs f t p \<Longrightarrow> refs f (filter P t) p"
  by (auto simp: refs_def)

lemma refs_delete [simp]: "refs f t p \<Longrightarrow> refs f (tbl_delete P t) p"
  by (simp add: tbl_delete_def)

lemma refs_upsert [simp]: "refs f t p \<Longrightarrow> f (k, v) \<in> keys p \<Longrightarrow> refs f (tbl_upsert k v t) p"
  by (auto simp: refs_def tbl_upsert_def)

lemma refs_update: "refs f t p \<Longrightarrow> (\<And>r. f (fst r, g (snd r)) = f r) \<Longrightarrow> refs f (tbl_update P g t) p"
  by (auto simp: refs_def tbl_update_def)

lemma refs_owner_update [simp]: "refs owner t p \<Longrightarrow> refs owner (tbl_update P g t) p"
  by (rule refs_update) (auto simp: owner_def)

lemma unique_keys_snoc [simp]: "unique_keys (t @ [(k, v)]) \<longleftrightarrow> unique_keys t \<and> k \<notin> keys t"
  by (auto simp: unique_keys_def keys_def)

lemma unique_filter [simp]: "unique_keys t \<Longrightarrow> unique_keys (filter P t)"
  by (simp add: unique_keys_def distinct_map_filter)

lemma unique_ids_update [simp]: "unique_ids (tbl_update P g t) = unique_ids t"
proof -
  have "map (\<lambda>r. snd (fst r)) (tbl_update P g t) = map (\<lambda>r. snd (fst r)) t"
    by (simp add: tbl_update_def)
  then show ?thesis by (simp add: unique_ids_def)
qed

lemma unique_ids_delete [simp]: "unique_ids t \<Longrightarrow> unique_ids (tbl_delete P t)"
  by (simp add: unique_ids_def tbl_delete_def distinct_map_filter)

lemma ids_below_filter [simp]: "ids_below n t \<Longrightarrow> ids_below n (filter P t)"
  by (auto simp: ids_below_def keys_def)

lemma wf_empty: "wf_db empty_db"
  by (simp add: wf_db_def empty_db_def unique_ids_def ids_below_def)

lemma ignore_insert_Inr [result_simps]:
  "ignore_insert check parent k v t = Inr u \<longleftrightarrow>
     (k \<in> keys t \<or> \<not> check) \<and> u = t \<or> k \<notin> keys t \<and> check \<and> parent \<and> u = t @ [(k, v)]"
  by (auto simp: ignore_insert_def tbl_insert_ignore_def has_key_iff)

lemmas sql_exists = wallet_exists_def draft_exists_def has_key_iff

lemma refs_keyD: "refs owner t p \<Longrightarrow> (w, k) \<in> keys t \<Longrightarrow> w \<in> keys p"
  by (force simp: refs_def keys_def owner_def)

lemma wf_upsert_label [wf_intros]:
  assumes "wf_db db" and "sql_upsert_label w kind ref label db = Inr db'"
  shows "wf_db db'"
proof -
  have "w \<in> keys (wallets db)" and "db' = db\<lparr>labels := tbl_upsert (w, kind, ref) label (labels db)\<rparr>"
    using assms refs_keyD [of "labels db" "wallets db" w "(kind, ref)"]
    by (auto simp: sql_upsert_label_def sql_exists wf_db_def split: if_splits)
  then show ?thesis using assms(1) by (simp add: wf_db_def)
qed

lemma wf_ignore_label [wf_intros]:
  assumes "wf_db db" and "sql_ignore_label w kind ref label db = Inr db'"
  shows "wf_db db'"
  using assms(2) unfolding sql_ignore_label_def sql_exists result_simps sum.inject
  by (elim exE conjE disjE; hypsubst) (use assms(1) in \<open>simp_all add: wf_db_def\<close>)

lemma wf_freeze [wf_intros]:
  assumes "wf_db db" and "sql_freeze w op db = Inr db'"
  shows "wf_db db'"
  using assms(2) unfolding sql_freeze_def sql_exists result_simps sum.inject
  by (elim exE conjE disjE; hypsubst) (use assms(1) in \<open>simp_all add: wf_db_def\<close>)

lemma wf_unfreeze [wf_intros]: "wf_db db \<Longrightarrow> wf_db (sql_unfreeze w op db)"
  by (simp add: wf_db_def sql_unfreeze_def)

lemma wf_insert_draft [wf_intros]:
  assumes "wf_db db" and "sql_insert_draft w d row db = Inr db'"
  shows "wf_db db'"
proof -
  have new: "(w, d) \<notin> keys (drafts db)" "d \<notin> set (map (\<lambda>r. snd (fst r)) (drafts db))"
    and w: "w \<in> keys (wallets db)" and db': "db' = db\<lparr>drafts := drafts db @ [((w, d), row)]\<rparr>"
    using assms(2) by (auto simp: sql_insert_draft_def sql_exists list_ex_iff keys_def split: if_splits)
  have "unique_ids (drafts db @ [((w, d), row)])"
    using assms(1) new(2) by (simp add: wf_db_def unique_ids_def)
  then show ?thesis using assms(1) new(1) w by (simp add: wf_db_def db')
qed

lemma wf_insert_reservation [wf_intros]:
  assumes "wf_db db" and "sql_insert_reservation w op d db = Inr db'"
  shows "wf_db db'"
proof -
  have "(w, d) \<in> keys (drafts db)" "(w, op) \<notin> keys (reservations db)"
    "db' = db\<lparr>reservations := reservations db @ [((w, op), d)]\<rparr>"
    using assms(2) by (auto simp: sql_insert_reservation_def sql_exists result_simps split: if_splits)
  then show ?thesis using assms(1) by (simp add: wf_db_def)
qed

lemma wf_ignore_reservation [wf_intros]:
  assumes "wf_db db" and "sql_ignore_reservation w op d db = Inr db'"
  shows "wf_db db'"
  using assms(2) unfolding sql_ignore_reservation_def sql_exists result_simps sum.inject
  by (elim exE conjE disjE; hypsubst) (use assms(1) in \<open>simp_all add: wf_db_def\<close>)

lemma wf_set_review [wf_intros]: "wf_db db \<Longrightarrow> wf_db (sql_set_review w d review db)"
  by (simp add: wf_db_def sql_set_review_def)

lemma wf_set_review_by_id [wf_intros]: "wf_db db \<Longrightarrow> wf_db (sql_set_review_by_id d review db)"
  by (simp add: wf_db_def sql_set_review_by_id_def)

lemma wf_release [wf_intros]: "wf_db db \<Longrightarrow> wf_db (sql_release w d db)"
  by (simp add: wf_db_def sql_release_def)

lemma refs_holds_delete:
  assumes "refs hold_draft h p"
  shows "refs hold_draft (tbl_delete (\<lambda>k. fst k = w \<and> snd (snd k) = d) h)
           (tbl_delete (\<lambda>k. k = (w, d)) p)"
proof -
  have "hold_draft r \<in> keys p" if "r \<in> set h" for r using assms that by (simp add: refs_def)
  then show ?thesis by (auto simp: refs_def tbl_delete_def [of _ h])
qed

lemma wf_delete_recovered [wf_intros]: "wf_db db \<Longrightarrow> wf_db (sql_delete_recovered w d db)"
  by (simp add: wf_db_def sql_delete_recovered_def refs_holds_delete)

lemma refs_cascade:
  assumes "refs f t p" and "\<And>r. f r = k \<Longrightarrow> Q r"
  shows "refs f (filter (\<lambda>r. \<not> Q r) t) (tbl_delete (\<lambda>x. x = k) p)"
  using assms by (auto simp: refs_def)

lemma refs_fst_cascade:
  "refs fst t p \<Longrightarrow> refs fst (tbl_delete (\<lambda>x. x = k) t) (tbl_delete (\<lambda>x. x = k) p)"
  by (auto simp: refs_def) (auto simp: tbl_delete_def)

lemma wf_delete_draft [wf_intros]:
  assumes "wf_db db"
  shows "wf_db (sql_delete_draft w d db)"
proof -
  have "refs row_draft (filter (\<lambda>r. \<not> (fst (fst r) = w \<and> snd r = d)) t) (tbl_delete (\<lambda>k. k = (w, d)) p)"
    if "refs row_draft t p" for t :: "(string \<times> string, string) table" and p :: "(string \<times> string, draft_row) table"
    using that by (rule refs_cascade) (simp add: row_draft_def)
  moreover have "refs attempt_draft (filter (\<lambda>r. \<not> (a_wallet (snd r) = w \<and> a_draft (snd r) = d)) t)
      (tbl_delete (\<lambda>k. k = (w, d)) p)"
    if "refs attempt_draft t p" for t and p :: "(string \<times> string, byte list) table"
    using that by (rule refs_cascade) (simp add: attempt_draft_def)
  ultimately show ?thesis
    using assms by (simp add: wf_db_def sql_delete_draft_def sql_delete_recovered_def sql_release_def
        refs_holds_delete refs_fst_cascade)
qed

lemma wf_upsert_signatures [wf_intros]:
  assumes "wf_db db" and "sql_upsert_signatures w d psbt db = Inr db'"
  shows "wf_db db'"
proof -
  have "(w, d) \<in> keys (drafts db)"
    "db' = db\<lparr>draft_signatures := tbl_upsert (w, d) psbt (draft_signatures db)\<rparr>"
    using assms(2) by (auto simp: sql_upsert_signatures_def sql_exists split: if_splits)
  then show ?thesis using assms(1) by (simp add: wf_db_def)
qed

lemma wf_insert_finalized [wf_intros]:
  assumes "wf_db db" and "sql_insert_finalized w d bytes db = Inr db'"
  shows "wf_db db'"
proof -
  have "(w, d) \<in> keys (drafts db)" "(w, d) \<notin> keys (finalized_drafts db)"
    "db' = db\<lparr>finalized_drafts := finalized_drafts db @ [((w, d), bytes)]\<rparr>"
    using assms(2) by (auto simp: sql_insert_finalized_def sql_exists result_simps split: if_splits)
  then show ?thesis using assms(1) by (simp add: wf_db_def)
qed

lemma wf_insert_attempt [wf_intros]:
  assumes "wf_db db" and "sql_insert_attempt row db = Inr (i, db')"
  shows "wf_db db'"
proof -
  have fin: "(a_wallet row, a_draft row) \<in> keys (finalized_drafts db)"
    and db': "db' = db\<lparr>broadcast_attempts := broadcast_attempts db @ [(attempt_seq db + 1, row)],
                 attempt_seq := attempt_seq db + 1\<rparr>"
    using assms(2) by (auto simp: sql_insert_attempt_def sql_exists Let_def split: if_splits)
  have "attempt_seq db + 1 \<notin> keys (broadcast_attempts db)"
    and "ids_below (attempt_seq db + 1) (broadcast_attempts db @ [(attempt_seq db + 1, row)])"
    using assms(1) by (auto simp: wf_db_def ids_below_def)
  then show ?thesis using assms(1) fin by (simp add: wf_db_def db')
qed

lemma wf_acknowledge [wf_intros]:
  assumes "wf_db db"
  shows "wf_db (sql_acknowledge i w d db)"
proof -
  let ?f = "\<lambda>(j, r :: attempt_row). if j = i \<and> a_wallet r = w \<and> a_draft r = d then (j, r\<lparr>a_acknowledged := True\<rparr>) else (j, r)"
  have fst: "map fst (map ?f t) = map fst t" for t by (induction t) auto
  have "refs attempt_draft (map ?f t) p" if "refs attempt_draft t p" for t and p :: "(string \<times> string, byte list) table"
    using that by (auto simp: refs_def)
  moreover have "unique_keys (map ?f t) = unique_keys t" for t unfolding unique_keys_def fst ..
  moreover have "ids_below n (map ?f t) = ids_below n t" for n t unfolding ids_below_def keys_map_fst fst ..
  ultimately show ?thesis using assms by (simp add: wf_db_def sql_acknowledge_def)
qed

lemma wf_ignore_provenance [wf_intros]:
  assumes "wf_db db" and "sql_ignore_provenance w op d db = Inr db'"
  shows "wf_db db'"
  using assms(2) unfolding sql_ignore_provenance_def sql_exists result_simps sum.inject
  by (elim exE conjE disjE; hypsubst) (use assms(1) in \<open>simp_all add: wf_db_def\<close>)

lemma wf_ignore_marker [wf_intros]:
  assumes "wf_db db" and "sql_ignore_marker w d db = Inr (n, db')"
  shows "wf_db db'"
proof -
  obtain t where "ignore_insert True ((w, d) \<in> keys (drafts db)) (w, d) () (draft_label_applications db) = Inr t"
    and "db' = db\<lparr>draft_label_applications := t\<rparr>"
    using assms(2) by (auto simp: sql_ignore_marker_def sql_exists rbind_Inr_iff)
  then show ?thesis using assms(1) unfolding ignore_insert_Inr
    by (elim exE conjE disjE) (simp_all add: wf_db_def)
qed

lemma wf_insert_recovered [wf_intros]:
  assumes "wf_db db" and "sql_insert_recovered w d db = Inr db'"
  shows "wf_db db'"
proof -
  have "(w, d) \<in> keys (finalized_drafts db)" "(w, d) \<notin> keys (recovered_submissions db)"
    "db' = db\<lparr>recovered_submissions := recovered_submissions db @ [((w, d), ())]\<rparr>"
    using assms(2) by (auto simp: sql_insert_recovered_def sql_exists result_simps split: if_splits)
  then show ?thesis using assms(1) by (simp add: wf_db_def)
qed

lemma wf_insert_hold [wf_intros]:
  assumes "wf_db db" and "sql_insert_hold w op d db = Inr db'"
  shows "wf_db db'"
proof -
  have "(w, d) \<in> keys (recovered_submissions db)" "(w, op, d) \<notin> keys (recovery_holds db)"
    "db' = db\<lparr>recovery_holds := recovery_holds db @ [((w, op, d), ())]\<rparr>"
    using assms(2) by (auto simp: sql_insert_hold_def sql_exists result_simps split: if_splits)
  then show ?thesis using assms(1) by (simp add: wf_db_def)
qed

lemma wf_set_state [wf_intros]: "wf_db db \<Longrightarrow> wf_db (sql_set_state w st db)"
  by (simp add: wf_db_def sql_set_state_def)

lemma wf_set_synced [wf_intros]: "wf_db db \<Longrightarrow> wf_db (sql_set_synced w t db)"
  by (simp add: wf_db_def sql_set_synced_def)

lemma wf_upsert_sync [wf_intros]:
  assumes "wf_db db" and "sql_upsert_sync w n e db = Inr db'"
  shows "wf_db db'"
proof -
  have "w \<in> keys (wallets db)" "db' = db\<lparr>sync_state := tbl_upsert w (n, e) (sync_state db)\<rparr>"
    using assms(2) by (auto simp: sql_upsert_sync_def sql_exists split: if_splits)
  then show ?thesis using assms(1) by (simp add: wf_db_def)
qed

lemma wf_upsert_registration [wf_intros]:
  assumes "wf_db db" and "sql_upsert_registration w f i h db = Inr db'"
  shows "wf_db db'"
proof -
  have "w \<in> keys (wallets db)"
    "db' = db\<lparr>hardware_registrations := tbl_upsert (w, f, i) h (hardware_registrations db)\<rparr>"
    using assms(2) by (auto simp: sql_upsert_registration_def sql_exists split: if_splits)
  then show ?thesis using assms(1) by (simp add: wf_db_def)
qed

lemma wf_insert_wallet [wf_intros]:
  assumes "wf_db db" and "sql_insert_wallet w row db = Inr db'"
  shows "wf_db db'"
proof -
  have "w \<notin> keys (wallets db)" "db' = db\<lparr>wallets := wallets db @ [(w, row)]\<rparr>"
    using assms(2) by (auto simp: sql_insert_wallet_def result_simps split: if_splits)
  then show ?thesis using assms(1) by (simp add: wf_db_def)
qed

end
