(* ===== verification/Bitcoin.thy ===== *)
theory Bitcoin
  imports Model
begin

text \<open>
  The public data types of the libraries the core is built on (\<^verbatim>\<open>rust-bitcoin\<close>, \<^verbatim>\<open>miniscript\<close>,
  \<^verbatim>\<open>bdk_wallet\<close>), as far as the core reads their fields, and their functions as records of
  parameters: hashing, text and byte encodings, script and signature checks, the wallet's chain
  view, coin selection. No definition of the development gives any of these a body; every theorem
  holds for all of them, under the named hypotheses it lists. A value with only a textual use (an
  address, a key) is represented by its \<^verbatim>\<open>Display\<close> text.
\<close>

section \<open>Transactions\<close>

record outpoint =
  op_txid :: "byte list"
  op_vout :: nat

record txin =
  previous_output :: outpoint
  script_sig :: "byte list"
  tx_sequence :: nat
  tx_witness :: "byte list list"

record txout =
  txo_value :: nat
  script_pubkey :: "byte list"

record transaction =
  tx_version :: int
  lock_time :: nat
  tx_input :: "txin list"
  tx_output :: "txout list"

datatype chain_position = Confirmed nat | Unconfirmed "nat option"

fun is_confirmed :: "chain_position \<Rightarrow> bool" where
  "is_confirmed (Confirmed _) = True"
| "is_confirmed (Unconfirmed _) = False"

section \<open>Keys and descriptors\<close>

datatype child_number = Normal nat | Hardened nat

datatype wildcard = NoWildcard | UnhardenedWildcard | HardenedWildcard

text \<open>An extended public key of a descriptor; \<open>xk_mainnet\<close> is its \<^verbatim>\<open>NetworkKind\<close>.\<close>

record xpub =
  xk_origin :: "(string \<times> child_number list) option"
  xk_mainnet :: bool
  xk_path :: "child_number list"
  xk_wildcard :: wildcard
  xk_depth :: nat
  xk_public_key :: string
  xk_chain_code :: string
  xk_text :: string

datatype descriptor_key = XPub xpub | OtherKey string

datatype 'k wsh_inner = SortedMulti nat "'k list" | OtherWsh string "'k list"

datatype 'k descriptor = Wpkh 'k | Wsh "'k wsh_inner" | OtherDescriptor string "'k list"

text \<open>The keys in the order \<^verbatim>\<open>for_each_key\<close> visits them.\<close>

fun wsh_keys :: "'k wsh_inner \<Rightarrow> 'k list" where
  "wsh_keys (SortedMulti _ ks) = ks"
| "wsh_keys (OtherWsh _ ks) = ks"

fun descriptor_keys :: "'k descriptor \<Rightarrow> 'k list" where
  "descriptor_keys (Wpkh k) = [k]"
| "descriptor_keys (Wsh i) = wsh_keys i"
| "descriptor_keys (OtherDescriptor _ ks) = ks"

type_synonym public_descriptor = "descriptor_key descriptor"

record public_key =
  compressed :: bool
  key_bytes :: "byte list"

record signature =
  sig_bytes :: "byte list"
  sighash_type :: nat

section \<open>Partially signed transactions\<close>

text \<open>
  \<open>in_other\<close> and \<open>out_other\<close> stand for the fields of \<^verbatim>\<open>psbt::Input\<close> and \<^verbatim>\<open>psbt::Output\<close> the core
  never names (scripts, preimages, taproot, proprietary, unknown): the default is the empty list.
\<close>

type_synonym key_source = "string \<times> child_number list"

record psbt_input =
  non_witness_utxo :: "transaction option"
  witness_utxo :: "txout option"
  partial_sigs :: "(public_key \<times> signature) list"
  in_sighash_type :: "nat option"
  in_witness_script :: "byte list option"
  in_derivation :: "(public_key \<times> key_source) list"
  final_script_sig :: "byte list option"
  final_script_witness :: "byte list list option"
  in_other :: "(string \<times> byte list) list"

record psbt_output =
  out_redeem_script :: "byte list option"
  out_witness_script :: "byte list option"
  out_derivation :: "(public_key \<times> key_source) list"
  out_other :: "(string \<times> byte list) list"

record psbt =
  unsigned_tx :: transaction
  ps_version :: nat
  ps_xpub :: "(string \<times> key_source) list"
  ps_proprietary :: "(byte list \<times> byte list) list"
  ps_unknown :: "(byte list \<times> byte list) list"
  ps_inputs :: "psbt_input list"
  ps_outputs :: "psbt_output list"

text \<open>The bytes every binary PSBT starts with, \<^verbatim>\<open>b"psbt\xff"\<close>.\<close>

definition psbt_magic :: "byte list" where
  "psbt_magic = [0x70, 0x73, 0x62, 0x74, 0xff]"

lemma length_psbt_magic [simp]: "length psbt_magic = 5"
  by (simp add: psbt_magic_def)

section \<open>Functions of the libraries\<close>

type_synonym address = string

record bitcoin =
  parse_outpoint :: "string \<Rightarrow> outpoint option"
  show_outpoint :: "outpoint \<Rightarrow> string"
  parse_txid :: "string \<Rightarrow> byte list option"
  show_hash :: "byte list \<Rightarrow> string"
  parse_address :: "string \<Rightarrow> address option"
  address_on :: "address \<Rightarrow> network \<Rightarrow> bool"
  address_script :: "address \<Rightarrow> byte list"
  script_address :: "byte list \<Rightarrow> network \<Rightarrow> address option"
  compute_txid :: "transaction \<Rightarrow> byte list"
  compute_wtxid :: "transaction \<Rightarrow> byte list"
  is_coinbase :: "transaction \<Rightarrow> bool"
  tx_weight :: "transaction \<Rightarrow> nat"
  tx_vsize :: "transaction \<Rightarrow> nat"
  tx_serialize :: "transaction \<Rightarrow> byte list"
  tx_deserialize :: "byte list \<Rightarrow> transaction option"
  sha256_text :: "string \<Rightarrow> string"
  show_path :: "child_number list \<Rightarrow> string"
  parse_path :: "string \<Rightarrow> child_number list option"
  parse_fingerprint :: "string \<Rightarrow> string option"

record psbt_codec =
  var_int :: "byte list \<Rightarrow> (nat \<times> byte list) option"
  base64_decode :: "string \<Rightarrow> byte list option"
  psbt_read :: "byte list \<Rightarrow> (psbt \<times> byte list) option"
  psbt_bytes :: "psbt \<Rightarrow> byte list"
  psbt_text :: "psbt \<Rightarrow> string"

record miniscript =
  parse_descriptor :: "string \<Rightarrow> public_descriptor option"
  show_descriptor :: "public_descriptor \<Rightarrow> string"
  show_body :: "public_descriptor \<Rightarrow> string"
  new_sortedmulti :: "nat \<Rightarrow> descriptor_key list \<Rightarrow> public_descriptor option"
  key_rank :: "descriptor_key \<Rightarrow> string"

datatype keychain = External | Internal

record local_output =
  lo_outpoint :: outpoint
  lo_txout :: txout
  lo_position :: chain_position

record wallet_tx =
  wt_tx :: transaction
  wt_position :: chain_position

text \<open>What the core asks of the transaction builder.\<close>

record build_request =
  b_fee_rate :: nat
  b_unspendable :: "outpoint list"
  b_utxos :: "outpoint list option"
  b_recipient :: "(byte list \<times> nat) option"
  b_drain_to :: "byte list option"

record ('w, 'cs) bdk =
  wallet_create :: "string \<Rightarrow> string \<Rightarrow> network \<Rightarrow> 'w option"
  wallet_load :: "network \<Rightarrow> 'cs \<Rightarrow> 'w option"
  take_staged :: "'w \<Rightarrow> 'cs option \<times> 'w"
  merge_changes :: "'cs \<Rightarrow> 'cs \<Rightarrow> 'cs"
  peek_address :: "'w \<Rightarrow> keychain \<Rightarrow> nat \<Rightarrow> address"
  reveal_next_address :: "'w \<Rightarrow> keychain \<Rightarrow> (nat \<times> address) \<times> 'w"
  list_unspent :: "'w \<Rightarrow> local_output list"
  list_output :: "'w \<Rightarrow> local_output list"
  get_tx :: "'w \<Rightarrow> byte list \<Rightarrow> wallet_tx option"
  transactions :: "'w \<Rightarrow> wallet_tx list"
  sent_and_received :: "'w \<Rightarrow> transaction \<Rightarrow> nat \<times> nat"
  is_mine :: "'w \<Rightarrow> byte list \<Rightarrow> bool"
  wallet_network :: "'w \<Rightarrow> network"
  tip_height :: "'w \<Rightarrow> nat"
  public_desc :: "'w \<Rightarrow> keychain \<Rightarrow> public_descriptor"
  derivation_of_spk :: "'w \<Rightarrow> byte list \<Rightarrow> (keychain \<times> nat) option"
  knows_utxos :: "'w \<Rightarrow> outpoint list \<Rightarrow> bool"
  build_tx :: "'w \<Rightarrow> build_request \<Rightarrow> (psbt \<times> 'w) option"
  calculate_fee :: "'w \<Rightarrow> transaction \<Rightarrow> nat option"

section \<open>JSON values\<close>

text \<open>\<^verbatim>\<open>serde_json::Value\<close>; an object has each key once.\<close>

datatype json = JNull | JBool bool | JNumber string | JString string | JArray "json list"
  | JObject "(string \<times> json) list"

fun json_get :: "string \<Rightarrow> json \<Rightarrow> json option" where
  "json_get k (JObject fs) = map_of fs k"
| "json_get k _ = None"

fun json_str :: "json \<Rightarrow> string option" where
  "json_str (JString s) = Some s"
| "json_str _ = None"

fun json_bool :: "json \<Rightarrow> bool option" where
  "json_bool (JBool b) = Some b"
| "json_bool _ = None"

fun json_array :: "json \<Rightarrow> json list option" where
  "json_array (JArray xs) = Some xs"
| "json_array _ = None"

end
