(* ===== verification/Sample.thy ===== *)
theory Sample
  imports Bitcoin
begin

text \<open>
  A small concrete instance of the library parameters, on which the witnesses evaluate the
  theorems: a wallet with two confirmed coins of 50000 and 30000 satoshis (a change set is the
  number of addresses revealed), and one transaction that spends the first. It stands for no
  behaviour of the libraries beyond being some function of the right type.
\<close>

definition op_a :: outpoint where
  "op_a = \<lparr>op_txid = [10], op_vout = 0\<rparr>"

definition op_b :: outpoint where
  "op_b = \<lparr>op_txid = [11], op_vout = 0\<rparr>"

definition out_a :: txout where
  "out_a = \<lparr>txo_value = 50000, script_pubkey = [1]\<rparr>"

definition out_b :: txout where
  "out_b = \<lparr>txo_value = 30000, script_pubkey = [2]\<rparr>"

definition tx_a :: transaction where
  "tx_a = \<lparr>tx_version = 2, lock_time = 0, tx_input = [], tx_output = [out_a]\<rparr>"

definition tx_b :: transaction where
  "tx_b = \<lparr>tx_version = 2, lock_time = 1, tx_input = [], tx_output = [out_b]\<rparr>"

text \<open>The spend: the first coin to a foreign script, and change.\<close>

definition spend_tx :: transaction where
  "spend_tx = \<lparr>tx_version = 2, lock_time = 2,
     tx_input = [\<lparr>previous_output = op_a, script_sig = [], tx_sequence = 0, tx_witness = []\<rparr>],
     tx_output = [\<lparr>txo_value = 20000, script_pubkey = [9]\<rparr>, \<lparr>txo_value = 29000, script_pubkey = [3]\<rparr>]\<rparr>"

text \<open>The same with a witness of a signature and a key.\<close>

definition final_tx :: transaction where
  "final_tx = \<lparr>tx_version = 2, lock_time = 2,
     tx_input = [\<lparr>previous_output = op_a, script_sig = [], tx_sequence = 0, tx_witness = [[1, 7, 1], [1]]\<rparr>],
     tx_output = [\<lparr>txo_value = 20000, script_pubkey = [9]\<rparr>, \<lparr>txo_value = 29000, script_pubkey = [3]\<rparr>]\<rparr>"

definition blank_input :: psbt_input where
  "blank_input = \<lparr>non_witness_utxo = None, witness_utxo = None, partial_sigs = [],
     in_sighash_type = None, in_witness_script = None, in_derivation = [], final_script_sig = None,
     final_script_witness = None, in_other = []\<rparr>"

definition blank_output :: psbt_output where
  "blank_output = \<lparr>out_redeem_script = None, out_witness_script = None, out_derivation = [],
     out_other = []\<rparr>"

definition spend_psbt :: psbt where
  "spend_psbt = \<lparr>unsigned_tx = spend_tx, ps_version = 0, ps_xpub = [], ps_proprietary = [],
     ps_unknown = [], ps_inputs = [blank_input], ps_outputs = [blank_output, blank_output]\<rparr>"

definition sample_hash :: "byte list \<Rightarrow> string" where
  "sample_hash h = replicate 63 (CHR ''0'') @ [hex_digit (unat (hd h))]"

text \<open>A transaction id may be spelled in either case; it is printed in lower case.\<close>

definition sample_outpoints :: "(string \<times> outpoint) list" where
  "sample_outpoints = [(''a:0'', op_a), (''A:0'', op_a), (''b:0'', op_b)]"

definition sample_scripts :: "(string \<times> byte list) list" where
  "sample_scripts = [(''tb1a'', [1]), (''tb1b'', [2]), (''tb1change'', [3]), (''tb1payee'', [9])]"

definition sample_bitcoin :: bitcoin where
  "sample_bitcoin = \<lparr>parse_outpoint = map_of sample_outpoints,
     show_outpoint = (\<lambda>x. if x = op_a then ''a:0'' else if x = op_b then ''b:0'' else ''?''),
     parse_txid = (\<lambda>s. map_of [(sample_hash [10], [10]), (sample_hash [11], [11]), (sample_hash [12], [12])] s),
     show_hash = sample_hash,
     parse_address = (\<lambda>s. map_option (\<lambda>_. s) (map_of sample_scripts s)),
     address_on = (\<lambda>_ n. n \<noteq> Mainnet),
     address_script = (\<lambda>a. the (map_of sample_scripts a)),
     script_address = (\<lambda>s _. map_of (map (\<lambda>(a, b). (b, a)) sample_scripts) s),
     compute_txid = (\<lambda>t. [10 + of_nat (lock_time t)]),
     compute_wtxid = (\<lambda>t. [10 + of_nat (lock_time t) + of_nat (length (concat (map tx_witness (tx_input t))))]),
     is_coinbase = (\<lambda>_. False),
     tx_weight = (\<lambda>_. 561), tx_vsize = (\<lambda>_. 141),
     tx_serialize = (\<lambda>t. [of_nat (lock_time t), of_nat (length (concat (map tx_witness (tx_input t))))]),
     tx_deserialize = (\<lambda>bs. if bs = [2, 0] then Some spend_tx else if bs = [2, 2] then Some final_tx else None),
     sha256_text = (\<lambda>s. s),
     show_path = (\<lambda>p. if p = [Hardened 84] then ''84h'' else ''m''),
     parse_path = (\<lambda>s. if s = ''84h'' then Some [Hardened 84] else None),
     parse_fingerprint = Some\<rparr>"

lemma sample_bitcoin_simps [simp]:
  "parse_outpoint sample_bitcoin = map_of sample_outpoints"
  "show_outpoint sample_bitcoin = (\<lambda>x. if x = op_a then ''a:0'' else if x = op_b then ''b:0'' else ''?'')"
  "parse_txid sample_bitcoin = (\<lambda>s. map_of [(sample_hash [10], [10]), (sample_hash [11], [11]), (sample_hash [12], [12])] s)"
  "show_hash sample_bitcoin = sample_hash"
  "parse_address sample_bitcoin = (\<lambda>s. map_option (\<lambda>_. s) (map_of sample_scripts s))"
  "address_on sample_bitcoin = (\<lambda>_ n. n \<noteq> Mainnet)"
  "address_script sample_bitcoin = (\<lambda>a. the (map_of sample_scripts a))"
  "script_address sample_bitcoin = (\<lambda>s _. map_of (map (\<lambda>(a, b). (b, a)) sample_scripts) s)"
  "compute_txid sample_bitcoin = (\<lambda>t. [10 + of_nat (lock_time t)])"
  "compute_wtxid sample_bitcoin = (\<lambda>t. [10 + of_nat (lock_time t) + of_nat (length (concat (map tx_witness (tx_input t))))])"
  "is_coinbase sample_bitcoin = (\<lambda>_. False)"
  "tx_weight sample_bitcoin = (\<lambda>_. 561)"
  "tx_vsize sample_bitcoin = (\<lambda>_. 141)"
  "tx_serialize sample_bitcoin = (\<lambda>t. [of_nat (lock_time t), of_nat (length (concat (map tx_witness (tx_input t))))])"
  "tx_deserialize sample_bitcoin = (\<lambda>bs. if bs = [2, 0] then Some spend_tx else if bs = [2, 2] then Some final_tx else None)"
  "sha256_text sample_bitcoin = (\<lambda>s. s)"
  "show_path sample_bitcoin = (\<lambda>p. if p = [Hardened 84] then ''84h'' else ''m'')"
  "parse_path sample_bitcoin = (\<lambda>s. if s = ''84h'' then Some [Hardened 84] else None)"
  "parse_fingerprint sample_bitcoin = Some"
  by (simp_all add: sample_bitcoin_def)

text \<open>The bytes of the spend: the global map with the unsigned transaction, three empty maps.\<close>

definition spend_tx_bytes :: "byte list" where
  "spend_tx_bytes = [2, 0, 0, 0] @ [1] @ replicate 36 7 @ [0] @ [0, 0, 0, 0]
     @ [2] @ replicate 8 1 @ [1, 9] @ replicate 8 2 @ [1, 3] @ [2, 0, 0, 0]"

definition spend_bytes :: "byte list" where
  "spend_bytes = psbt_magic @ [1, 0, 71] @ spend_tx_bytes @ [0] @ [0] @ [0, 0]"

definition sample_codec :: psbt_codec where
  "sample_codec = \<lparr>var_int = (\<lambda>bs. case bs of [] \<Rightarrow> None | b # r \<Rightarrow> Some (unat b, r)),
     base64_decode = (\<lambda>s. if s = ''cHNidP8='' then Some spend_bytes else None),
     psbt_read = (\<lambda>bs. if bs = spend_bytes then Some (spend_psbt, []) else None),
     psbt_bytes = (\<lambda>_. spend_bytes),
     psbt_text = (\<lambda>_. ''cHNidP8='')\<rparr>"

lemma sample_codec_simps [simp]:
  "var_int sample_codec = (\<lambda>bs. case bs of [] \<Rightarrow> None | b # r \<Rightarrow> Some (unat b, r))"
  "base64_decode sample_codec = (\<lambda>s. if s = ''cHNidP8='' then Some spend_bytes else None)"
  "psbt_read sample_codec = (\<lambda>bs. if bs = spend_bytes then Some (spend_psbt, []) else None)"
  "psbt_bytes sample_codec = (\<lambda>_. spend_bytes)"
  "psbt_text sample_codec = (\<lambda>_. ''cHNidP8='')"
  by (simp_all add: sample_codec_def)

section \<open>Descriptors\<close>

definition sample_xpub :: "string \<Rightarrow> nat \<Rightarrow> descriptor_key" where
  "sample_xpub name branch = XPub \<lparr>xk_origin = Some (name, [Hardened 84]), xk_mainnet = False,
     xk_path = [Normal branch], xk_wildcard = UnhardenedWildcard, xk_depth = 1,
     xk_public_key = name, xk_chain_code = name, xk_text = name\<rparr>"

definition sample_multisig :: "string list \<Rightarrow> nat \<Rightarrow> public_descriptor" where
  "sample_multisig names branch = Wsh (SortedMulti 2 (map (\<lambda>n. sample_xpub n branch) names))"

fun sample_key_text :: "descriptor_key \<Rightarrow> string" where
  "sample_key_text (XPub x) = xk_text x"
| "sample_key_text (OtherKey s) = s"

definition sample_show :: "public_descriptor \<Rightarrow> string" where
  "sample_show d = concat (map sample_key_text (descriptor_keys d))"

definition sample_miniscript :: miniscript where
  "sample_miniscript = \<lparr>
     parse_descriptor = (\<lambda>s.
       if s = ''wsh(a,b,c/0)#00000000'' then Some (sample_multisig [''a'', ''b'', ''c''] 0)
       else if s = ''wsh(c,a,b/1)#00000000'' then Some (sample_multisig [''c'', ''a'', ''b''] 1)
       else None),
     show_descriptor = sample_show, show_body = sample_show,
     new_sortedmulti = (\<lambda>k ks. Some (Wsh (SortedMulti k ks))),
     key_rank = sample_key_text\<rparr>"

lemma sample_miniscript_simps [simp]:
  "parse_descriptor sample_miniscript = (\<lambda>s. if s = ''wsh(a,b,c/0)#00000000'' then Some (sample_multisig [''a'', ''b'', ''c''] 0) else if s = ''wsh(c,a,b/1)#00000000'' then Some (sample_multisig [''c'', ''a'', ''b''] 1) else None)"
  "show_descriptor sample_miniscript = sample_show"
  "show_body sample_miniscript = sample_show"
  "new_sortedmulti sample_miniscript = (\<lambda>k ks. Some (Wsh (SortedMulti k ks)))"
  "key_rank sample_miniscript = sample_key_text"
  by (simp_all add: sample_miniscript_def)

section \<open>The wallet\<close>

definition sample_coins :: "local_output list" where
  "sample_coins = [\<lparr>lo_outpoint = op_b, lo_txout = out_b, lo_position = Confirmed 5\<rparr>,
     \<lparr>lo_outpoint = op_a, lo_txout = out_a, lo_position = Confirmed 7\<rparr>]"

definition sample_bdk :: "(nat, nat) bdk" where
  "sample_bdk = \<lparr>wallet_create = (\<lambda>_ _ _. Some 0), wallet_load = (\<lambda>_ n. Some n),
     take_staged = (\<lambda>w. (Some w, w)), merge_changes = (\<lambda>_ b. b),
     peek_address = (\<lambda>_ _ _. ''tb1a''),
     reveal_next_address = (\<lambda>w k. ((w, if k = External then ''tb1a'' else ''tb1change''), Suc w)),
     list_unspent = (\<lambda>_. sample_coins), list_output = (\<lambda>_. sample_coins),
     get_tx = (\<lambda>_ t. if t = [10] then Some \<lparr>wt_tx = tx_a, wt_position = Confirmed 7\<rparr>
                     else if t = [11] then Some \<lparr>wt_tx = tx_b, wt_position = Confirmed 5\<rparr> else None),
     transactions = (\<lambda>_. [\<lparr>wt_tx = tx_a, wt_position = Confirmed 7\<rparr>, \<lparr>wt_tx = tx_b, wt_position = Confirmed 5\<rparr>]),
     sent_and_received = (\<lambda>_ t. (0, sum_list (map txo_value (tx_output t)))),
     is_mine = (\<lambda>_ s. s = [1] \<or> s = [2] \<or> s = [3]),
     wallet_network = (\<lambda>_. Signet), tip_height = (\<lambda>_. 200),
     public_desc = (\<lambda>_ k. sample_multisig [''a'', ''b'', ''c''] (if k = External then 0 else 1)),
     derivation_of_spk = (\<lambda>_ s. if s = [1] then Some (External, 0) else if s = [3] then Some (Internal, 0) else None),
     knows_utxos = (\<lambda>_ ops. list_all (\<lambda>x. x = op_a \<or> x = op_b) ops),
     build_tx = (\<lambda>w _. Some (spend_psbt, w)),
     calculate_fee = (\<lambda>_ _. Some 1000)\<rparr>"

lemma sample_bdk_simps [simp]:
  "wallet_create sample_bdk = (\<lambda>_ _ _. Some 0)"
  "wallet_load sample_bdk = (\<lambda>_ n. Some n)"
  "take_staged sample_bdk = (\<lambda>w. (Some w, w))"
  "merge_changes sample_bdk = (\<lambda>_ b. b)"
  "peek_address sample_bdk = (\<lambda>_ _ _. ''tb1a'')"
  "reveal_next_address sample_bdk = (\<lambda>w k. ((w, if k = External then ''tb1a'' else ''tb1change''), Suc w))"
  "list_unspent sample_bdk = (\<lambda>_. sample_coins)"
  "list_output sample_bdk = (\<lambda>_. sample_coins)"
  "get_tx sample_bdk = (\<lambda>_ t. if t = [10] then Some \<lparr>wt_tx = tx_a, wt_position = Confirmed 7\<rparr> else if t = [11] then Some \<lparr>wt_tx = tx_b, wt_position = Confirmed 5\<rparr> else None)"
  "transactions sample_bdk = (\<lambda>_. [\<lparr>wt_tx = tx_a, wt_position = Confirmed 7\<rparr>, \<lparr>wt_tx = tx_b, wt_position = Confirmed 5\<rparr>])"
  "sent_and_received sample_bdk = (\<lambda>_ t. (0, sum_list (map txo_value (tx_output t))))"
  "is_mine sample_bdk = (\<lambda>_ s. s = [1] \<or> s = [2] \<or> s = [3])"
  "wallet_network sample_bdk = (\<lambda>_. Signet)"
  "tip_height sample_bdk = (\<lambda>_. 200)"
  "public_desc sample_bdk = (\<lambda>_ k. sample_multisig [''a'', ''b'', ''c''] (if k = External then 0 else 1))"
  "derivation_of_spk sample_bdk = (\<lambda>_ s. if s = [1] then Some (External, 0) else if s = [3] then Some (Internal, 0) else None)"
  "knows_utxos sample_bdk = (\<lambda>_ ops. list_all (\<lambda>x. x = op_a \<or> x = op_b) ops)"
  "build_tx sample_bdk = (\<lambda>w _. Some (spend_psbt, w))"
  "calculate_fee sample_bdk = (\<lambda>_ _. Some 1000)"
  by (simp_all add: sample_bdk_def)

end
