(* ===== verification/Labels.thy ===== *)
theory Labels
  imports Sample
begin

text \<open>
  \<^verbatim>\<open>crates/tundra-core/src/labels.rs\<close>: the BIP 329 subset (transaction, address and output
  labels) as JSON lines. The JSON parser is the parameter \<open>parse\<close>. The lemmas show what a file must
  be to be accepted, and that every accepted record is within the bounds of the database.
\<close>

definition MAX_LABEL_FILE :: nat where
  "MAX_LABEL_FILE = 2 * 1024 * 1024"

definition MAX_LABELS :: nat where
  "MAX_LABELS = 5000"

record label_record =
  lr_kind :: string
  lr_ref :: string
  lr_label :: "string option"
  lr_spendable :: "bool option"
  lr_origin :: "string option"

record label_preview =
  matched :: nat
  skipped :: nat
  changed :: nat

definition validate_label :: "string \<Rightarrow> unit result" where
  "validate_label s =
     (if 255 < char_count s \<or> has_control s
      then Inl (InvalidInput ''labels must be at most 255 characters without control characters'')
      else Inr ())"

text \<open>One JSON line: \<open>None\<close> is a record of another type, which is skipped.\<close>

definition parse_label_field :: "json \<Rightarrow> string option result" where
  "parse_label_field v =
     (case json_get ''label'' v of
        None \<Rightarrow> Inr None
      | Some (JString s) \<Rightarrow> rbind (validate_label s) (\<lambda>_. Inr (Some s))
      | Some _ \<Rightarrow> Inl (InvalidInput ''label must be text''))"

definition parse_spendable_field :: "string \<Rightarrow> json \<Rightarrow> bool option result" where
  "parse_spendable_field kind v =
     (case json_get ''spendable'' v of
        None \<Rightarrow> Inr None
      | Some (JBool b) \<Rightarrow>
          (if kind = ''output'' then Inr (Some b)
           else Inl (InvalidInput ''spendable must be a boolean on outputs''))
      | Some _ \<Rightarrow> Inl (InvalidInput ''spendable must be a boolean on outputs''))"

definition parse_origin_field :: "json \<Rightarrow> string option result" where
  "parse_origin_field v =
     (case json_get ''origin'' v of
        None \<Rightarrow> Inr None
      | Some (JString s) \<Rightarrow>
          (if length s \<le> 1024 then Inr (Some s) else Inl (InvalidInput ''label origin''))
      | Some _ \<Rightarrow> Inl (InvalidInput ''label origin''))"

definition parse_label_line :: "(string \<Rightarrow> json option) \<Rightarrow> string \<Rightarrow> label_record option result" where
  "parse_label_line parse line =
     rbind (ok_or (parse line) (InvalidInput ''invalid label JSON line'')) (\<lambda>v.
     rbind (ok_or (Option.bind (json_get ''type'' v) json_str) (InvalidInput ''label type'')) (\<lambda>kind.
     if \<not> List.member [''tx'', ''addr'', ''output''] kind then Inr None
     else
       rbind (ok_or (Option.bind (json_get ''ref'' v) json_str) (InvalidInput ''label reference'')) (\<lambda>r.
       if r = [] \<or> 200 < length r then Inl (InvalidInput ''label reference'')
       else
         rbind (parse_label_field v) (\<lambda>label.
         rbind (parse_spendable_field kind v) (\<lambda>spendable.
         rbind (parse_origin_field v) (\<lambda>origin.
         Inr (Some \<lparr>lr_kind = kind, lr_ref = r, lr_label = label, lr_spendable = spendable,
                    lr_origin = origin\<rparr>)))))))"

text \<open>What a record is identified by in the file; \<open>seen\<close> holds those of the records so far.\<close>

definition label_key :: "label_record \<Rightarrow> string \<times> string \<times> string option" where
  "label_key r = (lr_kind r, lr_ref r, lr_origin r)"

definition parse_label_step ::
  "(string \<Rightarrow> json option) \<Rightarrow> nat \<times> string \<Rightarrow> label_record list \<times> nat \<Rightarrow>
   (label_record list \<times> nat) result" where
  "parse_label_step parse = (\<lambda>(index, line) (records, skipped).
     if MAX_LABELS \<le> index then Inl (InvalidInput ''too many label records'')
     else
       rbind (parse_label_line parse line) (\<lambda>r.
       case r of
         None \<Rightarrow> Inr (records, skipped + 1)
       | Some r \<Rightarrow>
           (if list_ex (\<lambda>r'. label_key r' = label_key r) records
            then Inl (InvalidInput ''duplicate label reference'')
            else Inr (records @ [r], skipped))))"

definition label_lines :: "string \<Rightarrow> string list" where
  "label_lines input = filter (\<lambda>line. trim line \<noteq> []) (lines input)"

definition parse_labels ::
  "(string \<Rightarrow> json option) \<Rightarrow> string \<Rightarrow> (label_record list \<times> nat) result" where
  "parse_labels parse input =
     (if MAX_LABEL_FILE < length input then Inl (InvalidInput ''label file is too large'')
      else rfold (parse_label_step parse) (enumerate 0 (label_lines input)) ([], 0))"

section \<open>What is accepted\<close>

definition wf_label :: "label_record \<Rightarrow> bool" where
  "wf_label r \<longleftrightarrow>
     lr_kind r \<in> {''tx'', ''addr'', ''output''} \<and> lr_ref r \<noteq> [] \<and> length (lr_ref r) \<le> 200
     \<and> (\<forall>l. lr_label r = Some l \<longrightarrow> char_count l \<le> 255 \<and> \<not> has_control l)
     \<and> (lr_spendable r \<noteq> None \<longrightarrow> lr_kind r = ''output'')
     \<and> (\<forall>x. lr_origin r = Some x \<longrightarrow> length x \<le> 1024)"

definition somes :: "'a option list \<Rightarrow> 'a list" where
  "somes xs = concat (map (\<lambda>x. case x of None \<Rightarrow> [] | Some a \<Rightarrow> [a]) xs)"

lemma somes_append [simp]: "somes (xs @ ys) = somes xs @ somes ys"
  by (simp add: somes_def)

lemma somes_simps [simp]: "somes [] = []" "somes (None # xs) = somes xs" "somes (Some a # xs) = a # somes xs"
  by (simp_all add: somes_def)

lemma validate_label_ok: "validate_label s = Inr u \<longleftrightarrow> char_count s \<le> 255 \<and> \<not> has_control s"
  by (auto simp: validate_label_def)

lemma parse_label_line_wf:
  assumes "parse_label_line parse line = Inr (Some r)"
  shows "wf_label r"
  using assms
  by (auto simp: parse_label_line_def wf_label_def parse_label_field_def parse_spendable_field_def
      parse_origin_field_def result_simps validate_label_ok
      split: if_splits option.splits json.splits)

lemma parse_label_step_Inr:
  "parse_label_step parse (i, l) (records, sk) = Inr s \<longleftrightarrow>
     i < MAX_LABELS
     \<and> (parse_label_line parse l = Inr None \<and> s = (records, Suc sk)
        \<or> (\<exists>r. parse_label_line parse l = Inr (Some r) \<and> label_key r \<notin> set (map label_key records)
             \<and> s = (records @ [r], sk)))"
proof -
  have "list_ex (\<lambda>r'. label_key r' = label_key r) records \<longleftrightarrow> label_key r \<in> set (map label_key records)" for r
    by (induction records) auto
  then show ?thesis
    by (cases "parse_label_line parse l"; cases "projr (parse_label_line parse l)")
      (auto simp: parse_label_step_def not_le)
qed

lemma parse_label_steps:
  "rfold (parse_label_step parse) (enumerate i ls) (records, sk) = Inr (rs, n) \<longleftrightarrow>
     (\<exists>xs. rmap (parse_label_line parse) ls = Inr xs \<and> (ls \<noteq> [] \<longrightarrow> i + length ls \<le> MAX_LABELS)
        \<and> rs = records @ somes xs \<and> n = sk + length (filter Option.is_none xs)
        \<and> set (map label_key (somes xs)) \<inter> set (map label_key records) = {}
        \<and> distinct (map label_key (somes xs)))"
  (is "?run i ls records sk \<longleftrightarrow> ?post i ls records sk")
proof (induction ls arbitrary: i records sk)
  case (Cons l ls)
  have "?run i (l # ls) records sk \<longleftrightarrow>
      i < MAX_LABELS
      \<and> (parse_label_line parse l = Inr None \<and> ?post (Suc i) ls records (Suc sk)
         \<or> (\<exists>r. parse_label_line parse l = Inr (Some r) \<and> label_key r \<notin> set (map label_key records)
              \<and> ?post (Suc i) ls (records @ [r]) sk))"
    unfolding enumerate_simps rfold.simps rbind_Inr_iff parse_label_step_Inr Cons.IH [symmetric]
    by blast
  also have "\<dots> \<longleftrightarrow> ?post i (l # ls) records sk"
  proof (cases "parse_label_line parse l")
    case (Inr x)
    then show ?thesis by (cases x) (auto simp: result_simps Suc_le_eq)
  qed simp
  finally show ?case .
qed auto

text \<open>
  A label file is accepted exactly when it is within the size bound, it has at most 5000
  nonblank lines, every one of them parses (as a record or as a type to skip), and no two records
  have the same type, reference and origin. The result is then the records in the order of the
  file, and the number of skipped lines.
\<close>

theorem parse_labels_iff:
  "parse_labels parse input = Inr (rs, n) \<longleftrightarrow>
     length input \<le> MAX_LABEL_FILE \<and> length (label_lines input) \<le> MAX_LABELS
     \<and> (\<exists>xs. rmap (parse_label_line parse) (label_lines input) = Inr xs
          \<and> rs = somes xs \<and> n = length (filter Option.is_none xs)
          \<and> distinct (map label_key rs))"
  unfolding parse_labels_def if_Inl_Inr_iff parse_label_steps
  by (cases "label_lines input") auto

lemma somes_set: "Some r \<in> set xs \<longleftrightarrow> r \<in> set (somes xs)"
  by (induction xs) (auto simp: somes_def split: option.splits)

lemma parse_labels_wf_aux:
  assumes "parse_labels parse input = Inr (rs, n)"
  shows "list_all wf_label rs \<and> length rs + n = length (label_lines input) \<and> length rs + n \<le> MAX_LABELS"
proof -
  obtain xs where "length (label_lines input) \<le> MAX_LABELS"
    and xs: "rmap (parse_label_line parse) (label_lines input) = Inr xs"
    and rs: "rs = somes xs" and n: "n = length (filter Option.is_none xs)"
    using assms unfolding parse_labels_def if_Inl_Inr_iff parse_label_steps
    by (cases "label_lines input") auto
  moreover have "wf_label r" if "r \<in> set rs" for r
    using that rmap_set [OF xs, of "Some r"] parse_label_line_wf by (auto simp: rs somes_set)
  moreover have "length (somes xs) + length (filter Option.is_none xs) = length xs"
    by (induction xs) (auto simp: somes_def split: option.splits)
  ultimately show ?thesis using rmap_length [OF xs] by (simp add: list_all_iff)
qed

end
