(* ===== verification/Descriptors.thy ===== *)
theory Descriptors
  imports Sample "HOL-Library.Multiset"
begin

text \<open>
  \<^verbatim>\<open>crates/tundra-core/src/descriptor.rs\<close>: the import of public wallet descriptors. Parsing,
  printing and ordering of descriptors is \<^verbatim>\<open>miniscript\<close>'s (the record \<open>miniscript\<close>), JSON is
  \<^verbatim>\<open>serde_json\<close>'s. The lemmas show what an accepted import is (only public, distinct, hardware
  origin keys of the right network, receive and change of one policy over the same keys), that the
  order of the keys of a multisig makes no difference, and that the origin the core exports with
  its labels is the origin it recognises on import.
\<close>

definition MAX_DESCRIPTOR_BYTES :: nat where
  "MAX_DESCRIPTOR_BYTES = 32768"

definition parse_public :: "miniscript \<Rightarrow> string \<Rightarrow> public_descriptor result" where
  "parse_public M text =
     (let s = trim text in
      if MAX_DESCRIPTOR_BYTES < length s \<or> \<not> is_ascii s \<or> has_whitespace s then Inl Descriptor
      else
        rbind (ok_or (split_once (CHR ''#'') s) Descriptor) (\<lambda>(_, checksum).
        if length checksum \<noteq> 8 \<or> matches_count ''#'' s \<noteq> 1 then Inl Descriptor
        else ok_or (parse_descriptor M s) Descriptor))"

fun policy_of :: "'k descriptor \<Rightarrow> policy result" where
  "policy_of (Wpkh _) = Inr SingleSig"
| "policy_of (Wsh (SortedMulti k ks)) =
     (if k = 2 \<and> length ks = 3 then Inr TwoOfThree else Inl UnsupportedPolicy)"
| "policy_of (Wsh (OtherWsh _ _)) = Inl UnsupportedPolicy"
| "policy_of (OtherDescriptor _ _) = Inl UnsupportedPolicy"

fun canonical_descriptor :: "miniscript \<Rightarrow> public_descriptor \<Rightarrow> public_descriptor result" where
  "canonical_descriptor M (Wsh (SortedMulti k ks)) =
     ok_or (new_sortedmulti M k (sort_key (key_rank M) ks)) Descriptor"
| "canonical_descriptor M d = Inr d"

section \<open>Account keys\<close>

definition is_mainnet :: "network \<Rightarrow> bool" where
  "is_mainnet n = (n = Mainnet)"

definition key_material :: "xpub \<Rightarrow> string" where
  "key_material x = xk_public_key x @ '':'' @ xk_chain_code x"

definition origin_text :: "bitcoin \<Rightarrow> string \<times> child_number list \<Rightarrow> string" where
  "origin_text B og = ''['' @ fst og @ ''/'' @ show_path B (snd og) @ '']''"

definition identity_text :: "bitcoin \<Rightarrow> string \<times> child_number list \<Rightarrow> xpub \<Rightarrow> string" where
  "identity_text B og x = origin_text B og @ xk_text x"

text \<open>One visit of \<^verbatim>\<open>for_each_key\<close>: the identities, key materials and fingerprints so far.\<close>

definition identity_step ::
  "bitcoin \<Rightarrow> nat \<Rightarrow> network \<Rightarrow> descriptor_key \<Rightarrow> string list \<times> string list \<times> string list \<Rightarrow>
   (string list \<times> string list \<times> string list) result" where
  "identity_step B branch network key = (\<lambda>(ids, materials, fingerprints).
     case key of
       OtherKey _ \<Rightarrow> Inl UnsupportedKeys
     | XPub x \<Rightarrow>
         (case xk_origin x of
            None \<Rightarrow> Inl UnsupportedKeys
          | Some (fingerprint, origin_path) \<Rightarrow>
              (if xk_mainnet x \<noteq> is_mainnet network then Inl NetworkMismatch
               else if xk_wildcard x \<noteq> UnhardenedWildcard \<or> xk_path x \<noteq> [Normal branch]
                       \<or> origin_path = [] \<or> xk_depth x \<noteq> length origin_path
                 then Inl UnsupportedKeys
               else if List.member materials (key_material x) \<or> List.member fingerprints fingerprint
                 then Inl (InvalidInput ''duplicate key or master fingerprint'')
               else Inr (ids @ [identity_text B (fingerprint, origin_path) x],
                         key_material x # materials, fingerprint # fingerprints))))"

definition identities ::
  "bitcoin \<Rightarrow> public_descriptor \<Rightarrow> nat \<Rightarrow> network \<Rightarrow> string list result" where
  "identities B d branch network =
     rbind (rfold (identity_step B branch network) (descriptor_keys d) ([], [], [])) (\<lambda>(ids, _).
     Inr (sort ids))"

section \<open>Files\<close>

definition utf8_bom :: string where
  "utf8_bom = [CHR 0xEF, CHR 0xBB, CHR 0xBF]"

definition descriptor_row_step ::
  "json \<Rightarrow> string option \<times> string option \<Rightarrow> (string option \<times> string option) result" where
  "descriptor_row_step row = (\<lambda>(receive, change).
     rbind (ok_or (Option.bind (json_get ''desc'' row) json_str) Descriptor) (\<lambda>d.
     case Option.bind (json_get ''internal'' row) json_bool of
       Some False \<Rightarrow> if receive = None then Inr (Some d, change) else Inl BranchMismatch
     | Some True \<Rightarrow> if change = None then Inr (receive, Some d) else Inl BranchMismatch
     | None \<Rightarrow> Inl BranchMismatch))"

definition json_descriptors :: "json \<Rightarrow> network \<Rightarrow> string list result" where
  "json_descriptors v network =
     (if (case json_get ''network'' v of None \<Rightarrow> False | Some n \<Rightarrow> json_str n \<noteq> Some (network_key network))
      then Inl NetworkMismatch
      else case Option.bind (json_get ''descriptor'' v) json_str of
        Some d \<Rightarrow> Inr [d]
      | None \<Rightarrow>
          (case (Option.bind (json_get ''receive_descriptor'' v) json_str,
                 Option.bind (json_get ''change_descriptor'' v) json_str) of
             (Some r, Some c) \<Rightarrow> Inr [r, c]
           | _ \<Rightarrow>
               (case Option.bind (json_get ''descriptors'' v) json_array of
                  Some rows \<Rightarrow>
                    (if length rows \<noteq> 2 then Inl BranchMismatch
                     else
                       rbind (rfold descriptor_row_step rows (None, None)) (\<lambda>(receive, change).
                       rbind (ok_or receive BranchMismatch) (\<lambda>r.
                       rbind (ok_or change BranchMismatch) (\<lambda>c.
                       Inr [r, c]))))
                | None \<Rightarrow> Inl (InvalidInput ''unsupported descriptor JSON format''))))"

definition input_descriptors ::
  "(string \<Rightarrow> json option) \<Rightarrow> string \<Rightarrow> network \<Rightarrow> string list result" where
  "input_descriptors parse input0 network =
     (if MAX_DESCRIPTOR_BYTES < length input0 then Inl (InvalidInput ''descriptor file is too large'')
      else
        (let input = trim_start_matches utf8_bom (trim input0) in
         if \<not> starts_with ''{'' input
         then (let rows = filter (\<lambda>s. s \<noteq> []) (map trim (lines input)) in
               if 1 \<le> length rows \<and> length rows \<le> 2 then Inr rows
               else Inl (InvalidInput ''provide one multipath descriptor or a receive/change pair''))
         else
           rbind (ok_or (parse input) (InvalidInput ''descriptor JSON'')) (\<lambda>v.
           json_descriptors v network)))"

section \<open>Import\<close>

text \<open>The receive and change descriptors of the rows: one multipath descriptor or a pair.\<close>

definition multipath :: string where
  "multipath = ''/<0;1>/*''"

definition branch_pair ::
  "miniscript \<Rightarrow> string list \<Rightarrow> (public_descriptor \<times> public_descriptor) result" where
  "branch_pair M rows =
     (if length rows = 1
      then
        rbind (parse_public M (rows ! 0)) (\<lambda>d.
        rbind (policy_of d) (\<lambda>_.
        let canonical = show_body M d; key_count = length (descriptor_keys d) in
        if matches_count multipath canonical \<noteq> key_count \<or> key_count = 0 then Inl BranchMismatch
        else
          rbind (ok_or (parse_descriptor M (replace_all multipath ''/0/*'' canonical)) Descriptor) (\<lambda>r.
          rbind (ok_or (parse_descriptor M (replace_all multipath ''/1/*'' canonical)) Descriptor) (\<lambda>c.
          Inr (r, c)))))
      else
        rbind (parse_public M (rows ! 0)) (\<lambda>r.
        rbind (parse_public M (rows ! 1)) (\<lambda>c.
        Inr (r, c))))"

definition wallet_id_text :: "network \<Rightarrow> string \<Rightarrow> string \<Rightarrow> string" where
  "wallet_id_text network receive change =
     ''tundra:v1:'' @ network_key network @ '':'' @ receive @ '':'' @ change"

definition preview_pair ::
  "bitcoin \<Rightarrow> miniscript \<Rightarrow> ('w, 'cs) bdk \<Rightarrow> network \<Rightarrow> public_descriptor \<Rightarrow> public_descriptor \<Rightarrow>
   import_preview result" where
  "preview_pair B M W network receive change =
     rbind (policy_of receive) (\<lambda>p.
     rbind (policy_of change) (\<lambda>pc.
     rbind (if pc \<noteq> p then Inr True
            else rbind (identities B receive 0 network) (\<lambda>ir.
                 rbind (identities B change 1 network) (\<lambda>ic. Inr (ir \<noteq> ic)))) (\<lambda>mismatch.
     if mismatch then Inl BranchMismatch
     else
       rbind (canonical_descriptor M receive) (\<lambda>cr.
       rbind (canonical_descriptor M change) (\<lambda>cc.
       let rd = show_descriptor M cr; cd = show_descriptor M cc in
       rbind (ok_or (wallet_create W rd cd network) Descriptor) (\<lambda>w.
       Inr \<lparr>ip_id = sha256_text B (wallet_id_text network rd cd), ip_network = network, ip_policy = p,
            receive_descriptor = rd, change_descriptor = cd,
            first_address = peek_address W w External 0\<rparr>))))))"

definition preview_import ::
  "bitcoin \<Rightarrow> miniscript \<Rightarrow> ('w, 'cs) bdk \<Rightarrow> (string \<Rightarrow> json option) \<Rightarrow> string \<Rightarrow> network \<Rightarrow>
   import_preview result" where
  "preview_import B M W parse input network =
     rbind (input_descriptors parse input network) (\<lambda>rows.
     rbind (branch_pair M rows) (\<lambda>(receive, change).
     preview_pair B M W network receive change))"

section \<open>Label origins\<close>

definition key_origin :: "descriptor_key \<Rightarrow> (string \<times> child_number list) option" where
  "key_origin key = (case key of XPub x \<Rightarrow> xk_origin x | OtherKey _ \<Rightarrow> None)"

definition label_origin :: "bitcoin \<Rightarrow> public_descriptor \<Rightarrow> string result" where
  "label_origin B d =
     (let origins = sort (map (origin_text B) (List.map_filter key_origin (descriptor_keys d))) in
      rbind (policy_of d) (\<lambda>p.
      if p = SingleSig \<and> length origins = 1 then Inr (''wpkh('' @ origins ! 0 @ '')'')
      else if p = TwoOfThree \<and> length origins = 3
        then Inr (''wsh(sortedmulti(2,'' @ join '','' origins @ ''))'')
      else Inl CorruptState))"

text \<open>\<^verbatim>\<open>None\<close> is "not an origin this wallet could have".\<close>

definition normalize_origin_key :: "bitcoin \<Rightarrow> string \<Rightarrow> string option" where
  "normalize_origin_key B key =
     Option.bind (Option.bind (strip_prefix ''['' key) (strip_suffix '']'')) (\<lambda>key.
     Option.bind (split_once (CHR ''/'') key) (\<lambda>(fp, p).
     Option.bind (parse_fingerprint B fp) (\<lambda>fingerprint.
     Option.bind (parse_path B p) (\<lambda>path.
     if path = [] then None else Some (origin_text B (fingerprint, path))))))"

definition origin_body :: "string \<Rightarrow> (string \<times> bool) option" where
  "origin_body input =
     (case Option.bind (strip_prefix ''wpkh('' input) (strip_suffix '')'') of
        Some body \<Rightarrow> Some (body, False)
      | None \<Rightarrow>
          map_option (\<lambda>body. (body, True))
            (Option.bind (strip_prefix ''wsh(sortedmulti(2,'' input) (strip_suffix ''))'')))"

definition normalize_label_origin :: "bitcoin \<Rightarrow> string \<Rightarrow> string option" where
  "normalize_label_origin B input =
     (if 1024 < length input \<or> has_whitespace input then None
      else Option.bind (origin_body input) (\<lambda>(body, multi).
        Option.bind (those (map (normalize_origin_key B) (split_on (CHR '','') body))) (\<lambda>keys.
        let origins = sort keys in
        if \<not> distinct origins then None
        else if \<not> multi \<and> length origins = 1 then Some (''wpkh('' @ origins ! 0 @ '')'')
        else if multi \<and> length origins = 3
          then Some (''wsh(sortedmulti(2,'' @ join '','' origins @ ''))'')
        else None)))"

section \<open>What an accepted import is\<close>

text \<open>
  A key the import accepts on a branch: public, with an origin as deep as the key, of the right
  network, with one unhardened range under that branch.
\<close>

definition account_key :: "nat \<Rightarrow> network \<Rightarrow> descriptor_key \<Rightarrow> bool" where
  "account_key branch network key =
     (case key of
        OtherKey _ \<Rightarrow> False
      | XPub x \<Rightarrow>
          (case xk_origin x of
             None \<Rightarrow> False
           | Some (fp, path) \<Rightarrow>
               xk_mainnet x = is_mainnet network \<and> xk_wildcard x = UnhardenedWildcard
               \<and> xk_path x = [Normal branch] \<and> path \<noteq> [] \<and> xk_depth x = length path))"

definition key_xpub :: "descriptor_key \<Rightarrow> xpub" where
  "key_xpub key = (case key of XPub x \<Rightarrow> x | OtherKey _ \<Rightarrow> undefined)"

definition key_fingerprint :: "descriptor_key \<Rightarrow> string" where
  "key_fingerprint key = fst (the (xk_origin (key_xpub key)))"

definition key_identity :: "bitcoin \<Rightarrow> descriptor_key \<Rightarrow> string" where
  "key_identity B key = identity_text B (the (xk_origin (key_xpub key))) (key_xpub key)"

definition account_keys :: "nat \<Rightarrow> network \<Rightarrow> descriptor_key list \<Rightarrow> bool" where
  "account_keys branch network ks \<longleftrightarrow>
     list_all (account_key branch network) ks
     \<and> distinct (map (key_material \<circ> key_xpub) ks) \<and> distinct (map key_fingerprint ks)"

lemma identity_step_Inr:
  "identity_step B branch network key (ids, ms, fps) = Inr t \<longleftrightarrow>
     account_key branch network key
     \<and> key_material (key_xpub key) \<notin> set ms \<and> key_fingerprint key \<notin> set fps
     \<and> t = (ids @ [key_identity B key], key_material (key_xpub key) # ms, key_fingerprint key # fps)"
  by (auto simp: identity_step_def account_key_def key_xpub_def key_fingerprint_def key_identity_def
      List.member_iff split: descriptor_key.splits option.splits prod.splits)

lemma identity_steps:
  "rfold (identity_step B branch network) ks (ids, ms, fps) = Inr t \<longleftrightarrow>
     account_keys branch network ks
     \<and> set (map (key_material \<circ> key_xpub) ks) \<inter> set ms = {}
     \<and> set (map key_fingerprint ks) \<inter> set fps = {}
     \<and> t = (ids @ map (key_identity B) ks, rev (map (key_material \<circ> key_xpub) ks) @ ms,
            rev (map key_fingerprint ks) @ fps)"
proof (induction ks arbitrary: ids ms fps)
  case (Cons k ks)
  show ?case
    unfolding rfold.simps rbind_Inr_iff identity_step_Inr
    by (auto simp: Cons.IH account_keys_def)
qed (auto simp: account_keys_def)

lemma identities_Inr_iff:
  "identities B d branch network = Inr ids \<longleftrightarrow>
     account_keys branch network (descriptor_keys d)
     \<and> ids = sort (map (key_identity B) (descriptor_keys d))"
  by (auto simp: identities_def result_simps identity_steps)

lemma preview_pair_Inr:
  "preview_pair B M W network r c = Inr p \<longleftrightarrow>
     (\<exists>cr cc w. policy_of r = Inr (ip_policy p) \<and> policy_of c = Inr (ip_policy p)
        \<and> account_keys 0 network (descriptor_keys r) \<and> account_keys 1 network (descriptor_keys c)
        \<and> sort (map (key_identity B) (descriptor_keys r)) = sort (map (key_identity B) (descriptor_keys c))
        \<and> canonical_descriptor M r = Inr cr \<and> canonical_descriptor M c = Inr cc
        \<and> wallet_create W (show_descriptor M cr) (show_descriptor M cc) network = Some w
        \<and> p = \<lparr>ip_id = sha256_text B (wallet_id_text network (show_descriptor M cr) (show_descriptor M cc)),
               ip_network = network, ip_policy = ip_policy p,
               receive_descriptor = show_descriptor M cr, change_descriptor = show_descriptor M cc,
               first_address = peek_address W w External 0\<rparr>)"
  unfolding preview_pair_def Let_def
  by (cases p) (auto simp: result_simps identities_Inr_iff)

lemma policy_key_count:
  "policy_of d = Inr p \<Longrightarrow> length (descriptor_keys d) = (case p of SingleSig \<Rightarrow> 1 | TwoOfThree \<Rightarrow> 3)"
  by (cases d rule: policy_of.cases) (auto split: if_splits)

definition sample_pair :: string where
  "sample_pair = ''wsh(a,b,c/0)#00000000'' @ [CHR 0x0A] @ ''wsh(c,a,b/1)#00000000''"

text \<open>
  C26. Every wallet that can be imported is over public account keys only: one for single-sig,
  three for the 2-of-3 multisig, on the wallet's own network, each with a master fingerprint and
  an origin path as deep as the key, all with different key material and different
  fingerprints; receive is branch 0, change is branch 1, of the same policy over the same keys.
\<close>

theorem preview_import_sound:
  assumes "preview_import B M W parse input network = Inr p"
  shows "\<exists>rows r c. input_descriptors parse input network = Inr rows \<and> branch_pair M rows = Inr (r, c)
    \<and> ip_network p = network
    \<and> policy_of r = Inr (ip_policy p) \<and> policy_of c = Inr (ip_policy p)
    \<and> length (descriptor_keys r) = (case ip_policy p of SingleSig \<Rightarrow> 1 | TwoOfThree \<Rightarrow> 3)
    \<and> account_keys 0 network (descriptor_keys r) \<and> account_keys 1 network (descriptor_keys c)
    \<and> mset (map (key_identity B) (descriptor_keys r)) = mset (map (key_identity B) (descriptor_keys c))"
proof -
  obtain rows r c where rows: "input_descriptors parse input network = Inr rows"
    "branch_pair M rows = Inr (r, c)" and pair: "preview_pair B M W network r c = Inr p"
    using assms by (auto simp: preview_import_def result_simps)
  obtain cr cc w where p: "policy_of r = Inr (ip_policy p)" "policy_of c = Inr (ip_policy p)"
      "account_keys 0 network (descriptor_keys r)" "account_keys 1 network (descriptor_keys c)"
    and ids: "sort (map (key_identity B) (descriptor_keys r)) = sort (map (key_identity B) (descriptor_keys c))"
    and net: "p = \<lparr>ip_id = sha256_text B (wallet_id_text network (show_descriptor M cr) (show_descriptor M cc)),
               ip_network = network, ip_policy = ip_policy p,
               receive_descriptor = show_descriptor M cr, change_descriptor = show_descriptor M cc,
               first_address = peek_address W w External 0\<rparr>"
    using pair unfolding preview_pair_Inr by blast
  have "mset (map (key_identity B) (descriptor_keys r)) = mset (map (key_identity B) (descriptor_keys c))"
    using ids by (metis mset_sort)
  moreover have "ip_network p = network" by (subst net) simp
  ultimately show ?thesis using rows p policy_key_count [OF p(1)] by blast
qed

lemma sample_identities:
  "identities sample_bitcoin (sample_multisig [''a'', ''b'', ''c''] 0) 0 Signet
     = Inr [''[a/84h]a'', ''[b/84h]b'', ''[c/84h]c'']"
  "identities sample_bitcoin (sample_multisig [''c'', ''a'', ''b''] 1) 1 Signet
     = Inr [''[a/84h]a'', ''[b/84h]b'', ''[c/84h]c'']"
  by (simp_all add: identities_def identity_step_def sample_multisig_def sample_xpub_def is_mainnet_def
      key_material_def identity_text_def origin_text_def List.member_iff)

lemma sample_canonical:
  "canonical_descriptor sample_miniscript (sample_multisig [''a'', ''b'', ''c''] n)
     = Inr (sample_multisig [''a'', ''b'', ''c''] n)"
  "canonical_descriptor sample_miniscript (sample_multisig [''c'', ''a'', ''b''] n)
     = Inr (sample_multisig [''a'', ''b'', ''c''] n)"
  by (simp_all add: sample_multisig_def sample_xpub_def)

definition sample_preview :: import_preview where
  "sample_preview = \<lparr>ip_id = ''tundra:v1:signet:abc:abc'', ip_network = Signet,
     ip_policy = TwoOfThree, receive_descriptor = ''abc'', change_descriptor = ''abc'',
     first_address = ''tb1a''\<rparr>"

lemma sample_preview_pair:
  "preview_pair sample_bitcoin sample_miniscript sample_bdk Signet
     (sample_multisig [''a'', ''b'', ''c''] 0) (sample_multisig [''c'', ''a'', ''b''] 1) = Inr sample_preview"
proof -
  have "policy_of (sample_multisig [x, y, z] n) = Inr TwoOfThree" for x y z n
    by (simp add: sample_multisig_def)
  moreover have "show_descriptor sample_miniscript (sample_multisig [''a'', ''b'', ''c''] n) = ''abc''" for n
    by (simp add: sample_show_def sample_multisig_def sample_xpub_def)
  ultimately show ?thesis
    by (simp add: preview_pair_def sample_identities sample_canonical sample_preview_def
        wallet_id_text_def Let_def del: One_nat_def)
qed

lemma sample_rows:
  "input_descriptors (\<lambda>_. None) sample_pair Signet
     = Inr [''wsh(a,b,c/0)#00000000'', ''wsh(c,a,b/1)#00000000'']"
  by (simp add: input_descriptors_def MAX_DESCRIPTOR_BYTES_def lines_def sample_pair_def strip_cr_def
      trim_plain starts_with_def utf8_bom_def)

lemma sample_branches:
  "branch_pair sample_miniscript [''wsh(a,b,c/0)#00000000'', ''wsh(c,a,b/1)#00000000'']
     = Inr (sample_multisig [''a'', ''b'', ''c''] 0, sample_multisig [''c'', ''a'', ''b''] 1)"
  by (simp add: branch_pair_def parse_public_def trim_plain MAX_DESCRIPTOR_BYTES_def is_ascii_def
      )

lemma sample_preview_import:
  "preview_import sample_bitcoin sample_miniscript sample_bdk (\<lambda>_. None) sample_pair Signet = Inr sample_preview"
  by (simp add: preview_import_def sample_rows sample_branches sample_preview_pair del: One_nat_def)

theorem preview_import_sound_witness:
  "\<exists>rows r c. input_descriptors (\<lambda>_. None) sample_pair Signet = Inr rows
     \<and> branch_pair sample_miniscript rows = Inr (r, c) \<and> policy_of r = Inr TwoOfThree
     \<and> policy_of c = Inr TwoOfThree
     \<and> account_keys 0 Signet (descriptor_keys r)"
  using preview_import_sound [OF sample_preview_import] by (simp add: sample_preview_def) blast

section \<open>Key order\<close>

lemma sort_mset: "mset xs = mset ys \<Longrightarrow> sort xs = sort ys"
  by (metis sorted_list_of_multiset_mset)

lemma sort_key_mset:
  assumes "mset xs = mset ys" and "inj_on f (set xs)"
  shows "sort_key f xs = sort_key f ys"
proof -
  have "map f (sort_key f zs) = sort (map f zs)" for zs
    by (rule properties_for_sort [symmetric]) simp_all
  moreover have "mset (map f xs) = mset (map f ys)" using assms(1) by simp
  ultimately have "map f (sort_key f xs) = map f (sort_key f ys)" by (metis sort_mset)
  then show ?thesis
    using assms mset_eq_setD [OF assms(1)] by (simp add: inj_on_def map_inj_on)
qed

lemma account_keys_mset:
  assumes "mset ks = mset ks'"
  shows "account_keys branch network ks = account_keys branch network ks'"
proof -
  have "distinct (map g ks) = distinct (map g ks')" for g :: "descriptor_key \<Rightarrow> string"
    using assms by (metis mset_eq_imp_distinct_iff mset_map)
  then show ?thesis using mset_eq_setD [OF assms] by (simp add: account_keys_def list_all_iff)
qed

text \<open>The same multisig, up to the order of its keys.\<close>

fun reordered :: "public_descriptor \<Rightarrow> public_descriptor \<Rightarrow> bool" where
  "reordered (Wsh (SortedMulti k ks)) (Wsh (SortedMulti k' ks')) = (k = k' \<and> mset ks = mset ks')"
| "reordered d d' = (d = d')"

lemma reordered_keys: "reordered d d' \<Longrightarrow> mset (descriptor_keys d) = mset (descriptor_keys d')"
  by (cases "(d, d')" rule: reordered.cases) auto

lemma reordered_policy: "reordered d d' \<Longrightarrow> policy_of d = policy_of d'"
  by (cases "(d, d')" rule: reordered.cases) (auto dest: mset_eq_length)

lemma reordered_canonical:
  assumes "reordered d d'" and "inj_on (key_rank M) (set (descriptor_keys d))"
  shows "canonical_descriptor M d = canonical_descriptor M d'"
  using assms
  by (cases "(d, d')" rule: reordered.cases) (auto dest: sort_key_mset)

text \<open>
  The order in which a coordinator writes the keys of a multisig never matters: with the keys
  of receive and of change in any other order, the import is accepted all the same, with the same
  wallet id, the same stored descriptors and the same first address, so it cannot become a second
  wallet. The hypothesis is that the library's order tells the keys apart.
\<close>

theorem preview_key_order:
  assumes "preview_pair B M W network r c = Inr p"
    and "reordered r r'" and "reordered c c'"
    and "inj_on (key_rank M) (set (descriptor_keys r))" "inj_on (key_rank M) (set (descriptor_keys c))"
  shows "preview_pair B M W network r' c' = Inr p"
proof -
  have ids: "sort (map (key_identity B) (descriptor_keys d)) = sort (map (key_identity B) (descriptor_keys d'))"
    if "reordered d d'" for d d'
    using reordered_keys [OF that] by (intro sort_mset) (simp add: mset_map)
  note same = reordered_policy [OF assms(2), symmetric] reordered_policy [OF assms(3), symmetric]
    account_keys_mset [OF reordered_keys [OF assms(2)], symmetric]
    account_keys_mset [OF reordered_keys [OF assms(3)], symmetric]
    reordered_canonical [OF assms(2,4), symmetric] reordered_canonical [OF assms(3,5), symmetric]
    ids [OF assms(2), symmetric] ids [OF assms(3), symmetric]
  show ?thesis using assms(1) unfolding preview_pair_Inr same .
qed

theorem preview_key_order_witness:
  "preview_pair sample_bitcoin sample_miniscript sample_bdk Signet
     (sample_multisig [''c'', ''b'', ''a''] 0) (sample_multisig [''b'', ''a'', ''c''] 1) = Inr sample_preview"
proof (rule preview_key_order [OF sample_preview_pair])
  show "reordered (sample_multisig [''a'', ''b'', ''c''] 0) (sample_multisig [''c'', ''b'', ''a''] 0)"
    "reordered (sample_multisig [''c'', ''a'', ''b''] 1) (sample_multisig [''b'', ''a'', ''c''] 1)"
    by (simp_all add: sample_multisig_def add_mset_commute)
  show "inj_on (key_rank sample_miniscript) (set (descriptor_keys (sample_multisig [''a'', ''b'', ''c''] 0)))"
    "inj_on (key_rank sample_miniscript) (set (descriptor_keys (sample_multisig [''c'', ''a'', ''b''] 1)))"
    by (simp_all add: sample_multisig_def sample_xpub_def)
qed

section \<open>Label origins\<close>

definition plain :: "string \<Rightarrow> bool" where
  "plain s = list_all (\<lambda>c. 32 < code c \<and> code c < 128) s"

lemma plain_simps [simp]:
  "plain []" "plain (c # s) \<longleftrightarrow> 32 < code c \<and> code c < 128 \<and> plain s"
  "plain (s @ t) \<longleftrightarrow> plain s \<and> plain t"
  by (simp_all add: plain_def)

lemma has_whitespace_plain: "plain s \<Longrightarrow> \<not> has_whitespace s"
  by (induction s) (auto split: list.splits)

lemma plain_join: "plain sep \<Longrightarrow> list_all plain xs \<Longrightarrow> plain (join sep xs)"
  by (induction sep xs rule: join.induct) auto

lemma split_on_join:
  "xs \<noteq> [] \<Longrightarrow> list_all (\<lambda>x. c \<notin> set x) xs \<Longrightarrow> split_on c (join [c] xs) = xs"
proof (induction "[c]" xs rule: join.induct)
  case (3 x y ys)
  then show ?case by (simp add: split_on_append_sep)
qed (simp_all add: split_on_no_sep)

text \<open>
  An origin whose texts the library reads back, and which have none of the characters the label
  origin is punctuated with (a fingerprint is eight hexadecimal digits, a path digits, quotes and
  slashes).
\<close>

definition readable_origin :: "bitcoin \<Rightarrow> string \<times> child_number list \<Rightarrow> bool" where
  "readable_origin B og \<longleftrightarrow>
     parse_fingerprint B (fst og) = Some (fst og) \<and> parse_path B (show_path B (snd og)) = Some (snd og)
     \<and> snd og \<noteq> [] \<and> plain (fst og) \<and> plain (show_path B (snd og))
     \<and> CHR ''/'' \<notin> set (fst og) \<and> CHR '','' \<notin> set (fst og @ show_path B (snd og))"

lemma normalize_origin_key_text:
  assumes "readable_origin B og"
  shows "normalize_origin_key B (origin_text B og) = Some (origin_text B og)"
proof -
  have "strip_prefix ''['' (origin_text B og) = Some (fst og @ ''/'' @ show_path B (snd og) @ '']'')"
    by (simp add: strip_prefix_Some_iff origin_text_def)
  moreover have "strip_suffix '']'' (fst og @ ''/'' @ show_path B (snd og) @ '']'')
      = Some (fst og @ CHR ''/'' # show_path B (snd og))"
    by (simp add: strip_suffix_Some_iff)
  moreover have "split_once (CHR ''/'') (fst og @ CHR ''/'' # show_path B (snd og))
      = Some (fst og, show_path B (snd og))"
    using assms by (simp add: split_once_Some_iff readable_origin_def)
  ultimately show ?thesis using assms by (simp add: normalize_origin_key_def readable_origin_def)
qed

lemma those_Some: "(\<And>x. x \<in> set xs \<Longrightarrow> f x = Some (g x)) \<Longrightarrow> those (map f xs) = Some (map g xs)"
  by (induction xs) auto

lemma origin_text_plain:
  "readable_origin B og \<Longrightarrow> plain (origin_text B og) \<and> CHR '','' \<notin> set (origin_text B og)"
  by (auto simp: readable_origin_def origin_text_def)

lemma label_origin_Inr:
  assumes "label_origin B d = Inr t"
  obtains og where "sort (map (origin_text B) (List.map_filter key_origin (descriptor_keys d))) = [og]"
      "t = ''wpkh('' @ og @ '')''"
  | xs where "sort (map (origin_text B) (List.map_filter key_origin (descriptor_keys d))) = xs"
      "length xs = 3" "t = ''wsh(sortedmulti(2,'' @ join '','' xs @ ''))''"
proof -
  define xs where "xs = sort (map (origin_text B) (List.map_filter key_origin (descriptor_keys d)))"
  have "length xs = 1 \<and> t = ''wpkh('' @ xs ! 0 @ '')''
      \<or> length xs = 3 \<and> t = ''wsh(sortedmulti(2,'' @ join '','' xs @ ''))''"
    using assms by (auto simp: label_origin_def Let_def xs_def [symmetric] result_simps split: if_splits)
  then show thesis using that xs_def by (auto simp: length_Suc_conv)
qed

lemma origin_body_single: "origin_body (''wpkh('' @ b @ '')'') = Some (b, False)"
proof -
  have "strip_prefix ''wpkh('' (''wpkh('' @ b @ '')'') = Some (b @ '')'')"
    by (simp only: strip_prefix_Some_iff)
  moreover have "strip_suffix '')'' (b @ '')'') = Some b" by (simp only: strip_suffix_Some_iff)
  ultimately show ?thesis by (simp add: origin_body_def)
qed

lemma origin_body_multi: "origin_body (''wsh(sortedmulti(2,'' @ b @ ''))'') = Some (b, True)"
proof -
  have "strip_prefix ''wsh(sortedmulti(2,'' (''wsh(sortedmulti(2,'' @ b @ ''))'') = Some (b @ ''))'')"
    by (simp only: strip_prefix_Some_iff)
  moreover have "strip_suffix ''))'' (b @ ''))'') = Some b" by (simp only: strip_suffix_Some_iff)
  ultimately show ?thesis by (simp add: origin_body_def)
qed

lemma normalize_origins:
  assumes "list_all (readable_origin B) ogs" and "xs = sort (map (origin_text B) ogs)" and "xs \<noteq> []"
  shows "those (map (normalize_origin_key B) (split_on (CHR '','') (join '','' xs))) = Some xs"
    and "plain (join '','' xs)"
proof -
  have each: "\<exists>og \<in> set ogs. x = origin_text B og \<and> readable_origin B og" if "x \<in> set xs" for x
    using that assms(1) by (auto simp: assms(2) list_all_iff)
  have "split_on (CHR '','') (join '','' xs) = xs"
    using assms(3) each origin_text_plain by (intro split_on_join) (fastforce simp: list_all_iff)+
  moreover have "those (map (normalize_origin_key B) xs) = Some (map (\<lambda>x. x) xs)"
    using each normalize_origin_key_text by (intro those_Some) metis
  ultimately show "those (map (normalize_origin_key B) (split_on (CHR '','') (join '','' xs))) = Some xs"
    by simp
  show "plain (join '','' xs)"
    using each origin_text_plain by (intro plain_join) (fastforce simp: list_all_iff)+
qed

text \<open>
  The origin that the core writes into its label export is one that it recognises: normalizing
  it on import gives the wallet's own origin back, so exported labels are matched again.
\<close>

theorem label_origin_recognised:
  assumes "label_origin B d = Inr t" and "length t \<le> 1024"
    and "list_all (readable_origin B) (List.map_filter key_origin (descriptor_keys d))"
    and "distinct (map (origin_text B) (List.map_filter key_origin (descriptor_keys d)))"
  shows "normalize_label_origin B t = Some t"
proof -
  let ?xs = "sort (map (origin_text B) (List.map_filter key_origin (descriptor_keys d)))"
  note norm = normalize_origins [OF assms(3) refl]
  have dist: "distinct ?xs" "sort ?xs = ?xs" using assms(4) by (simp_all add: sort_key_id_if_sorted)
  show ?thesis
  proof (rule label_origin_Inr [OF assms(1)])
    fix og assume xs: "?xs = [og]" and t: "t = ''wpkh('' @ og @ '')''"
    have body: "origin_body t = Some (og, False)" unfolding t by (rule origin_body_single)
    have "\<not> has_whitespace t" using norm(2) xs by (intro has_whitespace_plain) (simp add: t)
    then show ?thesis
      using norm(1) assms(2) xs body by (simp add: normalize_label_origin_def t [symmetric])
        (simp add: t)
  next
    fix xs assume xs: "?xs = xs" "length xs = 3" and t: "t = ''wsh(sortedmulti(2,'' @ join '','' xs @ ''))''"
    have ne: "?xs \<noteq> []" using xs by auto
    have body: "origin_body t = Some (join '','' xs, True)" unfolding t by (rule origin_body_multi)
    have "\<not> has_whitespace t" using norm(2) [OF ne] xs by (intro has_whitespace_plain) (simp add: t)
    then show ?thesis
      using norm(1) [OF ne] assms(2) xs body dist by (simp add: normalize_label_origin_def)
        (simp add: t)
  qed
qed

theorem label_origin_recognised_witness:
  "normalize_label_origin sample_bitcoin ''wsh(sortedmulti(2,[a/84h],[b/84h],[c/84h]))''
     = Some ''wsh(sortedmulti(2,[a/84h],[b/84h],[c/84h]))''"
proof (rule label_origin_recognised [where d = "sample_multisig [''a'', ''b'', ''c''] 0"])
  have keys: "List.map_filter key_origin (descriptor_keys (sample_multisig [''a'', ''b'', ''c''] 0))
      = [(''a'', [Hardened 84]), (''b'', [Hardened 84]), (''c'', [Hardened 84])]"
    by (simp add: sample_multisig_def sample_xpub_def key_origin_def map_filter_simps)
  have texts: "map (origin_text sample_bitcoin) [(''a'', [Hardened 84]), (''b'', [Hardened 84]), (''c'', [Hardened 84])]
      = [''[a/84h]'', ''[b/84h]'', ''[c/84h]'']"
    by (simp add: origin_text_def )
  have "policy_of (sample_multisig [''a'', ''b'', ''c''] 0) = Inr TwoOfThree" by (simp add: sample_multisig_def)
  then show "label_origin sample_bitcoin (sample_multisig [''a'', ''b'', ''c''] 0)
      = Inr ''wsh(sortedmulti(2,[a/84h],[b/84h],[c/84h]))''"
    unfolding label_origin_def keys texts by simp
  show "length ''wsh(sortedmulti(2,[a/84h],[b/84h],[c/84h]))'' \<le> 1024" by simp
  show "list_all (readable_origin sample_bitcoin)
      (List.map_filter key_origin (descriptor_keys (sample_multisig [''a'', ''b'', ''c''] 0)))"
    unfolding keys by (simp add: readable_origin_def )
  show "distinct (map (origin_text sample_bitcoin)
      (List.map_filter key_origin (descriptor_keys (sample_multisig [''a'', ''b'', ''c''] 0))))"
    unfolding keys texts by simp
qed

end
