(* ===== verification/Response.thy ===== *)
theory Response
  imports Sample
begin

text \<open>
  The first part of \<^verbatim>\<open>crates/tundra-core/src/signing.rs\<close>: reading a signing response. Every length
  is checked before the dependency's parser sees the bytes. Compact sizes, base64 and the PSBT
  parser are parameters (\<open>psbt_codec\<close>); the framing of maps and the shape of the unsigned
  transaction are the core's own code.
\<close>

definition MAX_PSBT_BYTES :: nat where
  "MAX_PSBT_BYTES = 1048576"

definition MAX_PSBT_FILE_BYTES :: nat where
  "MAX_PSBT_FILE_BYTES = div_ceil MAX_PSBT_BYTES 3 * 4 + 2"

definition MAX_INPUTS :: nat where
  "MAX_INPUTS = 200"

definition MAX_OUTPUTS :: nat where
  "MAX_OUTPUTS = 400"

definition invalid_response :: error where
  "invalid_response = InvalidInput ''invalid or unsupported signing response''"

definition mismatch_response :: error where
  "mismatch_response = InvalidInput ''signing response does not match the approved draft''"

text \<open>\<^verbatim>\<open>take\<close> and \<^verbatim>\<open>count\<close> advance a cursor: the value and the rest.\<close>

definition take_bytes :: "byte list \<Rightarrow> nat \<Rightarrow> (byte list \<times> byte list) result" where
  "take_bytes bytes n =
     (if length bytes < n then Inl invalid_response else Inr (take n bytes, drop n bytes))"

definition read_count :: "psbt_codec \<Rightarrow> byte list \<Rightarrow> (nat \<times> byte list) result" where
  "read_count C bytes = ok_or (var_int C bytes) invalid_response"

definition shape_input :: "psbt_codec \<Rightarrow> nat \<Rightarrow> byte list \<Rightarrow> byte list result" where
  "shape_input C _ bytes =
     rbind (take_bytes bytes 36) (\<lambda>(_, bytes).
     rbind (read_count C bytes) (\<lambda>(n, bytes).
     if n \<noteq> 0 then Inl invalid_response
     else rbind (take_bytes bytes 4) (\<lambda>(_, bytes). Inr bytes)))"

definition shape_output :: "psbt_codec \<Rightarrow> nat \<Rightarrow> byte list \<Rightarrow> byte list result" where
  "shape_output C _ bytes =
     rbind (take_bytes bytes 8) (\<lambda>(_, bytes).
     rbind (read_count C bytes) (\<lambda>(size, bytes).
     if 10000 < size then Inl invalid_response
     else rbind (take_bytes bytes size) (\<lambda>(_, bytes). Inr bytes)))"

definition transaction_shape :: "psbt_codec \<Rightarrow> byte list \<Rightarrow> (nat \<times> nat) result" where
  "transaction_shape C bytes =
     rbind (take_bytes bytes 4) (\<lambda>(_, bytes).
     rbind (read_count C bytes) (\<lambda>(inputs, bytes).
     if \<not> (1 \<le> inputs \<and> inputs \<le> MAX_INPUTS) then Inl invalid_response
     else
       rbind (rfold (shape_input C) [0..<inputs] bytes) (\<lambda>bytes.
       rbind (read_count C bytes) (\<lambda>(outputs, bytes).
       if \<not> (1 \<le> outputs \<and> outputs \<le> MAX_OUTPUTS) then Inl invalid_response
       else
         rbind (rfold (shape_output C) [0..<outputs] bytes) (\<lambda>bytes.
         rbind (take_bytes bytes 4) (\<lambda>(_, bytes).
         if bytes \<noteq> [] then Inl invalid_response else Inr (inputs, outputs)))))))"

text \<open>
  The fields of one map. The first argument is the number of fields still allowed (64 at the
  start of a map); \<open>global\<close> is \<^verbatim>\<open>maps == 0\<close> and \<open>shape\<close> the shape found so far.
\<close>

definition field_step ::
  "psbt_codec \<Rightarrow> bool \<Rightarrow> nat \<Rightarrow> byte list \<Rightarrow> (nat \<times> nat) option \<Rightarrow>
   (byte list \<times> (nat \<times> nat) option) result" where
  "field_step C global key_len rest shape =
     rbind (take_bytes rest key_len) (\<lambda>(key, rest).
     rbind (read_count C rest) (\<lambda>(value_len, rest).
     rbind (take_bytes rest value_len) (\<lambda>(value, rest).
     if global \<and> key = [0]
     then (if shape \<noteq> None then Inl invalid_response
           else rbind (transaction_shape C value) (\<lambda>s. Inr (rest, Some s)))
     else Inr (rest, shape))))"

primrec map_fields ::
  "psbt_codec \<Rightarrow> bool \<Rightarrow> nat \<Rightarrow> byte list \<Rightarrow> (nat \<times> nat) option \<Rightarrow>
   (byte list \<times> (nat \<times> nat) option) result" where
  "map_fields C global 0 rest shape =
     rbind (read_count C rest) (\<lambda>(key_len, rest).
     if key_len = 0 then Inr (rest, shape) else Inl invalid_response)"
| "map_fields C global (Suc allowed) rest shape =
     rbind (read_count C rest) (\<lambda>(key_len, rest).
     if key_len = 0 then Inr (rest, shape)
     else if 256 < key_len then Inl invalid_response
     else
       rbind (field_step C global key_len rest shape) (\<lambda>(rest, shape).
       map_fields C global allowed rest shape))"

text \<open>
  The maps, counted. The loop rejects as soon as there are more maps than the transaction has
  inputs and outputs plus one, so that it runs at most \<open>1 + 200 + 400 + 1\<close> times: the fuel below
  is never used up (\<open>parse_maps_fuel\<close>).
\<close>

primrec parse_maps ::
  "psbt_codec \<Rightarrow> nat \<Rightarrow> nat \<Rightarrow> byte list \<Rightarrow> (nat \<times> nat) option \<Rightarrow>
   (nat \<times> (nat \<times> nat) option) result" where
  "parse_maps C 0 maps rest shape = Inl invalid_response"
| "parse_maps C (Suc fuel) maps rest shape =
     (if rest = [] then Inr (maps, shape)
      else
        rbind (map_fields C (maps = 0) 64 rest shape) (\<lambda>(rest, shape).
        rbind (ok_or shape invalid_response) (\<lambda>(inputs, outputs).
        if 1 + inputs + outputs < maps + 1 then Inl invalid_response
        else parse_maps C fuel (maps + 1) rest (Some (inputs, outputs)))))"

definition maps_fuel :: nat where
  "maps_fuel = 1 + MAX_INPUTS + MAX_OUTPUTS + 1"

definition response_bytes :: "psbt_codec \<Rightarrow> byte list \<Rightarrow> byte list result" where
  "response_bytes C payload =
     (if take 5 payload = psbt_magic then Inr payload
      else if \<not> utf8_valid (text_of payload) then Inl invalid_response
      else ok_or (base64_decode C (trim (text_of payload))) invalid_response)"

definition parse_response :: "psbt_codec \<Rightarrow> byte list \<Rightarrow> psbt result" where
  "parse_response C payload =
     (if MAX_PSBT_FILE_BYTES < length payload then Inl invalid_response
      else
        rbind (response_bytes C payload) (\<lambda>bytes.
        if MAX_PSBT_BYTES < length bytes \<or> take 5 bytes \<noteq> psbt_magic then Inl invalid_response
        else
          rbind (parse_maps C maps_fuel 0 (drop 5 bytes) None) (\<lambda>(maps, shape).
          rbind (ok_or shape invalid_response) (\<lambda>(inputs, outputs).
          if maps \<noteq> 1 + inputs + outputs then Inl invalid_response
          else
            rbind (ok_or (psbt_read C bytes) invalid_response) (\<lambda>(psbt, cursor).
            if cursor \<noteq> [] \<or> ps_version psbt \<noteq> 0 then Inl invalid_response else Inr psbt)))))"

section \<open>What is accepted\<close>

text \<open>The container format: a map is a list of fields, read from the bytes one after the other.\<close>

fun reads_fields :: "psbt_codec \<Rightarrow> byte list \<Rightarrow> (byte list \<times> byte list) list \<Rightarrow> byte list \<Rightarrow> bool" where
  "reads_fields C rest [] rest' = (var_int C rest = Some (0, rest'))"
| "reads_fields C rest ((key, value) # fs) rest' =
     (key \<noteq> [] \<and> (\<exists>r n r'. var_int C rest = Some (length key, key @ r)
        \<and> var_int C r = Some (n, value @ r') \<and> n = length value \<and> reads_fields C r' fs rest'))"

fun reads_maps :: "psbt_codec \<Rightarrow> byte list \<Rightarrow> (byte list \<times> byte list) list list \<Rightarrow> bool" where
  "reads_maps C rest [] = (rest = [])"
| "reads_maps C rest (m # ms) = (rest \<noteq> [] \<and> (\<exists>rest'. reads_fields C rest m rest' \<and> reads_maps C rest' ms))"

definition bounded_map :: "(byte list \<times> byte list) list \<Rightarrow> bool" where
  "bounded_map m \<longleftrightarrow> length m \<le> 64 \<and> list_all (\<lambda>(k, _). length k \<le> 256) m"

definition tx_fields :: "(byte list \<times> byte list) list \<Rightarrow> byte list list" where
  "tx_fields m = map snd (filter (\<lambda>(k, _). k = [0]) m)"

text \<open>The shape after the fields of a map, \<open>None\<close> if there is none yet; errors are refused.\<close>

fun shape_after :: "psbt_codec \<Rightarrow> bool \<Rightarrow> (byte list \<times> byte list) list \<Rightarrow> (nat \<times> nat) option \<Rightarrow>
    (nat \<times> nat) option \<Rightarrow> bool" where
  "shape_after C global m shape shape' =
     (if global \<and> tx_fields m \<noteq> []
      then shape = None \<and> length (tx_fields m) = 1
        \<and> (\<exists>s. shape' = Some s \<and> transaction_shape C (hd (tx_fields m)) = Inr s)
      else shape' = shape)"

lemma take_bytes_Inr [result_simps]:
  "take_bytes bytes n = Inr (a, r) \<longleftrightarrow> bytes = a @ r \<and> length a = n"
  by (auto simp: take_bytes_def)

lemma read_count_Inr [result_simps]: "read_count C bytes = Inr x \<longleftrightarrow> var_int C bytes = Some x"
  by (simp add: read_count_def result_simps)

lemma transaction_shape_bounds:
  assumes "transaction_shape C bytes = Inr (i, n)"
  shows "1 \<le> i \<and> i \<le> 200 \<and> 1 \<le> n \<and> n \<le> 400"
  using assms by (auto simp: transaction_shape_def result_simps MAX_INPUTS_def MAX_OUTPUTS_def)

lemma tx_fields_simps:
  "tx_fields [] = []" "tx_fields ((k, v) # m) = (if k = [0] then v # tx_fields m else tx_fields m)"
  by (auto simp: tx_fields_def)

lemma field_step_Inr:
  "field_step C global n rest shape = Inr (rest', shape') \<longleftrightarrow>
     (\<exists>key value r. rest = key @ r \<and> length key = n \<and> var_int C r = Some (length value, value @ rest')
        \<and> shape_after C global [(key, value)] shape shape')"
proof -
  have fin: "(if global \<and> k = [0]
      then (if shape \<noteq> None then Inl invalid_response
            else rbind (transaction_shape C v) (\<lambda>s. Inr (r, Some s)))
      else Inr (r, shape)) = Inr (rest', shape')
      \<longleftrightarrow> r = rest' \<and> shape_after C global [(k, v)] shape shape'" for k v r
    by (cases shape) (auto simp: tx_fields_simps result_simps)
  show ?thesis
    unfolding field_step_def rbind_Inr_iff split_paired_Ex prod.case take_bytes_Inr read_count_Inr fin
    by (rule iffI; elim exE conjE; hypsubst; intro exI conjI; (rule refl | assumption))
qed

lemma shape_after_Cons:
  "(\<exists>t. shape_after C global [(k, v)] s t \<and> shape_after C global m t u)
     \<longleftrightarrow> shape_after C global ((k, v) # m) s u"
  by (auto simp: tx_fields_simps)

lemma ex_fields: "(\<exists>m. Q m) \<longleftrightarrow> Q [] \<or> (\<exists>k v m. Q ((k, v) # m))" for Q :: "('a \<times> 'b) list \<Rightarrow> bool"
  by (metis list.exhaust surj_pair)

lemma map_fields_Inr:
  "map_fields C global allowed rest shape = Inr (rest', shape') \<longleftrightarrow>
     (\<exists>m. reads_fields C rest m rest' \<and> length m \<le> allowed \<and> list_all (\<lambda>(k, _). length k \<le> 256) m
        \<and> shape_after C global m shape shape')"
proof (induction allowed arbitrary: rest shape)
  case 0
  have "map_fields C global 0 rest shape = Inr (rest', shape')
      \<longleftrightarrow> var_int C rest = Some (0, rest') \<and> shape' = shape"
    by (auto simp: result_simps split: if_splits)
  then show ?case by (auto simp: tx_fields_simps)
next
  case (Suc allowed)
  have "map_fields C global (Suc allowed) rest shape = Inr (rest', shape') \<longleftrightarrow>
      (var_int C rest = Some (0, rest') \<and> shape' = shape)
      \<or> (\<exists>n r r' t. var_int C rest = Some (n, r) \<and> n \<noteq> 0 \<and> n \<le> 256
          \<and> field_step C global n r shape = Inr (r', t)
          \<and> map_fields C global allowed r' t = Inr (rest', shape'))"
    unfolding map_fields.simps rbind_Inr_iff split_paired_Ex prod.case read_count_Inr
    by (cases "var_int C rest") (auto simp: result_simps not_less)
  also have "\<dots> \<longleftrightarrow> (var_int C rest = Some (0, rest') \<and> shape' = shape)
      \<or> (\<exists>k v m r r'. var_int C rest = Some (length k, k @ r) \<and> k \<noteq> [] \<and> length k \<le> 256
          \<and> var_int C r = Some (length v, v @ r') \<and> reads_fields C r' m rest' \<and> length m \<le> allowed
          \<and> list_all (\<lambda>(k, _). length k \<le> 256) m
          \<and> (\<exists>t. shape_after C global [(k, v)] shape t \<and> shape_after C global m t shape'))"
    unfolding Suc.IH field_step_Inr length_0_conv [symmetric] by blast
  also have "\<dots> \<longleftrightarrow> (var_int C rest = Some (0, rest') \<and> shape' = shape)
      \<or> (\<exists>k v m. reads_fields C rest ((k, v) # m) rest' \<and> length ((k, v) # m) \<le> Suc allowed
          \<and> list_all (\<lambda>(k, _). length k \<le> 256) ((k, v) # m)
          \<and> shape_after C global ((k, v) # m) shape shape')"
    unfolding shape_after_Cons reads_fields.simps list.pred_inject prod.case list.size add_Suc_right
      add_0_right Suc_le_mono by blast
  also have "\<dots> \<longleftrightarrow> (\<exists>m. reads_fields C rest m rest' \<and> length m \<le> Suc allowed
      \<and> list_all (\<lambda>(k, _). length k \<le> 256) m \<and> shape_after C global m shape shape')"
    by (subst (2) ex_fields) (simp add: tx_fields_simps)
  finally show ?case .
qed

lemma ex_maps: "(\<exists>m. Q m) \<longleftrightarrow> Q [] \<or> (\<exists>k m. Q (k # m))" for Q :: "'a list \<Rightarrow> bool"
  by (metis list.exhaust)

lemma bounded_map_iff: "bounded_map m \<longleftrightarrow> length m \<le> 64 \<and> list_all (\<lambda>(k, _). length k \<le> 256) m"
  by (simp add: bounded_map_def)

lemma parse_later_maps:
  "0 < k \<Longrightarrow> parse_maps C fuel k rest (Some (i, n)) = Inr (maps, shape) \<longleftrightarrow>
     (\<exists>ms. reads_maps C rest ms \<and> length ms < fuel \<and> list_all bounded_map ms
        \<and> maps = k + length ms \<and> (ms \<noteq> [] \<longrightarrow> maps \<le> 1 + i + n) \<and> shape = Some (i, n))"
proof (induction fuel arbitrary: k rest)
  case (Suc fuel)
  show ?case
  proof (cases "rest = []")
    case True
    then show ?thesis by (subst ex_maps) auto
  next
    case False
    have "parse_maps C (Suc fuel) k rest (Some (i, n)) = Inr (maps, shape) \<longleftrightarrow>
        (\<exists>r m. reads_fields C rest m r \<and> bounded_map m \<and> \<not> 1 + i + n < k + 1
           \<and> parse_maps C fuel (k + 1) r (Some (i, n)) = Inr (maps, shape))"
      using False Suc.prems
      by (auto simp: result_simps map_fields_Inr bounded_map_iff split_paired_Ex simp del: tx_fields_simps)
    also have "\<dots> \<longleftrightarrow> (\<exists>m ms. reads_maps C rest (m # ms) \<and> length (m # ms) < Suc fuel
        \<and> list_all bounded_map (m # ms) \<and> maps = k + length (m # ms) \<and> maps \<le> 1 + i + n
        \<and> shape = Some (i, n))"
      using False by (subst Suc.IH) (auto, blast)
    finally show ?thesis using False by (subst ex_maps) simp
  qed
qed simp

lemma shape_after_first:
  "shape_after C True m None (Some s) \<longleftrightarrow> (\<exists>tx. tx_fields m = [tx] \<and> transaction_shape C tx = Inr s)"
  by (cases "tx_fields m") auto

lemma parse_first_map:
  "parse_maps C (Suc fuel) 0 rest None = Inr (maps, Some (i, n)) \<longleftrightarrow>
     (\<exists>m ms tx. reads_maps C rest (m # ms) \<and> list_all bounded_map (m # ms) \<and> length ms < fuel
        \<and> tx_fields m = [tx] \<and> transaction_shape C tx = Inr (i, n)
        \<and> maps = Suc (length ms) \<and> maps \<le> 1 + i + n)"
proof (cases "rest = []")
  case False
  have "parse_maps C (Suc fuel) 0 rest None = Inr (maps, Some (i, n)) \<longleftrightarrow>
      (\<exists>r m i' n'. reads_fields C rest m r \<and> bounded_map m \<and> shape_after C True m None (Some (i', n'))
         \<and> parse_maps C fuel 1 r (Some (i', n')) = Inr (maps, Some (i, n)))"
    using False
    by (auto simp: result_simps map_fields_Inr bounded_map_iff split_paired_Ex simp del: shape_after.simps)
  also have "\<dots> \<longleftrightarrow> (\<exists>m ms. reads_maps C rest (m # ms) \<and> list_all bounded_map (m # ms) \<and> length ms < fuel
      \<and> shape_after C True m None (Some (i, n)) \<and> maps = Suc (length ms) \<and> maps \<le> 1 + i + n)"
    using False by (subst parse_later_maps) (auto simp del: shape_after.simps, blast)
  finally show ?thesis unfolding shape_after_first by blast
qed simp

text \<open>
  C25. A signing response is accepted exactly when it is at most 1398106 bytes, is or decodes to at
  most 1 MiB that starts with the magic, and is exactly one container of \<open>1 + inputs + outputs\<close> maps: each of
  at most 64 fields with keys of 1 to 256 bytes, one unsigned transaction in the first map whose
  shape says how many maps follow, no byte left over for the framing or for the dependency's
  parser, version 0.
\<close>

theorem parse_response_iff:
  "parse_response C payload = Inr p \<longleftrightarrow>
     length payload \<le> 1398106
     \<and> (\<exists>bytes rest m ms tx i n. response_bytes C payload = Inr bytes
          \<and> length bytes \<le> 1048576 \<and> bytes = psbt_magic @ rest
          \<and> reads_maps C rest (m # ms) \<and> list_all bounded_map (m # ms)
          \<and> tx_fields m = [tx] \<and> transaction_shape C tx = Inr (i, n) \<and> length ms = i + n
          \<and> psbt_read C bytes = Some (p, []) \<and> ps_version p = 0)"
proof -
  have magic: "take 5 bytes = psbt_magic \<longleftrightarrow> (\<exists>rest. bytes = psbt_magic @ rest)"
    and drop: "drop 5 (psbt_magic @ rest) = rest" for bytes rest
  proof -
    show "take 5 bytes = psbt_magic \<longleftrightarrow> (\<exists>rest. bytes = psbt_magic @ rest)"
      and "drop 5 (psbt_magic @ rest) = rest"
      by (metis append_eq_conv_conj length_psbt_magic, simp)
  qed
  have fuel: "maps_fuel = Suc 601" "MAX_PSBT_FILE_BYTES = 1398106" "MAX_PSBT_BYTES = 1048576"
    by (simp_all add: maps_fuel_def MAX_INPUTS_def MAX_OUTPUTS_def MAX_PSBT_FILE_BYTES_def
        MAX_PSBT_BYTES_def div_ceil_def)
  have "parse_response C payload = Inr p \<longleftrightarrow>
     length payload \<le> 1398106
     \<and> (\<exists>bytes rest i n. response_bytes C payload = Inr bytes
          \<and> length bytes \<le> 1048576 \<and> bytes = psbt_magic @ rest
          \<and> parse_maps C (Suc 601) 0 rest None = Inr (1 + i + n, Some (i, n))
          \<and> psbt_read C bytes = Some (p, []) \<and> ps_version p = 0)"
    unfolding parse_response_def fuel
    by (auto simp: result_simps magic drop split_paired_Ex not_less simp del: parse_maps.simps)
  also have "\<dots> \<longleftrightarrow> length payload \<le> 1398106
     \<and> (\<exists>bytes rest m ms tx i n. response_bytes C payload = Inr bytes
          \<and> length bytes \<le> 1048576 \<and> bytes = psbt_magic @ rest
          \<and> reads_maps C rest (m # ms) \<and> list_all bounded_map (m # ms)
          \<and> tx_fields m = [tx] \<and> transaction_shape C tx = Inr (i, n) \<and> length ms = i + n
          \<and> psbt_read C bytes = Some (p, []) \<and> ps_version p = 0)"
    unfolding parse_first_map using transaction_shape_bounds by fastforce
  finally show ?thesis .
qed

section \<open>The sample response\<close>

lemma sample_count: "read_count sample_codec (b # r) = Inr (unat b, r)"
  by (simp add: read_count_def)

lemma sample_shape: "transaction_shape sample_codec spend_tx_bytes = Inr (1, 2)"
  by (simp add: transaction_shape_def spend_tx_bytes_def sample_count MAX_INPUTS_def MAX_OUTPUTS_def
      shape_input_def shape_output_def take_bytes_def
      upt_rec)

lemma sample_response: "parse_response sample_codec spend_bytes = Inr spend_psbt"
proof -
  have f: "maps_fuel = Suc (Suc (Suc (Suc (Suc 597))))" by (simp add: maps_fuel_def MAX_INPUTS_def MAX_OUTPUTS_def)
  have g: "(64::nat) = Suc (Suc 62)" by simp
  have l: "length spend_tx_bytes = 71" "length spend_bytes = 83" "take 5 spend_bytes = psbt_magic"
    "drop 5 spend_bytes = [1, 0, 71] @ spend_tx_bytes @ [0, 0, 0, 0]"
    by (simp_all add: spend_tx_bytes_def spend_bytes_def psbt_magic_def)
  have "field_step sample_codec True 1 (0 # 71 # spend_tx_bytes @ r) None = Inr (r, Some (1, 2))" for r
    by (simp add: field_step_def take_bytes_def sample_count l sample_shape)
  then have m: "map_fields sample_codec True 64 (1 # 0 # 71 # spend_tx_bytes @ [0, 0, 0, 0]) None = Inr ([0, 0, 0], Some (1, 2))"
    unfolding g map_fields.simps by (simp add: sample_count flip: One_nat_def)
  have z: "map_fields sample_codec False 64 (0 # r) s = Inr (r, s)" for r s
    unfolding g map_fields.simps by (simp add: sample_count flip: One_nat_def)
  have "parse_maps sample_codec maps_fuel 0 (drop 5 spend_bytes) None = Inr (4, Some (1, 2))"
    unfolding f l parse_maps.simps by (simp add: m z flip: One_nat_def)
  then show ?thesis
    by (simp add: parse_response_def response_bytes_def l MAX_PSBT_FILE_BYTES_def
        MAX_PSBT_BYTES_def div_ceil_def spend_psbt_def)
qed

end
