(* ===== verification/Engine.thy ===== *)
theory Engine
  imports Store Labels Descriptors Response Amount
begin

text \<open>
  \<^verbatim>\<open>crates/tundra-core/src/engine.rs\<close>: the service over the database. A wallet row is decoded and
  loaded on every call (\<open>load\<close>), nothing in memory survives it; a call that changes the database
  is the body of one transaction (\<open>run_tx\<close>), so an error leaves the database as it was. The clock
  is an argument. Draft construction is in the theory \<^verbatim>\<open>Drafts\<close>.
\<close>

record ('w, 'cs) loaded =
  l_wallet :: 'w
  l_state :: 'cs
  l_summary :: wallet_summary

text \<open>The UTF-8 bytes of the dash the messages use.\<close>

definition en_dash :: string where
  "en_dash = [CHR 0xE2, CHR 0x80, CHR 0x93]"

definition valid_name :: "string \<Rightarrow> nat \<Rightarrow> unit result" where
  "valid_name s maximum =
     (if trim s = [] \<or> maximum < char_count s \<or> has_control s then Inl (InvalidInput ''name'')
      else Inr ())"

definition read_outpoint :: "bitcoin \<Rightarrow> string \<Rightarrow> outpoint result" where
  "read_outpoint B s = ok_or (parse_outpoint B s) (InvalidInput ''outpoint'')"

text \<open>\<^verbatim>\<open>sync::spendable\<close>: confirmed, and a coinbase output at least 100 blocks deep.\<close>

fun spendable :: "chain_position \<Rightarrow> nat \<Rightarrow> bool \<Rightarrow> bool" where
  "spendable (Confirmed height) tip coinbase = (\<not> coinbase \<or> 100 \<le> (tip - height) + 1)"
| "spendable (Unconfirmed _) tip coinbase = False"

section \<open>Loading and saving a wallet\<close>

definition parse_policy :: "string \<Rightarrow> policy result" where
  "parse_policy s =
     (if s = ''single_sig'' then Inr SingleSig
      else if s = ''two_of_three'' then Inr TwoOfThree
      else Inl CorruptState)"

definition load :: "('w, 'cs) bdk \<Rightarrow> 'cs db \<Rightarrow> string \<Rightarrow> ('w, 'cs) loaded result" where
  "load W db wid =
     rbind (ok_or (map_of (wallets db) wid) NotFound) (\<lambda>row.
     rbind (network_parse (w_network row)) (\<lambda>network.
     rbind (parse_policy (w_policy row)) (\<lambda>policy.
     rbind (ok_or (w_state row) CorruptState) (\<lambda>state.
     rbind (ok_or (wallet_load W network state) CorruptState) (\<lambda>wallet.
     Inr \<lparr>l_wallet = wallet, l_state = state,
          l_summary = \<lparr>ws_id = wid, ws_name = w_name row, ws_network = network, ws_policy = policy,
                       ws_synced_at = w_synced_at row, total_sats = None, available_sats = None\<rparr>\<rparr>)))))"

definition staged_state :: "('w, 'cs) bdk \<Rightarrow> ('w, 'cs) loaded \<Rightarrow> 'cs" where
  "staged_state W l =
     (case fst (take_staged W (l_wallet l)) of
        None \<Rightarrow> l_state l
      | Some changes \<Rightarrow> merge_changes W (l_state l) changes)"

definition save :: "('w, 'cs) bdk \<Rightarrow> string \<Rightarrow> ('w, 'cs) loaded \<Rightarrow> 'cs db \<Rightarrow> 'cs db" where
  "save W wid l db = sql_set_state wid (staged_state W l) db"

section \<open>Labels, references and coins\<close>

definition get_label :: "'cs db \<Rightarrow> string \<Rightarrow> string \<Rightarrow> string \<Rightarrow> string" where
  "get_label db wid kind reference =
     (case map_of (labels db) (wid, kind, reference) of None \<Rightarrow> [] | Some label \<Rightarrow> label)"

definition put_label :: "'cs db \<Rightarrow> string \<Rightarrow> string \<Rightarrow> string \<Rightarrow> string \<Rightarrow> 'cs db result" where
  "put_label db wid kind reference label = sql_upsert_label wid kind reference label db"

definition known_reference :: "bitcoin \<Rightarrow> ('w, 'cs) bdk \<Rightarrow> 'w \<Rightarrow> string \<Rightarrow> string \<Rightarrow> bool" where
  "known_reference B W w kind reference =
     (if kind = ''output'' then
        (case parse_outpoint B reference of
           None \<Rightarrow> False
         | Some op \<Rightarrow> list_ex (\<lambda>c. lo_outpoint c = op) (list_output W w))
      else if kind = ''tx'' then
        (case parse_txid B reference of None \<Rightarrow> False | Some txid \<Rightarrow> get_tx W w txid \<noteq> None)
      else if kind = ''addr'' then
        (case parse_address B reference of
           None \<Rightarrow> False
         | Some a \<Rightarrow> address_on B a (wallet_network W w) \<and> is_mine W w (address_script B a))
      else False)"

definition is_frozen :: "'cs db \<Rightarrow> string \<Rightarrow> string \<Rightarrow> bool" where
  "is_frozen db wid op = has_key (wid, op) (freezes db)"

definition is_reserved :: "'cs db \<Rightarrow> string \<Rightarrow> string \<Rightarrow> bool" where
  "is_reserved db wid op =
     (has_key (wid, op) (reservations db)
      \<or> list_ex (\<lambda>r. fst (fst r) = wid \<and> fst (snd (fst r)) = op) (recovery_holds db))"

definition funded_by_coinbase :: "bitcoin \<Rightarrow> ('w, 'cs) bdk \<Rightarrow> 'w \<Rightarrow> outpoint \<Rightarrow> bool" where
  "funded_by_coinbase B W w op =
     (case get_tx W w (op_txid op) of None \<Rightarrow> False | Some t \<Rightarrow> is_coinbase B (wt_tx t))"

definition status_of ::
  "bitcoin \<Rightarrow> ('w, 'cs) bdk \<Rightarrow> 'cs db \<Rightarrow> string \<Rightarrow> 'w \<Rightarrow> local_output \<Rightarrow> coin_status" where
  "status_of B W db wid w c =
     (let op = show_outpoint B (lo_outpoint c) in
      if is_frozen db wid op then Frozen
      else if is_reserved db wid op then Reserved
      else if \<not> is_confirmed (lo_position c) then Pending
      else if funded_by_coinbase B W w (lo_outpoint c)
              \<and> \<not> spendable (lo_position c) (tip_height W w) True then Immature
      else Available)"

definition coin_row ::
  "bitcoin \<Rightarrow> ('w, 'cs) bdk \<Rightarrow> 'cs db \<Rightarrow> string \<Rightarrow> 'w \<Rightarrow> local_output \<Rightarrow> coin result" where
  "coin_row B W db wid w c =
     (let op = show_outpoint B (lo_outpoint c) in
      rbind (ok_or (script_address B (script_pubkey (lo_txout c)) (wallet_network W w)) CorruptState) (\<lambda>a.
      Inr \<lparr>coin_outpoint = op, coin_sats = txo_value (lo_txout c),
           coin_label = get_label db wid ''output'' op, coin_address = a,
           coin_status = status_of B W db wid w c\<rparr>))"

definition wallet_coins ::
  "bitcoin \<Rightarrow> ('w, 'cs) bdk \<Rightarrow> 'cs db \<Rightarrow> string \<Rightarrow> 'w \<Rightarrow> coin list result" where
  "wallet_coins B W db wid w =
     rbind (rmap (coin_row B W db wid w) (list_unspent W w)) (\<lambda>cs. Inr (sort_key coin_outpoint cs))"

definition summary :: "bitcoin \<Rightarrow> ('w, 'cs) bdk \<Rightarrow> 'cs db \<Rightarrow> string \<Rightarrow> wallet_summary result" where
  "summary B W db wid =
     rbind (load W db wid) (\<lambda>l.
     if ws_synced_at (l_summary l) = None then Inr (l_summary l)
     else
       rbind (wallet_coins B W db wid (l_wallet l)) (\<lambda>cs.
       Inr ((l_summary l)
         \<lparr>total_sats := Some (sum_list (map coin_sats cs)),
          available_sats := Some (sum_list (map coin_sats
             (filter (\<lambda>c. coin_status c = Available) cs)))\<rparr>)))"

section \<open>Wallets and addresses\<close>

definition same_descriptors ::
  "miniscript \<Rightarrow> ('w, 'cs) bdk \<Rightarrow> import_preview \<Rightarrow> 'w \<Rightarrow> bool result" where
  "same_descriptors M W p w =
     rbind (canonical_descriptor M (public_desc W w External)) (\<lambda>r.
     if show_descriptor M r \<noteq> receive_descriptor p then Inr False
     else
       rbind (canonical_descriptor M (public_desc W w Internal)) (\<lambda>c.
       Inr (show_descriptor M c = change_descriptor p)))"

definition refuse_equivalent ::
  "miniscript \<Rightarrow> ('w, 'cs) bdk \<Rightarrow> import_preview \<Rightarrow> network \<Rightarrow> 'cs db \<Rightarrow> unit result" where
  "refuse_equivalent M W p network db =
     (if ip_policy p \<noteq> TwoOfThree then Inr ()
      else
        rfold (\<lambda>wid _.
            rbind (load W db wid) (\<lambda>existing.
            rbind (same_descriptors M W p (l_wallet existing)) (\<lambda>same.
            if same then Inl AlreadyExists else Inr ())))
          (map fst (filter (\<lambda>(_, row). w_network row = network_key network
                                \<and> w_policy row = policy_key (ip_policy p)) (wallets db)))
          ())"

definition import_wallet_body ::
  "bitcoin \<Rightarrow> miniscript \<Rightarrow> ('w, 'cs) bdk \<Rightarrow> nat \<Rightarrow> string \<Rightarrow> import_preview \<Rightarrow> network \<Rightarrow> 'cs db \<Rightarrow>
   (wallet_summary \<times> 'cs db) result" where
  "import_wallet_body B M W now name p network db =
     (if has_key (ip_id p) (wallets db) then Inl AlreadyExists
      else
        rbind (refuse_equivalent M W p network db) (\<lambda>_.
        rbind (ok_or (wallet_create W (receive_descriptor p) (change_descriptor p) network) Descriptor) (\<lambda>w.
        rbind (ok_or (fst (take_staged W w)) CorruptState) (\<lambda>state.
        rbind (sql_insert_wallet (ip_id p)
                 \<lparr>w_name = trim name, w_network = network_key network,
                  w_policy = policy_key (ip_policy p), w_state = Some state, w_synced_at = None,
                  w_created_at = now\<rparr> db) (\<lambda>db.
        Inr (\<lparr>ws_id = ip_id p, ws_name = trim name, ws_network = network, ws_policy = ip_policy p,
              ws_synced_at = None, total_sats = None, available_sats = None\<rparr>, db))))))"

definition import_wallet ::
  "bitcoin \<Rightarrow> miniscript \<Rightarrow> ('w, 'cs) bdk \<Rightarrow> (string \<Rightarrow> json option) \<Rightarrow> nat \<Rightarrow> string \<Rightarrow> string \<Rightarrow>
   network \<Rightarrow> 'cs db \<Rightarrow> wallet_summary result \<times> 'cs db" where
  "import_wallet B M W parse now name payload network db =
     (case rbind (valid_name name 80) (\<lambda>_. preview_import B M W parse payload network) of
        Inl e \<Rightarrow> (Inl e, db)
      | Inr p \<Rightarrow> run_tx db (import_wallet_body B M W now name p network))"

definition wallet_list :: "bitcoin \<Rightarrow> ('w, 'cs) bdk \<Rightarrow> 'cs db \<Rightarrow> wallet_summary list result" where
  "wallet_list B W db =
     rmap (summary B W db)
       (map fst (sort_key (\<lambda>(wid, row). (w_created_at row, wid)) (wallets db)))"

definition receive_address :: "('w, 'cs) bdk \<Rightarrow> string \<Rightarrow> 'cs db \<Rightarrow> receive_address result \<times> 'cs db" where
  "receive_address W wid db = run_tx db (\<lambda>db.
     rbind (load W db wid) (\<lambda>l.
     let ((index, a), w) = reveal_next_address W (l_wallet l) External in
     Inr (\<lparr>ra_address = a, ra_index = index, hardware_verified = False\<rparr>,
          save W wid (l\<lparr>l_wallet := w\<rparr>) db)))"

definition coins :: "bitcoin \<Rightarrow> ('w, 'cs) bdk \<Rightarrow> string \<Rightarrow> 'cs db \<Rightarrow> coin list result" where
  "coins B W wid db = rbind (load W db wid) (\<lambda>l. wallet_coins B W db wid (l_wallet l))"

definition output_source ::
  "bitcoin \<Rightarrow> ('w, 'cs) bdk \<Rightarrow> string \<Rightarrow> string \<Rightarrow> 'cs db \<Rightarrow> draft_review option result" where
  "output_source B W wid reference db =
     rbind (load W db wid) (\<lambda>_.
     rbind (read_outpoint B reference) (\<lambda>op.
     case Option.bind (map_of (output_provenance db) (wid, show_outpoint B op))
            (\<lambda>d. map_of (drafts db) (wid, d)) of
       None \<Rightarrow> Inr None
     | Some row \<Rightarrow> rbind (ok_or (d_review row) CorruptState) (\<lambda>r. Inr (Some r))))"

definition activity_of :: "bitcoin \<Rightarrow> ('w, 'cs) bdk \<Rightarrow> string \<Rightarrow> 'cs db \<Rightarrow> activity list result" where
  "activity_of B W wid db =
     rbind (load W db wid) (\<lambda>l.
     Inr (map (\<lambda>t.
       let txid = show_hash B (compute_txid B (wt_tx t));
           (sent, received) = sent_and_received W (l_wallet l) (wt_tx t) in
       \<lparr>act_txid = txid, act_label = get_label db wid ''tx'' txid,
        delta_sats = int received - int sent, act_confirmed = is_confirmed (wt_position t)\<rparr>)
       (transactions W (l_wallet l))))"

section \<open>Metadata\<close>

definition set_label ::
  "bitcoin \<Rightarrow> ('w, 'cs) bdk \<Rightarrow> string \<Rightarrow> string \<Rightarrow> string \<Rightarrow> string \<Rightarrow> 'cs db \<Rightarrow> unit result \<times> 'cs db" where
  "set_label B W wid kind reference label db =
     (case validate_label label of
        Inl e \<Rightarrow> (Inl e, db)
      | Inr _ \<Rightarrow> run_tx db (\<lambda>db.
          rbind (load W db wid) (\<lambda>l.
          if \<not> known_reference B W (l_wallet l) kind reference then Inl NotFound
          else rbind (put_label db wid kind reference label) (\<lambda>db. Inr ((), db)))))"

definition write_freeze :: "string \<Rightarrow> string \<Rightarrow> bool \<Rightarrow> 'cs db \<Rightarrow> 'cs db result" where
  "write_freeze wid op frozen db =
     (if frozen then sql_freeze wid op db else Inr (sql_unfreeze wid op db))"

definition set_frozen ::
  "bitcoin \<Rightarrow> ('w, 'cs) bdk \<Rightarrow> string \<Rightarrow> string \<Rightarrow> bool \<Rightarrow> 'cs db \<Rightarrow> unit result \<times> 'cs db" where
  "set_frozen B W wid reference frozen db =
     (case read_outpoint B reference of
        Inl e \<Rightarrow> (Inl e, db)
      | Inr op \<Rightarrow> run_tx db (\<lambda>db.
          rbind (load W db wid) (\<lambda>l.
          if \<not> list_ex (\<lambda>c. lo_outpoint c = op) (list_unspent W (l_wallet l)) then Inl NotFound
          else rbind (write_freeze wid (show_outpoint B op) frozen db) (\<lambda>db. Inr ((), db)))))"

definition edit_coin_step ::
  "string list \<Rightarrow> string \<Rightarrow> string option \<Rightarrow> bool option \<Rightarrow> string \<Rightarrow> 'cs db \<Rightarrow> 'cs db result" where
  "edit_coin_step known wid label frozen reference db =
     (if \<not> List.member known reference then Inl UnavailableCoin
      else
        rbind (case label of None \<Rightarrow> Inr db | Some label \<Rightarrow> put_label db wid ''output'' reference label) (\<lambda>db.
        case frozen of None \<Rightarrow> Inr db | Some frozen \<Rightarrow> write_freeze wid reference frozen db))"

definition edit_coins ::
  "bitcoin \<Rightarrow> ('w, 'cs) bdk \<Rightarrow> string \<Rightarrow> string list \<Rightarrow> string option \<Rightarrow> bool option \<Rightarrow> 'cs db \<Rightarrow>
   unit result \<times> 'cs db" where
  "edit_coins B W wid references label frozen db =
     (if references = [] \<or> 200 < length references \<or> label = None \<and> frozen = None
      then (Inl (InvalidInput (''select 1'' @ en_dash @ ''200 coins and a metadata change'')), db)
      else case (case label of None \<Rightarrow> Inr () | Some label \<Rightarrow> validate_label label) of
        Inl e \<Rightarrow> (Inl e, db)
      | Inr _ \<Rightarrow> run_tx db (\<lambda>db.
          rbind (load W db wid) (\<lambda>l.
          let known = map (\<lambda>c. show_outpoint B (lo_outpoint c)) (list_unspent W (l_wallet l)) in
          if \<not> distinct references then Inl (InvalidInput ''duplicate outpoint'')
          else
            rbind (rfold (edit_coin_step known wid label frozen) references db) (\<lambda>db.
            Inr ((), db)))))"

section \<open>Label files\<close>

text \<open>
  One record of an import: the database, the (kind, reference) pairs seen, and the numbers of
  matched, skipped and changed records. A preview does everything except the writes.
\<close>

definition import_label_field ::
  "bool \<Rightarrow> string \<Rightarrow> label_record \<Rightarrow> 'cs db \<Rightarrow> (bool \<times> 'cs db) result" where
  "import_label_field apply wid r db =
     (case lr_label r of
        None \<Rightarrow> Inr (False, db)
      | Some label \<Rightarrow>
          (let differs = get_label db wid (lr_kind r) (lr_ref r) \<noteq> label in
           rbind (if apply then put_label db wid (lr_kind r) (lr_ref r) label else Inr db) (\<lambda>db.
           Inr (differs, db))))"

definition import_freeze_field ::
  "bool \<Rightarrow> string \<Rightarrow> label_record \<Rightarrow> 'cs db \<Rightarrow> (bool \<times> 'cs db) result" where
  "import_freeze_field apply wid r db =
     (case lr_spendable r of
        None \<Rightarrow> Inr (False, db)
      | Some spend \<Rightarrow>
          (let frozen = is_frozen db wid (lr_ref r) in
           rbind (if apply then write_freeze wid (lr_ref r) (\<not> spend) db else Inr db) (\<lambda>db.
           Inr (frozen = spend, db))))"

type_synonym 'cs import_state = "'cs db \<times> (string \<times> string) list \<times> label_preview"

definition label_applies ::
  "bitcoin \<Rightarrow> ('w, 'cs) bdk \<Rightarrow> 'w \<Rightarrow> string \<Rightarrow> label_record \<Rightarrow> bool" where
  "label_applies B W w origin r =
     ((case lr_origin r of None \<Rightarrow> True | Some x \<Rightarrow> normalize_label_origin B x = Some origin)
      \<and> known_reference B W w (lr_kind r) (lr_ref r))"

definition import_label_step ::
  "bitcoin \<Rightarrow> ('w, 'cs) bdk \<Rightarrow> 'w \<Rightarrow> string \<Rightarrow> string \<Rightarrow> bool \<Rightarrow> label_record \<Rightarrow> 'cs import_state \<Rightarrow>
   'cs import_state result" where
  "import_label_step B W w origin wid apply r = (\<lambda>(db, seen, p).
     if \<not> label_applies B W w origin r then Inr (db, seen, p\<lparr>skipped := skipped p + 1\<rparr>)
     else if List.member seen (lr_kind r, lr_ref r)
       then Inl (InvalidInput ''duplicate matching label reference'')
     else
       rbind (import_label_field apply wid r db) (\<lambda>(differs_label, db).
       rbind (import_freeze_field apply wid r db) (\<lambda>(differs_freeze, db).
       Inr (db, (lr_kind r, lr_ref r) # seen,
            p\<lparr>matched := matched p + 1,
              changed := (if differs_label \<or> differs_freeze then changed p + 1 else changed p)\<rparr>))))"

definition import_labels ::
  "bitcoin \<Rightarrow> ('w, 'cs) bdk \<Rightarrow> (string \<Rightarrow> json option) \<Rightarrow> string \<Rightarrow> string \<Rightarrow> bool \<Rightarrow> 'cs db \<Rightarrow>
   label_preview result \<times> 'cs db" where
  "import_labels B W parse wid payload apply db0 =
     (case parse_labels parse payload of
        Inl e \<Rightarrow> (Inl e, db0)
      | Inr (records, unknown) \<Rightarrow> run_tx db0 (\<lambda>db.
          rbind (load W db wid) (\<lambda>l.
          rbind (label_origin B (public_desc W (l_wallet l) External)) (\<lambda>origin.
          rbind (rfold (import_label_step B W (l_wallet l) origin wid apply) records
                   (db, [], \<lparr>matched = 0, skipped = unknown, changed = 0\<rparr>)) (\<lambda>(db', _, p).
          Inr (p, if apply then db' else db0))))))"

text \<open>The records of an export, in the order of (kind, reference) in which they are written.\<close>

definition export_records :: "string \<Rightarrow> string \<Rightarrow> 'cs db \<Rightarrow> ((string \<times> string) \<times> label_record) list" where
  "export_records wid origin db =
     (let labelled = map (\<lambda>((_, kind, reference), label).
            ((kind, reference), \<lparr>lr_kind = kind, lr_ref = reference, lr_label = Some label,
               lr_spendable = None, lr_origin = Some origin\<rparr>))
            (filter (\<lambda>r. fst (fst r) = wid) (labels db));
          frozen = map (\<lambda>r. snd (fst r)) (filter (\<lambda>r. fst (fst r) = wid) (freezes db)) in
      sort_key fst (fold (\<lambda>reference t.
        tbl_update (\<lambda>k. k = (''output'', reference)) (\<lambda>r. r\<lparr>lr_spendable := Some False\<rparr>)
          (tbl_insert_ignore (''output'', reference)
             \<lparr>lr_kind = ''output'', lr_ref = reference, lr_label = None, lr_spendable = None,
              lr_origin = Some origin\<rparr> t))
        frozen labelled))"

definition export_labels ::
  "bitcoin \<Rightarrow> ('w, 'cs) bdk \<Rightarrow> (label_record \<Rightarrow> string) \<Rightarrow> string \<Rightarrow> 'cs db \<Rightarrow> string result" where
  "export_labels B W show_record wid db =
     rbind (load W db wid) (\<lambda>l.
     rbind (label_origin B (public_desc W (l_wallet l) External)) (\<lambda>origin.
     let rows = map (\<lambda>r. show_record (snd r)) (export_records wid origin db) in
     Inr (if rows = [] then [] else join [CHR 0x0A] rows @ [CHR 0x0A])))"

section \<open>Stored drafts\<close>

definition draft_list :: "('w, 'cs) bdk \<Rightarrow> string \<Rightarrow> 'cs db \<Rightarrow> draft_review list result" where
  "draft_list W wid db =
     rbind (load W db wid) (\<lambda>_.
     rmap (\<lambda>(_, row). ok_or (d_review row) CorruptState)
       (sort_key (\<lambda>((_, d), row). (d_created_at row, d)) (filter (\<lambda>r. fst (fst r) = wid) (drafts db))))"

definition export_unsigned_psbt :: "string \<Rightarrow> string \<Rightarrow> 'cs db \<Rightarrow> string result" where
  "export_unsigned_psbt wid d db =
     rbind (ok_or (map_of (drafts db) (wid, d)) NotFound) (\<lambda>row.
     rbind (ok_or (d_review row) CorruptState) (\<lambda>review.
     if dv_state review \<noteq> ''unsigned'' then Inl UnavailableCoin else Inr (d_psbt row)))"

definition submitted :: "'cs db \<Rightarrow> string \<Rightarrow> string \<Rightarrow> bool" where
  "submitted db wid d = list_ex (\<lambda>r. attempt_draft r = (wid, d)) (broadcast_attempts db)"

definition discard_draft :: "string \<Rightarrow> string \<Rightarrow> 'cs db \<Rightarrow> unit result \<times> 'cs db" where
  "discard_draft wid d db = run_tx db (\<lambda>db.
     if submitted db wid d
     then Inl (InvalidInput ''a submission record cannot be discarded; the transaction may already be broadcast'')
     else if \<not> draft_exists db wid d then Inl NotFound
     else Inr ((), sql_delete_draft wid d db))"

end
