(* ===== verification/Drafts.thy ===== *)
theory Drafts
  imports Engine
begin

text \<open>
  \<^verbatim>\<open>Core::create_draft\<close> of \<^verbatim>\<open>crates/tundra-core/src/engine.rs\<close>: coin selection, the payment's target,
  the checks on what the transaction builder returned, the review and its reservations. Selecting
  and building is the library's \<open>build_tx\<close>; everything that decides what may be spent, and what is
  stored about it, is the core's.
\<close>

definition available_coins :: "coin list \<Rightarrow> (string \<times> coin) list" where
  "available_coins cs =
     map (\<lambda>c. (coin_outpoint c, c)) (filter (\<lambda>c. coin_status c = Available) cs)"

definition select_coins ::
  "bitcoin \<Rightarrow> (string \<times> coin) list \<Rightarrow> string list option \<Rightarrow> outpoint list option result" where
  "select_coins B available selection =
     (case selection of
        None \<Rightarrow> Inr None
      | Some ids \<Rightarrow>
          (if ids = [] \<or> 200 < length ids
           then Inl (InvalidInput (''select 1'' @ en_dash @ ''200 coins''))
           else if \<not> distinct ids then Inl (InvalidInput ''duplicate outpoint'')
           else
             rbind (rmap (\<lambda>i. if \<not> has_key i available then Inl UnavailableCoin else read_outpoint B i) ids)
               (\<lambda>ops. Inr (Some ops))))"

definition recipient_script :: "bitcoin \<Rightarrow> network \<Rightarrow> string \<Rightarrow> byte list result" where
  "recipient_script B network a =
     rbind (ok_or (parse_address B a) (InvalidInput ''recipient address'')) (\<lambda>addr.
     if \<not> address_on B addr network then Inl NetworkMismatch else Inr (address_script B addr))"

text \<open>The script the payment goes to; consolidation reveals a change address of the wallet.\<close>

definition payment_target ::
  "bitcoin \<Rightarrow> ('w, 'cs) bdk \<Rightarrow> network \<Rightarrow> outpoint list option \<Rightarrow> payment \<Rightarrow> 'w \<Rightarrow>
   (byte list \<times> 'w) result" where
  "payment_target B W network selected pay w =
     (case pay of
        Consolidate acknowledged \<Rightarrow>
          (if \<not> acknowledged then Inl (InvalidInput ''acknowledge that consolidation links these coins'')
           else if (case selected of None \<Rightarrow> 0 | Some ops \<Rightarrow> length ops) < 2
             then Inl (InvalidInput ''select at least two coins to consolidate'')
           else (let ((_, a), w) = reveal_next_address W w Internal in Inr (address_script B a, w)))
      | Send a sats \<Rightarrow>
          (if sats = 0 \<or> MAX_SATS < sats then Inl (InvalidInput ''payment amount'')
           else rbind (recipient_script B network a) (\<lambda>s. Inr (s, w)))
      | SendMax a \<Rightarrow>
          (if selected = None then Inl (InvalidInput ''maximum requires explicit coin selection'')
           else rbind (recipient_script B network a) (\<lambda>s. Inr (s, w))))"

definition build_request_of ::
  "nat \<Rightarrow> outpoint list \<Rightarrow> outpoint list option \<Rightarrow> payment \<Rightarrow> byte list \<Rightarrow> build_request" where
  "build_request_of fee_rate excluded selected pay target =
     \<lparr>b_fee_rate = fee_rate, b_unspendable = excluded, b_utxos = selected,
      b_recipient = (case pay of Send _ sats \<Rightarrow> Some (target, sats) | _ \<Rightarrow> None),
      b_drain_to = (case pay of Send _ _ \<Rightarrow> None | _ \<Rightarrow> Some target)\<rparr>"

definition is_consolidate :: "payment \<Rightarrow> bool" where
  "is_consolidate pay = (case pay of Consolidate _ \<Rightarrow> True | _ \<Rightarrow> False)"

definition review_input :: "bitcoin \<Rightarrow> (string \<times> coin) list \<Rightarrow> txin \<Rightarrow> reviewed_input result" where
  "review_input B available i =
     (let op = show_outpoint B (previous_output i) in
      rbind (ok_or (map_of available op) UnavailableCoin) (\<lambda>c.
      Inr \<lparr>ri_outpoint = op, ri_sats = coin_sats c, ri_label = coin_label c\<rparr>))"

definition review_output ::
  "bitcoin \<Rightarrow> ('w, 'cs) bdk \<Rightarrow> network \<Rightarrow> 'w \<Rightarrow> bool \<Rightarrow> byte list \<Rightarrow> txout \<Rightarrow> reviewed_output result" where
  "review_output B W network w consolidate target out =
     (let mine = is_mine W w (script_pubkey out) in
      rbind (ok_or (script_address B (script_pubkey out) network) CorruptState) (\<lambda>a.
      Inr \<lparr>ro_address = a, ro_sats = txo_value out,
           is_change = (\<not> consolidate \<and> script_pubkey out \<noteq> target \<and> mine), ro_is_mine = mine\<rparr>))"

definition draft_identity :: "bitcoin \<Rightarrow> string \<Rightarrow> transaction \<Rightarrow> string" where
  "draft_identity B wid tx = sha256_text B (wid @ '':'' @ show_hash B (compute_txid B tx))"

definition fee_cap :: nat where
  "fee_cap = 1000000"

text \<open>The built transaction against the request: what was approved is what is stored.\<close>

definition review_draft ::
  "bitcoin \<Rightarrow> psbt_codec \<Rightarrow> ('w, 'cs) bdk \<Rightarrow> network \<Rightarrow> draft_request \<Rightarrow> (string \<times> coin) list \<Rightarrow>
   outpoint list option \<Rightarrow> byte list \<Rightarrow> 'w \<Rightarrow> psbt \<Rightarrow> draft_review result" where
  "review_draft B C W network request available selected target w psbt =
     (let tx = unsigned_tx psbt; consolidate = is_consolidate (dr_payment request) in
      rbind (map_err (parse_response C (psbt_bytes C psbt))
               (InvalidInput ''transaction exceeds signing payload limits'')) (\<lambda>_.
      if (case selected of
            None \<Rightarrow> False
          | Some chosen \<Rightarrow> set (map previous_output (tx_input tx)) \<noteq> set chosen)
      then Inl CorruptState
      else
        rbind (rmap (review_input B available) (tx_input tx)) (\<lambda>inputs.
        rbind (rmap (review_output B W network w consolidate target) (tx_output tx)) (\<lambda>outputs.
        if consolidate \<and> (length outputs \<noteq> 1 \<or> \<not> ro_is_mine (hd outputs)) then Inl CorruptState
        else
          rbind (ok_or (calculate_fee W w tx) CorruptState) (\<lambda>fee.
          if fee_cap < fee then Inl (InvalidInput ''fee exceeds the development safety cap'')
          else Inr \<lparr>dv_id = draft_identity B (dr_wallet_id request) tx,
                    dv_wallet_id = dr_wallet_id request, dv_inputs = inputs, dv_outputs = outputs,
                    fee_sats = fee, dv_fee_sat_per_kwu = Some (dr_fee_sat_per_kwu request),
                    dv_label = dr_label request, is_consolidation = consolidate,
                    dv_state = ''unsigned''\<rparr>)))))"

text \<open>The draft with its reservations, one per input of the review.\<close>

definition store_draft ::
  "psbt_codec \<Rightarrow> nat \<Rightarrow> draft_request \<Rightarrow> psbt \<Rightarrow> draft_review \<Rightarrow> 'cs db \<Rightarrow> 'cs db result" where
  "store_draft C now request psbt review db =
     rbind (sql_insert_draft (dr_wallet_id request) (dv_id review)
              \<lparr>d_psbt = psbt_text C psbt, d_review = Some review, d_label = dr_label request,
               d_created_at = now\<rparr> db) (\<lambda>db.
     rfold (\<lambda>i. sql_insert_reservation (dr_wallet_id request) (ri_outpoint i) (dv_id review))
       (dv_inputs review) db)"

definition create_draft_body ::
  "bitcoin \<Rightarrow> psbt_codec \<Rightarrow> ('w, 'cs) bdk \<Rightarrow> nat \<Rightarrow> draft_request \<Rightarrow> 'cs db \<Rightarrow>
   (draft_review \<times> 'cs db) result" where
  "create_draft_body B C W now request db =
     rbind (load W db (dr_wallet_id request)) (\<lambda>l.
     let network = ws_network (l_summary l) in
     if network = Mainnet then Inl (Unavailable ''mainnet spending'')
     else if ws_synced_at (l_summary l) = None then Inl (Unavailable ''blockchain synchronization'')
     else
       rbind (wallet_coins B W db (dr_wallet_id request) (l_wallet l)) (\<lambda>cs.
       let available = available_coins cs in
       rbind (select_coins B available (selected_outpoints request)) (\<lambda>selected.
       rbind (payment_target B W network selected (dr_payment request) (l_wallet l)) (\<lambda>(target, w).
       rbind (rmap (\<lambda>c. read_outpoint B (coin_outpoint c))
                (filter (\<lambda>c. coin_status c \<noteq> Available) cs)) (\<lambda>excluded.
       if (case selected of None \<Rightarrow> False | Some ops \<Rightarrow> \<not> knows_utxos W w ops) then Inl UnavailableCoin
       else
         rbind (ok_or (build_tx W w (build_request_of (dr_fee_sat_per_kwu request) excluded selected
                                       (dr_payment request) target)) CannotBuild) (\<lambda>(psbt, w).
         rbind (review_draft B C W network request available selected target w psbt) (\<lambda>review.
         rbind (store_draft C now request psbt review db) (\<lambda>db.
         Inr (review, save W (dr_wallet_id request) (l\<lparr>l_wallet := w\<rparr>) db)))))))))"

definition create_draft ::
  "bitcoin \<Rightarrow> psbt_codec \<Rightarrow> ('w, 'cs) bdk \<Rightarrow> nat \<Rightarrow> draft_request \<Rightarrow> 'cs db \<Rightarrow>
   draft_review result \<times> 'cs db" where
  "create_draft B C W now request db =
     (case validate_label (dr_label request) of
        Inl e \<Rightarrow> (Inl e, db)
      | Inr _ \<Rightarrow>
          (if \<not> (1 \<le> dr_fee_sat_per_kwu request \<and> dr_fee_sat_per_kwu request \<le> 250000)
           then (Inl (InvalidInput (''fee rate must be 1'' @ en_dash @ ''250000 sat/kwu'')), db)
           else run_tx db (create_draft_body B C W now request)))"

end
