(* ===== verification/Engine_Facts.thy ===== *)
theory Engine_Facts
  imports Drafts
begin

text \<open>
  What the status of a coin means, and a sample wallet. (That every operation of the engine keeps
  the schema's invariant is in \<open>Invariants\<close>.)
\<close>

section \<open>What a coin's status means\<close>

text \<open>A coin the wallet may put into a transaction.\<close>

definition spendable_coin ::
  "bitcoin \<Rightarrow> ('w, 'cs) bdk \<Rightarrow> 'cs db \<Rightarrow> string \<Rightarrow> 'w \<Rightarrow> local_output \<Rightarrow> bool" where
  "spendable_coin B W db wid w c \<longleftrightarrow>
     (wid, show_outpoint B (lo_outpoint c)) \<notin> keys (freezes db)
     \<and> (wid, show_outpoint B (lo_outpoint c)) \<notin> keys (reservations db)
     \<and> (\<forall>d. (wid, show_outpoint B (lo_outpoint c), d) \<notin> keys (recovery_holds db))
     \<and> spendable (lo_position c) (tip_height W w) (funded_by_coinbase B W w (lo_outpoint c))"

lemma is_reserved_iff:
  "is_reserved db wid op \<longleftrightarrow>
     (wid, op) \<in> keys (reservations db) \<or> (\<exists>d. (wid, op, d) \<in> keys (recovery_holds db))"
  by (force simp: is_reserved_def has_key_iff list_ex_iff keys_def)

lemma spendable_iff:
  "spendable p tip coinbase \<longleftrightarrow> is_confirmed p \<and> (coinbase \<longrightarrow> spendable p tip True)"
  by (cases p) auto

lemma status_available:
  "status_of B W db wid w c = Available \<longleftrightarrow> spendable_coin B W db wid w c"
  using spendable_iff [of "lo_position c" "tip_height W w" "funded_by_coinbase B W w (lo_outpoint c)"]
  by (auto simp: status_of_def spendable_coin_def is_reserved_iff is_frozen_def has_key_iff Let_def)

lemma wallet_coins_set:
  assumes "wallet_coins B W db wid w = Inr cs" and "x \<in> set cs"
  shows "\<exists>c \<in> set (list_unspent W w). coin_outpoint x = show_outpoint B (lo_outpoint c)
    \<and> coin_sats x = txo_value (lo_txout c) \<and> coin_status x = status_of B W db wid w c
    \<and> coin_label x = get_label db wid ''output'' (coin_outpoint x)"
proof -
  obtain rows where rows: "rmap (coin_row B W db wid w) (list_unspent W w) = Inr rows"
    and "cs = sort_key coin_outpoint rows"
    using assms(1) by (auto simp: wallet_coins_def result_simps)
  then have "x \<in> set rows" using assms(2) by simp
  from rmap_set [OF rows this] show ?thesis by (auto simp: coin_row_def result_simps Let_def)
qed

text \<open>
  The status the wallet shows for a coin is Available exactly when the coin is confirmed, is
  not a coinbase output less than 100 blocks deep, and is neither frozen by the user nor reserved
  by a draft nor held for a restored submission; every other coin has one of the other statuses.
\<close>

theorem coin_available_iff:
  assumes "load W db wid = Inr l" and "coins B W wid db = Inr cs" and "x \<in> set cs"
  shows "\<exists>c \<in> set (list_unspent W (l_wallet l)).
    coin_outpoint x = show_outpoint B (lo_outpoint c) \<and> coin_sats x = txo_value (lo_txout c)
    \<and> (coin_status x = Available \<longleftrightarrow> spendable_coin B W db wid (l_wallet l) c)"
proof -
  have "wallet_coins B W db wid (l_wallet l) = Inr cs" using assms by (simp add: coins_def)
  from wallet_coins_set [OF this \<open>x \<in> set cs\<close>] show ?thesis by (auto simp: status_available)
qed

text \<open>The sample wallet, synced, with its smaller coin frozen.\<close>

definition sample_row :: "nat wallet_row" where
  "sample_row = \<lparr>w_name = ''n'', w_network = ''signet'', w_policy = ''single_sig'',
     w_state = Some 0, w_synced_at = Some 5, w_created_at = 1\<rparr>"

definition sample_db :: "nat db" where
  "sample_db = empty_db\<lparr>wallets := [(''w'', sample_row)], freezes := [((''w'', ''b:0''), ())]\<rparr>"

definition sample_loaded :: "(nat, nat) loaded" where
  "sample_loaded = \<lparr>l_wallet = 0, l_state = 0,
     l_summary = \<lparr>ws_id = ''w'', ws_name = ''n'', ws_network = Signet, ws_policy = SingleSig,
       ws_synced_at = Some 5, total_sats = None, available_sats = None\<rparr>\<rparr>"

definition sample_coin_a :: coin where
  "sample_coin_a = \<lparr>coin_outpoint = ''a:0'', coin_sats = 50000, coin_label = [],
     coin_address = ''tb1a'', coin_status = Available\<rparr>"

definition sample_coin_b :: coin where
  "sample_coin_b = \<lparr>coin_outpoint = ''b:0'', coin_sats = 30000, coin_label = [],
     coin_address = ''tb1b'', coin_status = Frozen\<rparr>"

lemma sample_outpoint_simps [simp]:
  "op_a \<noteq> op_b" "op_b \<noteq> op_a" "op_txid op_a = [10]" "op_txid op_b = [11]"
  by (simp_all add: op_a_def op_b_def)

lemma sample_db_tables [simp]:
  "wallets sample_db = [(''w'', sample_row)]" "freezes sample_db = [((''w'', ''b:0''), ())]"
  "labels sample_db = []" "drafts sample_db = []" "reservations sample_db = []"
  "recovery_holds sample_db = []" "broadcast_attempts sample_db = []"
  by (simp_all add: sample_db_def empty_db_def)

lemma sample_load: "load sample_bdk sample_db ''w'' = Inr sample_loaded"
  by (simp add: load_def sample_row_def sample_loaded_def network_parse_def parse_policy_def)

lemma sample_wallet_coins:
  "wallet_coins sample_bitcoin sample_bdk sample_db ''w'' n = Inr [sample_coin_a, sample_coin_b]"
  by (simp add: wallet_coins_def coin_row_def status_of_def is_frozen_def is_reserved_def has_key_def
      funded_by_coinbase_def get_label_def sample_coins_def sample_scripts_def out_a_def out_b_def
      sample_coin_a_def sample_coin_b_def)

theorem coin_available_iff_witness:
  "\<exists>c \<in> set sample_coins. ''a:0'' = show_outpoint sample_bitcoin (lo_outpoint c)
     \<and> spendable_coin sample_bitcoin sample_bdk sample_db ''w'' 0 c"
proof -
  have "coins sample_bitcoin sample_bdk ''w'' sample_db = Inr [sample_coin_a, sample_coin_b]"
    by (simp add: coins_def sample_load sample_wallet_coins)
  from coin_available_iff [OF sample_load this, of sample_coin_a] show ?thesis
    by (auto simp: sample_coin_a_def sample_loaded_def simp del: sample_bitcoin_simps)
qed

end
