(* ===== verification/Label_Import.thy ===== *)
theory Label_Import
  imports Engine_Facts
begin

text \<open>
  The label import of the engine: the preview counts what the import then does, a record touches
  its own reference only, and a second import of the same file changes nothing.
\<close>

section \<open>The effect of one record\<close>

definition record_differs :: "string \<Rightarrow> label_record \<Rightarrow> 'cs db \<Rightarrow> bool" where
  "record_differs wid r db \<longleftrightarrow>
     (case lr_label r of None \<Rightarrow> False | Some l \<Rightarrow> get_label db wid (lr_kind r) (lr_ref r) \<noteq> l)
     \<or> (case lr_spendable r of None \<Rightarrow> False | Some s \<Rightarrow> is_frozen db wid (lr_ref r) = s)"

definition record_effect :: "string \<Rightarrow> label_record \<Rightarrow> 'cs db \<Rightarrow> 'cs db" where
  "record_effect wid r db =
     db\<lparr>labels := (case lr_label r of None \<Rightarrow> labels db
          | Some l \<Rightarrow> tbl_upsert (wid, lr_kind r, lr_ref r) l (labels db)),
        freezes := (case lr_spendable r of None \<Rightarrow> freezes db
          | Some s \<Rightarrow> (if s then tbl_delete (\<lambda>k. k = (wid, lr_ref r)) (freezes db)
                      else tbl_insert_ignore (wid, lr_ref r) () (freezes db)))\<rparr>"

definition record_key :: "label_record \<Rightarrow> string \<times> string" where
  "record_key r = (lr_kind r, lr_ref r)"

lemma import_label_step_eq:
  assumes "wf_label r" and "wid \<in> keys (wallets db)"
  shows "import_label_step B W w origin wid apply r (db, seen, p) =
     (if \<not> label_applies B W w origin r then Inr (db, seen, p\<lparr>skipped := skipped p + 1\<rparr>)
      else if record_key r \<in> set seen then Inl (InvalidInput ''duplicate matching label reference'')
      else Inr (if apply then record_effect wid r db else db, record_key r # seen,
             p\<lparr>matched := matched p + 1,
               changed := (if record_differs wid r db then changed p + 1 else changed p)\<rparr>))"
proof -
  have label: "import_label_field apply wid r db = Inr
      (case lr_label r of None \<Rightarrow> False | Some l \<Rightarrow> get_label db wid (lr_kind r) (lr_ref r) \<noteq> l,
       if apply then record_effect wid (r\<lparr>lr_spendable := None\<rparr>) db else db)"
    using assms
    by (auto simp: import_label_field_def put_label_def sql_upsert_label_def label_check_def label_kinds_def
        wf_label_def sql_exists List.member_iff record_effect_def split: option.splits)
  have freeze: "import_freeze_field apply wid r db1 = Inr
      (case lr_spendable r of None \<Rightarrow> False | Some s \<Rightarrow> is_frozen db1 wid (lr_ref r) = s,
       if apply then record_effect wid (r\<lparr>lr_label := None\<rparr>) db1 else db1)"
    if "wallets db1 = wallets db" for db1
    using assms that
    by (auto simp: import_freeze_field_def write_freeze_def sql_freeze_def sql_unfreeze_def ignore_insert_def
        sql_exists record_effect_def tbl_insert_ignore_def split: option.splits)
  have same: "wallets (record_effect wid r' db) = wallets db"
    "is_frozen (record_effect wid (r\<lparr>lr_spendable := None\<rparr>) db) wid x = is_frozen db wid x"
    "record_effect wid (r\<lparr>lr_label := None\<rparr>) (record_effect wid (r\<lparr>lr_spendable := None\<rparr>) db) = record_effect wid r db"
    for r' x
    by (simp_all add: record_effect_def is_frozen_def split: option.splits)
  show ?thesis
    by (cases "lr_spendable r"; cases "lr_label r")
      (simp_all add: import_label_step_def label freeze same List.member_iff record_key_def record_differs_def)
qed

section \<open>Databases that agree outside the references seen\<close>

definition agree :: "string \<Rightarrow> (string \<times> string) set \<Rightarrow> 'cs db \<Rightarrow> 'cs db \<Rightarrow> bool" where
  "agree wid seen db db' \<longleftrightarrow> wallets db = wallets db'
     \<and> (\<forall>k x. (k, x) \<notin> seen \<longrightarrow> get_label db wid k x = get_label db' wid k x)
     \<and> (\<forall>x. (''output'', x) \<notin> seen \<longrightarrow> is_frozen db wid x = is_frozen db' wid x)"

lemma get_label_effect:
  "get_label (record_effect wid r db) wid k x =
     (case lr_label r of Some l \<Rightarrow> if (k, x) = record_key r then l else get_label db wid k x
      | None \<Rightarrow> get_label db wid k x)"
  by (auto simp: get_label_def record_effect_def record_key_def map_of_upsert split: option.splits)

lemma is_frozen_effect:
  "is_frozen (record_effect wid r db) wid x =
     (case lr_spendable r of Some s \<Rightarrow> if x = lr_ref r then \<not> s else is_frozen db wid x
      | None \<Rightarrow> is_frozen db wid x)"
  by (auto simp: is_frozen_def record_effect_def has_key_iff split: option.splits)

lemma wf_label_output: "wf_label r \<Longrightarrow> lr_spendable r \<noteq> None \<Longrightarrow> record_key r = (''output'', lr_ref r)"
  by (simp add: wf_label_def record_key_def)

lemma record_differs_agree:
  assumes "agree wid seen db db'" and "wf_label r" and "record_key r \<notin> seen"
  shows "record_differs wid r db = record_differs wid r db'"
proof -
  have "get_label db wid (lr_kind r) (lr_ref r) = get_label db' wid (lr_kind r) (lr_ref r)"
    using assms by (simp add: agree_def record_key_def)
  moreover have "is_frozen db wid (lr_ref r) = is_frozen db' wid (lr_ref r)" if "lr_spendable r \<noteq> None"
    using assms wf_label_output [OF assms(2) that] by (simp add: agree_def)
  ultimately show ?thesis by (cases "lr_spendable r"; cases "lr_label r") (simp_all add: record_differs_def)
qed

lemma wallets_effect [simp]: "wallets (record_effect wid r db) = wallets db"
  by (simp add: record_effect_def)

lemma agree_effect:
  assumes "agree wid seen db db'" and "wf_label r" and "record_key r \<in> seen"
  shows "agree wid seen db (record_effect wid r db')"
proof -
  have "get_label (record_effect wid r db') wid k x = get_label db' wid k x" if "(k, x) \<notin> seen" for k x
    using that assms(3) by (auto simp: get_label_effect split: option.splits)
  moreover have "is_frozen (record_effect wid r db') wid x = is_frozen db' wid x"
    if "(''output'', x) \<notin> seen" for x
    using that assms(3) wf_label_output [OF assms(2)]
    by (cases "lr_spendable r") (auto simp: is_frozen_effect)
  ultimately show ?thesis using assms(1) by (simp add: agree_def)
qed

lemma agree_mono: "agree wid seen db db' \<Longrightarrow> seen \<subseteq> seen' \<Longrightarrow> agree wid seen' db db'"
  by (auto simp: agree_def)

section \<open>Preview and import\<close>

abbreviation import_run ::
  "bitcoin \<Rightarrow> ('w, 'cs) bdk \<Rightarrow> 'w \<Rightarrow> string \<Rightarrow> string \<Rightarrow> bool \<Rightarrow> label_record list \<Rightarrow> 'cs import_state \<Rightarrow>
   'cs import_state result" where
  "import_run B W w origin wid apply rs st \<equiv> rfold (import_label_step B W w origin wid apply) rs st"

text \<open>Everything a run returns but the database.\<close>

definition counts_of :: "'cs import_state result \<Rightarrow> ((string \<times> string) list \<times> label_preview) result" where
  "counts_of r = (case r of Inl e \<Rightarrow> Inl e | Inr (_, x) \<Rightarrow> Inr x)"

lemma counts_of_simps [simp]: "counts_of (Inl e) = Inl e" "counts_of (Inr (db, x)) = Inr x"
  by (simp_all add: counts_of_def)

text \<open>The two runs go through the same references and the same counts.\<close>

lemma import_runs_agree:
  assumes "list_all wf_label rs" and "wid \<in> keys (wallets db)" and "agree wid (set seen) db db'"
  shows "counts_of (import_run B W w origin wid False rs (db, seen, p))
       = counts_of (import_run B W w origin wid True rs (db', seen, p))"
  using assms
proof (induction rs arbitrary: db' seen p)
  case (Cons r rs)
  have w: "wallets db' = wallets db" using Cons.prems by (simp add: agree_def)
  have step: "import_label_step B W w origin wid a r (d, seen, p) =
     (if \<not> label_applies B W w origin r then Inr (d, seen, p\<lparr>skipped := skipped p + 1\<rparr>)
      else if record_key r \<in> set seen then Inl (InvalidInput ''duplicate matching label reference'')
      else Inr (if a then record_effect wid r d else d, record_key r # seen,
             p\<lparr>matched := matched p + 1,
               changed := (if record_differs wid r d then changed p + 1 else changed p)\<rparr>))"
    if "wallets d = wallets db" for d a
    using Cons.prems that by (intro import_label_step_eq) simp_all
  have "agree wid (set (record_key r # seen)) db (record_effect wid r db')"
    using Cons.prems agree_mono [OF Cons.prems(3), of "insert (record_key r) (set seen)"]
    by (intro agree_effect) auto
  moreover have "record_differs wid r db = record_differs wid r db'" if "record_key r \<notin> set seen"
    using Cons.prems that by (intro record_differs_agree) simp_all
  ultimately show ?case
    using Cons.prems by (auto simp: step w intro!: Cons.IH)
qed simp

lemma agree_refl: "agree wid seen db db"
  by (simp add: agree_def)

lemma load_known: "load W db wid = Inr l \<Longrightarrow> wid \<in> keys (wallets db)"
  by (auto simp: load_def result_simps dest: map_of_Some_key)

lemma import_labels_cases:
  "import_labels B W parse wid payload apply db =
     (case rbind (parse_labels parse payload) (\<lambda>(rs, n).
           rbind (load W db wid) (\<lambda>l.
           rbind (label_origin B (public_desc W (l_wallet l) External)) (\<lambda>origin.
           import_run B W (l_wallet l) origin wid apply rs (db, [], \<lparr>matched = 0, skipped = n, changed = 0\<rparr>)))) of
        Inl e \<Rightarrow> (Inl e, db)
      | Inr (db', _, p) \<Rightarrow> (Inr p, if apply then db' else db))"
  by (auto simp: import_labels_def run_tx_def rbind_def split: sum.splits)

lemma import_counts_agree:
  "counts_of (rbind (parse_labels parse payload) (\<lambda>(rs, n).
           rbind (load W db wid) (\<lambda>l.
           rbind (label_origin B (public_desc W (l_wallet l) External)) (\<lambda>origin.
           import_run B W (l_wallet l) origin wid False rs (db, [], \<lparr>matched = 0, skipped = n, changed = 0\<rparr>)))))
   = counts_of (rbind (parse_labels parse payload) (\<lambda>(rs, n).
           rbind (load W db wid) (\<lambda>l.
           rbind (label_origin B (public_desc W (l_wallet l) External)) (\<lambda>origin.
           import_run B W (l_wallet l) origin wid True rs (db, [], \<lparr>matched = 0, skipped = n, changed = 0\<rparr>)))))"
proof (cases "parse_labels parse payload")
  case (Inr x)
  obtain rs n where x: "x = (rs, n)" by (cases x)
  then have "list_all wf_label rs" using parse_labels_wf_aux [of parse payload rs n] Inr by simp
  then show ?thesis
    by (cases "load W db wid"; cases "label_origin B (public_desc W (l_wallet (projr (load W db wid))) External)")
      (simp_all add: Inr x import_runs_agree load_known agree_refl)
qed simp

text \<open>
  C31. The preview of a label import is exact: it reports the same error, or the same numbers of
  matched, skipped and changed records, as the import itself, and it changes nothing.
\<close>

theorem import_preview_exact:
  "fst (import_labels B W parse wid payload False db) = fst (import_labels B W parse wid payload True db)
   \<and> snd (import_labels B W parse wid payload False db) = db"
  using import_counts_agree [of parse payload W db wid B]
  unfolding import_labels_cases by (auto simp: counts_of_def split: sum.splits)

section \<open>A second import\<close>

lemma agree_trans: "agree wid seen db1 db2 \<Longrightarrow> agree wid seen db2 db3 \<Longrightarrow> agree wid seen db1 db3"
  by (auto simp: agree_def)

lemma effect_settles: "wf_label r \<Longrightarrow> \<not> record_differs wid r (record_effect wid r db)"
  by (auto simp: record_differs_def get_label_effect is_frozen_effect record_key_def split: option.splits)

text \<open>After an import every matched record is what the database says.\<close>

lemma import_run_settles:
  assumes "import_run B W w origin wid True rs (db, seen, p) = Inr (dbf, seenf, pf)"
    and "list_all wf_label rs" and "wid \<in> keys (wallets db)"
  shows "agree wid (- set seen) db dbf"
    and "\<forall>r \<in> set rs. label_applies B W w origin r \<longrightarrow> \<not> record_differs wid r dbf"
  using assms
proof (induction rs arbitrary: db seen p)
  case Nil
  { case 1 then show ?case by (simp add: agree_refl) }
  { case 2 then show ?case by simp }
next
  case (Cons r rs)
  note step = import_label_step_eq [of r wid _ B W w origin True]
  have both: "agree wid (- set seen) db dbf
      \<and> (\<forall>r \<in> set (r # rs). label_applies B W w origin r \<longrightarrow> \<not> record_differs wid r dbf)"
    if run: "import_run B W w origin wid True (r # rs) (db, seen, p) = Inr (dbf, seenf, pf)"
      and wf: "list_all wf_label (r # rs)" and w: "wid \<in> keys (wallets db)" for db seen p
  proof (cases "label_applies B W w origin r")
    case False
    then show ?thesis using run wf w step Cons.IH [of db seen "p\<lparr>skipped := skipped p + 1\<rparr>"] by simp
  next
    case True
    let ?db = "record_effect wid r db"
    obtain q where new: "record_key r \<notin> set seen"
      and rest: "import_run B W w origin wid True rs (?db, record_key r # seen, q) = Inr (dbf, seenf, pf)"
      using run wf w step True by (auto split: if_splits)
    have later: "agree wid (- set (record_key r # seen)) ?db dbf"
      "\<forall>r \<in> set rs. label_applies B W w origin r \<longrightarrow> \<not> record_differs wid r dbf"
      using Cons.IH [OF rest] wf w by simp_all
    have "record_differs wid r ?db = record_differs wid r dbf"
      using later(1) wf by (intro record_differs_agree) auto
    moreover have "agree wid (- set seen) db ?db"
      using wf new by (intro agree_effect agree_refl) auto
    moreover have "agree wid (- set seen) ?db dbf" using agree_mono [OF later(1)] by auto
    ultimately show ?thesis using later(2) effect_settles [of r wid db] wf agree_trans by auto
  qed
  { case 1 show ?case using both [OF 1] by (rule conjunct1) }
  { case 2 show ?case using both [OF 2] by (rule conjunct2) }
qed

text \<open>A run over records the database already agrees with counts the same, and no change.\<close>

lemma import_run_settled:
  assumes "\<forall>r \<in> set rs. label_applies B W w origin r \<longrightarrow> \<not> record_differs wid r dbf"
    and "list_all wf_label rs" and "wid \<in> keys (wallets db)" and "wallets dbf = wallets db"
    and "import_run B W w origin wid False rs (db, seen, p) = Inr (db', seenf, pf)"
  shows "import_run B W w origin wid False rs (dbf, seen, p\<lparr>changed := 0\<rparr>)
       = Inr (dbf, seenf, pf\<lparr>changed := 0\<rparr>)"
  using assms
proof (induction rs arbitrary: seen p)
  case (Cons r rs)
  obtain m k c where p: "p = \<lparr>matched = m, skipped = k, changed = c\<rparr>" by (cases p)
  note step = import_label_step_eq [of r wid _ B W w origin False seen]
  show ?case
    using Cons.prems Cons.IH [of seen "\<lparr>matched = m, skipped = k + 1, changed = c\<rparr>"]
      Cons.IH [of "record_key r # seen" "\<lparr>matched = m + 1, skipped = k, changed = c\<rparr>"]
      Cons.IH [of "record_key r # seen" "\<lparr>matched = m + 1, skipped = k, changed = c + 1\<rparr>"]
    by (auto simp: step p split: if_splits)
qed simp

lemma load_wallets: "wallets db' = wallets db \<Longrightarrow> load W db' wid = load W db wid"
  by (simp add: load_def)

lemma import_labels_success:
  assumes "parse_labels parse payload = Inr (rs, n)" and "load W db wid = Inr l"
    and "label_origin B (public_desc W (l_wallet l) External) = Inr origin"
    and "import_run B W (l_wallet l) origin wid apply rs (db, [], \<lparr>matched = 0, skipped = n, changed = 0\<rparr>)
           = Inr (db', seen, p)"
  shows "import_labels B W parse wid payload apply db = (Inr p, if apply then db' else db)"
  unfolding import_labels_cases assms(1) rbind_simps prod.case assms(2,3,4) sum.case ..

lemma counts_of_InrD:
  assumes "counts_of r = Inr x"
  obtains db where "r = Inr (db, x)"
  using assms by (auto simp: counts_of_def split: sum.splits prod.splits)

text \<open>
  Importing a label file twice changes nothing the second time: it succeeds with the same
  numbers of matched and skipped records, and zero changes.
\<close>

theorem import_labels_twice:
  assumes "fst (import_labels B W parse wid payload True db) = Inr p"
  shows "fst (import_labels B W parse wid payload True (snd (import_labels B W parse wid payload True db)))
       = Inr (p\<lparr>changed := 0\<rparr>)"
proof -
  let ?zero = "\<lambda>n. \<lparr>matched = 0, skipped = n, changed = 0\<rparr>"
  obtain rs n l origin dbf seenf where parse: "parse_labels parse payload = Inr (rs, n)"
    and load: "load W db wid = Inr l"
    and origin: "label_origin B (public_desc W (l_wallet l) External) = Inr origin"
    and run: "import_run B W (l_wallet l) origin wid True rs (db, [], ?zero n) = Inr (dbf, seenf, p)"
    and dbf: "snd (import_labels B W parse wid payload True db) = dbf"
    using assms unfolding import_labels_cases
    by (auto simp: result_simps split: sum.splits)
  have wf: "list_all wf_label rs" using parse_labels_wf_aux [OF parse] by simp
  note w = load_known [OF load]
  note settled = import_run_settles [OF run wf w]
  have same: "wallets dbf = wallets db" using settled(1) by (simp add: agree_def)
  have "counts_of (import_run B W (l_wallet l) origin wid False rs (db, [], ?zero n)) = Inr (seenf, p)"
    using import_runs_agree [OF wf w agree_refl, where seen = "[]" and B = B and W = W and w = "l_wallet l" and origin = origin and p = "?zero n"] run by simp
  then obtain db1 where "import_run B W (l_wallet l) origin wid False rs (db, [], ?zero n) = Inr (db1, seenf, p)"
    by (rule counts_of_InrD)
  from import_run_settled [OF settled(2) wf w same this]
  have "counts_of (import_run B W (l_wallet l) origin wid True rs (dbf, [], ?zero n)) = Inr (seenf, p\<lparr>changed := 0\<rparr>)"
    using import_runs_agree [OF wf _ agree_refl, where wid = wid and db = dbf and seen = "[]" and B = B and W = W and w = "l_wallet l"
        and origin = origin and p = "?zero n"] w same
    by simp
  then obtain db2 where again: "import_run B W (l_wallet l) origin wid True rs (dbf, [], ?zero n)
      = Inr (db2, seenf, p\<lparr>changed := 0\<rparr>)"
    by (rule counts_of_InrD)
  have "load W dbf wid = Inr l" by (simp add: load_wallets [OF same] load)
  from import_labels_success [OF parse this origin again] show ?thesis unfolding dbf by simp
qed

section \<open>Sample imports\<close>

definition sample_label :: "string \<Rightarrow> string \<Rightarrow> json option" where
  "sample_label reference _ = Some (JObject [(''type'', JString ''output''), (''ref'', JString reference),
     (''label'', JString ''rent''), (''spendable'', JBool False)])"

definition sample_label_record :: "string \<Rightarrow> label_record" where
  "sample_label_record reference = \<lparr>lr_kind = ''output'', lr_ref = reference, lr_label = Some ''rent'',
     lr_spendable = Some False, lr_origin = None\<rparr>"

lemma sample_parse_labels:
  "parse_labels (sample_label ''a:0'') ''x'' = Inr ([sample_label_record ''a:0''], 0)"
  "parse_labels (sample_label ''A:0'') ''x'' = Inr ([sample_label_record ''A:0''], 0)"
  by (simp_all add: parse_labels_def MAX_LABEL_FILE_def label_lines_def lines_def trim_plain
      parse_label_step_def MAX_LABELS_def parse_label_line_def sample_label_def List.member_iff
      parse_label_field_def parse_spendable_field_def parse_origin_field_def validate_label_def
      char_count_def sample_label_record_def)

lemma sample_label_wf: "r = ''a:0'' \<or> r = ''A:0'' \<Longrightarrow> wf_label (sample_label_record r)"
  by (auto simp: wf_label_def sample_label_record_def char_count_def)

lemma sample_origin:
  "label_origin sample_bitcoin (public_desc sample_bdk (l_wallet sample_loaded) External)
     = Inr ''wsh(sortedmulti(2,[a/84h],[b/84h],[c/84h]))''"
  by (simp add: label_origin_def sample_multisig_def sample_xpub_def key_origin_def map_filter_simps
      origin_text_def)

lemma sample_import_run:
  assumes "r = ''a:0'' \<or> r = ''A:0''"
  shows "import_run sample_bitcoin sample_bdk (l_wallet sample_loaded) x ''w'' True [sample_label_record r]
      (sample_db, [], \<lparr>matched = 0, skipped = 0, changed = 0\<rparr>)
    = Inr (record_effect ''w'' (sample_label_record r) sample_db, [(''output'', r)],
           \<lparr>matched = 1, skipped = 0, changed = 1\<rparr>)"
proof -
  have "label_applies sample_bitcoin sample_bdk w x (sample_label_record r)" for w
    using assms by (auto simp: label_applies_def sample_label_record_def known_reference_def
        sample_outpoints_def sample_coins_def)
  then show ?thesis
    using sample_label_wf [OF assms]
    by (auto simp: import_label_step_eq record_differs_def sample_label_record_def record_key_def get_label_def)
qed

lemma sample_import:
  assumes "r = ''a:0'' \<or> r = ''A:0''"
  shows "import_labels sample_bitcoin sample_bdk (sample_label r) ''w'' ''x'' True sample_db
    = (Inr \<lparr>matched = 1, skipped = 0, changed = 1\<rparr>, record_effect ''w'' (sample_label_record r) sample_db)"
proof -
  have "parse_labels (sample_label r) ''x'' = Inr ([sample_label_record r], 0)"
    using assms sample_parse_labels by auto
  from import_labels_success [OF this sample_load sample_origin sample_import_run [OF assms]]
  show ?thesis by simp
qed

theorem import_labels_twice_witness:
  "fst (import_labels sample_bitcoin sample_bdk (sample_label ''a:0'') ''w'' ''x'' True
     (snd (import_labels sample_bitcoin sample_bdk (sample_label ''a:0'') ''w'' ''x'' True sample_db)))
   = Inr \<lparr>matched = 1, skipped = 0, changed = 0\<rparr>"
proof -
  have "fst (import_labels sample_bitcoin sample_bdk (sample_label ''a:0'') ''w'' ''x'' True sample_db)
      = Inr \<lparr>matched = 1, skipped = 0, changed = 1\<rparr>"
    by (simp add: sample_import)
  from import_labels_twice [OF this] show ?thesis by simp
qed

text \<open>
  C39. A label record is matched by parsing its reference but stored under the text of the file:
  a freeze that spells the transaction id in capitals is reported as matched and changed, and the
  coin stays spendable. With the wallet's own spelling the same record freezes the coin.
\<close>

theorem import_freeze_spelling:
  "fst (import_labels sample_bitcoin sample_bdk (sample_label ''A:0'') ''w'' ''x'' True sample_db)
     = Inr \<lparr>matched = 1, skipped = 0, changed = 1\<rparr>
   \<and> coins sample_bitcoin sample_bdk ''w''
       (snd (import_labels sample_bitcoin sample_bdk (sample_label ''A:0'') ''w'' ''x'' True sample_db))
     = coins sample_bitcoin sample_bdk ''w'' sample_db
   \<and> \<not> spendable_coin sample_bitcoin sample_bdk
       (snd (import_labels sample_bitcoin sample_bdk (sample_label ''a:0'') ''w'' ''x'' True sample_db)) ''w'' 0
       \<lparr>lo_outpoint = op_a, lo_txout = out_a, lo_position = Confirmed 7\<rparr>"
proof -
  let ?db = "\<lambda>r. record_effect ''w'' (sample_label_record r) sample_db"
  have load: "load sample_bdk (?db r) ''w'' = Inr sample_loaded" for r
    by (simp add: load_wallets [of _ sample_db] sample_load)
  have "coins sample_bitcoin sample_bdk ''w'' (?db ''A:0'') = coins sample_bitcoin sample_bdk ''w'' sample_db"
    unfolding coins_def load rbind_simps sample_load
    by (simp add: wallet_coins_def coin_row_def status_of_def is_frozen_def
        is_reserved_def has_key_def get_label_def record_effect_def sample_label_record_def
        tbl_insert_ignore_def tbl_upsert_def sample_coins_def sample_scripts_def out_a_def out_b_def
        funded_by_coinbase_def)
  moreover have "(''w'', ''a:0'') \<in> keys (freezes (?db ''a:0''))"
    by (simp add: record_effect_def sample_label_record_def)
  ultimately show ?thesis by (simp add: sample_import spendable_coin_def)
qed

end
