(* ===== verification/Draft_Facts.thy ===== *)
theory Draft_Facts
  imports Label_Import
begin

text \<open>
  Drafts, bulk edits and addresses: what a created draft spends and reserves, what discarding one
  releases, what a bulk edit writes, and that an address index is never handed out twice.
\<close>

section \<open>Storing a draft\<close>

lemma store_reservations:
  assumes "rfold (\<lambda>i. sql_insert_reservation w (ri_outpoint i) d) is db = Inr db'"
  shows "db' = db\<lparr>reservations := reservations db @ map (\<lambda>i. ((w, ri_outpoint i), d)) is\<rparr>
    \<and> distinct (map ri_outpoint is) \<and> (\<forall>i \<in> set is. (w, ri_outpoint i) \<notin> keys (reservations db))"
  using assms
proof (induction "is" arbitrary: db)
  case (Cons i "is")
  obtain db1 where 1: "sql_insert_reservation w (ri_outpoint i) d db = Inr db1"
    and 2: "rfold (\<lambda>i. sql_insert_reservation w (ri_outpoint i) d) is db1 = Inr db'"
    using Cons.prems by (auto simp: result_simps)
  have db1: "db1 = db\<lparr>reservations := reservations db @ [((w, ri_outpoint i), d)]\<rparr>"
    and new: "(w, ri_outpoint i) \<notin> keys (reservations db)"
    using 1 by (auto simp: sql_insert_reservation_def result_simps split: if_splits)
  show ?case using Cons.IH [OF 2] new by (auto simp: db1)
qed simp

lemma map_of_new_rows:
  "map_of (map (\<lambda>i. ((w, f i), d)) xs) k = (if fst k = w \<and> snd k \<in> f ` set xs then Some d else None)"
  by (cases k; induction xs) auto

lemma store_draft_Inr:
  assumes "store_draft C now request psbt review db = Inr db'"
  shows "db' = db\<lparr>drafts := drafts db @ [((dr_wallet_id request, dv_id review),
              \<lparr>d_psbt = psbt_text C psbt, d_review = Some review, d_label = dr_label request, d_created_at = now\<rparr>)],
            reservations := reservations db
              @ map (\<lambda>i. ((dr_wallet_id request, ri_outpoint i), dv_id review)) (dv_inputs review)\<rparr>
    \<and> distinct (map ri_outpoint (dv_inputs review))
    \<and> (\<forall>i \<in> set (dv_inputs review). (dr_wallet_id request, ri_outpoint i) \<notin> keys (reservations db))
    \<and> (dr_wallet_id request, dv_id review) \<notin> keys (drafts db)"
proof -
  obtain db1 where 1: "sql_insert_draft (dr_wallet_id request) (dv_id review)
      \<lparr>d_psbt = psbt_text C psbt, d_review = Some review, d_label = dr_label request, d_created_at = now\<rparr> db = Inr db1"
    and 2: "rfold (\<lambda>i. sql_insert_reservation (dr_wallet_id request) (ri_outpoint i) (dv_id review))
      (dv_inputs review) db1 = Inr db'"
    using assms by (auto simp: store_draft_def result_simps)
  have "db1 = db\<lparr>drafts := drafts db @ [((dr_wallet_id request, dv_id review),
        \<lparr>d_psbt = psbt_text C psbt, d_review = Some review, d_label = dr_label request, d_created_at = now\<rparr>)]\<rparr>"
    and "(dr_wallet_id request, dv_id review) \<notin> keys (drafts db)"
    using 1 by (auto simp: sql_insert_draft_def list_ex_iff keys_def split: if_splits)
  then show ?thesis using store_reservations [OF 2] by auto
qed

text \<open>What a successful \<^verbatim>\<open>create_draft\<close> has gone through.\<close>

lemma create_draft_Inr:
  assumes "create_draft B C W now request db = (Inr review, db')"
  obtains l cs selected target w psbt w' db1
  where "validate_label (dr_label request) = Inr ()"
    and "1 \<le> dr_fee_sat_per_kwu request" "dr_fee_sat_per_kwu request \<le> 250000"
    and "load W db (dr_wallet_id request) = Inr l"
    and "ws_network (l_summary l) \<noteq> Mainnet" "ws_synced_at (l_summary l) \<noteq> None"
    and "wallet_coins B W db (dr_wallet_id request) (l_wallet l) = Inr cs"
    and "select_coins B (available_coins cs) (selected_outpoints request) = Inr selected"
    and "payment_target B W (ws_network (l_summary l)) selected (dr_payment request) (l_wallet l) = Inr (target, w)"
    and "review_draft B C W (ws_network (l_summary l)) request (available_coins cs) selected target w' psbt = Inr review"
    and "store_draft C now request psbt review db = Inr db1"
    and "db' = save W (dr_wallet_id request) (l\<lparr>l_wallet := w'\<rparr>) db1"
proof -
  have label: "validate_label (dr_label request) = Inr ()"
    and rate: "1 \<le> dr_fee_sat_per_kwu request" "dr_fee_sat_per_kwu request \<le> 250000"
    and body: "create_draft_body B C W now request db = Inr (review, db')"
    using assms by (auto simp: create_draft_def run_tx_ok split: sum.splits if_splits)
  show thesis
    using body that [OF label rate]
    unfolding create_draft_body_def Let_def rbind_Inr_iff if_Inl_Inr_iff
    by (auto simp: result_simps)
qed

lemma review_draft_Inr:
  assumes "review_draft B C W network request available selected target w psbt = Inr review"
  shows "rmap (review_input B available) (tx_input (unsigned_tx psbt)) = Inr (dv_inputs review)
    \<and> (\<forall>ops. selected = Some ops \<longrightarrow> set (map previous_output (tx_input (unsigned_tx psbt))) = set ops)
    \<and> fee_sats review \<le> fee_cap \<and> dv_state review = ''unsigned'' \<and> dv_label review = dr_label request
    \<and> dv_id review = draft_identity B (dr_wallet_id request) (unsigned_tx psbt)
    \<and> dv_wallet_id review = dr_wallet_id request
    \<and> (is_consolidate (dr_payment request) \<longrightarrow>
        (\<exists>out. dv_outputs review = [out] \<and> ro_is_mine out))"
  using assms unfolding review_draft_def Let_def
  by (auto simp: result_simps not_less length_Suc_conv split: option.splits)

lemma available_lookup:
  "map_of (available_coins cs) op = Some c \<Longrightarrow> c \<in> set cs \<and> coin_status c = Available \<and> coin_outpoint c = op"
  by (auto simp: available_coins_def dest: map_of_SomeD)

lemma review_inputs_available:
  assumes "rmap (review_input B (available_coins cs)) ins = Inr is" and "i \<in> set is"
  shows "\<exists>c \<in> set cs. coin_status c = Available \<and> coin_outpoint c = ri_outpoint i \<and> coin_sats c = ri_sats i"
  using rmap_set [OF assms]
  by (fastforce simp: review_input_def Let_def result_simps dest!: available_lookup)

lemma review_inputs_outpoints:
  "rmap (review_input B available) ins = Inr is \<Longrightarrow>
   map ri_outpoint is = map (\<lambda>i. show_outpoint B (previous_output i)) ins"
  by (induction ins arbitrary: "is") (auto simp: review_input_def Let_def result_simps)

text \<open>
  C2. A draft spends only what the wallet may spend: the wallet is not on mainnet and has been
  synchronized, each input is one of its unspent outputs that is confirmed and mature, not frozen,
  not reserved by another draft and not held for a restored submission, with the output's value;
  with an explicit selection the inputs are exactly the selected coins; the fee is within the
  development cap, and a consolidation pays the wallet itself and nobody else.
\<close>

theorem create_draft_spends_available:
  assumes "create_draft B C W now request db = (Inr review, db')"
  shows "\<exists>l. load W db (dr_wallet_id request) = Inr l
    \<and> ws_network (l_summary l) \<noteq> Mainnet \<and> ws_synced_at (l_summary l) \<noteq> None
    \<and> (\<forall>i \<in> set (dv_inputs review). \<exists>c \<in> set (list_unspent W (l_wallet l)).
          ri_outpoint i = show_outpoint B (lo_outpoint c) \<and> ri_sats i = txo_value (lo_txout c)
          \<and> spendable_coin B W db (dr_wallet_id request) (l_wallet l) c)
    \<and> (\<forall>ids. selected_outpoints request = Some ids \<longrightarrow>
          (\<exists>ops. rmap (read_outpoint B) ids = Inr ops
             \<and> set (map ri_outpoint (dv_inputs review)) = set (map (show_outpoint B) ops)))
    \<and> fee_sats review \<le> 1000000
    \<and> (is_consolidate (dr_payment request) \<longrightarrow>
        (\<exists>out. dv_outputs review = [out] \<and> ro_is_mine out))"
proof (rule create_draft_Inr [OF assms])
  fix l cs selected target w psbt w' db1
  assume load: "load W db (dr_wallet_id request) = Inr l"
    and net: "ws_network (l_summary l) \<noteq> Mainnet" "ws_synced_at (l_summary l) \<noteq> None"
    and cs: "wallet_coins B W db (dr_wallet_id request) (l_wallet l) = Inr cs"
    and sel: "select_coins B (available_coins cs) (selected_outpoints request) = Inr selected"
    and rev: "review_draft B C W (ws_network (l_summary l)) request (available_coins cs) selected target w' psbt
        = Inr review"
  note review = review_draft_Inr [OF rev]
  have inputs: "\<exists>c \<in> set (list_unspent W (l_wallet l)).
      ri_outpoint i = show_outpoint B (lo_outpoint c) \<and> ri_sats i = txo_value (lo_txout c)
      \<and> spendable_coin B W db (dr_wallet_id request) (l_wallet l) c" if i: "i \<in> set (dv_inputs review)" for i
    using review_inputs_available [OF conjunct1 [OF review] i] wallet_coins_set [OF cs]
    by (metis status_available)
  have "\<exists>ops. rmap (read_outpoint B) ids = Inr ops
      \<and> set (map ri_outpoint (dv_inputs review)) = set (map (show_outpoint B) ops)"
    if ids: "selected_outpoints request = Some ids" for ids
  proof -
    obtain ops where ops: "selected = Some ops"
      and each: "rmap (\<lambda>i. if \<not> has_key i (available_coins cs) then Inl UnavailableCoin else read_outpoint B i) ids
          = Inr ops"
      using sel ids by (auto simp: select_coins_def result_simps)
    have "rmap (read_outpoint B) ids = Inr ops"
      using each unfolding rmap_Inr_iff by (rule list_all2_mono) (simp split: if_splits)
    moreover have "set (map ri_outpoint (dv_inputs review)) = show_outpoint B ` set ops"
    proof -
      have "set (map ri_outpoint (dv_inputs review))
          = show_outpoint B ` set (map previous_output (tx_input (unsigned_tx psbt)))"
        unfolding review_inputs_outpoints [OF conjunct1 [OF review]] by (simp add: image_image)
      then show ?thesis using review ops by metis
    qed
    ultimately show ?thesis by auto
  qed
  with load net inputs review show ?thesis by (auto simp: fee_cap_def)
qed

text \<open>
  A draft reserves exactly its inputs: they are distinct, none was reserved before, each is now
  reserved for this draft, no other reservation, no freeze, no label and no other draft changes,
  and the stored review is the one returned.
\<close>

theorem create_draft_reserves:
  assumes "create_draft B C W now request db = (Inr review, db')"
  shows "distinct (map ri_outpoint (dv_inputs review))
    \<and> (\<forall>op. map_of (reservations db') (dr_wallet_id request, op)
         = (if op \<in> set (map ri_outpoint (dv_inputs review)) then Some (dv_id review)
            else map_of (reservations db) (dr_wallet_id request, op)))
    \<and> (\<forall>op \<in> set (map ri_outpoint (dv_inputs review)).
         map_of (reservations db) (dr_wallet_id request, op) = None)
    \<and> (\<forall>w op. w \<noteq> dr_wallet_id request \<longrightarrow> map_of (reservations db') (w, op) = map_of (reservations db) (w, op))
    \<and> freezes db' = freezes db \<and> labels db' = labels db
    \<and> map_option d_review (map_of (drafts db') (dr_wallet_id request, dv_id review)) = Some (Some review)
    \<and> (\<forall>k. k \<noteq> (dr_wallet_id request, dv_id review) \<longrightarrow> map_of (drafts db') k = map_of (drafts db) k)"
proof (rule create_draft_Inr [OF assms])
  fix l w' db1 psbt
  assume store: "store_draft C now request psbt review db = Inr db1"
    and db': "db' = save W (dr_wallet_id request) (l\<lparr>l_wallet := w'\<rparr>) db1"
  let ?new = "map (\<lambda>i. ((dr_wallet_id request, ri_outpoint i), dv_id review)) (dv_inputs review)"
  note stored = store_draft_Inr [OF store]
  have same: "reservations db' = reservations db1" "freezes db' = freezes db1" "labels db' = labels db1"
    "drafts db' = drafts db1"
    by (simp_all add: db' save_def sql_set_state_def)
  have new: "map_of ?new k = (if fst k = dr_wallet_id request \<and> snd k \<in> set (map ri_outpoint (dv_inputs review))
      then Some (dv_id review) else None)" for k
    by (simp add: map_of_new_rows)
  have free: "map_of (reservations db) (dr_wallet_id request, op) = None"
    if "op \<in> set (map ri_outpoint (dv_inputs review))" for op
    using that stored by (auto simp: map_of_None_iff)
  have "map_of (drafts db) (dr_wallet_id request, dv_id review) = None"
    using stored by (simp add: map_of_None_iff)
  then show ?thesis
    unfolding same using stored new free by (auto simp: map_add_def split: option.splits)
qed

section \<open>The sample draft\<close>

definition sample_request :: draft_request where
  "sample_request = \<lparr>dr_wallet_id = ''w'', dr_payment = Send ''tb1payee'' 20000,
     selected_outpoints = Some [''a:0''], dr_fee_sat_per_kwu = 250, dr_label = ''rent''\<rparr>"

definition sample_review :: draft_review where
  "sample_review = \<lparr>dv_id = ''w:'' @ sample_hash [12], dv_wallet_id = ''w'',
     dv_inputs = [\<lparr>ri_outpoint = ''a:0'', ri_sats = 50000, ri_label = []\<rparr>],
     dv_outputs = [\<lparr>ro_address = ''tb1payee'', ro_sats = 20000, is_change = False, ro_is_mine = False\<rparr>,
                   \<lparr>ro_address = ''tb1change'', ro_sats = 29000, is_change = True, ro_is_mine = True\<rparr>],
     fee_sats = 1000, dv_fee_sat_per_kwu = Some 250, dv_label = ''rent'', is_consolidation = False,
     dv_state = ''unsigned''\<rparr>"

definition sample_draft_row :: draft_row where
  "sample_draft_row = \<lparr>d_psbt = ''cHNidP8='', d_review = Some sample_review, d_label = ''rent'', d_created_at = 9\<rparr>"

definition sample_draft_db :: "nat db" where
  "sample_draft_db = sample_db\<lparr>drafts := [((''w'', ''w:'' @ sample_hash [12]), sample_draft_row)],
     reservations := [((''w'', ''a:0''), ''w:'' @ sample_hash [12])]\<rparr>"

lemma sample_draft_wf: "wf_db sample_draft_db"
  by (simp add: sample_draft_db_def sample_db_def empty_db_def wf_db_def unique_keys_def unique_ids_def
      ids_below_def refs_def)

lemma sample_create_with:
  assumes codec: "parse_response C spend_bytes = Inr spend_psbt" "psbt_bytes C spend_psbt = spend_bytes"
    "psbt_text C spend_psbt = ''cHNidP8=''"
  shows "create_draft sample_bitcoin C sample_bdk 9 sample_request sample_db = (Inr sample_review, sample_draft_db)"
proof -
  have available: "available_coins [sample_coin_a, sample_coin_b] = [(''a:0'', sample_coin_a)]"
    by (simp add: available_coins_def sample_coin_a_def sample_coin_b_def)
  have selected: "select_coins sample_bitcoin [(''a:0'', sample_coin_a)] (Some [''a:0'']) = Inr (Some [op_a])"
    by (simp add: select_coins_def has_key_def read_outpoint_def sample_outpoints_def)
  have target: "payment_target sample_bitcoin sample_bdk Signet (Some [op_a]) (Send ''tb1payee'' 20000) 0 = Inr ([9], 0)"
    by (simp add: payment_target_def MAX_SATS_def recipient_script_def sample_scripts_def)
  have unsigned: "unsigned_tx spend_psbt = spend_tx" by (simp add: spend_psbt_def)
  have review: "review_draft sample_bitcoin C sample_bdk Signet sample_request [(''a:0'', sample_coin_a)]
      (Some [op_a]) [9] 0 spend_psbt = Inr sample_review"
    by (simp add: review_draft_def codec unsigned sample_request_def spend_tx_def review_input_def
        review_output_def sample_coin_a_def is_consolidate_def fee_cap_def draft_identity_def sample_review_def
        sample_scripts_def)
  have store: "store_draft C 9 sample_request spend_psbt sample_review sample_db = Inr sample_draft_db"
    by (simp add: store_draft_def codec sample_request_def sample_review_def sql_insert_draft_def wallet_exists_def
        has_key_def sql_insert_reservation_def draft_exists_def tbl_insert_def sample_draft_db_def
        sample_draft_row_def)
  have saved: "save sample_bdk ''w'' (sample_loaded\<lparr>l_wallet := 0\<rparr>) sample_draft_db = sample_draft_db"
    by (simp add: save_def staged_state_def sql_set_state_def tbl_update_def sample_draft_db_def sample_db_def
        sample_row_def)
  have parts: "dr_wallet_id sample_request = ''w''" "selected_outpoints sample_request = Some [''a:0'']"
    "dr_payment sample_request = Send ''tb1payee'' 20000" "l_wallet sample_loaded = 0"
    "ws_network (l_summary sample_loaded) = Signet" "ws_synced_at (l_summary sample_loaded) = Some 5"
    by (simp_all add: sample_request_def sample_loaded_def)
  have other: "coin_status sample_coin_a = Available" "coin_status sample_coin_b = Frozen"
    "read_outpoint sample_bitcoin (coin_outpoint sample_coin_b) = Inr op_b"
    by (simp_all add: sample_coin_a_def sample_coin_b_def read_outpoint_def sample_outpoints_def)
  have "create_draft_body sample_bitcoin C sample_bdk 9 sample_request sample_db
      = Inr (sample_review, sample_draft_db)"
    by (simp add: create_draft_body_def parts sample_load sample_wallet_coins available selected target other
        review store saved)
  then show ?thesis
    by (simp add: create_draft_def run_tx_def validate_label_def sample_request_def char_count_def)
qed

lemma sample_create:
  "create_draft sample_bitcoin sample_codec sample_bdk 9 sample_request sample_db = (Inr sample_review, sample_draft_db)"
  by (rule sample_create_with) (simp_all add: sample_response)

theorem create_draft_spends_available_witness:
  "\<exists>l. load sample_bdk sample_db ''w'' = Inr l
    \<and> (\<exists>c \<in> set (list_unspent sample_bdk (l_wallet l)).
         ''a:0'' = show_outpoint sample_bitcoin (lo_outpoint c)
         \<and> spendable_coin sample_bitcoin sample_bdk sample_db ''w'' (l_wallet l) c)"
proof -
  let ?i = "\<lparr>ri_outpoint = ''a:0'', ri_sats = 50000, ri_label = []\<rparr>"
  have parts: "dr_wallet_id sample_request = ''w''" "dv_inputs sample_review = [?i]"
    by (simp_all add: sample_request_def sample_review_def)
  obtain l where l: "load sample_bdk sample_db ''w'' = Inr l"
    and "\<forall>i \<in> set [?i]. \<exists>c \<in> set (list_unspent sample_bdk (l_wallet l)).
          ri_outpoint i = show_outpoint sample_bitcoin (lo_outpoint c) \<and> ri_sats i = txo_value (lo_txout c)
          \<and> spendable_coin sample_bitcoin sample_bdk sample_db ''w'' (l_wallet l) c"
    using create_draft_spends_available [OF sample_create] unfolding parts by blast
  then have "\<exists>c \<in> set (list_unspent sample_bdk (l_wallet l)).
      ri_outpoint ?i = show_outpoint sample_bitcoin (lo_outpoint c)
      \<and> spendable_coin sample_bitcoin sample_bdk sample_db ''w'' (l_wallet l) c"
    by (meson list.set_intros(1))
  with l show ?thesis unfolding reviewed_input.simps by blast
qed

theorem create_draft_reserves_witness:
  "map_of (reservations sample_draft_db) (''w'', ''a:0'') = Some (dv_id sample_review)
   \<and> freezes sample_draft_db = freezes sample_db"
proof -
  have "dr_wallet_id sample_request = ''w''" "map ri_outpoint (dv_inputs sample_review) = [''a:0'']"
    by (simp_all add: sample_request_def sample_review_def)
  then show ?thesis using create_draft_reserves [OF sample_create] by (metis list.set_intros(1))
qed

section \<open>Discarding\<close>

lemma map_of_filter_value:
  assumes "unique_keys t"
  shows "map_of (filter (\<lambda>r. \<not> (P (fst r) \<and> snd r = v)) t) k
    = (if P k \<and> map_of t k = Some v then None else map_of t k)"
  using assms
proof (induction t)
  case (Cons r t)
  have "map_of t (fst r) = None" using Cons.prems by (simp add: unique_keys_def map_of_eq_None_iff)
  then show ?case using Cons by (cases r) (auto simp: unique_keys_def)
qed simp

lemma delete_draft_tables:
  "reservations (sql_delete_draft w d db) = filter (\<lambda>r. \<not> (fst (fst r) = w \<and> snd r = d)) (reservations db)"
  "freezes (sql_delete_draft w d db) = freezes db" "labels (sql_delete_draft w d db) = labels db"
  "wallets (sql_delete_draft w d db) = wallets db"
  "drafts (sql_delete_draft w d db) = tbl_delete (\<lambda>k. k = (w, d)) (drafts db)"
  by (simp_all add: sql_delete_draft_def sql_delete_recovered_def sql_release_def)

text \<open>
  A draft can be discarded exactly when it exists and was never submitted. Discarding it
  releases its own reservations and no other, removes that draft only, and keeps every freeze and
  every label; a refused discard changes nothing.
\<close>

theorem discard_draft_releases:
  assumes "wf_db db"
  shows "if (w, d) \<in> keys (drafts db) \<and> \<not> (\<exists>a \<in> set (broadcast_attempts db). attempt_draft a = (w, d))
    then fst (discard_draft w d db) = Inr ()
      \<and> (\<forall>k. map_of (reservations (snd (discard_draft w d db))) k
           = (if fst k = w \<and> map_of (reservations db) k = Some d then None else map_of (reservations db) k))
      \<and> (\<forall>k. map_of (drafts (snd (discard_draft w d db))) k = (if k = (w, d) then None else map_of (drafts db) k))
      \<and> freezes (snd (discard_draft w d db)) = freezes db \<and> labels (snd (discard_draft w d db)) = labels db
    else is_ok (fst (discard_draft w d db)) = False \<and> snd (discard_draft w d db) = db"
proof -
  have "unique_keys (reservations db)" using assms by (simp add: wf_db_def)
  from map_of_filter_value [OF this, of "\<lambda>k. fst k = w" d]
  show ?thesis
    by (auto simp: discard_draft_def run_tx_def submitted_def list_ex_iff draft_exists_def has_key_iff
        delete_draft_tables map_of_delete)
qed

theorem discard_draft_releases_witness:
  "fst (discard_draft ''w'' (''w:'' @ sample_hash [12]) sample_draft_db) = Inr ()
   \<and> map_of (reservations (snd (discard_draft ''w'' (''w:'' @ sample_hash [12]) sample_draft_db))) (''w'', ''a:0'') = None"
proof -
  note sample_draft_wf
  moreover have "drafts sample_draft_db = [((''w'', ''w:'' @ sample_hash [12]), sample_draft_row)]"
    "broadcast_attempts sample_draft_db = []"
    "reservations sample_draft_db = [((''w'', ''a:0''), ''w:'' @ sample_hash [12])]"
    by (simp_all add: sample_draft_db_def)
  ultimately show ?thesis
    using discard_draft_releases [of sample_draft_db "''w''" "''w:'' @ sample_hash [12]"] by simp
qed

section \<open>Bulk edits\<close>

definition edit_effect :: "string \<Rightarrow> string option \<Rightarrow> bool option \<Rightarrow> string \<Rightarrow> 'cs db \<Rightarrow> 'cs db" where
  "edit_effect wid label frozen r db =
     db\<lparr>labels := (case label of None \<Rightarrow> labels db
          | Some l \<Rightarrow> tbl_upsert (wid, ''output'', r) l (labels db)),
        freezes := (case frozen of None \<Rightarrow> freezes db
          | Some True \<Rightarrow> tbl_insert_ignore (wid, r) () (freezes db)
          | Some False \<Rightarrow> tbl_delete (\<lambda>k. k = (wid, r)) (freezes db))\<rparr>"

lemma edit_coin_step_eq:
  assumes "wid \<in> keys (wallets db)" and "\<And>l. label = Some l \<Longrightarrow> char_count l \<le> 255"
  shows "edit_coin_step known wid label frozen r db =
    (if r \<in> set known then Inr (edit_effect wid label frozen r db) else Inl UnavailableCoin)"
  using assms
  by (cases label; cases frozen)
    (auto simp: edit_coin_step_def edit_effect_def put_label_def sql_upsert_label_def label_check_def label_kinds_def
      sql_exists write_freeze_def sql_freeze_def sql_unfreeze_def ignore_insert_def List.member_iff
      tbl_insert_ignore_def)

lemma edit_coin_steps:
  assumes "wid \<in> keys (wallets db)" and "\<And>l. label = Some l \<Longrightarrow> char_count l \<le> 255"
  shows "rfold (edit_coin_step known wid label frozen) rs db =
    (if set rs \<subseteq> set known then Inr (fold (edit_effect wid label frozen) rs db) else Inl UnavailableCoin)"
  using assms(1)
proof (induction rs arbitrary: db)
  case (Cons r rs)
  have "wid \<in> keys (wallets (edit_effect wid label frozen r db))"
    using Cons.prems by (simp add: edit_effect_def)
  then show ?case using Cons assms(2) by (auto simp: edit_coin_step_eq)
qed simp

lemma edit_fold_tables:
  "labels (fold (edit_effect wid label frozen) rs db) =
     (case label of None \<Rightarrow> labels db
      | Some l \<Rightarrow> fold (\<lambda>r. tbl_upsert (wid, ''output'', r) l) rs (labels db))"
  "freezes (fold (edit_effect wid label frozen) rs db) =
     (case frozen of None \<Rightarrow> freezes db
      | Some True \<Rightarrow> fold (\<lambda>r. tbl_insert_ignore (wid, r) ()) rs (freezes db)
      | Some False \<Rightarrow> fold (\<lambda>r. tbl_delete (\<lambda>k. k = (wid, r))) rs (freezes db))"
  by (induction rs arbitrary: db) (auto simp: edit_effect_def split: option.splits bool.splits)

text \<open>The conditions of \<^verbatim>\<open>edit_coins\<close>: every reference is one of the wallet's coins, once.\<close>

definition edit_allowed ::
  "bitcoin \<Rightarrow> ('w, 'cs) bdk \<Rightarrow> string \<Rightarrow> string list \<Rightarrow> string option \<Rightarrow> bool option \<Rightarrow> 'cs db \<Rightarrow> bool" where
  "edit_allowed B W wid rs label frozen db \<longleftrightarrow>
     rs \<noteq> [] \<and> length rs \<le> 200 \<and> distinct rs \<and> (label \<noteq> None \<or> frozen \<noteq> None)
     \<and> (case label of None \<Rightarrow> True | Some l \<Rightarrow> is_ok (validate_label l))
     \<and> (case load W db wid of Inl _ \<Rightarrow> False
        | Inr l \<Rightarrow> set rs \<subseteq> (\<lambda>c. show_outpoint B (lo_outpoint c)) ` set (list_unspent W (l_wallet l)))"

lemma edit_coins_run:
  assumes l: "load W db wid = Inr l"
    and label: "(case label of None \<Rightarrow> Inr () | Some x \<Rightarrow> validate_label x) = Inr ()"
    and shape: "\<not> (rs = [] \<or> 200 < length rs \<or> label = None \<and> frozen = None)"
  shows "edit_coins B W wid rs label frozen db =
    (if \<not> distinct rs then (Inl (InvalidInput ''duplicate outpoint''), db)
     else if set rs \<subseteq> (\<lambda>c. show_outpoint B (lo_outpoint c)) ` set (list_unspent W (l_wallet l))
       then (Inr (), fold (edit_effect wid label frozen) rs db)
     else (Inl UnavailableCoin, db))"
proof -
  have "\<And>x. label = Some x \<Longrightarrow> char_count x \<le> 255" using label by (auto simp: validate_label_ok)
  note steps = edit_coin_steps [OF load_known [OF l] this]
  show ?thesis
    unfolding edit_coins_def if_not_P [OF shape] label sum.case
    by (simp add: run_tx_def l Let_def steps)
qed

lemma edit_coins_eq:
  "edit_allowed B W wid rs label frozen db \<Longrightarrow>
     edit_coins B W wid rs label frozen db = (Inr (), fold (edit_effect wid label frozen) rs db)"
  "\<not> edit_allowed B W wid rs label frozen db \<Longrightarrow>
     \<exists>e. edit_coins B W wid rs label frozen db = (Inl e, db)"
proof -
  let ?label = "case label of None \<Rightarrow> Inr () | Some x \<Rightarrow> validate_label x"
  let ?shape = "\<not> (rs = [] \<or> 200 < length rs \<or> label = None \<and> frozen = None)"
  have allowed: "edit_allowed B W wid rs label frozen db \<longleftrightarrow> ?shape \<and> ?label = Inr () \<and> distinct rs
      \<and> (\<exists>l. load W db wid = Inr l
           \<and> set rs \<subseteq> (\<lambda>c. show_outpoint B (lo_outpoint c)) ` set (list_unspent W (l_wallet l)))"
    by (auto simp: edit_allowed_def is_ok_iff split: sum.splits option.splits)
  show "edit_allowed B W wid rs label frozen db \<Longrightarrow>
      edit_coins B W wid rs label frozen db = (Inr (), fold (edit_effect wid label frozen) rs db)"
    using edit_coins_run unfolding allowed by metis
  assume refused: "\<not> edit_allowed B W wid rs label frozen db"
  show "\<exists>e. edit_coins B W wid rs label frozen db = (Inl e, db)"
  proof (cases "?shape \<and> ?label = Inr ()")
    case True
    show ?thesis
    proof (cases "load W db wid")
      case (Inl e)
      then show ?thesis using True by (auto simp: edit_coins_def run_tx_def)
    next
      case (Inr l)
      show ?thesis using edit_coins_run [OF Inr] True refused unfolding allowed by (auto simp: Inr)
    qed
  next
    case False
    then show ?thesis by (cases ?label) (auto simp: edit_coins_def)
  qed
qed

text \<open>
  A bulk edit is all or nothing: it succeeds exactly when its 1 to 200 references are
  different coins of the wallet and its label is valid, then every reference has the new label and
  freeze, and nothing else changed; otherwise nothing changed at all.
\<close>

theorem edit_coins_all_or_nothing:
  "if edit_allowed B W wid rs label frozen db
   then fst (edit_coins B W wid rs label frozen db) = Inr ()
     \<and> (\<forall>k. map_of (labels (snd (edit_coins B W wid rs label frozen db))) k
          = (if label \<noteq> None \<and> k \<in> (\<lambda>r. (wid, ''output'', r)) ` set rs then label else map_of (labels db) k))
     \<and> (\<forall>k. map_of (freezes (snd (edit_coins B W wid rs label frozen db))) k
          = (if frozen = Some True \<and> k \<in> Pair wid ` set rs then Some ()
             else if frozen = Some False \<and> k \<in> Pair wid ` set rs then None
             else map_of (freezes db) k))
   else is_ok (fst (edit_coins B W wid rs label frozen db)) = False
     \<and> snd (edit_coins B W wid rs label frozen db) = db"
proof (cases "edit_allowed B W wid rs label frozen db")
  case True
  have labels: "map_of (labels (fold (edit_effect wid label frozen) rs db)) k
      = (if label \<noteq> None \<and> k \<in> (\<lambda>r. (wid, ''output'', r)) ` set rs then label else map_of (labels db) k)" for k
    by (cases label) (simp_all add: edit_fold_tables tbl.fold_upsert_lookup)
  have freezes: "map_of (freezes (fold (edit_effect wid label frozen) rs db)) k
      = (if frozen = Some True \<and> k \<in> Pair wid ` set rs then Some ()
         else if frozen = Some False \<and> k \<in> Pair wid ` set rs then None
         else map_of (freezes db) k)" for k
  proof (cases frozen)
    case (Some f)
    have unit: "x = y" if "x \<noteq> None \<longleftrightarrow> y \<noteq> None" for x y :: "unit option"
      using that by (cases x; cases y) auto
    have "map_of (fold (\<lambda>r. tbl_insert_ignore (wid, r) ()) rs (freezes db)) k
        = (if k \<in> Pair wid ` set rs then Some () else map_of (freezes db) k)"
      using tbl.fold_insert_ignore_keys [of "Pair wid" "()" rs "freezes db" k] by (intro unit) simp
    then show ?thesis
      using Some by (cases f) (simp_all add: edit_fold_tables tbl.fold_delete_lookup)
  qed (simp add: edit_fold_tables)
  show ?thesis using True labels freezes by (simp add: edit_coins_eq(1))
next
  case False
  with edit_coins_eq(2) [OF False] show ?thesis by auto
qed

section \<open>Addresses\<close>

lemma receive_address_Inr:
  "receive_address W wid db = (Inr r, db') \<longleftrightarrow>
     (\<exists>l. load W db wid = Inr l
        \<and> r = \<lparr>ra_address = snd (fst (reveal_next_address W (l_wallet l) External)),
               ra_index = fst (fst (reveal_next_address W (l_wallet l) External)), hardware_verified = False\<rparr>
        \<and> db' = save W wid (l\<lparr>l_wallet := snd (reveal_next_address W (l_wallet l) External)\<rparr>) db)"
  by (auto simp: receive_address_def run_tx_ok result_simps Let_def case_prod_beta)

end
