(* ===== verification/Signing.thy ===== *)
theory Signing
  imports Drafts
begin

text \<open>
  The second part of \<^verbatim>\<open>crates/tundra-core/src/signing.rs\<close>: validating and merging the signatures of
  a response against an approved draft, and assembling the final transaction. Script and signature
  primitives are parameters (\<open>crypto\<close>); which key may sign which input, which metadata is
  tolerated and what is kept of a response is the core's own code.
\<close>

record crypto =
  descriptor_script :: "public_key descriptor \<Rightarrow> byte list"
  explicit_script :: "public_key descriptor \<Rightarrow> byte list option"
  p2wpkh_sighash :: "transaction \<Rightarrow> nat \<Rightarrow> byte list \<Rightarrow> nat \<Rightarrow> byte list option"
  p2wsh_sighash :: "transaction \<Rightarrow> nat \<Rightarrow> byte list \<Rightarrow> nat \<Rightarrow> byte list option"
  verify_ecdsa :: "byte list \<Rightarrow> byte list \<Rightarrow> public_key \<Rightarrow> bool"
  sig_from_slice :: "byte list \<Rightarrow> signature option"
  sig_to_vec :: "signature \<Rightarrow> byte list"
  derive_input :: "public_descriptor \<Rightarrow> nat \<Rightarrow> (psbt_input \<times> public_key descriptor) option"
  derive_output :: "public_descriptor \<Rightarrow> nat \<Rightarrow> (psbt_output \<times> public_key descriptor) option"

definition sighash_all :: nat where
  "sighash_all = 1"

record trusted_input =
  prevout :: txout
  metadata :: psbt_input
  t_descriptor :: "public_key descriptor"

section \<open>The keys of an input\<close>

fun policy_keys :: "public_key descriptor \<Rightarrow> (public_key list \<times> nat) result" where
  "policy_keys (Wpkh k) = Inr ([k], 1)"
| "policy_keys (Wsh (SortedMulti k ks)) =
     (if k = 2 \<and> length ks = 3 then Inr (ks, 2) else Inl UnsupportedPolicy)"
| "policy_keys (Wsh (OtherWsh _ _)) = Inl UnsupportedPolicy"
| "policy_keys (OtherDescriptor _ _) = Inl UnsupportedPolicy"

definition trusted_keys :: "crypto \<Rightarrow> trusted_input \<Rightarrow> (public_key list \<times> nat) result" where
  "trusted_keys K t =
     rbind (policy_keys (t_descriptor t)) (\<lambda>(pks, required).
     let ks = sort_key key_bytes pks in
     if \<not> list_all compressed ks \<or> \<not> distinct ks
        \<or> descriptor_script K (t_descriptor t) \<noteq> script_pubkey (prevout t)
     then Inl CorruptState
     else Inr (ks, required))"

section \<open>Metadata\<close>

definition subset_map :: "('k \<times> 'v) list \<Rightarrow> ('k \<times> 'v) list \<Rightarrow> bool" where
  "subset_map candidate expected = list_all (\<lambda>(k, v). map_of expected k = Some v) candidate"

definition optional_field :: "'a option \<Rightarrow> 'a option \<Rightarrow> bool" where
  "optional_field candidate expected = (candidate = None \<or> candidate = expected)"

definition output_at :: "transaction \<Rightarrow> nat \<Rightarrow> txout option" where
  "output_at tx i = (if i < length (tx_output tx) then Some (tx_output tx ! i) else None)"

definition check_metadata ::
  "bitcoin \<Rightarrow> psbt_input \<Rightarrow> trusted_input \<Rightarrow> transaction \<Rightarrow> nat \<Rightarrow> unit result" where
  "check_metadata B i t tx index =
     (if \<not> optional_field (witness_utxo i) (Some (prevout t))
         \<or> \<not> optional_field (in_witness_script i) (in_witness_script (metadata t))
         \<or> \<not> subset_map (in_derivation i) (in_derivation (metadata t))
         \<or> (case in_sighash_type i of None \<Rightarrow> False | Some s \<Rightarrow> s \<noteq> sighash_all)
      then Inl mismatch_response
      else if (case non_witness_utxo i of
                 None \<Rightarrow> False
               | Some prev \<Rightarrow>
                   (let op = previous_output (tx_input tx ! index) in
                    compute_txid B prev \<noteq> op_txid op \<or> output_at prev (op_vout op) \<noteq> Some (prevout t)))
        then Inl mismatch_response
      else if i \<noteq> i\<lparr>in_other := []\<rparr>
              \<or> (case final_script_sig i of None \<Rightarrow> False | Some s \<Rightarrow> s \<noteq> [])
        then Inl invalid_response
      else Inr ())"

section \<open>Signatures\<close>

definition input_hash ::
  "crypto \<Rightarrow> transaction \<Rightarrow> nat \<Rightarrow> trusted_input \<Rightarrow> nat \<Rightarrow> byte list result" where
  "input_hash K tx index t required =
     (if required = 1
      then ok_or (p2wpkh_sighash K tx index (script_pubkey (prevout t)) (txo_value (prevout t))) invalid_response
      else
        rbind (ok_or (explicit_script K (t_descriptor t)) invalid_response) (\<lambda>script.
        ok_or (p2wsh_sighash K tx index script (txo_value (prevout t))) invalid_response))"

definition valid_signature :: "crypto \<Rightarrow> byte list \<Rightarrow> public_key \<Rightarrow> signature \<Rightarrow> bool" where
  "valid_signature K hash key s =
     (sighash_type s = sighash_all \<and> verify_ecdsa K hash (sig_bytes s) key)"

text \<open>
  The signatures of a multisig witness against the keys in script order: each signature consumes
  keys up to the first one it is valid for (\<^verbatim>\<open>remaining.find\<close>).
\<close>

fun match_signatures ::
  "crypto \<Rightarrow> byte list \<Rightarrow> public_key list \<Rightarrow> byte list list \<Rightarrow> (public_key \<times> signature) list \<Rightarrow>
   (public_key \<times> signature) list result" where
  "match_signatures K hash remaining [] sigs = Inr sigs"
| "match_signatures K hash remaining (b # bs) sigs =
     rbind (ok_or (sig_from_slice K b) invalid_response) (\<lambda>s.
     case dropWhile (\<lambda>key. \<not> valid_signature K hash key s) remaining of
       [] \<Rightarrow> Inl invalid_response
     | key # rest \<Rightarrow> match_signatures K hash rest bs (tbl_upsert key s sigs))"

definition witness_signatures ::
  "crypto \<Rightarrow> trusted_input \<Rightarrow> byte list \<Rightarrow> public_key list \<Rightarrow> nat \<Rightarrow> byte list list \<Rightarrow>
   (public_key \<times> signature) list result" where
  "witness_signatures K t hash ks required stack =
     (if required = 1
      then
        (if length stack \<noteq> 2 \<or> stack ! 1 \<noteq> key_bytes (ks ! 0) then Inl invalid_response
         else
           rbind (ok_or (sig_from_slice K (stack ! 0)) invalid_response) (\<lambda>s.
           if \<not> valid_signature K hash (ks ! 0) s then Inl invalid_response
           else Inr [(ks ! 0, s)]))
      else
        rbind (ok_or (explicit_script K (t_descriptor t)) invalid_response) (\<lambda>script.
        if length stack \<noteq> required + 2 \<or> stack ! 0 \<noteq> [] \<or> stack ! (required + 1) \<noteq> script
        then Inl invalid_response
        else match_signatures K hash ks (take required (drop 1 stack)) []))"

definition input_signatures ::
  "crypto \<Rightarrow> transaction \<Rightarrow> nat \<Rightarrow> psbt_input \<Rightarrow> trusted_input \<Rightarrow>
   (public_key \<times> signature) list result" where
  "input_signatures K tx index i t =
     rbind (trusted_keys K t) (\<lambda>(ks, required).
     rbind (input_hash K tx index t required) (\<lambda>hash.
     if \<not> list_all (\<lambda>(key, s). List.member ks key \<and> valid_signature K hash key s) (partial_sigs i)
     then Inl invalid_response
     else
       (case final_script_witness i of
          None \<Rightarrow> Inr (partial_sigs i)
        | Some stack \<Rightarrow>
            (if partial_sigs i \<noteq> [] then Inl invalid_response
             else witness_signatures K t hash ks required stack))))"

section \<open>Merging\<close>

definition check_approved_input ::
  "bitcoin \<Rightarrow> psbt \<Rightarrow> trusted_input list \<Rightarrow> nat \<times> psbt_input \<Rightarrow> unit \<Rightarrow> unit result" where
  "check_approved_input B approved trusted = (\<lambda>(index, i) _.
     rbind (check_metadata B i (trusted ! index) (unsigned_tx approved) index) (\<lambda>_.
     if partial_sigs i \<noteq> [] \<or> final_script_witness i \<noteq> None \<or> final_script_sig i \<noteq> None
     then Inl CorruptState else Inr ()))"

definition check_output :: "psbt_output \<times> psbt_output \<Rightarrow> unit \<Rightarrow> unit result" where
  "check_output = (\<lambda>(out, expected) _.
     if out \<noteq> out\<lparr>out_other := []\<rparr>
        \<or> \<not> optional_field (out_redeem_script out) (out_redeem_script expected)
        \<or> \<not> optional_field (out_witness_script out) (out_witness_script expected)
        \<or> \<not> subset_map (out_derivation out) (out_derivation expected)
     then Inl mismatch_response else Inr ())"

text \<open>One signature into the merged inputs, a different one for the same key being refused.\<close>

definition insert_signature ::
  "nat \<Rightarrow> public_key \<times> signature \<Rightarrow> psbt_input list \<Rightarrow> psbt_input list result" where
  "insert_signature index = (\<lambda>(key, s) inputs.
     if (case map_of (partial_sigs (inputs ! index)) key of None \<Rightarrow> False | Some old \<Rightarrow> old \<noteq> s)
     then Inl mismatch_response
     else Inr (inputs[index := (inputs ! index)
                 \<lparr>partial_sigs := tbl_upsert key s (partial_sigs (inputs ! index))\<rparr>]))"

definition merge_input ::
  "bitcoin \<Rightarrow> crypto \<Rightarrow> psbt \<Rightarrow> trusted_input list \<Rightarrow> nat \<times> psbt_input \<Rightarrow> psbt_input list \<Rightarrow>
   psbt_input list result" where
  "merge_input B K approved trusted = (\<lambda>(index, i) inputs.
     rbind (check_metadata B i (trusted ! index) (unsigned_tx approved) index) (\<lambda>_.
     rbind (input_signatures K (unsigned_tx approved) index i (trusted ! index)) (\<lambda>sigs.
     rfold (insert_signature index) sigs inputs)))"

definition merge_candidate ::
  "bitcoin \<Rightarrow> crypto \<Rightarrow> psbt \<Rightarrow> trusted_input list \<Rightarrow> psbt \<Rightarrow> psbt_input list \<Rightarrow>
   psbt_input list result" where
  "merge_candidate B K approved trusted candidate inputs =
     (if ps_version candidate \<noteq> 0 \<or> unsigned_tx candidate \<noteq> unsigned_tx approved
         \<or> length (ps_inputs candidate) \<noteq> length trusted
         \<or> length (ps_outputs candidate) \<noteq> length (ps_outputs approved)
         \<or> \<not> subset_map (ps_xpub candidate) (ps_xpub approved)
         \<or> ps_unknown candidate \<noteq> [] \<or> ps_proprietary candidate \<noteq> []
      then Inl mismatch_response
      else
        rbind (rfold check_output (zip (ps_outputs candidate) (ps_outputs approved)) ()) (\<lambda>_.
        rfold (merge_input B K approved trusted) (enumerate 0 (ps_inputs candidate)) inputs))"

definition merge_response ::
  "bitcoin \<Rightarrow> crypto \<Rightarrow> psbt \<Rightarrow> psbt option \<Rightarrow> psbt \<Rightarrow> trusted_input list \<Rightarrow> psbt result" where
  "merge_response B K approved previous response trusted =
     (if length (ps_inputs approved) \<noteq> length trusted
         \<or> length (ps_inputs approved) \<noteq> length (tx_input (unsigned_tx approved))
         \<or> length (ps_outputs approved) \<noteq> length (tx_output (unsigned_tx approved))
         \<or> ps_version approved \<noteq> 0
      then Inl CorruptState
      else
        rbind (rfold (check_approved_input B approved trusted) (enumerate 0 (ps_inputs approved)) ()) (\<lambda>_.
        rbind (rfold (merge_candidate B K approved trusted)
                 ((case previous of None \<Rightarrow> [] | Some p \<Rightarrow> [p]) @ [response]) (ps_inputs approved)) (\<lambda>inputs.
        Inr (approved\<lparr>ps_inputs := inputs\<rparr>))))"

section \<open>Progress\<close>

definition input_progress ::
  "bitcoin \<Rightarrow> crypto \<Rightarrow> psbt \<Rightarrow> nat \<times> psbt_input \<times> trusted_input \<Rightarrow> input_signing_progress result" where
  "input_progress B K p = (\<lambda>(index, i, t).
     rbind (trusted_keys K t) (\<lambda>(_, required).
     Inr \<lparr>isp_outpoint = show_outpoint B (previous_output (tx_input (unsigned_tx p) ! index)),
          valid_signatures = length (partial_sigs i), required_signatures = required\<rparr>))"

definition progress ::
  "bitcoin \<Rightarrow> crypto \<Rightarrow> psbt \<Rightarrow> trusted_input list \<Rightarrow> input_signing_progress list result" where
  "progress B K p trusted = rmap (input_progress B K p) (enumerate 0 (zip (ps_inputs p) trusted))"

definition progress_of ::
  "bitcoin \<Rightarrow> crypto \<Rightarrow> string \<Rightarrow> psbt \<Rightarrow> trusted_input list \<Rightarrow> signing_progress result" where
  "progress_of B K d p trusted =
     rbind (progress B K p trusted) (\<lambda>inputs.
     Inr \<lparr>sp_draft_id = d, sp_inputs = inputs,
          sp_complete = (inputs \<noteq> []
            \<and> list_all (\<lambda>i. required_signatures i \<le> valid_signatures i) inputs)\<rparr>)"

section \<open>The final transaction\<close>

definition final_stack ::
  "crypto \<Rightarrow> public_key descriptor \<Rightarrow> (public_key \<times> signature) list \<Rightarrow> byte list list result" where
  "final_stack K d chosen =
     (case d of
        Wpkh _ \<Rightarrow> Inr [sig_to_vec K (snd (chosen ! 0)), key_bytes (fst (chosen ! 0))]
      | Wsh _ \<Rightarrow>
          rbind (ok_or (explicit_script K d) UnsupportedPolicy) (\<lambda>script.
          Inr ([] # map (\<lambda>(_, s). sig_to_vec K s) chosen @ [script]))
      | OtherDescriptor _ _ \<Rightarrow> Inl UnsupportedPolicy)"

definition select_signatures :: "public_key list \<Rightarrow> nat \<Rightarrow> psbt_input \<Rightarrow> (public_key \<times> signature) list" where
  "select_signatures ks required i =
     take required (List.map_filter (\<lambda>key. map_option (Pair key) (map_of (partial_sigs i) key)) ks)"

definition finalize_input ::
  "crypto \<Rightarrow> psbt \<Rightarrow> nat \<times> trusted_input \<Rightarrow> txin list \<times> psbt_input list \<Rightarrow>
   (txin list \<times> psbt_input list) result" where
  "finalize_input K merged = (\<lambda>(index, t) (ins, finalized).
     rbind (trusted_keys K t) (\<lambda>(ks, required).
     let chosen = select_signatures ks required (ps_inputs merged ! index) in
     if length chosen \<noteq> required then Inl CorruptState
     else
       rbind (final_stack K (t_descriptor t) chosen) (\<lambda>stack.
       Inr (ins[index := (ins ! index)\<lparr>tx_witness := stack\<rparr>],
            finalized[index := (finalized ! index)\<lparr>final_script_witness := Some stack\<rparr>]))))"

definition finalize_transaction ::
  "bitcoin \<Rightarrow> crypto \<Rightarrow> psbt \<Rightarrow> psbt option \<Rightarrow> trusted_input list \<Rightarrow> transaction result" where
  "finalize_transaction B K approved stored trusted =
     rbind (merge_response B K approved stored approved trusted) (\<lambda>merged.
     rbind (progress_of B K [] merged trusted) (\<lambda>p.
     if \<not> sp_complete p then Inl (Unavailable ''all required signatures'')
     else
       rbind (rfold (finalize_input K merged) (enumerate 0 trusted)
                (tx_input (unsigned_tx approved), ps_inputs approved)) (\<lambda>(ins, finalized).
       rbind (merge_response B K approved None (approved\<lparr>ps_inputs := finalized\<rparr>) trusted) (\<lambda>_.
       let tx = (unsigned_tx approved)\<lparr>tx_input := ins\<rparr> in
       if compute_txid B tx \<noteq> compute_txid B (unsigned_tx approved) then Inl CorruptState
       else Inr tx))))"

end
