(* ===== verification/Signed_Drafts.thy ===== *)
theory Signed_Drafts
  imports Signing
begin

text \<open>
  The signing operations of \<^verbatim>\<open>crates/tundra-core/src/signing.rs\<close>: a stored draft is loaded with
  everything it depends on checked again (\<open>load_draft\<close>), then a response is merged into it, its
  progress reported, or its final transaction assembled and stored. A PSBT without one map per
  input and output of its transaction does not exist (\<^verbatim>\<open>rust-bitcoin\<close> refuses to decode it), so
  the positions of a draft's inputs and outputs are positions of its maps.
\<close>

section \<open>Loading a draft\<close>

record signing_draft =
  sd_approved :: psbt
  sd_stored :: "psbt option"
  sd_trusted :: "trusted_input list"
  sd_review :: draft_review

definition signable_states :: "string list" where
  "signable_states = [''unsigned'', ''partially_signed'', ''signed'', ''finalized'']"

text \<open>The extended keys of the wallet's two descriptors, with the origin each was imported with.\<close>

fun insert_xpub :: "descriptor_key \<Rightarrow> (string \<times> key_source) list \<Rightarrow> (string \<times> key_source) list" where
  "insert_xpub (XPub x) m = (case xk_origin x of None \<Rightarrow> m | Some og \<Rightarrow> tbl_upsert (xk_text x) og m)"
| "insert_xpub (OtherKey _) m = m"

definition expected_xpubs :: "('w, 'cs) bdk \<Rightarrow> 'w \<Rightarrow> (string \<times> key_source) list" where
  "expected_xpubs W w =
     fold insert_xpub (descriptor_keys (public_desc W w External) @ descriptor_keys (public_desc W w Internal)) []"

definition unspent_at :: "('w, 'cs) bdk \<Rightarrow> 'w \<Rightarrow> outpoint \<Rightarrow> local_output option" where
  "unspent_at W w op = map_of (rev (map (\<lambda>c. (lo_outpoint c, c)) (list_unspent W w))) op"

definition reserved_by :: "'cs db \<Rightarrow> string \<Rightarrow> string \<Rightarrow> string \<Rightarrow> bool" where
  "reserved_by db wid d op = (map_of (reservations db) (wid, op) = Some d)"

text \<open>The trusted input of a coin, derived from the wallet's own descriptor.\<close>

definition trust_coin :: "crypto \<Rightarrow> ('w, 'cs) bdk \<Rightarrow> 'w \<Rightarrow> txout \<Rightarrow> trusted_input result" where
  "trust_coin K W w out =
     rbind (ok_or (derivation_of_spk W w (script_pubkey out)) CorruptState) (\<lambda>(keychain, index).
     rbind (ok_or (derive_input K (public_desc W w keychain) index) CorruptState) (\<lambda>(metadata, d).
     Inr \<lparr>prevout = out, metadata = metadata, t_descriptor = d\<rparr>))"

type_synonym load_state = "outpoint list \<times> trusted_input list \<times> nat"

definition load_input ::
  "bitcoin \<Rightarrow> crypto \<Rightarrow> ('w, 'cs) bdk \<Rightarrow> 'cs db \<Rightarrow> string \<Rightarrow> string \<Rightarrow> 'w \<Rightarrow> draft_review \<Rightarrow>
   nat \<times> txin \<Rightarrow> load_state \<Rightarrow> load_state result" where
  "load_input B K W db wid d w review = (\<lambda>(index, i) (seen, trusted, input_sum).
     let op = previous_output i; reviewed = dv_inputs review ! index in
     rbind (ok_or (unspent_at W w op) UnavailableCoin) (\<lambda>coin.
     rbind (ok_or (get_tx W w (op_txid op)) CorruptState) (\<lambda>funding.
     if \<not> reserved_by db wid d (show_outpoint B op) \<or> is_frozen db wid (show_outpoint B op)
        \<or> List.member seen op
        \<or> \<not> spendable (lo_position coin) (tip_height W w) (is_coinbase B (wt_tx funding))
     then Inl UnavailableCoin
     else if ri_outpoint reviewed \<noteq> show_outpoint B op \<or> ri_sats reviewed \<noteq> txo_value (lo_txout coin)
       then Inl CorruptState
     else
       rbind (ok_or (checked_add_u64 input_sum (ri_sats reviewed)) CorruptState) (\<lambda>input_sum.
       rbind (trust_coin K W w (lo_txout coin)) (\<lambda>t.
       Inr (op # seen, trusted @ [t], input_sum))))))"

text \<open>The metadata the wallet itself derives for an output, none for a foreign one.\<close>

definition expected_output ::
  "crypto \<Rightarrow> ('w, 'cs) bdk \<Rightarrow> 'w \<Rightarrow> byte list \<Rightarrow> psbt_output result" where
  "expected_output K W w spk =
     (case derivation_of_spk W w spk of
        None \<Rightarrow> Inr \<lparr>out_redeem_script = None, out_witness_script = None, out_derivation = [], out_other = []\<rparr>
      | Some (keychain, index) \<Rightarrow>
          rbind (ok_or (derive_output K (public_desc W w keychain) index) CorruptState) (\<lambda>(expected, derived).
          if descriptor_script K derived \<noteq> spk then Inl CorruptState else Inr expected))"

definition load_output ::
  "bitcoin \<Rightarrow> crypto \<Rightarrow> ('w, 'cs) bdk \<Rightarrow> network \<Rightarrow> 'w \<Rightarrow> psbt \<Rightarrow> nat \<times> txout \<times> reviewed_output \<Rightarrow> nat \<Rightarrow>
   nat result" where
  "load_output B K W network w approved = (\<lambda>(index, out, reviewed) output_sum.
     let mine = is_mine W w (script_pubkey out) in
     rbind (ok_or (script_address B (script_pubkey out) network) CorruptState) (\<lambda>a.
     if a \<noteq> ro_address reviewed \<or> txo_value out \<noteq> ro_sats reviewed \<or> mine \<noteq> ro_is_mine reviewed
        \<or> (is_change reviewed \<and> \<not> mine)
     then Inl CorruptState
     else
       rbind (expected_output K W w (script_pubkey out)) (\<lambda>expected.
       let m = ps_outputs approved ! index in
       if m \<noteq> m\<lparr>out_other := []\<rparr>
          \<or> \<not> optional_field (out_redeem_script m) (out_redeem_script expected)
          \<or> \<not> optional_field (out_witness_script m) (out_witness_script expected)
          \<or> \<not> subset_map (out_derivation m) (out_derivation expected)
       then Inl CorruptState
       else ok_or (checked_add_u64 output_sum (ro_sats reviewed)) CorruptState)))"

definition stored_signatures :: "psbt_codec \<Rightarrow> 'cs db \<Rightarrow> string \<Rightarrow> string \<Rightarrow> psbt option result" where
  "stored_signatures C db wid d =
     (case map_of (draft_signatures db) (wid, d) of
        None \<Rightarrow> Inr None
      | Some s \<Rightarrow> rbind (map_err (parse_response C (bytes_of s)) CorruptState) (\<lambda>p. Inr (Some p)))"

definition load_draft ::
  "bitcoin \<Rightarrow> psbt_codec \<Rightarrow> crypto \<Rightarrow> ('w, 'cs) bdk \<Rightarrow> 'cs db \<Rightarrow> string \<Rightarrow> string \<Rightarrow> signing_draft result" where
  "load_draft B C K W db wid d =
     rbind (load W db wid) (\<lambda>l.
     let network = ws_network (l_summary l); w = l_wallet l in
     if network = Mainnet then Inl (Unavailable ''mainnet signing'')
     else if ws_synced_at (l_summary l) = None then Inl (Unavailable ''blockchain synchronization'')
     else
       rbind (ok_or (map_of (drafts db) (wid, d)) NotFound) (\<lambda>row.
       rbind (map_err (parse_response C (bytes_of (d_psbt row))) CorruptState) (\<lambda>approved.
       rbind (ok_or (d_review row) CorruptState) (\<lambda>review.
       if \<not> List.member signable_states (dv_state review) then Inl UnavailableCoin
       else if draft_identity B wid (unsigned_tx approved) \<noteq> d \<or> dv_id review \<noteq> d
               \<or> dv_wallet_id review \<noteq> wid
               \<or> length (dv_inputs review) \<noteq> length (ps_inputs approved)
               \<or> length (dv_outputs review) \<noteq> length (ps_outputs approved)
         then Inl CorruptState
       else if \<not> subset_map (ps_xpub approved) (expected_xpubs W w)
               \<or> ps_unknown approved \<noteq> [] \<or> ps_proprietary approved \<noteq> []
         then Inl CorruptState
       else
         rbind (rfold (load_input B K W db wid d w review)
                  (enumerate 0 (tx_input (unsigned_tx approved))) ([], [], 0)) (\<lambda>(_, trusted, input_sum).
         rbind (rfold (load_output B K W network w approved)
                  (enumerate 0 (zip (tx_output (unsigned_tx approved)) (dv_outputs review))) 0) (\<lambda>output_sum.
         if MAX_SATS < input_sum \<or> checked_sub input_sum output_sum \<noteq> Some (fee_sats review)
            \<or> fee_cap < fee_sats review
         then Inl CorruptState
         else
           rbind (stored_signatures C db wid d) (\<lambda>stored.
           Inr \<lparr>sd_approved = approved, sd_stored = stored, sd_trusted = trusted,
                sd_review = review\<rparr>)))))))"

section \<open>Operations\<close>

definition finalized_review_of :: "bitcoin \<Rightarrow> signing_draft \<Rightarrow> transaction \<Rightarrow> finalized_review" where
  "finalized_review_of B draft tx =
     \<lparr>fr_wallet_id = dv_wallet_id (sd_review draft), fr_draft_id = dv_id (sd_review draft),
      fr_txid = show_hash B (compute_txid B tx), fr_wtxid = show_hash B (compute_wtxid B tx),
      fr_fee_sats = fee_sats (sd_review draft), weight_wu = tx_weight B tx, vsize = tx_vsize B tx,
      transaction_bytes = tx_serialize B tx\<rparr>"

definition stored_finalized :: "'cs db \<Rightarrow> string \<Rightarrow> string \<Rightarrow> byte list option" where
  "stored_finalized db wid d = map_of (finalized_drafts db) (wid, d)"

definition validated_finalized ::
  "bitcoin \<Rightarrow> psbt_codec \<Rightarrow> crypto \<Rightarrow> ('w, 'cs) bdk \<Rightarrow> 'cs db \<Rightarrow> string \<Rightarrow> string \<Rightarrow>
   finalized_review option result" where
  "validated_finalized B C K W db wid d =
     rbind (load_draft B C K W db wid d) (\<lambda>draft.
     case stored_finalized db wid d of
       None \<Rightarrow> (if dv_state (sd_review draft) = ''finalized'' then Inl CorruptState else Inr None)
     | Some bytes \<Rightarrow>
         (if dv_state (sd_review draft) \<noteq> ''finalized'' then Inl CorruptState
          else
            rbind (finalize_transaction B K (sd_approved draft) (sd_stored draft) (sd_trusted draft)) (\<lambda>tx.
            let result = finalized_review_of B draft tx in
            if bytes \<noteq> transaction_bytes result then Inl CorruptState else Inr (Some result))))"

definition finalize_draft_body ::
  "bitcoin \<Rightarrow> psbt_codec \<Rightarrow> crypto \<Rightarrow> ('w, 'cs) bdk \<Rightarrow> string \<Rightarrow> string \<Rightarrow> 'cs db \<Rightarrow>
   (finalized_review \<times> 'cs db) result" where
  "finalize_draft_body B C K W wid d db =
     rbind (load_draft B C K W db wid d) (\<lambda>draft.
     rbind (finalize_transaction B K (sd_approved draft) (sd_stored draft) (sd_trusted draft)) (\<lambda>tx.
     let result = finalized_review_of B draft tx; review = sd_review draft in
     case stored_finalized db wid d of
       Some bytes \<Rightarrow>
         (if bytes = transaction_bytes result \<and> dv_state review = ''finalized'' then Inr (result, db)
          else Inl CorruptState)
     | None \<Rightarrow>
         (if dv_state review = ''finalized'' then Inl CorruptState
          else
            rbind (sql_insert_finalized wid d (transaction_bytes result) db) (\<lambda>db.
            Inr (result, sql_set_review wid d (review\<lparr>dv_state := ''finalized''\<rparr>) db)))))"

definition finalize_draft ::
  "bitcoin \<Rightarrow> psbt_codec \<Rightarrow> crypto \<Rightarrow> ('w, 'cs) bdk \<Rightarrow> string \<Rightarrow> string \<Rightarrow> 'cs db \<Rightarrow>
   finalized_review result \<times> 'cs db" where
  "finalize_draft B C K W wid d db = run_tx db (finalize_draft_body B C K W wid d)"

definition finalized_draft ::
  "bitcoin \<Rightarrow> psbt_codec \<Rightarrow> crypto \<Rightarrow> ('w, 'cs) bdk \<Rightarrow> string \<Rightarrow> string \<Rightarrow> 'cs db \<Rightarrow>
   finalized_review option result" where
  "finalized_draft B C K W wid d db = validated_finalized B C K W db wid d"

definition accept_body ::
  "bitcoin \<Rightarrow> psbt_codec \<Rightarrow> crypto \<Rightarrow> ('w, 'cs) bdk \<Rightarrow> string \<Rightarrow> string \<Rightarrow> psbt \<Rightarrow> 'cs db \<Rightarrow>
   (signing_progress \<times> 'cs db) result" where
  "accept_body B C K W wid d response db =
     rbind (load_draft B C K W db wid d) (\<lambda>draft.
     let review = sd_review draft in
     if dv_state review = ''finalized'' then Inl (Unavailable ''signature changes after finalization'')
     else
       rbind (merge_response B K (sd_approved draft) (sd_stored draft) response (sd_trusted draft)) (\<lambda>merged.
       rbind (progress_of B K d merged (sd_trusted draft)) (\<lambda>p.
       if list_all (\<lambda>i. valid_signatures i = 0) (sp_inputs p)
       then Inl (InvalidInput ''response contains no valid signatures'')
       else
         rbind (sql_upsert_signatures wid d (psbt_text C merged) db) (\<lambda>db.
         Inr (p, sql_set_review wid d
                   (review\<lparr>dv_state := (if sp_complete p then ''signed'' else ''partially_signed'')\<rparr>) db)))))"

definition accept_signed_psbt ::
  "bitcoin \<Rightarrow> psbt_codec \<Rightarrow> crypto \<Rightarrow> ('w, 'cs) bdk \<Rightarrow> string \<Rightarrow> string \<Rightarrow> byte list \<Rightarrow> 'cs db \<Rightarrow>
   signing_progress result \<times> 'cs db" where
  "accept_signed_psbt B C K W wid d payload db =
     (case parse_response C payload of
        Inl e \<Rightarrow> (Inl e, db)
      | Inr response \<Rightarrow> run_tx db (accept_body B C K W wid d response))"

definition signing_progress_op ::
  "bitcoin \<Rightarrow> psbt_codec \<Rightarrow> crypto \<Rightarrow> ('w, 'cs) bdk \<Rightarrow> string \<Rightarrow> string \<Rightarrow> 'cs db \<Rightarrow>
   signing_progress result" where
  "signing_progress_op B C K W wid d db =
     rbind (load_draft B C K W db wid d) (\<lambda>draft.
     rbind (merge_response B K (sd_approved draft) (sd_stored draft) (sd_approved draft) (sd_trusted draft)) (\<lambda>merged.
     progress_of B K d merged (sd_trusted draft)))"

definition export_signing_psbt ::
  "bitcoin \<Rightarrow> psbt_codec \<Rightarrow> crypto \<Rightarrow> ('w, 'cs) bdk \<Rightarrow> string \<Rightarrow> string \<Rightarrow> 'cs db \<Rightarrow> string result" where
  "export_signing_psbt B C K W wid d db =
     rbind (load_draft B C K W db wid d) (\<lambda>draft.
     rbind (merge_response B K (sd_approved draft) (sd_stored draft) (sd_approved draft) (sd_trusted draft)) (\<lambda>merged.
     Inr (psbt_text C merged)))"

end
