(* ===== verification/Http.thy ===== *)
theory Http
  imports Engine
begin

text \<open>
  What the core does with the network, in \<^verbatim>\<open>crates/tundra-core/src/sync.rs\<close> and
  \<^verbatim>\<open>crates/tundra-core/src/broadcast.rs\<close>: which endpoint it accepts, how much of a response it
  reads. The HTTP client, URL parsing and the text of hashes are parameters; a response is its
  status, its declared length and the chunks it delivers, \<open>None\<close> being a failed read.
\<close>

record url =
  url_scheme :: string
  url_host :: "string option"
  url_username :: string
  url_password :: "string option"
  url_query :: "string option"
  url_fragment :: "string option"
  url_text :: string

record web =
  parse_url :: "string \<Rightarrow> url option"
  parse_block_hash :: "string \<Rightarrow> byte list option"
  show_block_hash :: "byte list \<Rightarrow> string"
  genesis_hash :: "network \<Rightarrow> byte list"
  lower_hex :: "byte list \<Rightarrow> string"
  from_hex :: "string \<Rightarrow> byte list option"

record http_response =
  status_success :: bool
  content_length :: "nat option"
  body_chunks :: "byte list option list"

section \<open>Endpoints\<close>

definition local_hosts :: "string list" where
  "local_hosts = [''127.0.0.1'', ''[::1]'', ''localhost'', ''10.0.2.2'']"

definition is_local :: "url \<Rightarrow> bool" where
  "is_local u = (case url_host u of None \<Rightarrow> False | Some h \<Rightarrow> List.member local_hosts h)"

definition trim_end_slashes :: "string \<Rightarrow> string" where
  "trim_end_slashes s = rev (dropWhile (\<lambda>c. c = CHR ''/'') (rev s))"

definition url_allowed :: "url \<Rightarrow> bool" where
  "url_allowed u \<longleftrightarrow>
     (url_scheme u = ''https'' \<or> url_scheme u = ''http'' \<and> is_local u)
     \<and> url_host u \<noteq> None \<and> url_username u = [] \<and> url_password u = None
     \<and> url_query u = None \<and> url_fragment u = None"

definition endpoint :: "web \<Rightarrow> string \<Rightarrow> network \<Rightarrow> bool \<Rightarrow> string result" where
  "endpoint T s network consent =
     (if \<not> consent then Inl (InvalidInput ''explicit endpoint privacy consent required'')
      else if network = Mainnet then Inl (Unavailable ''mainnet synchronization'')
      else if 2048 < length s \<or> has_control s then Inl (InvalidInput ''endpoint'')
      else
        rbind (ok_or (parse_url T s) (InvalidInput ''endpoint'')) (\<lambda>u.
        if \<not> url_allowed u
        then Inl (InvalidInput ''use HTTPS or loopback HTTP without credentials, query or fragment'')
        else Inr (trim_end_slashes (url_text u))))"

section \<open>A short textual response\<close>

definition RESPONSE_LIMIT :: nat where
  "RESPONSE_LIMIT = 128"

fun read_chunks :: "nat \<Rightarrow> byte list \<Rightarrow> byte list option list \<Rightarrow> byte list option" where
  "read_chunks limit body [] = Some body"
| "read_chunks limit body (None # cs) = None"
| "read_chunks limit body (Some c # cs) =
     (if limit < length body + length c then None else read_chunks limit (body @ c) cs)"

definition utf8_text :: "byte list \<Rightarrow> string option" where
  "utf8_text bs = (if utf8_valid (text_of bs) then Some (text_of bs) else None)"

definition response_text :: "http_response \<Rightarrow> string option" where
  "response_text r =
     (if \<not> status_success r
         \<or> (case content_length r of None \<Rightarrow> False | Some n \<Rightarrow> RESPONSE_LIMIT < n)
      then None
      else Option.bind (read_chunks RESPONSE_LIMIT [] (body_chunks r)) utf8_text)"

section \<open>Bounded downloads\<close>

definition MAX_BODY :: nat where
  "MAX_BODY = 4000000"

definition MAX_TOTAL :: nat where
  "MAX_TOTAL = 64000000"

definition MAX_REQUESTS :: nat where
  "MAX_REQUESTS = 20000"

record http =
  h_endpoint :: string
  h_total :: nat
  h_requests :: nat

definition http_new :: "string \<Rightarrow> http" where
  "http_new e = \<lparr>h_endpoint = e, h_total = 0, h_requests = 0\<rparr>"

fun download :: "nat \<Rightarrow> byte list \<Rightarrow> nat \<Rightarrow> byte list option list \<Rightarrow> (byte list \<times> nat) result" where
  "download limit body used [] = Inr (body, used)"
| "download limit body used (None # cs) = Inl SyncFailed"
| "download limit body used (Some c # cs) =
     (if limit < length body + length c \<or> MAX_TOTAL < used + length c then Inl SyncLimit
      else download limit (body @ c) (used + length c) cs)"

text \<open>
  The network answers the request of a given number at a URL; nothing is assumed about two
  answers agreeing.
\<close>

type_synonym network_answers = "nat \<Rightarrow> string \<Rightarrow> http_response option"

definition http_bytes ::
  "network_answers \<Rightarrow> string \<Rightarrow> nat \<Rightarrow> http \<Rightarrow> (byte list \<times> http) result" where
  "http_bytes net path limit h =
     (let h = h\<lparr>h_requests := h_requests h + 1\<rparr> in
      if MAX_REQUESTS < h_requests h then Inl SyncLimit
      else
        rbind (ok_or (net (h_requests h) (h_endpoint h @ path)) SyncFailed) (\<lambda>r.
        if \<not> status_success r then Inl SyncFailed
        else if (case content_length r of None \<Rightarrow> False | Some n \<Rightarrow> limit < n) then Inl SyncLimit
        else
          rbind (download limit [] (h_total h) (body_chunks r)) (\<lambda>(body, used).
          Inr (body, h\<lparr>h_total := used\<rparr>))))"

definition http_text :: "network_answers \<Rightarrow> string \<Rightarrow> nat \<Rightarrow> http \<Rightarrow> (string \<times> http) result" where
  "http_text net path limit h =
     rbind (http_bytes net path limit h) (\<lambda>(bs, h).
     rbind (ok_or (utf8_text bs) SyncFailed) (\<lambda>s. Inr (s, h)))"

definition http_json ::
  "network_answers \<Rightarrow> (byte list \<Rightarrow> 'a option) \<Rightarrow> string \<Rightarrow> http \<Rightarrow> ('a \<times> http) result" where
  "http_json net decode path h =
     rbind (http_bytes net path MAX_BODY h) (\<lambda>(bs, h).
     rbind (ok_or (decode bs) SyncFailed) (\<lambda>v. Inr (v, h)))"

definition http_hash :: "web \<Rightarrow> network_answers \<Rightarrow> nat \<Rightarrow> http \<Rightarrow> (byte list \<times> http) result" where
  "http_hash T net height h =
     rbind (http_text net (''/block-height/'' @ dec height) 64 h) (\<lambda>(s, h).
     rbind (ok_or (parse_block_hash T s) SyncFailed) (\<lambda>b. Inr (b, h)))"

section \<open>Facts\<close>

lemma read_chunks_Some:
  assumes "read_chunks limit body cs = Some out" and "length body \<le> limit"
  shows "length out \<le> limit \<and> out = body @ concat (map the cs) \<and> None \<notin> set cs"
  using assms by (induction limit body cs rule: read_chunks.induct) (auto split: if_splits)

lemma download_Inr:
  assumes "download limit body used cs = Inr (out, used')" and "length body \<le> limit" and "used \<le> MAX_TOTAL"
  shows "length out \<le> limit \<and> used' \<le> MAX_TOTAL \<and> used' = used + (length out - length body)
    \<and> length body \<le> length out \<and> out = body @ concat (map the cs) \<and> None \<notin> set cs"
  using assms
  by (induction limit body used cs rule: download.induct) (auto split: if_splits)

text \<open>A successful request: one more request, within the bounds of body, used and count.\<close>

lemma http_bytes_Inr:
  assumes "http_bytes net path limit h = Inr (bs, h')"
  shows "h_requests h' = h_requests h + 1" and "h_requests h' \<le> MAX_REQUESTS"
    and "h_endpoint h' = h_endpoint h"
    and "h_total h \<le> MAX_TOTAL \<Longrightarrow>
           length bs \<le> limit \<and> h_total h' = h_total h + length bs \<and> h_total h' \<le> MAX_TOTAL"
proof -
  obtain r :: http_response and used where r: "h_requests h + 1 \<le> MAX_REQUESTS"
    and d: "download limit [] (h_total h) (body_chunks r) = Inr (bs, used)"
    and h': "h_requests h' = h_requests h + 1" "h_total h' = used" "h_endpoint h' = h_endpoint h"
    using assms by (auto simp: http_bytes_def Let_def result_simps)
  then show "h_requests h' = h_requests h + 1" "h_requests h' \<le> MAX_REQUESTS" "h_endpoint h' = h_endpoint h"
    by simp_all
  show "length bs \<le> limit \<and> h_total h' = h_total h + length bs \<and> h_total h' \<le> MAX_TOTAL"
    if "h_total h \<le> MAX_TOTAL"
    using download_Inr [OF d] that by (auto simp: h')
qed

lemma http_text_Inr:
  "http_text net path limit h = Inr (s, h') \<Longrightarrow> \<exists>bs. http_bytes net path limit h = Inr (bs, h') \<and> utf8_text bs = Some s"
  by (auto simp: http_text_def result_simps)

lemma http_json_Inr:
  "http_json net decode path h = Inr (v, h') \<Longrightarrow> \<exists>bs. http_bytes net path MAX_BODY h = Inr (bs, h') \<and> decode bs = Some v"
  by (auto simp: http_json_def result_simps)

lemma http_hash_Inr:
  "http_hash T net height h = Inr (b, h') \<Longrightarrow>
     \<exists>bs. http_bytes net (''/block-height/'' @ dec height) 64 h = Inr (bs, h')"
  by (auto simp: http_hash_def result_simps dest: http_text_Inr)

end
