(* ===== verification/Broadcast.thy ===== *)
theory Broadcast
  imports Signed_Drafts Http
begin

text \<open>
  \<^verbatim>\<open>crates/tundra-core/src/broadcast.rs\<close>: the durable record of submissions, what a later
  synchronization observes of them, and the submission itself. \<open>broadcast_draft\<close> releases the
  database while it waits for the network, twice; what other calls commit meanwhile is part of its
  environment (\<open>during_get\<close>, \<open>during_post\<close>), and nothing is assumed about it.
\<close>

datatype broadcast_observation = SeenNowhere | SeenInMempool | SeenConfirmed

record broadcast_request =
  br_wallet_id :: string
  br_draft_id :: string
  br_endpoint :: string
  expected_txid :: string
  previous_attempt :: "nat option"
  privacy_consent :: bool
  retry_acknowledged :: bool

record broadcast_info =
  bi_attempt_id :: nat
  bi_wallet_id :: string
  bi_draft_id :: string
  bi_endpoint :: string
  bi_txid :: string
  bi_wtxid :: string
  bi_requested_at :: nat
  acknowledged :: bool
  bi_observation :: broadcast_observation

section \<open>The attempts of a draft\<close>

definition attempts_of :: "'cs db \<Rightarrow> string \<Rightarrow> string \<Rightarrow> (nat \<times> attempt_row) list" where
  "attempts_of db wid d = filter (\<lambda>r. attempt_draft r = (wid, d)) (broadcast_attempts db)"

definition latest :: "'cs db \<Rightarrow> string \<Rightarrow> string \<Rightarrow> broadcast_info option" where
  "latest db wid d =
     (case rev (sort_key fst (attempts_of db wid d)) of
        [] \<Rightarrow> None
      | (i, a) # _ \<Rightarrow>
          Some \<lparr>bi_attempt_id = i, bi_wallet_id = wid, bi_draft_id = d, bi_endpoint = a_endpoint a,
                bi_txid = a_txid a, bi_wtxid = a_wtxid a, bi_requested_at = a_requested_at a,
                acknowledged = a_acknowledged a, bi_observation = SeenNowhere\<rparr>)"

definition attempt_limit :: nat where
  "attempt_limit = 64"

definition check_previous :: "'cs db \<Rightarrow> string \<Rightarrow> string \<Rightarrow> nat option \<Rightarrow> bool \<Rightarrow> unit result" where
  "check_previous db wid d expected retry =
     (let previous = latest db wid d in
      if map_option bi_attempt_id previous \<noteq> expected
      then Inl (InvalidInput ''broadcast state changed; review the latest attempt'')
      else if previous \<noteq> None \<and> \<not> retry
        then Inl (InvalidInput ''explicit acknowledgement required before resubmission'')
      else if attempt_limit \<le> length (attempts_of db wid d)
        then Inl (InvalidInput ''broadcast attempt limit reached'')
      else Inr ())"

section \<open>Observing a submission\<close>

definition observation ::
  "bitcoin \<Rightarrow> ('w, 'cs) bdk \<Rightarrow> 'cs db \<Rightarrow> broadcast_info \<Rightarrow> 'w \<Rightarrow> broadcast_observation result" where
  "observation B W db info w =
     rbind (ok_or (map_of (finalized_drafts db) (bi_wallet_id info, bi_draft_id info)) Storage) (\<lambda>bytes.
     if MAX_PSBT_BYTES < length bytes then Inl CorruptState
     else
       rbind (ok_or (tx_deserialize B bytes) CorruptState) (\<lambda>tx.
       if show_hash B (compute_txid B tx) \<noteq> bi_txid info \<or> show_hash B (compute_wtxid B tx) \<noteq> bi_wtxid info
       then Inl CorruptState
       else Inr (case get_tx W w (compute_txid B tx) of
           None \<Rightarrow> SeenNowhere
         | Some found \<Rightarrow>
             (if wt_tx found \<noteq> tx then SeenNowhere
              else case wt_position found of
                Confirmed _ \<Rightarrow> SeenConfirmed
              | Unconfirmed (Some _) \<Rightarrow> SeenInMempool
              | Unconfirmed None \<Rightarrow> SeenNowhere))))"

definition label_output ::
  "('w, 'cs) bdk \<Rightarrow> string \<Rightarrow> draft_review \<Rightarrow> 'w \<Rightarrow> string \<Rightarrow> nat \<times> txout \<Rightarrow> 'cs db \<Rightarrow> 'cs db result" where
  "label_output W wid review w txid = (\<lambda>(vout, out) db.
     if \<not> is_mine W w (script_pubkey out) then Inr db
     else
       (let op = txid @ '':'' @ dec vout in
        rbind (sql_ignore_provenance wid op (dv_id review) db) (\<lambda>db.
        if dv_label review = [] then Inr db
        else sql_ignore_label wid ''output'' op (dv_label review) db)))"

definition apply_observed_labels ::
  "bitcoin \<Rightarrow> ('w, 'cs) bdk \<Rightarrow> string \<Rightarrow> draft_review \<Rightarrow> 'w \<Rightarrow> broadcast_info \<Rightarrow> 'cs db \<Rightarrow> 'cs db result" where
  "apply_observed_labels B W wid review w info db =
     rbind (sql_ignore_marker wid (dv_id review) db) (\<lambda>(inserted, db).
     if inserted = 0 then Inr db
     else
       rbind (validate_label (dv_label review)) (\<lambda>_.
       rbind (ok_or (parse_txid B (bi_txid info)) CorruptState) (\<lambda>txid.
       rbind (ok_or (get_tx W w txid) CorruptState) (\<lambda>found.
       rbind (if dv_label review = [] then Inr db
              else sql_ignore_label wid ''tx'' (bi_txid info) (dv_label review) db) (\<lambda>db.
       rfold (label_output W wid review w (bi_txid info)) (enumerate 0 (tx_output (wt_tx found))) db)))))"

text \<open>Whether the draft's submission was seen, and the database with its record closed.\<close>

definition observe_draft ::
  "bitcoin \<Rightarrow> ('w, 'cs) bdk \<Rightarrow> string \<Rightarrow> draft_review \<Rightarrow> 'w \<Rightarrow> 'cs db \<Rightarrow> (bool \<times> 'cs db) result" where
  "observe_draft B W wid review w db =
     (case latest db wid (dv_id review) of
        None \<Rightarrow> Inr (False, db)
      | Some info \<Rightarrow>
          rbind (observation B W db info w) (\<lambda>seen.
          if seen = SeenNowhere then Inr (False, db)
          else
            rbind (apply_observed_labels B W wid review w info db) (\<lambda>db.
            Inr (True,
                 sql_release wid (dv_id review)
                   (sql_set_review wid (dv_id review) (review\<lparr>dv_state := ''observed''\<rparr>)
                     (sql_delete_recovered wid (dv_id review) db))))))"

definition broadcast_status ::
  "bitcoin \<Rightarrow> ('w, 'cs) bdk \<Rightarrow> string \<Rightarrow> string \<Rightarrow> 'cs db \<Rightarrow> broadcast_info option result" where
  "broadcast_status B W wid d db =
     rbind (load W db wid) (\<lambda>l.
     case latest db wid d of
       None \<Rightarrow> Inr None
     | Some info \<Rightarrow>
         rbind (observation B W db info (l_wallet l)) (\<lambda>seen.
         Inr (Some (info\<lparr>bi_observation := seen\<rparr>))))"

section \<open>Submitting\<close>

record 'cs exchange =
  get_reply :: "string \<Rightarrow> http_response option"
  post_reply :: "string \<Rightarrow> string \<Rightarrow> http_response option"
  during_get :: "'cs db \<Rightarrow> 'cs db"
  during_post :: "'cs db \<Rightarrow> 'cs db"
  clock :: nat

text \<open>Before any request: the endpoint, the expected genesis block and the approved bytes.\<close>

definition broadcast_prepare ::
  "bitcoin \<Rightarrow> psbt_codec \<Rightarrow> crypto \<Rightarrow> ('w, 'cs) bdk \<Rightarrow> web \<Rightarrow> broadcast_request \<Rightarrow> 'cs db \<Rightarrow>
   (string \<times> byte list \<times> finalized_review) result" where
  "broadcast_prepare B C K W T r db =
     rbind (load W db (br_wallet_id r)) (\<lambda>l.
     let network = ws_network (l_summary l) in
     if network = Mainnet then Inl (Unavailable ''mainnet broadcast'')
     else
       rbind (endpoint T (br_endpoint r) network (privacy_consent r)) (\<lambda>e.
       rbind (validated_finalized B C K W db (br_wallet_id r) (br_draft_id r)) (\<lambda>found.
       rbind (ok_or found (InvalidInput ''finalize and review the transaction before broadcast'')) (\<lambda>approved.
       if expected_txid r \<noteq> fr_txid approved then Inl (InvalidInput ''final transaction ID changed'')
       else
         rbind (check_previous db (br_wallet_id r) (br_draft_id r) (previous_attempt r) (retry_acknowledged r)) (\<lambda>_.
         Inr (e, genesis_hash T network, approved))))))"

definition preflight :: "web \<Rightarrow> byte list \<Rightarrow> http_response option \<Rightarrow> unit result" where
  "preflight T genesis reply =
     rbind (ok_or reply BroadcastPreflight) (\<lambda>r.
     rbind (ok_or (response_text r) BroadcastPreflight) (\<lambda>body.
     rbind (ok_or (parse_block_hash T (trim body)) BroadcastPreflight) (\<lambda>found.
     if found \<noteq> genesis then Inl NetworkMismatch else Inr ())))"

text \<open>The transaction that records the attempt, everything checked again.\<close>

definition record_attempt ::
  "bitcoin \<Rightarrow> psbt_codec \<Rightarrow> crypto \<Rightarrow> ('w, 'cs) bdk \<Rightarrow> broadcast_request \<Rightarrow> string \<Rightarrow> finalized_review \<Rightarrow>
   nat \<Rightarrow> 'cs db \<Rightarrow> (nat \<times> 'cs db) result" where
  "record_attempt B C K W r e approved now db =
     rbind (validated_finalized B C K W db (br_wallet_id r) (br_draft_id r)) (\<lambda>found.
     rbind (ok_or found CorruptState) (\<lambda>current.
     if current \<noteq> approved then Inl CorruptState
     else
       rbind (check_previous db (br_wallet_id r) (br_draft_id r) (previous_attempt r) (retry_acknowledged r)) (\<lambda>_.
       sql_insert_attempt
         \<lparr>a_wallet = br_wallet_id r, a_draft = br_draft_id r, a_endpoint = e, a_txid = fr_txid current,
          a_wtxid = fr_wtxid current, a_requested_at = now, a_acknowledged = False\<rparr> db)))"

definition is_acknowledged :: "finalized_review \<Rightarrow> http_response option \<Rightarrow> bool" where
  "is_acknowledged approved reply =
     (case reply of
        None \<Rightarrow> False
      | Some r \<Rightarrow> (case response_text r of None \<Rightarrow> False | Some body \<Rightarrow> trim body = fr_txid approved))"

definition broadcast_draft ::
  "bitcoin \<Rightarrow> psbt_codec \<Rightarrow> crypto \<Rightarrow> ('w, 'cs) bdk \<Rightarrow> web \<Rightarrow> 'cs exchange \<Rightarrow> broadcast_request \<Rightarrow>
   'cs db \<Rightarrow> broadcast_info result \<times> 'cs db" where
  "broadcast_draft B C K W T x r db =
     (case broadcast_prepare B C K W T r db of
        Inl e \<Rightarrow> (Inl e, db)
      | Inr (e, genesis, approved) \<Rightarrow>
          (let db = during_get x db in
           case preflight T genesis (get_reply x (e @ ''/block-height/0'')) of
             Inl err \<Rightarrow> (Inl err, db)
           | Inr _ \<Rightarrow>
               (case run_tx db (record_attempt B C K W r e approved (clock x)) of
                  (Inl err, db) \<Rightarrow> (Inl err, db)
                | (Inr i, db) \<Rightarrow>
                    (let reply = post_reply x (e @ ''/tx'') (lower_hex T (transaction_bytes approved));
                         db = during_post x db;
                         db = (if is_acknowledged approved reply
                               then sql_acknowledge i (br_wallet_id r) (br_draft_id r) db else db) in
                     (rbind (broadcast_status B W (br_wallet_id r) (br_draft_id r) db) (\<lambda>s.
                      ok_or s CorruptState), db)))))"

end
