(* ===== verification/Recovery.thy ===== *)
theory Recovery
  imports Broadcast
begin

text \<open>
  \<^verbatim>\<open>crates/tundra-core/src/recovery.rs\<close>: what a restored backup may do. \<open>suspend\<close> runs once, in
  the transaction that creates the restored database: it checks every stored draft, takes all
  reservations away, holds the coins of every submitted draft, invalidates every review and
  forgets every synchronization. \<open>resume_recovered_submission\<close> is the explicit way back.
\<close>

section \<open>Statements\<close>

definition sql_clear_recovery :: "'cs db \<Rightarrow> 'cs db" where
  "sql_clear_recovery db = db\<lparr>recovered_submissions := [], recovery_holds := [], reservations := []\<rparr>"

definition sql_unsync_all :: "'cs db \<Rightarrow> 'cs db" where
  "sql_unsync_all db = db\<lparr>wallets := tbl_update (\<lambda>_. True) (\<lambda>r. r\<lparr>w_synced_at := None\<rparr>) (wallets db)\<rparr>"

section \<open>Checking a stored draft\<close>

definition MAX_PSBT_TEXT :: nat where
  "MAX_PSBT_TEXT = 1398106"

definition MAX_REVIEW_TEXT :: nat where
  "MAX_REVIEW_TEXT = 2097152"

definition MAX_FINAL_BYTES :: nat where
  "MAX_FINAL_BYTES = 1048576"

text \<open>\<open>review_len\<close> is the length of a draft's \<^verbatim>\<open>review_json\<close> column, in bytes.\<close>

definition oversized :: "(draft_row \<Rightarrow> nat) \<Rightarrow> 'cs db \<Rightarrow> bool" where
  "oversized review_len db =
     (list_ex (\<lambda>r. MAX_PSBT_TEXT < length (d_psbt (snd r)) \<or> MAX_REVIEW_TEXT < review_len (snd r)) (drafts db)
      \<or> list_ex (\<lambda>r. MAX_PSBT_TEXT < length (snd r)) (draft_signatures db)
      \<or> list_ex (\<lambda>r. MAX_FINAL_BYTES < length (snd r)) (finalized_drafts db))"

definition known_states :: "string list" where
  "known_states = signable_states @ [''observed'', ''invalidated'']"

definition suspend_input :: "bitcoin \<Rightarrow> reviewed_input \<times> txin \<Rightarrow> nat \<Rightarrow> nat result" where
  "suspend_input B = (\<lambda>(i, expected) sats.
     if ri_outpoint i \<noteq> show_outpoint B (previous_output expected) then Inl CorruptState
     else
       rbind (validate_label (ri_label i)) (\<lambda>_.
       ok_or (checked_add_u64 sats (ri_sats i)) CorruptState))"

definition suspend_output ::
  "bitcoin \<Rightarrow> ('w, 'cs) bdk \<Rightarrow> network \<Rightarrow> 'w \<Rightarrow> reviewed_output \<times> txout \<Rightarrow> nat \<Rightarrow> nat result" where
  "suspend_output B W network w = (\<lambda>(out, expected) sats.
     rbind (ok_or (script_address B (script_pubkey expected) network) CorruptState) (\<lambda>a.
     if ro_sats out \<noteq> txo_value expected \<or> ro_address out \<noteq> a
        \<or> ro_is_mine out \<noteq> is_mine W w (script_pubkey expected) \<or> (is_change out \<and> \<not> ro_is_mine out)
     then Inl CorruptState
     else ok_or (checked_add_u64 sats (ro_sats out)) CorruptState))"

definition without_witnesses :: "transaction \<Rightarrow> transaction" where
  "without_witnesses tx = tx\<lparr>tx_input := map (\<lambda>i. i\<lparr>tx_witness := []\<rparr>) (tx_input tx)\<rparr>"

text \<open>The stored final bytes are those of the approved transaction, and of every attempt.\<close>

definition check_final_bytes ::
  "bitcoin \<Rightarrow> 'cs db \<Rightarrow> string \<Rightarrow> string \<Rightarrow> psbt \<Rightarrow> unit result" where
  "check_final_bytes B db wid d approved =
     (case map_of (finalized_drafts db) (wid, d) of
        None \<Rightarrow> Inr ()
      | Some bytes \<Rightarrow>
          (if MAX_PSBT_BYTES < length bytes then Inl CorruptState
           else
             rbind (ok_or (tx_deserialize B bytes) CorruptState) (\<lambda>tx.
             if without_witnesses tx \<noteq> unsigned_tx approved then Inl CorruptState
             else if list_ex (\<lambda>r. a_txid (snd r) \<noteq> show_hash B (compute_txid B tx)
                        \<or> a_wtxid (snd r) \<noteq> show_hash B (compute_wtxid B tx)) (attempts_of db wid d)
               then Inl CorruptState
             else Inr ())))"

definition check_stored_signatures ::
  "psbt_codec \<Rightarrow> 'cs db \<Rightarrow> string \<Rightarrow> string \<Rightarrow> psbt \<Rightarrow> unit result" where
  "check_stored_signatures C db wid d approved =
     (case map_of (draft_signatures db) (wid, d) of
        None \<Rightarrow> Inr ()
      | Some s \<Rightarrow>
          rbind (parse_response C (bytes_of s)) (\<lambda>p.
          if unsigned_tx p \<noteq> unsigned_tx approved then Inl CorruptState else Inr ()))"

definition check_review_shape ::
  "bitcoin \<Rightarrow> string \<Rightarrow> string \<Rightarrow> psbt \<Rightarrow> draft_review \<Rightarrow> unit result" where
  "check_review_shape B wid d approved review =
     (if \<not> List.member known_states (dv_state review) then Inl CorruptState
      else if dv_wallet_id review \<noteq> wid \<or> dv_id review \<noteq> d
              \<or> d \<noteq> draft_identity B wid (unsigned_tx approved)
              \<or> length (dv_inputs review) \<noteq> length (ps_inputs approved) \<or> dv_inputs review = []
              \<or> 200 < length (dv_inputs review)
              \<or> length (dv_outputs review) \<noteq> length (ps_outputs approved)
              \<or> 400 < length (dv_outputs review)
        then Inl CorruptState
      else validate_label (dv_label review))"

text \<open>The wallet of the last draft, loaded once for its drafts in a row.\<close>

definition cached_load ::
  "('w, 'cs) bdk \<Rightarrow> 'cs db \<Rightarrow> string \<Rightarrow> (string \<times> ('w, 'cs) loaded) option \<Rightarrow>
   (('w, 'cs) loaded) result" where
  "cached_load W db wid cached =
     (case cached of
        None \<Rightarrow> load W db wid
      | Some (i, l) \<Rightarrow> (if i \<noteq> wid then load W db wid else Inr l))"

definition hold_inputs :: "string \<Rightarrow> string \<Rightarrow> draft_review \<Rightarrow> 'cs db \<Rightarrow> 'cs db result" where
  "hold_inputs wid d review db =
     (if submitted db wid d
      then
        rbind (sql_insert_recovered wid d db) (\<lambda>db.
        rfold (\<lambda>i. sql_insert_hold wid (ri_outpoint i) d) (dv_inputs review) db)
      else Inr db)"

definition suspend_draft ::
  "bitcoin \<Rightarrow> psbt_codec \<Rightarrow> ('w, 'cs) bdk \<Rightarrow> string \<times> string \<Rightarrow>
   (string \<times> ('w, 'cs) loaded) option \<times> 'cs db \<Rightarrow> ((string \<times> ('w, 'cs) loaded) option \<times> 'cs db) result" where
  "suspend_draft B C W = (\<lambda>(wid, d) (cached, db).
     rbind (ok_or (map_of (drafts db) (wid, d)) Storage) (\<lambda>row.
     rbind (parse_response C (bytes_of (d_psbt row))) (\<lambda>approved.
     rbind (ok_or (d_review row) CorruptState) (\<lambda>review.
     rbind (check_review_shape B wid d approved review) (\<lambda>_.
     rbind (rfold (suspend_input B) (zip (dv_inputs review) (tx_input (unsigned_tx approved))) 0) (\<lambda>input_sats.
     rbind (cached_load W db wid cached) (\<lambda>l.
     rbind (rfold (suspend_output B W (ws_network (l_summary l)) (l_wallet l))
              (zip (dv_outputs review) (tx_output (unsigned_tx approved))) 0) (\<lambda>output_sats.
     if checked_sub input_sats output_sats \<noteq> Some (fee_sats review) then Inl CorruptState
     else
       rbind (check_final_bytes B db wid d approved) (\<lambda>_.
       rbind (check_stored_signatures C db wid d approved) (\<lambda>_.
       rbind (hold_inputs wid d review db) (\<lambda>db.
       Inr (Some (wid, l), sql_set_review wid d (review\<lparr>dv_state := ''invalidated''\<rparr>) db))))))))))))"

definition suspend ::
  "bitcoin \<Rightarrow> psbt_codec \<Rightarrow> ('w, 'cs) bdk \<Rightarrow> (draft_row \<Rightarrow> nat) \<Rightarrow> 'cs db \<Rightarrow> 'cs db result" where
  "suspend B C W review_len db =
     rbind (rfold (\<lambda>r _. validate_label (snd r)) (labels db) ()) (\<lambda>_.
     rbind (rfold (\<lambda>r _. rbind (ok_or (parse_outpoint B (snd (fst r))) CorruptState) (\<lambda>_. Inr ())) (freezes db) ()) (\<lambda>_.
     if oversized review_len db then Inl CorruptState
     else
       rbind (rfold (suspend_draft B C W) (sort_key id (map fst (drafts db))) (None, sql_clear_recovery db)) (\<lambda>(_, db).
       Inr (sql_unsync_all db))))"

section \<open>Resuming a submission\<close>

definition recovery_required :: "string \<Rightarrow> string \<Rightarrow> 'cs db \<Rightarrow> bool" where
  "recovery_required wid d db = has_key (wid, d) (recovered_submissions db)"

definition resume_body ::
  "bitcoin \<Rightarrow> psbt_codec \<Rightarrow> crypto \<Rightarrow> ('w, 'cs) bdk \<Rightarrow> string \<Rightarrow> string \<Rightarrow> string \<Rightarrow> nat \<Rightarrow> 'cs db \<Rightarrow>
   (finalized_review \<times> 'cs db) result" where
  "resume_body B C K W wid d txid attempt db =
     (if \<not> recovery_required wid d db then Inl NotFound
      else
        rbind (ok_or (latest db wid d) Storage) (\<lambda>info.
        if bi_attempt_id info \<noteq> attempt \<or> bi_txid info \<noteq> txid
        then Inl (InvalidInput ''recovered submission changed; review it again'')
        else
          rbind (ok_or (map_of (drafts db) (wid, d)) Storage) (\<lambda>row.
          rbind (ok_or (d_review row) CorruptState) (\<lambda>review.
          if dv_state review \<noteq> ''invalidated'' then Inl CorruptState
          else
            rbind (rfold (\<lambda>i. sql_ignore_reservation wid (ri_outpoint i) d) (dv_inputs review)
                     (sql_set_review wid d (review\<lparr>dv_state := ''finalized''\<rparr>) db)) (\<lambda>db.
            rbind (validated_finalized B C K W db wid d) (\<lambda>found.
            rbind (ok_or found CorruptState) (\<lambda>finalized.
            if fr_txid finalized \<noteq> txid then Inl CorruptState
            else Inr (finalized, sql_delete_recovered wid d db))))))))"

definition resume_recovered_submission ::
  "bitcoin \<Rightarrow> psbt_codec \<Rightarrow> crypto \<Rightarrow> ('w, 'cs) bdk \<Rightarrow> string \<Rightarrow> string \<Rightarrow> string \<Rightarrow> nat \<Rightarrow> bool \<Rightarrow> 'cs db \<Rightarrow>
   finalized_review result \<times> 'cs db" where
  "resume_recovered_submission B C K W wid d txid attempt review_acknowledged db =
     (if \<not> review_acknowledged
      then (Inl (InvalidInput ''review the recovered payment before resuming it''), db)
      else run_tx db (resume_body B C K W wid d txid attempt))"

end
