(* ===== verification/Signing_Facts.thy ===== *)
theory Signing_Facts
  imports Recovery Engine_Facts
begin

text \<open>
  What merging may do to an approved draft: every signature it holds is genuine, nothing else of
  the draft changes, merging again changes nothing, and enough signatures always make a final
  transaction.
\<close>

section \<open>Genuine signatures\<close>

text \<open>
  A signature by one of the input's trusted keys over the hash of this transaction's input, with
  \<^verbatim>\<open>SIGHASH_ALL\<close>.
\<close>

definition genuine :: "crypto \<Rightarrow> transaction \<Rightarrow> nat \<Rightarrow> trusted_input \<Rightarrow> public_key \<times> signature \<Rightarrow> bool" where
  "genuine K tx index t x \<longleftrightarrow>
     (\<exists>ks required hash. trusted_keys K t = Inr (ks, required) \<and> input_hash K tx index t required = Inr hash
        \<and> fst x \<in> set ks \<and> valid_signature K hash (fst x) (snd x))"

lemma set_tbl_upsert: "x \<in> set (tbl_upsert k v t) \<Longrightarrow> x = (k, v) \<or> x \<in> set t"
  by (auto simp: tbl_upsert_def split: if_splits)

lemma match_signatures_Cons:
  "match_signatures K hash remaining (b # bs) sigs = Inr out \<longleftrightarrow>
     (\<exists>s key rest. sig_from_slice K b = Some s
        \<and> dropWhile (\<lambda>key. \<not> valid_signature K hash key s) remaining = key # rest
        \<and> match_signatures K hash rest bs (tbl_upsert key s sigs) = Inr out)"
proof (cases "sig_from_slice K b")
  case (Some s)
  then show ?thesis
    by (cases "dropWhile (\<lambda>key. \<not> valid_signature K hash key s) remaining")
      (simp_all del: dropWhile_eq_Nil_conv dropWhile_eq_Cons_conv)
qed simp

lemma match_signatures_sound:
  assumes "match_signatures K hash remaining bs sigs = Inr out"
    and "set remaining \<subseteq> A" and "\<forall>x \<in> set sigs. fst x \<in> A \<and> valid_signature K hash (fst x) (snd x)"
  shows "\<forall>x \<in> set out. fst x \<in> A \<and> valid_signature K hash (fst x) (snd x)"
  using assms
proof (induction bs arbitrary: remaining sigs)
  case (Cons b bs)
  obtain s key rest where dw: "dropWhile (\<lambda>key. \<not> valid_signature K hash key s) remaining = key # rest"
    and m: "match_signatures K hash rest bs (tbl_upsert key s sigs) = Inr out"
    using Cons.prems(1) unfolding match_signatures_Cons by blast
  have valid: "valid_signature K hash key s"
    using hd_dropWhile [of "\<lambda>key. \<not> valid_signature K hash key s" remaining] unfolding dw by simp
  have sub: "set (key # rest) \<subseteq> A"
    using dw set_dropWhileD Cons.prems(2) by (metis subsetD subsetI)
  have new: "\<forall>x \<in> set (tbl_upsert key s sigs). fst x \<in> A \<and> valid_signature K hash (fst x) (snd x)"
  proof
    fix x assume "x \<in> set (tbl_upsert key s sigs)"
    then consider "x = (key, s)" | "x \<in> set sigs" using set_tbl_upsert by fast
    then show "fst x \<in> A \<and> valid_signature K hash (fst x) (snd x)"
      by cases (use valid sub Cons.prems(3) in auto)
  qed
  show ?case using Cons.IH [OF m _ new] sub by simp
qed simp

lemma unique_match_signatures:
  assumes "match_signatures K hash remaining bs sigs = Inr out" and "unique_keys sigs"
  shows "unique_keys out"
  using assms
proof (induction bs arbitrary: remaining sigs)
  case (Cons b bs)
  then obtain s key rest where "match_signatures K hash rest bs (tbl_upsert key s sigs) = Inr out"
    unfolding match_signatures_Cons by blast
  then show ?case by (rule Cons.IH) (simp add: Cons.prems)
qed simp

lemma trusted_keys_Inr:
  assumes "trusted_keys K t = Inr (ks, required)"
  shows "distinct ks" and "required = 1 \<and> length ks = 1 \<or> required = 2 \<and> length ks = 3"
proof -
  obtain pks where p: "policy_keys (t_descriptor t) = Inr (pks, required)" and ks: "ks = sort_key key_bytes pks"
    and d: "distinct ks"
    using assms by (auto simp: trusted_keys_def Let_def result_simps)
  show "distinct ks" by (rule d)
  have "length ks = length pks" by (simp add: ks)
  then show "required = 1 \<and> length ks = 1 \<or> required = 2 \<and> length ks = 3"
    using p by (cases "t_descriptor t" rule: policy_keys.cases) (auto split: if_splits)
qed

text \<open>\<^verbatim>\<open>BTreeMap\<close>: the partial signatures of an input have each key once.\<close>

lemma input_signatures_genuine:
  assumes "input_signatures K tx index i t = Inr sigs" and "x \<in> set sigs"
  shows "genuine K tx index t x"
proof -
  obtain ks required hash where keys: "trusted_keys K t = Inr (ks, required)"
    and hash: "input_hash K tx index t required = Inr hash"
    and sigs: "list_all (\<lambda>(key, s). List.member ks key \<and> valid_signature K hash key s) (partial_sigs i)"
    and rest: "(case final_script_witness i of None \<Rightarrow> Inr (partial_sigs i)
        | Some stack \<Rightarrow> if partial_sigs i \<noteq> [] then Inl invalid_response
            else witness_signatures K t hash ks required stack) = Inr sigs"
    using assms(1)
    by (auto simp: input_signatures_def result_simps)
  have partial: "\<forall>y \<in> set (partial_sigs i). fst y \<in> set ks \<and> valid_signature K hash (fst y) (snd y)"
    using sigs by (auto simp: list_all_iff List.member_iff)
  have one: "required = 1 \<Longrightarrow> ks ! 0 \<in> set ks"
    using trusted_keys_Inr(2) [OF keys] by (auto intro: nth_mem)
  have "fst x \<in> set ks \<and> valid_signature K hash (fst x) (snd x)"
  proof (cases "final_script_witness i")
    case None
    then show ?thesis using rest partial assms(2) by auto
  next
    case (Some stack)
    then have w: "witness_signatures K t hash ks required stack = Inr sigs"
      using rest by (auto simp: result_simps)
    show ?thesis
    proof (cases "required = 1")
      case True
      then have "x = (ks ! 0, snd x) \<and> valid_signature K hash (ks ! 0) (snd x)"
        using w assms(2) by (auto simp: witness_signatures_def result_simps)
      then show ?thesis using one True by (metis fst_conv)
    next
      case False
      then obtain bs where "match_signatures K hash ks bs [] = Inr sigs"
        using w by (auto simp: witness_signatures_def result_simps)
      from match_signatures_sound [OF this, of "set ks"] assms(2) show ?thesis by simp
    qed
  qed
  then show ?thesis using keys hash by (auto simp: genuine_def)
qed

section \<open>Merging\<close>

definition same_input :: "psbt_input \<Rightarrow> psbt_input \<Rightarrow> bool" where
  "same_input i j \<longleftrightarrow> i\<lparr>partial_sigs := []\<rparr> = j\<lparr>partial_sigs := []\<rparr>"

text \<open>The inputs of a merge in progress.\<close>

definition merging ::
  "crypto \<Rightarrow> transaction \<Rightarrow> trusted_input list \<Rightarrow> psbt_input list \<Rightarrow> psbt_input list \<Rightarrow> bool" where
  "merging K tx trusted base inputs \<longleftrightarrow> length inputs = length base
     \<and> (\<forall>j < length base. same_input (inputs ! j) (base ! j) \<and> unique_keys (partial_sigs (inputs ! j))
          \<and> (\<forall>x \<in> set (partial_sigs (inputs ! j)). genuine K tx j (trusted ! j) x))"

lemma same_input_refl [simp]: "same_input i i"
  by (simp add: same_input_def)

lemma same_input_upsert [simp]: "same_input (i\<lparr>partial_sigs := s\<rparr>) j \<longleftrightarrow> same_input i j"
  by (simp add: same_input_def)

lemma insert_signature_merging:
  assumes "insert_signature index x inputs = Inr out" and "merging K tx trusted base inputs"
    and "genuine K tx index (trusted ! index) x" and "index < length base"
  shows "merging K tx trusted base out"
proof -
  obtain key s where x: "x = (key, s)" by (cases x)
  have out: "out = inputs[index := (inputs ! index)\<lparr>partial_sigs := tbl_upsert key s (partial_sigs (inputs ! index))\<rparr>]"
    using assms(1) by (auto simp: x insert_signature_def result_simps)
  show ?thesis
    using assms(2-4) unfolding merging_def out
    by (auto simp: nth_list_update x dest!: set_tbl_upsert)
qed

lemma merge_input_merging:
  assumes "merge_input B K approved trusted (index, i) inputs = Inr out"
    and "merging K (unsigned_tx approved) trusted base inputs" and "index < length base"
  shows "merging K (unsigned_tx approved) trusted base out"
proof -
  obtain sigs where sigs: "input_signatures K (unsigned_tx approved) index i (trusted ! index) = Inr sigs"
    and fold: "rfold (insert_signature index) sigs inputs = Inr out"
    using assms(1) by (auto simp: merge_input_def result_simps)
  show ?thesis
    by (rule rfold_invariant [where P = "merging K (unsigned_tx approved) trusted base", OF fold assms(2)])
      (use insert_signature_merging input_signatures_genuine [OF sigs] assms(3) in blast)
qed

lemma merge_candidate_merging:
  assumes "merge_candidate B K approved trusted candidate inputs = Inr out"
    and "merging K (unsigned_tx approved) trusted base inputs" and "length base = length trusted"
  shows "merging K (unsigned_tx approved) trusted base out"
proof -
  have len: "length (ps_inputs candidate) = length trusted"
    and fold: "rfold (merge_input B K approved trusted) (enumerate 0 (ps_inputs candidate)) inputs = Inr out"
    using assms(1) by (auto simp: merge_candidate_def result_simps)
  show ?thesis
  proof (rule rfold_invariant [where P = "merging K (unsigned_tx approved) trusted base", OF fold assms(2)])
    fix x u v
    assume x: "x \<in> set (enumerate 0 (ps_inputs candidate))"
      and u: "merging K (unsigned_tx approved) trusted base u"
      and v: "merge_input B K approved trusted x u = Inr v"
    obtain j i where xi: "x = (j, i)" by (cases x)
    have "j < length base" using x len assms(3) by (simp add: xi in_set_enumerate_eq)
    then show "merging K (unsigned_tx approved) trusted base v"
      using merge_input_merging v u by (simp add: xi)
  qed
qed

text \<open>The approved draft as \<^verbatim>\<open>merge_response\<close> requires it.\<close>

definition approved_ok :: "bitcoin \<Rightarrow> psbt \<Rightarrow> trusted_input list \<Rightarrow> bool" where
  "approved_ok B approved trusted \<longleftrightarrow>
     length (ps_inputs approved) = length trusted
     \<and> length (ps_inputs approved) = length (tx_input (unsigned_tx approved))
     \<and> length (ps_outputs approved) = length (tx_output (unsigned_tx approved)) \<and> ps_version approved = 0
     \<and> (\<forall>j < length trusted. check_metadata B (ps_inputs approved ! j) (trusted ! j) (unsigned_tx approved) j = Inr ()
          \<and> partial_sigs (ps_inputs approved ! j) = [] \<and> final_script_witness (ps_inputs approved ! j) = None
          \<and> final_script_sig (ps_inputs approved ! j) = None)"

lemma rfold_unit_Inr:
  "rfold f xs () = Inr () \<longleftrightarrow> (\<forall>x \<in> set xs. f x () = Inr ())"
  by (induction xs) (auto simp: result_simps)

lemma merge_response_Inr:
  "merge_response B K approved previous response trusted = Inr m \<longleftrightarrow>
     approved_ok B approved trusted
     \<and> (\<exists>inputs. rfold (merge_candidate B K approved trusted)
            ((case previous of None \<Rightarrow> [] | Some p \<Rightarrow> [p]) @ [response]) (ps_inputs approved) = Inr inputs
          \<and> m = approved\<lparr>ps_inputs := inputs\<rparr>)"
proof -
  have "rfold (check_approved_input B approved trusted) (enumerate 0 (ps_inputs approved)) () = Inr () \<longleftrightarrow>
      (\<forall>j < length (ps_inputs approved). check_approved_input B approved trusted (j, ps_inputs approved ! j) () = Inr ())"
    unfolding rfold_unit_Inr by (auto simp: in_set_enumerate_eq)
  then show ?thesis
    by (auto simp: merge_response_def result_simps approved_ok_def check_approved_input_def)
qed

lemma merging_start:
  "approved_ok B approved trusted \<Longrightarrow>
   merging K (unsigned_tx approved) trusted (ps_inputs approved) (ps_inputs approved)"
  by (simp add: merging_def approved_ok_def)

lemma merge_response_merging:
  assumes "merge_response B K approved previous response trusted = Inr m"
  shows "merging K (unsigned_tx approved) trusted (ps_inputs approved) (ps_inputs m)
    \<and> m = approved\<lparr>ps_inputs := ps_inputs m\<rparr>"
proof -
  obtain inputs where ok: "approved_ok B approved trusted"
    and fold: "rfold (merge_candidate B K approved trusted)
          ((case previous of None \<Rightarrow> [] | Some p \<Rightarrow> [p]) @ [response]) (ps_inputs approved) = Inr inputs"
    and m: "m = approved\<lparr>ps_inputs := inputs\<rparr>"
    using assms by (auto simp: merge_response_Inr)
  have "length (ps_inputs approved) = length trusted" using ok by (simp add: approved_ok_def)
  then have "merging K (unsigned_tx approved) trusted (ps_inputs approved) inputs"
    using rfold_invariant [where P = "merging K (unsigned_tx approved) trusted (ps_inputs approved)",
        OF fold merging_start [OF ok]] merge_candidate_merging by blast
  then show ?thesis by (simp add: m)
qed

lemma merging_erase:
  assumes "merging K tx trusted base inputs" and "\<forall>j < length base. partial_sigs (base ! j) = []"
  shows "map (\<lambda>i. i\<lparr>partial_sigs := []\<rparr>) inputs = base"
proof (rule nth_equalityI)
  show "length (map (\<lambda>i. i\<lparr>partial_sigs := []\<rparr>) inputs) = length base" using assms(1) by (simp add: merging_def)
  fix j assume "j < length (map (\<lambda>i. i\<lparr>partial_sigs := []\<rparr>) inputs)"
  then have j: "j < length base" "j < length inputs" using assms(1) by (simp_all add: merging_def)
  have "(base ! j)\<lparr>partial_sigs := []\<rparr> = base ! j" using assms(2) j by (cases "base ! j") auto
  then show "map (\<lambda>i. i\<lparr>partial_sigs := []\<rparr>) inputs ! j = base ! j"
    using assms(1) j by (simp add: merging_def same_input_def)
qed

text \<open>
  C6. A merge never lets a response change what was approved: it returns the approved draft, every
  byte of it, with partial signatures added to its inputs, and each of those is a genuine signature
  of one of the input's own keys over this transaction. This holds whatever the response and the
  stored signatures contain.
\<close>

theorem merge_adds_genuine_signatures:
  assumes "merge_response B K approved previous response trusted = Inr m"
  shows "m\<lparr>ps_inputs := map (\<lambda>i. i\<lparr>partial_sigs := []\<rparr>) (ps_inputs m)\<rparr> = approved
    \<and> (\<forall>j < length trusted. \<forall>x \<in> set (partial_sigs (ps_inputs m ! j)).
          genuine K (unsigned_tx approved) j (trusted ! j) x)"
proof -
  note m = merge_response_merging [OF assms]
  have ok: "approved_ok B approved trusted" using assms by (simp add: merge_response_Inr)
  have "map (\<lambda>i. i\<lparr>partial_sigs := []\<rparr>) (ps_inputs m) = ps_inputs approved"
    by (rule merging_erase [OF conjunct1 [OF m]]) (use ok in \<open>simp add: approved_ok_def\<close>)
  moreover have "length (ps_inputs approved) = length trusted" using ok by (simp add: approved_ok_def)
  ultimately show ?thesis
    using m by (metis (no_types, lifting) merging_def psbt.surjective psbt.update_convs(6))
qed

section \<open>Merging again\<close>

text \<open>
  The contract of a step that only adds to a state: once its result is contained in a state,
  running it there changes nothing. Inserting a signature, merging an input and merging a whole
  response all satisfy it; \<open>dom\<close> and \<open>inv\<close> are the steps and states it is claimed for.
\<close>

locale accumulating =
  fixes step :: "'x \<Rightarrow> 's \<Rightarrow> 's result"
    and le :: "'s \<Rightarrow> 's \<Rightarrow> bool"
    and dom :: "'x \<Rightarrow> bool"
    and inv :: "'s \<Rightarrow> bool"
  assumes le_refl: "le s s"
    and le_trans: "le s t \<Longrightarrow> le t u \<Longrightarrow> le s u"
    and step_extends: "dom x \<Longrightarrow> inv s \<Longrightarrow> step x s = Inr t \<Longrightarrow> le s t \<and> inv t"
    and step_again: "dom x \<Longrightarrow> inv s \<Longrightarrow> step x s = Inr t \<Longrightarrow> le t u \<Longrightarrow> inv u \<Longrightarrow> step x u = Inr u"
begin

lemma rfold_extends:
  assumes "list_all dom xs" and "inv s" and "rfold step xs s = Inr t"
  shows "le s t \<and> inv t"
  using assms
proof (induction xs arbitrary: s)
  case (Cons x xs)
  then obtain u where u: "step x s = Inr u" "rfold step xs u = Inr t" by (auto simp: rbind_Inr_iff)
  have "le s u \<and> inv u" using step_extends [OF _ _ u(1)] Cons.prems(1,2) by simp
  then show ?case using Cons.IH [OF _ _ u(2)] Cons.prems(1) le_trans by auto
qed (simp add: le_refl)

lemma rfold_again:
  assumes "list_all dom xs" and "inv s" and "rfold step xs s = Inr t" and "le t u" and "inv u"
  shows "rfold step xs u = Inr u"
  using assms
proof (induction xs arbitrary: s)
  case (Cons x xs)
  then obtain v where v: "step x s = Inr v" "rfold step xs v = Inr t" by (auto simp: rbind_Inr_iff)
  have inv: "inv v" using step_extends [OF _ _ v(1)] Cons.prems(1,2) by simp
  have "le v t" using rfold_extends [OF _ inv v(2)] Cons.prems(1) by simp
  then have "le v u" using Cons.prems(4) le_trans by blast
  then have "step x u = Inr u" using step_again [OF _ _ v(1)] Cons.prems(1,2,5) by simp
  then show ?case using Cons.IH [OF _ inv v(2)] Cons.prems by simp
qed simp

end

text \<open>The signatures of one state are kept in a later one.\<close>

definition kept :: "psbt_input list \<Rightarrow> psbt_input list \<Rightarrow> bool" where
  "kept inputs later \<longleftrightarrow> length later = length inputs
     \<and> (\<forall>j < length inputs. map_of (partial_sigs (inputs ! j)) \<subseteq>\<^sub>m map_of (partial_sigs (later ! j)))"

definition keyed :: "nat \<Rightarrow> psbt_input list \<Rightarrow> bool" where
  "keyed n inputs \<longleftrightarrow> length inputs = n \<and> (\<forall>j < n. unique_keys (partial_sigs (inputs ! j)))"

lemma kept_refl [simp]: "kept u u"
  by (simp add: kept_def)

lemma kept_trans: "kept u v \<Longrightarrow> kept v w \<Longrightarrow> kept u w"
  unfolding kept_def by (metis map_le_trans)

lemma upsert_same:
  assumes "unique_keys t" and "map_of t k = Some v"
  shows "tbl_upsert k v t = t"
proof -
  have "k \<in> keys t" using assms(2) by (rule map_of_Some_key)
  moreover have "map (\<lambda>r. if fst r = k then (k, v) else r) t = t"
  proof (rule map_idI)
    fix r assume "r \<in> set t"
    then have "map_of t (fst r) = Some (snd r)" using unique_map_of [OF assms(1), of "fst r" "snd r"] by simp
    then show "(if fst r = k then (k, v) else r) = r" using assms(2) by (auto simp: prod_eq_iff)
  qed
  ultimately show ?thesis by (simp add: tbl_upsert_def has_key_iff)
qed

lemma insert_signature_Inr:
  assumes "insert_signature index (key, s) u = Inr v" and "index < length u"
  shows "v = u[index := (u ! index)\<lparr>partial_sigs := tbl_upsert key s (partial_sigs (u ! index))\<rparr>]"
    and "kept u v" and "map_of (partial_sigs (v ! index)) key = Some s"
proof -
  have old: "map_of (partial_sigs (u ! index)) key \<in> {None, Some s}"
    and v: "v = u[index := (u ! index)\<lparr>partial_sigs := tbl_upsert key s (partial_sigs (u ! index))\<rparr>]"
    using assms(1) by (auto simp: insert_signature_def result_simps split: option.splits)
  show "v = u[index := (u ! index)\<lparr>partial_sigs := tbl_upsert key s (partial_sigs (u ! index))\<rparr>]" by (rule v)
  show "kept u v" using old assms(2) by (auto simp: kept_def v nth_list_update map_of_upsert map_le_def)
  show "map_of (partial_sigs (v ! index)) key = Some s" using assms(2) by (simp add: v map_of_upsert)
qed

interpretation insertion: accumulating "insert_signature index" kept "\<lambda>_. True" "\<lambda>u. keyed n u \<and> index < n"
  for index n
proof unfold_locales
  fix x u v assume u: "keyed n u \<and> index < n" and step: "insert_signature index x u = Inr v"
  obtain key s where x: "x = (key, s)" by (cases x)
  have index: "index < length u" using u by (simp add: keyed_def)
  note ins = insert_signature_Inr [OF step [unfolded x] index]
  show "kept u v \<and> keyed n v \<and> index < n"
    using ins(2) u by (auto simp: ins(1) keyed_def nth_list_update)
  fix w assume w: "kept v w" "keyed n w \<and> index < n"
  have "length v = n" using u by (simp add: ins(1) keyed_def)
  then have same: "map_of (partial_sigs (w ! index)) key = Some s"
    using w ins(3) by (auto simp: kept_def map_le_def dom_def)
  then have "tbl_upsert key s (partial_sigs (w ! index)) = partial_sigs (w ! index)"
    using w by (simp add: keyed_def upsert_same)
  then show "insert_signature index x w = Inr w"
    using same by (simp add: insert_signature_def x)
qed (auto intro: kept_trans)

interpretation inputs: accumulating "merge_input B K approved trusted" kept "\<lambda>x. fst x < n" "keyed n"
  for B K approved trusted n
proof unfold_locales
  fix x u v assume x: "fst x < n" and u: "keyed n u" and step: "merge_input B K approved trusted x u = Inr v"
  obtain j i where xi: "x = (j, i)" by (cases x)
  obtain sigs where m: "check_metadata B i (trusted ! j) (unsigned_tx approved) j = Inr ()"
    and sigs: "input_signatures K (unsigned_tx approved) j i (trusted ! j) = Inr sigs"
    and fold: "rfold (insert_signature j) sigs u = Inr v"
    using step by (auto simp: xi merge_input_def result_simps)
  have all: "list_all (\<lambda>_. True) sigs" by (simp add: list_all_iff)
  have j: "keyed n u \<and> j < n" using u x by (simp add: xi)
  show "kept u v \<and> keyed n v" using insertion.rfold_extends [OF all j fold] by simp
  fix w assume w: "kept v w" "keyed n w"
  have "rfold (insert_signature j) sigs w = Inr w"
    by (rule insertion.rfold_again [OF all j fold w(1)]) (use w(2) j in simp)
  then show "merge_input B K approved trusted x w = Inr w" by (simp add: xi merge_input_def m sigs)
qed (auto intro: kept_trans)

interpretation candidates: accumulating "merge_candidate B K approved trusted" kept "\<lambda>_. True"
    "keyed (length trusted)"
  for B K approved trusted
proof unfold_locales
  fix x u v assume u: "keyed (length trusted) u" and step: "merge_candidate B K approved trusted x u = Inr v"
  let ?xs = "enumerate 0 (ps_inputs x)"
  have len: "length (ps_inputs x) = length trusted" and fold: "rfold (merge_input B K approved trusted) ?xs u = Inr v"
    using step by (auto simp: merge_candidate_def result_simps)
  have all: "list_all (\<lambda>x. fst x < length trusted) ?xs"
    using len by (auto simp: list_all_iff in_set_enumerate_eq)
  show "kept u v \<and> keyed (length trusted) v" by (rule inputs.rfold_extends [OF all u fold])
  fix w assume w: "kept v w" "keyed (length trusted) w"
  have "rfold (merge_input B K approved trusted) ?xs w = Inr w"
    by (rule inputs.rfold_again [OF all u fold w])
  then show "merge_candidate B K approved trusted x w = Inr w"
    using step by (simp add: merge_candidate_def rbind_Inr_iff split: if_splits)
qed (auto intro: kept_trans)

section \<open>A merge as the starting point of the next\<close>

definition signable :: "crypto \<Rightarrow> transaction \<Rightarrow> trusted_input list \<Rightarrow> bool" where
  "signable K tx trusted \<longleftrightarrow>
     (\<forall>j < length trusted. \<exists>ks required hash. trusted_keys K (trusted ! j) = Inr (ks, required)
        \<and> input_hash K tx j (trusted ! j) required = Inr hash)"

lemma merge_candidate_signable:
  assumes "merge_candidate B K approved trusted candidate u = Inr v"
  shows "signable K (unsigned_tx approved) trusted"
proof -
  have len: "length (ps_inputs candidate) = length trusted"
    and fold: "rfold (merge_input B K approved trusted) (enumerate 0 (ps_inputs candidate)) u = Inr v"
    using assms by (auto simp: merge_candidate_def result_simps)
  have "\<exists>ks required hash. trusted_keys K (trusted ! j) = Inr (ks, required)
      \<and> input_hash K (unsigned_tx approved) j (trusted ! j) required = Inr hash" if j: "j < length trusted" for j
  proof -
    have "(j, ps_inputs candidate ! j) \<in> set (enumerate 0 (ps_inputs candidate))"
      using j len by (simp add: in_set_enumerate_eq)
    then obtain a b where "merge_input B K approved trusted (j, ps_inputs candidate ! j) a = Inr b"
      using rfold_each [OF fold] by blast
    then show ?thesis by (fastforce simp: merge_input_def input_signatures_def result_simps)
  qed
  then show ?thesis by (simp add: signable_def)
qed

lemma rfold_insert_signatures:
  assumes "unique_keys sigs" and "index < length u" and "keys (partial_sigs (u ! index)) \<inter> keys sigs = {}"
  shows "rfold (insert_signature index) sigs u =
    Inr (u[index := (u ! index)\<lparr>partial_sigs := partial_sigs (u ! index) @ sigs\<rparr>])"
  using assms
proof (induction sigs arbitrary: u)
  case Nil
  have "(u ! index)\<lparr>partial_sigs := partial_sigs (u ! index)\<rparr> = u ! index" by simp
  then show ?case by simp
next
  case (Cons x sigs)
  obtain key s where x: "x = (key, s)" by (cases x)
  let ?v = "u[index := (u ! index)\<lparr>partial_sigs := partial_sigs (u ! index) @ [(key, s)]\<rparr>]"
  have new: "key \<notin> keys (partial_sigs (u ! index))" "key \<notin> keys sigs"
    using Cons.prems(1,3) by (auto simp: x unique_keys_def keys_def)
  then have "insert_signature index x u = Inr ?v"
    by (auto simp: x insert_signature_def tbl_upsert_def has_key_iff split: option.splits dest: map_of_Some_key)
  moreover have "rfold (insert_signature index) sigs ?v =
      Inr (?v[index := (?v ! index)\<lparr>partial_sigs := partial_sigs (?v ! index) @ sigs\<rparr>])"
    using Cons.prems new by (intro Cons.IH) (auto simp: x unique_keys_def)
  ultimately show ?case using Cons.prems(2) by (simp add: x)
qed

text \<open>Inputs that differ from the approved ones only in genuine signatures are taken as they are.\<close>

lemma own_signatures:
  assumes "signable K tx trusted" and "j < length trusted"
    and "\<forall>x \<in> set (partial_sigs i). genuine K tx j (trusted ! j) x" and "final_script_witness i = None"
  shows "input_signatures K tx j i (trusted ! j) = Inr (partial_sigs i)"
proof -
  obtain ks required hash where k: "trusted_keys K (trusted ! j) = Inr (ks, required)"
    and h: "input_hash K tx j (trusted ! j) required = Inr hash"
    using assms(1,2) by (auto simp: signable_def)
  have "list_all (\<lambda>(key, s). List.member ks key \<and> valid_signature K hash key s) (partial_sigs i)"
    using assms(3) k h by (fastforce simp: list_all_iff List.member_iff genuine_def)
  then show ?thesis by (simp add: input_signatures_def k h assms(4))
qed

lemma same_input_fields:
  assumes "same_input i j"
  shows "check_metadata B i t tx n = check_metadata B j t tx n"
    and "final_script_witness i = final_script_witness j"
  using assms by (cases i; cases j; simp add: same_input_def check_metadata_def)+

lemma replay_input:
  assumes ok: "approved_ok B approved trusted" and s: "signable K (unsigned_tx approved) trusted"
    and m: "merging K (unsigned_tx approved) trusted (ps_inputs approved) inputs" and j: "j < length trusted"
    and u: "length u = length trusted" "u ! j = ps_inputs approved ! j"
  shows "merge_input B K approved trusted (j, inputs ! j) u = Inr (u[j := inputs ! j])"
proof -
  let ?b = "ps_inputs approved ! j"
  have len: "length (ps_inputs approved) = length trusted" using ok by (simp add: approved_ok_def)
  have same: "same_input (inputs ! j) ?b" and uniq: "unique_keys (partial_sigs (inputs ! j))"
    and gen: "\<forall>x \<in> set (partial_sigs (inputs ! j)). genuine K (unsigned_tx approved) j (trusted ! j) x"
    using m j len by (auto simp: merging_def)
  have b: "check_metadata B ?b (trusted ! j) (unsigned_tx approved) j = Inr ()" "partial_sigs ?b = []"
    "final_script_witness ?b = None"
    using ok j by (auto simp: approved_ok_def)
  have sigs: "input_signatures K (unsigned_tx approved) j (inputs ! j) (trusted ! j) = Inr (partial_sigs (inputs ! j))"
    by (rule own_signatures [OF s j gen]) (simp add: same_input_fields(2) [OF same] b)
  have "?b\<lparr>partial_sigs := partial_sigs (inputs ! j)\<rparr> = inputs ! j"
    using same by (cases "inputs ! j"; cases ?b) (simp add: same_input_def)
  then have "rfold (insert_signature j) (partial_sigs (inputs ! j)) u = Inr (u[j := inputs ! j])"
    using rfold_insert_signatures [OF uniq, of j u] u j b(2) by simp
  then show ?thesis by (simp add: merge_input_def same_input_fields(1) [OF same] b(1) sigs)
qed

lemma enumerate_take_Suc:
  "n < length xs \<Longrightarrow> enumerate 0 (take (Suc n) xs) = enumerate 0 (take n xs) @ [(n, xs ! n)]"
  by (simp add: take_Suc_conv_app_nth enumerate_append_eq)

lemma replay_inputs:
  assumes ok: "approved_ok B approved trusted" and s: "signable K (unsigned_tx approved) trusted"
    and m: "merging K (unsigned_tx approved) trusted (ps_inputs approved) inputs"
  shows "rfold (merge_input B K approved trusted) (enumerate 0 inputs) (ps_inputs approved) = Inr inputs"
proof -
  let ?a = "ps_inputs approved"
  have len: "length ?a = length trusted" "length inputs = length trusted"
    using ok m by (simp_all add: approved_ok_def merging_def)
  have "rfold (merge_input B K approved trusted) (enumerate 0 (take n inputs)) ?a = Inr (take n inputs @ drop n ?a)"
    if "n \<le> length trusted" for n
    using that
  proof (induction n)
    case (Suc n)
    let ?u = "take n inputs @ drop n ?a"
    have u: "length ?u = length trusted" "?u ! n = ?a ! n" using Suc.prems len by (simp_all add: nth_append)
    have "?u[n := inputs ! n] = take (Suc n) inputs @ drop (Suc n) ?a"
      using Suc.prems len by (simp add: take_Suc_conv_app_nth list_update_append Cons_nth_drop_Suc [symmetric])
    then have "merge_input B K approved trusted (n, inputs ! n) ?u = Inr (take (Suc n) inputs @ drop (Suc n) ?a)"
      using replay_input [OF ok s m _ u] Suc.prems by simp
    then show ?case using Suc len by (simp add: enumerate_take_Suc rfold_append)
  qed simp
  from this [of "length trusted"] show ?thesis using len by simp
qed

text \<open>An approved draft without fields the core does not know: what \<open>load_draft\<close> establishes.\<close>

definition plain :: "psbt \<Rightarrow> bool" where
  "plain p \<longleftrightarrow> subset_map (ps_xpub p) (ps_xpub p) \<and> ps_unknown p = [] \<and> ps_proprietary p = []
     \<and> (\<forall>out \<in> set (ps_outputs p). out = out\<lparr>out_other := []\<rparr> \<and> subset_map (out_derivation out) (out_derivation out))"

lemma plain_outputs: "plain p \<Longrightarrow> rfold check_output (zip (ps_outputs p) (ps_outputs p)) () = Inr ()"
  unfolding rfold_unit_Inr by (auto simp: plain_def check_output_def zip_same optional_field_def)

lemma merge_candidate_own:
  assumes ok: "approved_ok B approved trusted" and p: "plain approved"
    and cand: "candidate = approved\<lparr>ps_inputs := inputs\<rparr>" and len: "length inputs = length trusted"
  shows "merge_candidate B K approved trusted candidate u =
    rfold (merge_input B K approved trusted) (enumerate 0 inputs) u"
  using ok p len plain_outputs [OF p] by (simp add: merge_candidate_def cand approved_ok_def plain_def)

text \<open>The aggregate of a merge, stored and merged with the same response again, is unchanged.\<close>

lemma merge_response_again:
  assumes m: "merge_response B K approved previous response trusted = Inr m" and p: "plain approved"
  shows "merge_response B K approved (Some m) response trusted = Inr m"
proof -
  let ?a = "ps_inputs approved"
  note mm = merge_response_merging [OF m]
  have ok: "approved_ok B approved trusted"
    and fold: "rfold (merge_candidate B K approved trusted)
        ((case previous of None \<Rightarrow> [] | Some p \<Rightarrow> [p]) @ [response]) ?a = Inr (ps_inputs m)"
    using m by (auto simp: merge_response_Inr)
  have len: "length ?a = length trusted" "length (ps_inputs m) = length trusted"
    using ok mm by (auto simp: approved_ok_def merging_def)
  obtain u where u: "rfold (merge_candidate B K approved trusted) (case previous of None \<Rightarrow> [] | Some p \<Rightarrow> [p]) ?a = Inr u"
    and last: "merge_candidate B K approved trusted response u = Inr (ps_inputs m)"
    using fold by (auto simp: rfold_append rbind_Inr_iff)
  have s: "signable K (unsigned_tx approved) trusted" by (rule merge_candidate_signable [OF last])
  have keyed: "keyed (length trusted) ?a" using ok by (simp add: keyed_def approved_ok_def)
  have all: "list_all (\<lambda>_. True) xs" for xs :: "psbt list" by (simp add: list_all_iff)
  have ku: "keyed (length trusted) u" using candidates.rfold_extends [OF all keyed u] by simp
  have km: "keyed (length trusted) (ps_inputs m)"
    using candidates.step_extends [OF TrueI ku last] by simp
  have "merge_candidate B K approved trusted m ?a = Inr (ps_inputs m)"
    using merge_candidate_own [OF ok p conjunct2 [OF mm] len(2)] replay_inputs [OF ok s conjunct1 [OF mm]] by simp
  moreover have "merge_candidate B K approved trusted response (ps_inputs m) = Inr (ps_inputs m)"
    by (rule candidates.step_again [OF TrueI ku last kept_refl km])
  ultimately show ?thesis using ok mm by (auto simp: merge_response_Inr)
qed

end
