(* ===== verification/Finalizing.thy ===== *)
theory Finalizing
  imports Signing_Operations "HOL-Library.Sublist"
begin

text \<open>
  Enough signatures always make a final transaction: the witness assembled from a complete merge is
  one the merge itself accepts, so finalization does not fail, and it is then stored once.
\<close>

section \<open>Choosing and matching signatures\<close>

text \<open>
  A signature with the only accepted hash type survives the byte encoding (\<^verbatim>\<open>Signature::to_vec\<close>,
  \<^verbatim>\<open>Signature::from_slice\<close> of \<^verbatim>\<open>rust-bitcoin\<close>).
\<close>

definition reads_signatures :: "crypto \<Rightarrow> bool" where
  "reads_signatures K \<longleftrightarrow>
     (\<forall>s. sighash_type s = sighash_all \<longrightarrow> sig_from_slice K (sig_to_vec K s) = Some s)"

lemma reads_valid:
  "reads_signatures K \<Longrightarrow> valid_signature K hash k s \<Longrightarrow> sig_from_slice K (sig_to_vec K s) = Some s"
  by (simp add: reads_signatures_def valid_signature_def)

lemma subseq_skip:
  "subseq (k # ks) (pre @ ys) \<Longrightarrow> k \<notin> set pre \<Longrightarrow> subseq (k # ks) ys"
  by (induction pre) (auto split: if_splits)

lemma match_signatures_total:
  assumes "\<forall>x \<in> set chosen. valid_signature K hash (fst x) (snd x)" and "reads_signatures K"
    and "subseq (map fst chosen) remaining"
  shows "\<exists>out. match_signatures K hash remaining (map (\<lambda>(_, s). sig_to_vec K s) chosen) sigs = Inr out"
  using assms
proof (induction chosen arbitrary: remaining sigs)
  case (Cons x chosen)
  obtain k s where x: "x = (k, s)" by (cases x)
  let ?P = "\<lambda>key. \<not> valid_signature K hash key s"
  have valid: "valid_signature K hash k s" and sub: "subseq (k # map fst chosen) remaining"
    using Cons.prems by (auto simp: x)
  note rt = reads_valid [OF Cons.prems(2) valid]
  have split: "remaining = takeWhile ?P remaining @ dropWhile ?P remaining" by simp
  have "k \<notin> set (takeWhile ?P remaining)" using valid by (auto dest: set_takeWhileD)
  then have sub': "subseq (k # map fst chosen) (dropWhile ?P remaining)"
    using sub split subseq_skip by metis
  then obtain key rest where dw: "dropWhile ?P remaining = key # rest"
    by (cases "dropWhile ?P remaining") auto
  have "subseq (map fst chosen) rest"
    using sub' unfolding dw by (auto split: if_splits dest: subseq_Cons')
  then obtain out where "match_signatures K hash rest (map (\<lambda>(_, s). sig_to_vec K s) chosen) (tbl_upsert key s sigs) = Inr out"
    using Cons.IH Cons.prems(1,2) by force
  then have "match_signatures K hash remaining (sig_to_vec K s # map (\<lambda>(_, s). sig_to_vec K s) chosen) sigs = Inr out"
    unfolding match_signatures_Cons using rt dw by blast
  then show ?case by (auto simp: x)
qed simp

lemma select_signatures_ok:
  assumes "distinct ks" and "unique_keys (partial_sigs i)" and "keys (partial_sigs i) \<subseteq> set ks"
    and "required \<le> length (partial_sigs i)"
  shows "length (select_signatures ks required i) = required"
    and "subseq (map fst (select_signatures ks required i)) ks"
    and "\<forall>x \<in> set (select_signatures ks required i). x \<in> set (partial_sigs i)"
proof -
  let ?m = "map_of (partial_sigs i)"
  let ?f = "\<lambda>key. map_option (Pair key) (?m key)"
  let ?all = "map (the \<circ> ?f) (filter (\<lambda>k. ?f k \<noteq> None) ks)"
  have sel: "select_signatures ks required i = take required ?all"
    by (simp add: select_signatures_def List.map_filter_def)
  have dom: "(?f k \<noteq> None) = (k \<in> keys (partial_sigs i))" for k by (simp add: map_of_None_iff)
  have "filter (\<lambda>k. ?f k \<noteq> None) ks = filter (\<lambda>k. k \<in> keys (partial_sigs i)) ks"
    unfolding dom ..
  moreover have "length (filter (\<lambda>k. k \<in> keys (partial_sigs i)) ks) = card (keys (partial_sigs i))"
  proof -
    have "length (filter (\<lambda>k. k \<in> keys (partial_sigs i)) ks) = card (set (filter (\<lambda>k. k \<in> keys (partial_sigs i)) ks))"
      using distinct_card [of "filter (\<lambda>k. k \<in> keys (partial_sigs i)) ks"] assms(1) by simp
    moreover have "set (filter (\<lambda>k. k \<in> keys (partial_sigs i)) ks) = keys (partial_sigs i)" using assms(3) by auto
    ultimately show ?thesis by simp
  qed
  moreover have "card (keys (partial_sigs i)) = length (partial_sigs i)"
    using assms(2) distinct_card [of "map fst (partial_sigs i)"] by (simp add: unique_keys_def keys_def)
  ultimately show "length (select_signatures ks required i) = required" using assms(4) by (simp add: sel)
  have "map fst (map (the \<circ> ?f) ys) = ys" if "\<forall>k \<in> set ys. ?f k \<noteq> None" for ys
    using that by (induction ys) auto
  then have fst: "map fst ?all = filter (\<lambda>k. ?f k \<noteq> None) ks" by simp
  have "map fst (select_signatures ks required i) = take required (map fst ?all)"
    unfolding sel by (rule take_map [symmetric])
  then show "subseq (map fst (select_signatures ks required i)) ks"
    unfolding fst
    by (simp only:) (rule subseq_order.order_trans [OF prefix_imp_subseq [OF take_is_prefix] subseq_filter_left])
  show "\<forall>x \<in> set (select_signatures ks required i). x \<in> set (partial_sigs i)"
    by (auto simp: sel dest!: in_set_takeD) (erule map_of_SomeD)
qed

lemma policy_of_keys:
  assumes "trusted_keys K t = Inr (ks, required)"
  shows "required = 1 \<and> (\<exists>k. t_descriptor t = Wpkh k \<and> ks = [k])
    \<or> required = 2 \<and> (\<exists>n kk. t_descriptor t = Wsh (SortedMulti n kk)) \<and> length ks = 3"
proof -
  obtain pks where p: "policy_keys (t_descriptor t) = Inr (pks, required)" and ks: "ks = sort_key key_bytes pks"
    using assms by (auto simp: trusted_keys_def Let_def result_simps)
  then show ?thesis by (cases "t_descriptor t" rule: policy_keys.cases) (auto split: if_splits)
qed

text \<open>The witness of the chosen signatures is one the signature check accepts.\<close>

lemma final_stack_accepted:
  assumes keys: "trusted_keys K t = Inr (ks, required)" and hash: "input_hash K tx j t required = Inr hash"
    and len: "length chosen = required" and sub: "subseq (map fst chosen) ks"
    and valid: "\<forall>x \<in> set chosen. valid_signature K hash (fst x) (snd x)"
    and rt: "reads_signatures K"
  shows "\<exists>stack out. final_stack K (t_descriptor t) chosen = Inr stack
    \<and> witness_signatures K t hash ks required stack = Inr out \<and> unique_keys out"
  using policy_of_keys [OF keys]
proof
  assume "required = 1 \<and> (\<exists>k. t_descriptor t = Wpkh k \<and> ks = [k])"
  then obtain k s where one: "required = 1" "t_descriptor t = Wpkh k" "ks = [k]" "chosen = [(k, s)]"
    using len sub by (auto simp: length_Suc_conv split: if_splits)
  then have "sig_from_slice K (sig_to_vec K s) = Some s" using valid reads_valid [OF rt] by auto
  then show ?thesis using one valid by (auto simp: final_stack_def witness_signatures_def unique_keys_def)
next
  assume "required = 2 \<and> (\<exists>n kk. t_descriptor t = Wsh (SortedMulti n kk)) \<and> length ks = 3"
  then obtain n kk where two: "required = 2" "t_descriptor t = Wsh (SortedMulti n kk)" by blast
  then obtain script where script: "explicit_script K (t_descriptor t) = Some script"
    using hash by (auto simp: input_hash_def result_simps)
  let ?bs = "map (\<lambda>(_, s). sig_to_vec K s) chosen"
  let ?stack = "[] # ?bs @ [script]"
  obtain out where out: "match_signatures K hash ks ?bs [] = Inr out"
    using match_signatures_total [OF valid rt sub] by blast
  have "take required (drop 1 ?stack) = ?bs" "length ?stack = required + 2" "?stack ! (required + 1) = script"
    using len by (simp_all add: nth_append)
  then have "witness_signatures K t hash ks required ?stack = Inr out"
    using two(1) script out by (simp add: witness_signatures_def)
  moreover have "final_stack K (t_descriptor t) chosen = Inr ?stack"
    using script by (simp add: final_stack_def two(2))
  ultimately show ?thesis using unique_match_signatures [OF out] by fastforce
qed

section \<open>Assembling the transaction\<close>

lemma rfold_enumerate_total:
  assumes "\<And>j u. j < length xs \<Longrightarrow> P j u \<Longrightarrow> \<exists>v. f (j, xs ! j) u = Inr v \<and> P (Suc j) v"
    and "P 0 s"
  shows "\<exists>t. rfold f (enumerate 0 xs) s = Inr t \<and> P (length xs) t"
proof -
  have "\<exists>t. rfold f (enumerate 0 (take n xs)) s = Inr t \<and> P n t" if "n \<le> length xs" for n
    using that
  proof (induction n)
    case 0
    then show ?case using assms(2) by simp
  next
    case (Suc n)
    then obtain u where u: "rfold f (enumerate 0 (take n xs)) s = Inr u" "P n u" by auto
    from assms(1) [OF _ u(2)] Suc.prems obtain v where "f (n, xs ! n) u = Inr v" "P (Suc n) v" by auto
    then show ?case using Suc.prems u(1) by (simp add: enumerate_take_Suc rfold_append)
  qed
  from this [of "length xs"] show ?thesis by simp
qed

text \<open>What the loop over the inputs keeps: witnesses only, and each one accepted.\<close>

definition accepted_witness :: "crypto \<Rightarrow> transaction \<Rightarrow> nat \<Rightarrow> trusted_input \<Rightarrow> byte list list \<Rightarrow> bool" where
  "accepted_witness K tx j t stack \<longleftrightarrow>
     (\<exists>ks required hash out. trusted_keys K t = Inr (ks, required) \<and> input_hash K tx j t required = Inr hash
        \<and> witness_signatures K t hash ks required stack = Inr out \<and> unique_keys out)"

definition finalizing ::
  "crypto \<Rightarrow> psbt \<Rightarrow> trusted_input list \<Rightarrow> nat \<Rightarrow> txin list \<times> psbt_input list \<Rightarrow> bool" where
  "finalizing K approved trusted n = (\<lambda>(ins, finalized).
     length ins = length trusted \<and> length finalized = length trusted
     \<and> map (\<lambda>i. i\<lparr>tx_witness := []\<rparr>) ins = map (\<lambda>i. i\<lparr>tx_witness := []\<rparr>) (tx_input (unsigned_tx approved))
     \<and> (\<forall>j < length trusted. if j < n
          then \<exists>stack. finalized ! j = (ps_inputs approved ! j)\<lparr>final_script_witness := Some stack\<rparr>
                 \<and> accepted_witness K (unsigned_tx approved) j (trusted ! j) stack
          else finalized ! j = ps_inputs approved ! j))"

lemma map_update_same:
  assumes "j < length xs" and "f y = f (xs ! j)"
  shows "map f (xs[j := y]) = map f xs"
proof -
  have "map f (xs[j := y]) = (map f xs)[j := map f xs ! j]" using assms by (simp add: map_update)
  then show ?thesis by (simp only: list_update_id)
qed

lemma finalize_input_total:
  assumes m: "merging K (unsigned_tx approved) trusted (ps_inputs approved) (ps_inputs merged)"
    and len: "length (ps_inputs approved) = length trusted"
    and s: "signable K (unsigned_tx approved) trusted" and j: "j < length trusted"
    and enough: "\<And>ks required. trusted_keys K (trusted ! j) = Inr (ks, required) \<Longrightarrow>
        required \<le> length (partial_sigs (ps_inputs merged ! j))"
    and rt: "reads_signatures K"
    and u: "finalizing K approved trusted j u"
  shows "\<exists>v. finalize_input K merged (j, trusted ! j) u = Inr v \<and> finalizing K approved trusted (Suc j) v"
proof -
  obtain ins fin where uu: "u = (ins, fin)" by (cases u)
  obtain ks required hash where k: "trusted_keys K (trusted ! j) = Inr (ks, required)"
    and h: "input_hash K (unsigned_tx approved) j (trusted ! j) required = Inr hash"
    using s j by (auto simp: signable_def)
  let ?i = "ps_inputs merged ! j"
  let ?chosen = "select_signatures ks required ?i"
  have gen: "\<forall>x \<in> set (partial_sigs ?i). fst x \<in> set ks \<and> valid_signature K hash (fst x) (snd x)"
    and uniq: "unique_keys (partial_sigs ?i)"
    using m j len k h by (fastforce simp: merging_def genuine_def)+
  have sub: "keys (partial_sigs ?i) \<subseteq> set ks" using gen by (auto simp: keys_def)
  note sel = select_signatures_ok [OF trusted_keys_Inr(1) [OF k] uniq sub enough [OF k]]
  obtain stack out where st: "final_stack K (t_descriptor (trusted ! j)) ?chosen = Inr stack"
    and w: "witness_signatures K (trusted ! j) hash ks required stack = Inr out" "unique_keys out"
    using final_stack_accepted [OF k h sel(1,2) _ rt] gen sel(3) by blast
  have "accepted_witness K (unsigned_tx approved) j (trusted ! j) stack"
    using k h w by (auto simp: accepted_witness_def)
  moreover have "fin ! j = ps_inputs approved ! j" using u j by (auto simp: finalizing_def uu)
  ultimately have "finalizing K approved trusted (Suc j)
      (ins[j := (ins ! j)\<lparr>tx_witness := stack\<rparr>], fin[j := (fin ! j)\<lparr>final_script_witness := Some stack\<rparr>])"
    using u j by (auto simp: finalizing_def uu map_update_same nth_list_update less_Suc_eq)
  moreover have "finalize_input K merged (j, trusted ! j) u =
      Inr (ins[j := (ins ! j)\<lparr>tx_witness := stack\<rparr>], fin[j := (fin ! j)\<lparr>final_script_witness := Some stack\<rparr>])"
    by (simp add: finalize_input_def uu k Let_def sel(1) st)
  ultimately show ?thesis by blast
qed

text \<open>A transaction's id does not depend on its witnesses (BIP 141).\<close>

definition witness_free_txid :: "bitcoin \<Rightarrow> bool" where
  "witness_free_txid B \<longleftrightarrow>
     (\<forall>t u. without_witnesses t = without_witnesses u \<longrightarrow> compute_txid B t = compute_txid B u)"

lemma check_metadata_witness:
  "check_metadata B (i\<lparr>final_script_witness := w\<rparr>) t tx n = check_metadata B i t tx n"
  by (cases i) (simp add: check_metadata_def)

lemma finalized_inputs_merge:
  assumes ok: "approved_ok B approved trusted" and fin: "finalizing K approved trusted (length trusted) (ins, finalized)"
  shows "\<exists>v. rfold (merge_input B K approved trusted) (enumerate 0 finalized) (ps_inputs approved) = Inr v"
proof -
  let ?a = "ps_inputs approved"
  let ?P = "\<lambda>j u. length u = length trusted \<and> (\<forall>k < length trusted. j \<le> k \<longrightarrow> u ! k = ?a ! k)"
  have len: "length finalized = length trusted" "length ?a = length trusted"
    using ok fin by (auto simp: approved_ok_def finalizing_def)
  have "\<exists>t. rfold (merge_input B K approved trusted) (enumerate 0 finalized) ?a = Inr t \<and> ?P (length finalized) t"
  proof (rule rfold_enumerate_total [where P = ?P])
    fix j u assume "j < length finalized" and u: "?P j u"
    then have j: "j < length trusted" using len by simp
    obtain stack where f: "finalized ! j = (?a ! j)\<lparr>final_script_witness := Some stack\<rparr>"
      and w: "accepted_witness K (unsigned_tx approved) j (trusted ! j) stack"
      using fin j by (auto simp: finalizing_def)
    have b: "check_metadata B (?a ! j) (trusted ! j) (unsigned_tx approved) j = Inr ()" "partial_sigs (?a ! j) = []"
      using ok j by (auto simp: approved_ok_def)
    obtain out where sigs: "input_signatures K (unsigned_tx approved) j (finalized ! j) (trusted ! j) = Inr out"
      and uniq: "unique_keys out"
      using w by (auto simp: accepted_witness_def input_signatures_def f b(2))
    have "check_metadata B (finalized ! j) (trusted ! j) (unsigned_tx approved) j = Inr ()"
      using b(1) by (simp add: f check_metadata_witness)
    moreover have "rfold (insert_signature j) out u =
        Inr (u[j := (u ! j)\<lparr>partial_sigs := partial_sigs (u ! j) @ out\<rparr>])"
      using rfold_insert_signatures [OF uniq, of j u] u j b(2) by simp
    ultimately have "merge_input B K approved trusted (j, finalized ! j) u =
        Inr (u[j := (u ! j)\<lparr>partial_sigs := partial_sigs (u ! j) @ out\<rparr>])"
      by (simp add: merge_input_def sigs)
    then show "\<exists>v. merge_input B K approved trusted (j, finalized ! j) u = Inr v \<and> ?P (Suc j) v"
      using u by (intro exI conjI) auto
  qed (simp add: len)
  then show ?thesis by blast
qed

lemma progress_Inr:
  assumes "progress_of B K d m trusted = Inr p" and "length (ps_inputs m) = length trusted"
    and "sp_complete p" and "j < length trusted" and "trusted_keys K (trusted ! j) = Inr (ks, required)"
  shows "required \<le> length (partial_sigs (ps_inputs m ! j))"
proof -
  let ?xs = "enumerate 0 (zip (ps_inputs m) trusted)"
  obtain ys where ys: "rmap (input_progress B K m) ?xs = Inr ys"
    and all: "list_all (\<lambda>i. required_signatures i \<le> valid_signatures i) ys"
    using assms(1,3) by (auto simp: progress_of_def progress_def result_simps)
  have xs: "j < length ?xs" "?xs ! j = (j, ps_inputs m ! j, trusted ! j)"
    using assms(2,4) by (simp_all add: nth_enumerate_eq)
  have y: "input_progress B K m (?xs ! j) = Inr (ys ! j)" "j < length ys"
    using ys xs(1) unfolding rmap_Inr_iff by (auto dest: list_all2_nthD list_all2_lengthD)
  from y(1) have "ys ! j = \<lparr>isp_outpoint = show_outpoint B (previous_output (tx_input (unsigned_tx m) ! j)),
      valid_signatures = length (partial_sigs (ps_inputs m ! j)), required_signatures = required\<rparr>"
    unfolding xs(2) using assms(5) by (simp add: input_progress_def)
  moreover have "required_signatures (ys ! j) \<le> valid_signatures (ys ! j)"
    using all y(2) by (simp add: list_all_length)
  ultimately show ?thesis by simp
qed

text \<open>Merging the approved draft with what is stored, complete, is enough to finalize it.\<close>

lemma finalize_transaction_total:
  assumes m: "merge_response B K approved stored approved trusted = Inr m"
    and p: "progress_of B K d m trusted = Inr p" "sp_complete p"
    and rt: "reads_signatures K" and txid: "witness_free_txid B"
  shows "\<exists>tx. finalize_transaction B K approved stored trusted = Inr tx
    \<and> without_witnesses tx = without_witnesses (unsigned_tx approved)"
proof -
  note mm = merge_response_merging [OF m]
  have ok: "approved_ok B approved trusted" using m by (simp add: merge_response_Inr)
  obtain u v where own: "merge_candidate B K approved trusted approved u = Inr v"
    using m by (auto simp: merge_response_Inr rfold_append rbind_Inr_iff)
  have s: "signable K (unsigned_tx approved) trusted" by (rule merge_candidate_signable [OF own])
  have len: "length (ps_inputs approved) = length trusted" "length (ps_inputs m) = length trusted"
    "length (tx_input (unsigned_tx approved)) = length trusted"
    using ok mm by (auto simp: approved_ok_def merging_def)
  have "\<exists>t. rfold (finalize_input K m) (enumerate 0 trusted) (tx_input (unsigned_tx approved), ps_inputs approved) = Inr t
      \<and> finalizing K approved trusted (length trusted) t"
  proof (rule rfold_enumerate_total)
    fix j u assume j: "j < length trusted" and u: "finalizing K approved trusted j u"
    show "\<exists>v. finalize_input K m (j, trusted ! j) u = Inr v \<and> finalizing K approved trusted (Suc j) v"
      by (rule finalize_input_total [OF conjunct1 [OF mm] len(1) s j progress_Inr [OF p(1) len(2) p(2) j] rt u])
  qed (simp add: finalizing_def len)
  then obtain ins fin where fold: "rfold (finalize_input K m) (enumerate 0 trusted)
        (tx_input (unsigned_tx approved), ps_inputs approved) = Inr (ins, fin)"
    and inv: "finalizing K approved trusted (length trusted) (ins, fin)"
    by auto
  let ?f = "approved\<lparr>ps_inputs := fin\<rparr>"
  obtain w where w: "rfold (merge_input B K approved trusted) (enumerate 0 fin) (ps_inputs approved) = Inr w"
    using finalized_inputs_merge [OF ok inv] by blast
  have "length fin = length trusted" using inv by (simp add: finalizing_def)
  then have "merge_candidate B K approved trusted ?f (ps_inputs approved) = Inr w"
    using own w by (auto simp: merge_candidate_def result_simps)
  then have again: "merge_response B K approved None ?f trusted = Inr (approved\<lparr>ps_inputs := w\<rparr>)"
    using ok by (simp add: merge_response_Inr)
  let ?tx = "(unsigned_tx approved)\<lparr>tx_input := ins\<rparr>"
  have tx: "without_witnesses ?tx = without_witnesses (unsigned_tx approved)"
    using inv by (simp add: without_witnesses_def finalizing_def)
  have p': "progress_of B K [] m trusted = Inr (p\<lparr>sp_draft_id := []\<rparr>)"
    using p(1) by (auto simp: progress_of_def result_simps)
  have "compute_txid B ?tx = compute_txid B (unsigned_tx approved)"
    using txid tx unfolding witness_free_txid_def by blast
  then have "finalize_transaction B K approved stored trusted = Inr ?tx"
    using p(2) by (simp add: finalize_transaction_def m p' fold again)
  then show ?thesis using tx by blast
qed

end
