(* ===== verification/Signing_Lifecycle.thy ===== *)
theory Signing_Lifecycle
  imports Finalizing
begin

text \<open>
  The life of a draft's signatures over several calls: accepting a response again changes nothing,
  a draft whose progress is complete can be finalized, and finalization closes it. The witnesses
  run the operations on the sample draft with one signature.
\<close>

section \<open>Accepting a response again\<close>

text \<open>
  Accepting the same response a second time gives the same progress and leaves the database as
  it is: signatures are merged, never appended or replaced. (The stored aggregate has to be
  readable: what \<^verbatim>\<open>Psbt::to_string\<close> writes is what the parser of responses reads.)
\<close>

theorem accept_signed_psbt_twice:
  assumes "accept_signed_psbt B C K W wid d payload db = (Inr p, db')" and "wf_db db"
    and "\<And>m. map_of (draft_signatures db') (wid, d) = Some (psbt_text C m) \<Longrightarrow> reads_back C m"
  shows "accept_signed_psbt B C K W wid d payload db' = (Inr p, db')"
  using assms by (rule accept_twice)

section \<open>Finalization\<close>

text \<open>The transaction is determined by the draft; only the first call stores it.\<close>

lemma finalize_draft_Inr:
  assumes "finalize_draft B C K W wid d db = (Inr f, db')"
  shows "\<exists>draft tx. load_draft B C K W db wid d = Inr draft
    \<and> finalize_transaction B K (sd_approved draft) (sd_stored draft) (sd_trusted draft) = Inr tx
    \<and> f = finalized_review_of B draft tx
    \<and> stored_finalized db' wid d = Some (transaction_bytes f)
    \<and> (dv_state (sd_review draft) = ''finalized'' \<and> db' = db
      \<or> dv_state (sd_review draft) \<noteq> ''finalized'' \<and> db' = sql_set_review wid d
            ((sd_review draft)\<lparr>dv_state := ''finalized''\<rparr>)
            (db\<lparr>finalized_drafts := finalized_drafts db @ [((wid, d), transaction_bytes f)]\<rparr>))"
proof -
  have body: "finalize_draft_body B C K W wid d db = Inr (f, db')"
    using assms by (simp add: finalize_draft_def run_tx_ok)
  then obtain draft tx where l: "load_draft B C K W db wid d = Inr draft"
    and t: "finalize_transaction B K (sd_approved draft) (sd_stored draft) (sd_trusted draft) = Inr tx"
    by (auto simp: finalize_draft_body_def result_simps)
  show ?thesis
  proof (cases "stored_finalized db wid d")
    case None
    have "dv_state (sd_review draft) \<noteq> ''finalized''" and "f = finalized_review_of B draft tx"
      and "\<exists>db1. sql_insert_finalized wid d (transaction_bytes f) db = Inr db1
        \<and> db' = sql_set_review wid d ((sd_review draft)\<lparr>dv_state := ''finalized''\<rparr>) db1"
      using body by (auto simp: finalize_draft_body_def l t Let_def None result_simps split: if_splits)
    then show ?thesis
      using l t by (auto simp: sql_insert_finalized_def stored_finalized_def sql_set_review_def result_simps
          map_of_insert simp del: map_of_append split: if_splits)
  next
    case (Some bytes)
    then show ?thesis
      using body by (auto simp: finalize_draft_body_def l t Let_def split: if_splits)
  qed
qed

lemma finalize_draft_closed:
  assumes final: "finalize_draft B C K W wid d db = (Inr f, db')"
  obtains draft tx where "load_draft B C K W db' wid d = Inr draft"
    and "dv_state (sd_review draft) = ''finalized''"
    and "finalize_transaction B K (sd_approved draft) (sd_stored draft) (sd_trusted draft) = Inr tx"
    and "f = finalized_review_of B draft tx"
    and "stored_finalized db' wid d = Some (transaction_bytes f)"
proof -
  obtain draft tx where 1: "load_draft B C K W db wid d = Inr draft"
    "finalize_transaction B K (sd_approved draft) (sd_stored draft) (sd_trusted draft) = Inr tx"
    "f = finalized_review_of B draft tx" "stored_finalized db' wid d = Some (transaction_bytes f)"
    and "dv_state (sd_review draft) = ''finalized'' \<and> db' = db
      \<or> dv_state (sd_review draft) \<noteq> ''finalized'' \<and> db' = sql_set_review wid d
            ((sd_review draft)\<lparr>dv_state := ''finalized''\<rparr>)
            (db\<lparr>finalized_drafts := finalized_drafts db @ [((wid, d), transaction_bytes f)]\<rparr>)"
    using finalize_draft_Inr [OF final] by blast
  from this(5) show thesis
  proof
    assume "dv_state (sd_review draft) = ''finalized'' \<and> db' = db"
    then show ?thesis using that 1 by blast
  next
    assume new: "dv_state (sd_review draft) \<noteq> ''finalized'' \<and> db' = sql_set_review wid d
      ((sd_review draft)\<lparr>dv_state := ''finalized''\<rparr>)
      (db\<lparr>finalized_drafts := finalized_drafts db @ [((wid, d), transaction_bytes f)]\<rparr>)"
    let ?draft = "draft\<lparr>sd_review := (sd_review draft)\<lparr>dv_state := ''finalized''\<rparr>, sd_stored := sd_stored draft\<rparr>"
    obtain row where row: "map_of (drafts db) (wid, d) = Some row"
      and stored: "stored_signatures C db wid d = Inr (sd_stored draft)"
      using load_draft_Inr [OF 1(1)] by metis
    have same: "wallets db' = wallets db" "reservations db' = reservations db" "freezes db' = freezes db"
      "draft_signatures db' = draft_signatures db"
      using new by (auto simp: sql_set_review_def)
    have row': "map_of (drafts db') (wid, d) =
        Some (row\<lparr>d_review := Some ((sd_review draft)\<lparr>dv_state := ''finalized''\<rparr>)\<rparr>)"
      using new by (simp add: sql_set_review_def map_of_update row)
    have "stored_signatures C db' wid d = Inr (sd_stored draft)"
      using stored by (simp add: stored_signatures_def same(4))
    then have "load_draft B C K W db' wid d = Inr ?draft"
      by (intro load_draft_frame [OF 1(1) same(1-3) row row']) (simp_all add: signable_states_def)
    then show ?thesis
      by (rule that) (use 1(2-4) in \<open>simp_all add: finalized_review_of_def\<close>)
  qed
qed

lemma finalized_after:
  assumes "finalize_draft B C K W wid d db = (Inr f, db')"
  shows "finalized_draft B C K W wid d db' = Inr (Some f)"
proof (rule finalize_draft_closed [OF assms], goal_cases)
  case (1 draft tx)
  then show ?case by (simp add: finalized_draft_def validated_finalized_def Let_def)
qed

text \<open>
  Finalization closes a draft: calling it again returns the same transaction and changes
  nothing, the stored bytes are reported as that transaction, and no response is accepted any more.
\<close>

theorem finalize_draft_final:
  assumes "finalize_draft B C K W wid d db = (Inr f, db')"
  shows "finalize_draft B C K W wid d db' = (Inr f, db')
    \<and> finalized_draft B C K W wid d db' = Inr (Some f)
    \<and> (\<forall>payload. \<exists>e. accept_signed_psbt B C K W wid d payload db' = (Inl e, db'))"
proof (rule finalize_draft_closed [OF assms], goal_cases)
  case (1 draft tx)
  have "finalize_draft B C K W wid d db' = (Inr f, db')"
    using 1 by (simp add: finalize_draft_def run_tx_def finalize_draft_body_def Let_def)
  moreover have "finalized_draft B C K W wid d db' = Inr (Some f)" by (rule finalized_after [OF assms])
  moreover have "\<exists>e. accept_signed_psbt B C K W wid d payload db' = (Inl e, db')" for payload
    using 1(1,2) by (cases "parse_response C payload")
      (simp_all add: accept_signed_psbt_def run_tx_def accept_body_def Let_def)
  ultimately show ?case by blast
qed

text \<open>
  C15. Complete progress is a promise: when the signatures reported for a draft that is not
  finalized are enough for every input, finalizing it succeeds, and stores the approved transaction
  with nothing but witnesses added, under the approved transaction id.
\<close>

theorem complete_draft_finalizes:
  assumes "signing_progress_op B C K W wid d db = Inr p" and "sp_complete p"
    and "finalized_draft B C K W wid d db = Inr None"
    and "reads_signatures K" and "witness_free_txid B"
  shows "\<exists>f db' draft tx. finalize_draft B C K W wid d db = (Inr f, db')
    \<and> load_draft B C K W db wid d = Inr draft
    \<and> without_witnesses tx = without_witnesses (unsigned_tx (sd_approved draft))
    \<and> transaction_bytes f = tx_serialize B tx
    \<and> fr_txid f = show_hash B (compute_txid B (unsigned_tx (sd_approved draft)))
    \<and> map_of (finalized_drafts db') (wid, d) = Some (tx_serialize B tx)"
proof -
  obtain draft m where load: "load_draft B C K W db wid d = Inr draft"
    and m: "merge_response B K (sd_approved draft) (sd_stored draft) (sd_approved draft) (sd_trusted draft) = Inr m"
    and p: "progress_of B K d m (sd_trusted draft) = Inr p"
    using assms(1) by (auto simp: signing_progress_op_def result_simps)
  obtain tx where tx: "finalize_transaction B K (sd_approved draft) (sd_stored draft) (sd_trusted draft) = Inr tx"
    and same: "without_witnesses tx = without_witnesses (unsigned_tx (sd_approved draft))"
    using finalize_transaction_total [OF m p assms(2,4,5)] by blast
  have open': "stored_finalized db wid d = None" "dv_state (sd_review draft) \<noteq> ''finalized''"
    using assms(3) load
    by (auto simp: finalized_draft_def validated_finalized_def Let_def result_simps split: option.splits if_splits)
  have "(wid, d) \<in> keys (drafts db)" using load_draft_Inr [OF load] map_of_Some_key by metis
  then have "\<exists>db'. finalize_draft_body B C K W wid d db = Inr (finalized_review_of B draft tx, db')"
    using open' [unfolded stored_finalized_def]
    by (simp add: finalize_draft_body_def load tx Let_def stored_finalized_def)
      (simp add: sql_insert_finalized_def draft_exists_def has_key_iff map_of_None_iff tbl_insert_def)
  then obtain db' where final: "finalize_draft B C K W wid d db = (Inr (finalized_review_of B draft tx), db')"
    by (auto simp: finalize_draft_def run_tx_def)
  moreover have "map_of (finalized_drafts db') (wid, d) = Some (tx_serialize B tx)"
    using finalize_draft_Inr [OF final] by (auto simp: stored_finalized_def finalized_review_of_def)
  moreover have "compute_txid B tx = compute_txid B (unsigned_tx (sd_approved draft))"
    using assms(5) same unfolding witness_free_txid_def by blast
  ultimately show ?thesis using load same by (force simp: finalized_review_of_def)
qed

section \<open>A sample signature\<close>

definition sample_key :: "byte \<Rightarrow> public_key" where
  "sample_key b = \<lparr>compressed = True, key_bytes = [b]\<rparr>"

definition sample_signature :: signature where
  "sample_signature = \<lparr>sig_bytes = [1, 7], sighash_type = 1\<rparr>"

fun sample_script :: "public_key descriptor \<Rightarrow> byte list" where
  "sample_script (Wpkh k) = key_bytes k"
| "sample_script _ = []"

text \<open>A signature is the key followed by the digest; it is encoded with its hash type at the end.\<close>

definition sample_crypto :: crypto where
  "sample_crypto = \<lparr>descriptor_script = sample_script, explicit_script = (\<lambda>_. None),
     p2wpkh_sighash = (\<lambda>_ _ _ _. Some [7]), p2wsh_sighash = (\<lambda>_ _ _ _. None),
     verify_ecdsa = (\<lambda>hash s key. s = key_bytes key @ hash),
     sig_from_slice = (\<lambda>bs. if bs = [] then None
        else Some \<lparr>sig_bytes = butlast bs, sighash_type = unat (List.last bs)\<rparr>),
     sig_to_vec = (\<lambda>s. sig_bytes s @ [of_nat (sighash_type s)]),
     derive_input = (\<lambda>_ _. Some (blank_input, Wpkh (sample_key 1))),
     derive_output = (\<lambda>_ _. Some (blank_output, Wpkh (sample_key 3)))\<rparr>"

lemma sample_crypto_simps [simp]:
  "descriptor_script sample_crypto = sample_script" "p2wpkh_sighash sample_crypto = (\<lambda>_ _ _ _. Some [7])"
  "verify_ecdsa sample_crypto = (\<lambda>hash s key. s = key_bytes key @ hash)"
  "sig_from_slice sample_crypto = (\<lambda>bs. if bs = [] then None
        else Some \<lparr>sig_bytes = butlast bs, sighash_type = unat (List.last bs)\<rparr>)"
  "sig_to_vec sample_crypto = (\<lambda>s. sig_bytes s @ [of_nat (sighash_type s)])"
  "derive_input sample_crypto = (\<lambda>_ _. Some (blank_input, Wpkh (sample_key 1)))"
  "derive_output sample_crypto = (\<lambda>_ _. Some (blank_output, Wpkh (sample_key 3)))"
  by (simp_all add: sample_crypto_def)

lemma sample_reads_signatures: "reads_signatures sample_crypto"
  by (simp add: reads_signatures_def sighash_all_def)

lemma sample_witness_free: "without_witnesses t = without_witnesses u \<Longrightarrow> lock_time t = lock_time u"
  by (simp add: without_witnesses_def) (metis transaction.select_convs(2) transaction.surjective transaction.update_convs(3))

text \<open>The signed draft, as the device returns it and as it is stored.\<close>

definition signed_psbt :: psbt where
  "signed_psbt = spend_psbt\<lparr>ps_inputs := [blank_input\<lparr>partial_sigs := [(sample_key 1, sample_signature)]\<rparr>]\<rparr>"

definition signed_bytes :: "byte list" where
  "signed_bytes = psbt_magic @ [1, 0, 71] @ spend_tx_bytes @ [0] @ [1, 2, 1, 7, 0] @ [0, 0]"

definition signed_codec :: psbt_codec where
  "signed_codec = sample_codec\<lparr>
     base64_decode := (\<lambda>s. if s = ''cHNidP8='' then Some spend_bytes
        else if s = ''cHNidP9='' then Some signed_bytes else None),
     psbt_read := (\<lambda>bs. if bs = spend_bytes then Some (spend_psbt, [])
        else if bs = signed_bytes then Some (signed_psbt, []) else None),
     psbt_text := (\<lambda>p. if p = spend_psbt then ''cHNidP8='' else if p = signed_psbt then ''cHNidP9='' else [])\<rparr>"

lemma signed_not_spend [simp]: "signed_psbt \<noteq> spend_psbt"
  by (simp add: signed_psbt_def spend_psbt_def blank_input_def)

lemma signed_codec_simps [simp]:
  "psbt_text signed_codec = (\<lambda>p. if p = spend_psbt then ''cHNidP8='' else if p = signed_psbt then ''cHNidP9='' else [])"
  "base64_decode signed_codec = (\<lambda>s. if s = ''cHNidP8='' then Some spend_bytes
        else if s = ''cHNidP9='' then Some signed_bytes else None)"
  "psbt_read signed_codec = (\<lambda>bs. if bs = spend_bytes then Some (spend_psbt, [])
        else if bs = signed_bytes then Some (signed_psbt, []) else None)"
  "var_int signed_codec = var_int sample_codec"
  by (simp_all add: signed_codec_def)

lemma signed_read_count: "read_count signed_codec (b # r) = Inr (unat b, r)"
  by (simp add: read_count_def)

lemma signed_container:
  "parse_maps signed_codec maps_fuel 0 ([1, 0, 71] @ spend_tx_bytes @ [0] @ [1, 2, 1, 7, 0] @ [0, 0]) None
     = Inr (4, Some (1, 2))"
  "parse_maps signed_codec maps_fuel 0 ([1, 0, 71] @ spend_tx_bytes @ [0] @ [0] @ [0, 0]) None
     = Inr (4, Some (1, 2))"
proof -
  have f: "maps_fuel = Suc (Suc (Suc (Suc (Suc 597))))" by (simp add: maps_fuel_def MAX_INPUTS_def MAX_OUTPUTS_def)
  have g: "(64::nat) = Suc (Suc 62)" by simp
  have l: "length spend_tx_bytes = 71" by (simp add: spend_tx_bytes_def)
  have shape: "transaction_shape signed_codec spend_tx_bytes = Inr (1, 2)"
    by (simp add: transaction_shape_def spend_tx_bytes_def signed_read_count MAX_INPUTS_def MAX_OUTPUTS_def
      shape_input_def shape_output_def take_bytes_def upt_rec)
  have "field_step signed_codec True 1 (0 # 71 # spend_tx_bytes @ r) None = Inr (r, Some (1, 2))" for r
    by (simp add: field_step_def take_bytes_def signed_read_count l shape)
  then have m: "map_fields signed_codec True 64 (1 # 0 # 71 # spend_tx_bytes @ 0 # r) None = Inr (r, Some (1, 2))" for r
    unfolding g map_fields.simps by (simp add: signed_read_count flip: One_nat_def)
  have z: "map_fields signed_codec False 64 (0 # r) s = Inr (r, s)" for r s
    unfolding g map_fields.simps by (simp add: signed_read_count flip: One_nat_def)
  have "field_step signed_codec False 1 (2 # 1 # 7 # r) s = Inr (r, s)" for r s
    by (simp add: field_step_def take_bytes_def signed_read_count)
  then have y: "map_fields signed_codec False 64 (1 # 2 # 1 # 7 # 0 # r) s = Inr (r, s)" for r s
    unfolding g map_fields.simps by (simp add: signed_read_count flip: One_nat_def)
  show "parse_maps signed_codec maps_fuel 0 ([1, 0, 71] @ spend_tx_bytes @ [0] @ [1, 2, 1, 7, 0] @ [0, 0]) None
     = Inr (4, Some (1, 2))"
    and "parse_maps signed_codec maps_fuel 0 ([1, 0, 71] @ spend_tx_bytes @ [0] @ [0] @ [0, 0]) None
     = Inr (4, Some (1, 2))"
    unfolding f parse_maps.simps by (simp_all add: m z y flip: One_nat_def)
qed

lemma sample_responses:
  "parse_response signed_codec spend_bytes = Inr spend_psbt"
  "parse_response signed_codec signed_bytes = Inr signed_psbt"
proof -
  have l: "length spend_bytes = 83" "length signed_bytes = 87" "take 5 spend_bytes = psbt_magic"
    "take 5 signed_bytes = psbt_magic" "spend_bytes \<noteq> signed_bytes"
    "drop 5 spend_bytes = [1, 0, 71] @ spend_tx_bytes @ [0] @ [0] @ [0, 0]"
    "drop 5 signed_bytes = [1, 0, 71] @ spend_tx_bytes @ [0] @ [1, 2, 1, 7, 0] @ [0, 0]"
    by (simp_all add: spend_tx_bytes_def spend_bytes_def signed_bytes_def psbt_magic_def)
  have v: "ps_version spend_psbt = 0" "ps_version signed_psbt = 0"
    by (simp_all add: spend_psbt_def signed_psbt_def)
  show "parse_response signed_codec spend_bytes = Inr spend_psbt"
    and "parse_response signed_codec signed_bytes = Inr signed_psbt"
    using l(5) by (simp_all add: parse_response_def response_bytes_def l(1-4,6,7) signed_container [simplified]
      MAX_PSBT_FILE_BYTES_def MAX_PSBT_BYTES_def div_ceil_def v)
qed

text \<open>The sample draft in a given state, with or without the stored signature.\<close>

definition sample_id :: string where
  "sample_id = ''w:'' @ sample_hash [12]"

definition signing_db :: "string \<Rightarrow> bool \<Rightarrow> nat db" where
  "signing_db st sg = sample_draft_db\<lparr>
     drafts := [((''w'', sample_id), sample_draft_row\<lparr>d_review := Some (sample_review\<lparr>dv_state := st\<rparr>)\<rparr>)],
     draft_signatures := (if sg then [((''w'', sample_id), ''cHNidP9='')] else [])\<rparr>"

definition sample_trusted :: trusted_input where
  "sample_trusted = \<lparr>prevout = out_a, metadata = blank_input, t_descriptor = Wpkh (sample_key 1)\<rparr>"

definition sample_loaded_draft :: "string \<Rightarrow> bool \<Rightarrow> signing_draft" where
  "sample_loaded_draft st sg = \<lparr>sd_approved = spend_psbt,
     sd_stored = (if sg then Some signed_psbt else None), sd_trusted = [sample_trusted],
     sd_review = sample_review\<lparr>dv_state := st\<rparr>\<rparr>"

lemma sample_texts:
  "parse_response signed_codec (bytes_of ''cHNidP8='') = Inr spend_psbt"
  "parse_response signed_codec (bytes_of ''cHNidP9='') = Inr signed_psbt"
proof -
  have bytes: "response_bytes signed_codec (bytes_of ''cHNidP8='') = Inr spend_bytes"
    "response_bytes signed_codec (bytes_of ''cHNidP9='') = Inr signed_bytes"
  proof -
    have t: "trim ''cHNidP8='' = ''cHNidP8=''" "trim ''cHNidP9='' = ''cHNidP9=''"
      by (rule trim_plain; simp)+
    have m: "take 5 (bytes_of ''cHNidP8='') \<noteq> psbt_magic" "take 5 (bytes_of ''cHNidP9='') \<noteq> psbt_magic"
      by (simp_all add: bytes_of_def psbt_magic_def)
    show "response_bytes signed_codec (bytes_of ''cHNidP8='') = Inr spend_bytes"
      and "response_bytes signed_codec (bytes_of ''cHNidP9='') = Inr signed_bytes"
      by (simp_all add: response_bytes_def m t text_of_bytes_of)
  qed
  have same: "response_bytes signed_codec spend_bytes = Inr spend_bytes"
    "response_bytes signed_codec signed_bytes = Inr signed_bytes"
    by (simp_all add: response_bytes_def spend_bytes_def signed_bytes_def psbt_magic_def)
  have len: "length (bytes_of ''cHNidP8='') \<le> MAX_PSBT_FILE_BYTES" "length (bytes_of ''cHNidP9='') \<le> MAX_PSBT_FILE_BYTES"
    "length spend_bytes \<le> MAX_PSBT_FILE_BYTES" "length signed_bytes \<le> MAX_PSBT_FILE_BYTES"
    by (simp_all add: bytes_of_def MAX_PSBT_FILE_BYTES_def MAX_PSBT_BYTES_def div_ceil_def spend_bytes_def
        signed_bytes_def spend_tx_bytes_def psbt_magic_def)
  show "parse_response signed_codec (bytes_of ''cHNidP8='') = Inr spend_psbt"
    and "parse_response signed_codec (bytes_of ''cHNidP9='') = Inr signed_psbt"
    using sample_responses len by (simp_all add: parse_response_def bytes same not_less)
qed

lemma sample_load_draft:
  assumes "List.member signable_states st"
  shows "load_draft sample_bitcoin signed_codec sample_crypto sample_bdk (signing_db st sg) ''w'' sample_id
    = Inr (sample_loaded_draft st sg)"
proof -
  have db: "wallets (signing_db st sg) = wallets sample_db"
    "reservations (signing_db st sg) = [((''w'', ''a:0''), sample_id)]"
    "freezes (signing_db st sg) = [((''w'', ''b:0''), ())]"
    "map_of (drafts (signing_db st sg)) (''w'', sample_id)
       = Some (sample_draft_row\<lparr>d_review := Some (sample_review\<lparr>dv_state := st\<rparr>)\<rparr>)"
    by (simp_all add: signing_db_def sample_draft_db_def sample_id_def)
  have l: "load sample_bdk (signing_db st sg) ''w'' = Inr sample_loaded"
    using sample_load by (simp add: load_def db)
  have stored: "stored_signatures signed_codec (signing_db st sg) ''w'' sample_id
      = Inr (sd_stored (sample_loaded_draft st sg))"
    by (simp add: stored_signatures_def signing_db_def sample_texts sample_loaded_draft_def)
  have tx: "tx_input (unsigned_tx spend_psbt) = [\<lparr>previous_output = op_a, script_sig = [], tx_sequence = 0, tx_witness = []\<rparr>]"
    "tx_output (unsigned_tx spend_psbt) = [\<lparr>txo_value = 20000, script_pubkey = [9]\<rparr>, \<lparr>txo_value = 29000, script_pubkey = [3]\<rparr>]"
    by (simp_all add: spend_psbt_def spend_tx_def)
  have input: "load_input sample_bitcoin sample_crypto sample_bdk (signing_db st sg) ''w'' sample_id w
      (sample_review\<lparr>dv_state := st\<rparr>) (0, \<lparr>previous_output = op_a, script_sig = [], tx_sequence = 0, tx_witness = []\<rparr>)
      ([], [], 0) = Inr ([op_a], [sample_trusted], 50000)" for w
    by (simp add: load_input_def unspent_at_def sample_coins_def reserved_by_def is_frozen_def db has_key_def
        trust_coin_def sample_trusted_def sample_review_def out_a_def op_a_def op_b_def List.member_iff checked_add_u64_def u64_bound_def)
  have outs: "load_output sample_bitcoin sample_crypto sample_bdk Signet w spend_psbt
      (0, \<lparr>txo_value = 20000, script_pubkey = [9]\<rparr>, dv_outputs sample_review ! 0) 0 = Inr 20000"
    "load_output sample_bitcoin sample_crypto sample_bdk Signet w spend_psbt
      (1, \<lparr>txo_value = 29000, script_pubkey = [3]\<rparr>, dv_outputs sample_review ! 1) 20000 = Inr 49000" for w
    by (simp_all add: load_output_def expected_output_def Let_def sample_review_def sample_scripts_def
        spend_psbt_def blank_output_def optional_field_def subset_map_def checked_add_u64_def u64_bound_def sample_key_def)
  have review: "dv_id sample_review = sample_id" "dv_wallet_id sample_review = ''w''"
    "length (dv_inputs sample_review) = 1" "length (dv_outputs sample_review) = 2" "fee_sats sample_review = 1000"
    "dv_outputs sample_review = [dv_outputs sample_review ! 0, dv_outputs sample_review ! 1]"
    by (simp_all add: sample_review_def sample_id_def)
  have psbt: "length (ps_inputs spend_psbt) = 1" "length (ps_outputs spend_psbt) = 2" "ps_xpub spend_psbt = []"
    "ps_unknown spend_psbt = []" "ps_proprietary spend_psbt = []" "draft_identity sample_bitcoin ''w'' (unsigned_tx spend_psbt) = sample_id"
    by (simp_all add: spend_psbt_def spend_tx_def draft_identity_def sample_id_def)
  have zip: "enumerate 0 (zip (tx_output (unsigned_tx spend_psbt)) (dv_outputs sample_review)) =
      [(0, \<lparr>txo_value = 20000, script_pubkey = [9]\<rparr>, dv_outputs sample_review ! 0),
       (1, \<lparr>txo_value = 29000, script_pubkey = [3]\<rparr>, dv_outputs sample_review ! 1)]"
    by (subst review(6)) (simp add: tx)
  have n: "ws_network (l_summary sample_loaded) = Signet" "ws_synced_at (l_summary sample_loaded) = Some 5"
    by (simp_all add: sample_loaded_def)
  have row: "d_psbt sample_draft_row = ''cHNidP8=''" by (simp add: sample_draft_row_def)
  show ?thesis
    using assms input outs
    by (simp add: load_draft_def l db n row sample_texts review(1-5) psbt zip tx(1) stored subset_map_def MAX_SATS_def
        checked_sub_def fee_cap_def Let_def) (simp add: sample_loaded_draft_def)
qed

lemma sample_trusted_keys: "trusted_keys sample_crypto sample_trusted = Inr ([sample_key 1], 1)"
  by (simp add: trusted_keys_def sample_trusted_def sample_key_def out_a_def)

lemma sample_metadata:
  "check_metadata sample_bitcoin blank_input sample_trusted tx n = Inr ()"
  "check_metadata sample_bitcoin (blank_input\<lparr>partial_sigs := sigs\<rparr>) sample_trusted tx n = Inr ()"
  by (simp_all add: check_metadata_def blank_input_def sample_trusted_def optional_field_def subset_map_def)

lemma sample_signatures:
  "input_signatures sample_crypto tx n blank_input sample_trusted = Inr []"
  "input_signatures sample_crypto tx n (blank_input\<lparr>partial_sigs := [(sample_key 1, sample_signature)]\<rparr>) sample_trusted
    = Inr [(sample_key 1, sample_signature)]"
  by (simp_all add: input_signatures_def sample_trusted_keys input_hash_def blank_input_def List.member_iff
      valid_signature_def sample_signature_def sample_key_def sighash_all_def)

lemma sample_fields:
  "ps_inputs spend_psbt = [blank_input]" "ps_outputs spend_psbt = [blank_output, blank_output]"
  "ps_version spend_psbt = 0" "unsigned_tx spend_psbt = spend_tx" "length (tx_input spend_tx) = 1"
  "length (tx_output spend_tx) = 2" "ps_xpub spend_psbt = []" "ps_unknown spend_psbt = []"
  "ps_proprietary spend_psbt = []" "unsigned_tx signed_psbt = spend_tx"
  "ps_xpub signed_psbt = []" "ps_unknown signed_psbt = []" "ps_proprietary signed_psbt = []" "ps_version signed_psbt = 0"
  "ps_inputs signed_psbt = [blank_input\<lparr>partial_sigs := [(sample_key 1, sample_signature)]\<rparr>]"
  "ps_outputs signed_psbt = [blank_output, blank_output]"
  "spend_psbt\<lparr>ps_inputs := [blank_input\<lparr>partial_sigs := [(sample_key 1, sample_signature)]\<rparr>]\<rparr> = signed_psbt"
  by (simp_all add: signed_psbt_def spend_psbt_def spend_tx_def)

lemma sample_steps:
  "check_output (blank_output, blank_output) u = Inr ()"
  "insert_signature 0 (sample_key 1, sample_signature) [blank_input]
     = Inr [blank_input\<lparr>partial_sigs := [(sample_key 1, sample_signature)]\<rparr>]"
  "partial_sigs blank_input = []" "final_script_witness blank_input = None" "final_script_sig blank_input = None"
  by (simp_all add: check_output_def blank_output_def optional_field_def subset_map_def insert_signature_def
      blank_input_def tbl_upsert_def has_key_def)

lemmas sample_merge_simps = merge_response_def merge_candidate_def check_approved_input_def merge_input_def
  subset_map_def sample_fields sample_steps sample_metadata sample_signatures

lemma sample_merge:
  "merge_response sample_bitcoin sample_crypto spend_psbt None signed_psbt [sample_trusted] = Inr signed_psbt"
  "merge_response sample_bitcoin sample_crypto spend_psbt (Some signed_psbt) spend_psbt [sample_trusted] = Inr signed_psbt"
  by (simp_all add: sample_merge_simps)

text \<open>A candidate with one map, two outputs and nothing else is merged by its signatures alone.\<close>

lemma sample_merge_final:
  assumes "input_signatures sample_crypto spend_tx 0 (blank_input\<lparr>final_script_witness := Some stack\<rparr>) sample_trusted
      = Inr [(sample_key 1, sample_signature)]"
    and "check_metadata sample_bitcoin (blank_input\<lparr>final_script_witness := Some stack\<rparr>) sample_trusted spend_tx 0 = Inr ()"
  shows "merge_response sample_bitcoin sample_crypto spend_psbt None
      (spend_psbt\<lparr>ps_inputs := [blank_input\<lparr>final_script_witness := Some stack\<rparr>]\<rparr>) [sample_trusted] = Inr signed_psbt"
  using assms by (simp add: sample_merge_simps)

definition sample_progress :: signing_progress where
  "sample_progress = \<lparr>sp_draft_id = sample_id,
     sp_inputs = [\<lparr>isp_outpoint = ''a:0'', valid_signatures = 1, required_signatures = 1\<rparr>], sp_complete = True\<rparr>"

lemma sample_progress_of:
  "progress_of sample_bitcoin sample_crypto d signed_psbt [sample_trusted] = Inr (sample_progress\<lparr>sp_draft_id := d\<rparr>)"
  by (simp add: progress_of_def progress_def input_progress_def sample_trusted_keys signed_psbt_def spend_psbt_def
      spend_tx_def sample_progress_def)

lemma sample_accept:
  "accept_signed_psbt sample_bitcoin signed_codec sample_crypto sample_bdk ''w'' sample_id signed_bytes
     (signing_db ''unsigned'' False) = (Inr sample_progress, signing_db ''signed'' True)"
proof -
  have l: "load_draft sample_bitcoin signed_codec sample_crypto sample_bdk (signing_db ''unsigned'' False) ''w'' sample_id
    = Inr (sample_loaded_draft ''unsigned'' False)"
    by (rule sample_load_draft) (simp add: signable_states_def)
  have "accept_body sample_bitcoin signed_codec sample_crypto sample_bdk ''w'' sample_id signed_psbt (signing_db ''unsigned'' False)
      = Inr (sample_progress, signing_db ''signed'' True)"
    by (simp add: accept_body_def l Let_def)
      (simp add: sample_loaded_draft_def sample_merge sample_progress_of sample_progress_def sql_upsert_signatures_def
        draft_exists_def has_key_def signing_db_def sql_set_review_def tbl_update_def tbl_upsert_def)
  then show ?thesis by (simp add: accept_signed_psbt_def sample_responses run_tx_def)
qed

theorem accept_signed_psbt_twice_witness:
  "accept_signed_psbt sample_bitcoin signed_codec sample_crypto sample_bdk ''w'' sample_id signed_bytes
     (signing_db ''signed'' True) = (Inr sample_progress, signing_db ''signed'' True)"
proof (rule accept_signed_psbt_twice [OF sample_accept])
  show "wf_db (signing_db ''unsigned'' False)"
    by (simp add: wf_db_def signing_db_def sample_draft_db_def sample_db_def empty_db_def unique_keys_def unique_ids_def
        ids_below_def refs_def sample_id_def)
next
  fix m assume "map_of (draft_signatures (signing_db ''signed'' True)) (''w'', sample_id) = Some (psbt_text signed_codec m)"
  then have "m = signed_psbt" by (auto simp: signing_db_def split: if_splits)
  then show "reads_back signed_codec m" by (simp add: reads_back_def sample_texts)
qed

section \<open>The witnesses of finalization\<close>

lemma sample_signed_loaded:
  "load_draft sample_bitcoin signed_codec sample_crypto sample_bdk (signing_db ''signed'' True) ''w'' sample_id
    = Inr (sample_loaded_draft ''signed'' True)"
  by (rule sample_load_draft) (simp add: signable_states_def)

lemma sample_complete:
  "signing_progress_op sample_bitcoin signed_codec sample_crypto sample_bdk ''w'' sample_id (signing_db ''signed'' True)
     = Inr sample_progress"
  "finalized_draft sample_bitcoin signed_codec sample_crypto sample_bdk ''w'' sample_id (signing_db ''signed'' True) = Inr None"
proof -
  show "signing_progress_op sample_bitcoin signed_codec sample_crypto sample_bdk ''w'' sample_id (signing_db ''signed'' True)
     = Inr sample_progress"
    by (simp add: signing_progress_op_def sample_signed_loaded)
      (simp add: sample_loaded_draft_def sample_merge sample_progress_of sample_progress_def)
  have "stored_finalized (signing_db ''signed'' True) ''w'' sample_id = None"
    by (simp add: stored_finalized_def signing_db_def sample_draft_db_def sample_db_def empty_db_def)
  then show "finalized_draft sample_bitcoin signed_codec sample_crypto sample_bdk ''w'' sample_id (signing_db ''signed'' True) = Inr None"
    by (simp add: finalized_draft_def validated_finalized_def sample_signed_loaded) (simp add: sample_loaded_draft_def)
qed

lemma sample_witness_free_txid: "witness_free_txid sample_bitcoin"
  unfolding witness_free_txid_def
  by (intro allI impI) (drule sample_witness_free, simp)

theorem complete_draft_finalizes_witness:
  "\<exists>f db'. finalize_draft sample_bitcoin signed_codec sample_crypto sample_bdk ''w'' sample_id (signing_db ''signed'' True)
     = (Inr f, db')"
  using complete_draft_finalizes [OF sample_complete(1) _ sample_complete(2) sample_reads_signatures sample_witness_free_txid]
  by (auto simp: sample_progress_def)

theorem merge_adds_genuine_signatures_witness:
  "genuine sample_crypto spend_tx 0 sample_trusted (sample_key 1, sample_signature)"
  using merge_adds_genuine_signatures [OF sample_merge(1)] by (simp add: signed_psbt_def spend_psbt_def)

text \<open>The sample draft is finalized by the operation itself, evaluated.\<close>

definition sample_final :: finalized_review where
  "sample_final = \<lparr>fr_wallet_id = ''w'', fr_draft_id = sample_id, fr_txid = sample_hash [12],
     fr_wtxid = sample_hash [14], fr_fee_sats = 1000, weight_wu = 561, vsize = 141, transaction_bytes = [2, 2]\<rparr>"

lemma sample_finalize_transaction:
  "finalize_transaction sample_bitcoin sample_crypto spend_psbt (Some signed_psbt) [sample_trusted] = Inr final_tx"
proof -
  let ?stack = "[[1, 7, 1], [1 :: byte]]"
  let ?i = "\<lparr>previous_output = op_a, script_sig = [], tx_sequence = 0, tx_witness = []\<rparr>"
  have f: "tx_input spend_tx = [?i]" by (simp add: spend_tx_def)
  have chosen: "select_signatures [sample_key 1] 1 (blank_input\<lparr>partial_sigs := [(sample_key 1, sample_signature)]\<rparr>)
      = [(sample_key 1, sample_signature)]"
    by (simp add: select_signatures_def List.map_filter_def)
  have stack: "final_stack sample_crypto (t_descriptor sample_trusted) [(sample_key 1, sample_signature)] = Inr ?stack"
    by (simp add: final_stack_def sample_trusted_def sample_signature_def sample_key_def)
  have fin: "finalize_input sample_crypto signed_psbt (0, sample_trusted) ([?i], [blank_input])
      = Inr ([?i\<lparr>tx_witness := ?stack\<rparr>], [blank_input\<lparr>final_script_witness := Some ?stack\<rparr>])"
    using chosen by (simp add: finalize_input_def sample_trusted_keys sample_fields stack Let_def)
  have sigs: "input_signatures sample_crypto tx 0 (blank_input\<lparr>final_script_witness := Some ?stack\<rparr>) sample_trusted
      = Inr [(sample_key 1, sample_signature)]" for tx
    by (simp add: input_signatures_def sample_trusted_keys input_hash_def blank_input_def witness_signatures_def
        valid_signature_def sample_signature_def sample_key_def sighash_all_def)
  have meta: "check_metadata sample_bitcoin (blank_input\<lparr>final_script_witness := Some ?stack\<rparr>) sample_trusted tx 0 = Inr ()" for tx
    by (simp add: check_metadata_witness sample_metadata)
  have again: "merge_response sample_bitcoin sample_crypto spend_psbt None
      (spend_psbt\<lparr>ps_inputs := [blank_input\<lparr>final_script_witness := Some ?stack\<rparr>]\<rparr>) [sample_trusted] = Inr signed_psbt"
    using sample_merge_final [of ?stack] sigs meta by blast
  show ?thesis
    by (simp add: finalize_transaction_def sample_merge sample_progress_of sample_fields f fin again)
      (simp add: sample_progress_def spend_tx_def final_tx_def)
qed

lemma sample_loaded_fields:
  "sd_approved (sample_loaded_draft st True) = spend_psbt" "sd_stored (sample_loaded_draft st True) = Some signed_psbt"
  "sd_trusted (sample_loaded_draft st True) = [sample_trusted]" "dv_state (sd_review (sample_loaded_draft st True)) = st"
  "finalized_review_of sample_bitcoin (sample_loaded_draft st True) final_tx = sample_final"
  by (simp_all add: sample_loaded_draft_def finalized_review_of_def sample_review_def sample_final_def final_tx_def sample_id_def)

lemma sample_finalize:
  "\<exists>db'. finalize_draft sample_bitcoin signed_codec sample_crypto sample_bdk ''w'' sample_id (signing_db ''signed'' True)
     = (Inr sample_final, db')"
proof -
  have "stored_finalized (signing_db ''signed'' True) ''w'' sample_id = None"
    by (simp add: stored_finalized_def signing_db_def sample_draft_db_def sample_db_def empty_db_def)
  moreover have "\<exists>db1. sql_insert_finalized ''w'' sample_id bytes (signing_db ''signed'' True) = Inr db1" for bytes
    by (simp add: sql_insert_finalized_def signing_db_def sample_draft_db_def sample_db_def empty_db_def
        draft_exists_def has_key_def tbl_insert_def)
  ultimately have "\<exists>db1. finalize_draft_body sample_bitcoin signed_codec sample_crypto sample_bdk ''w'' sample_id
      (signing_db ''signed'' True) = Inr (sample_final, db1)"
    by (fastforce simp: finalize_draft_body_def sample_signed_loaded sample_loaded_fields sample_finalize_transaction
        Let_def result_simps)
  then show ?thesis by (auto simp: finalize_draft_def run_tx_def)
qed

theorem finalize_draft_final_witness:
  "\<exists>db'. finalize_draft sample_bitcoin signed_codec sample_crypto sample_bdk ''w'' sample_id db' = (Inr sample_final, db')"
  using sample_finalize finalize_draft_final by metis

end
