(* ===== verification/Sync.thy ===== *)
theory Sync
  imports Broadcast
begin

text \<open>
  What a scan may claim and what a committed synchronization changes, from
  \<^verbatim>\<open>crates/tundra-core/src/sync.rs\<close>: merkle proofs, the bounded scan itself, and the transaction
  that applies its result. The decoding of responses, hashing and the wallet library's chain state
  are parameters; the network is a function from the number of a request and its URL to a reply.
\<close>

record sync_status =
  st_confirmed :: bool
  block_height :: "nat option"
  block_hash :: "byte list option"
  block_time :: "nat option"

record history_entry =
  he_txid :: "byte list"
  he_status :: sync_status

record merkle_proof =
  proof_height :: nat
  merkle :: "byte list list"
  proof_pos :: nat

record header =
  merkle_root :: "byte list"
  header_time :: nat

record anchor =
  an_height :: nat
  an_hash :: "byte list"
  an_time :: nat

record chain_update =
  last_active :: "(keychain \<times> nat) list"
  up_txs :: "transaction list"
  anchors :: "(anchor \<times> byte list) list"
  seen_ats :: "(byte list \<times> nat) list"
  evicted_ats :: "(byte list \<times> nat) list"

record ('w, 'cs) chain =
  state_text :: "'cs \<Rightarrow> string"
  set_blocks :: "(nat \<times> byte list) list \<Rightarrow> 'cs \<Rightarrow> 'cs"
  apply_update :: "chain_update \<Rightarrow> 'w \<Rightarrow> 'w option"
  checkpoints :: "'w \<Rightarrow> nat list"
  script_at :: "'w \<Rightarrow> keychain \<Rightarrow> nat \<Rightarrow> byte list"
  derivation_index :: "'w \<Rightarrow> keychain \<Rightarrow> nat option"
  script_hash :: "byte list \<Rightarrow> string"
  sha256d :: "byte list \<Rightarrow> byte list"
  decode_history :: "byte list \<Rightarrow> history_entry list option"
  decode_proof :: "byte list \<Rightarrow> merkle_proof option"
  decode_header :: "byte list \<Rightarrow> header option"
  header_hash :: "header \<Rightarrow> byte list"

definition GAP :: nat where
  "GAP = 20"

definition MAX_SCRIPTS :: nat where
  "MAX_SCRIPTS = 2000"

definition MAX_TXS :: nat where
  "MAX_TXS = 5000"

section \<open>Merkle proofs\<close>

text \<open>One sibling: the pair is ordered by the lowest bit of the position.\<close>

definition merkle_step :: "('w, 'cs) chain \<Rightarrow> byte list \<Rightarrow> byte list \<times> nat \<Rightarrow> byte list \<times> nat" where
  "merkle_step N sibling = (\<lambda>(hash, pos).
     (sha256d N (if pos mod 2 = 0 then hash @ sibling else sibling @ hash), pos div 2))"

definition verify_proof ::
  "('w, 'cs) chain \<Rightarrow> byte list \<Rightarrow> merkle_proof \<Rightarrow> header \<Rightarrow> nat \<Rightarrow> unit result" where
  "verify_proof N txid pr header height =
     (if proof_height pr \<noteq> height \<or> 32 < length (merkle pr) then Inl SyncFailed
      else
        (let (hash, pos) = fold (merkle_step N) (merkle pr) (txid, proof_pos pr) in
         if pos \<noteq> 0 \<or> hash \<noteq> merkle_root header then Inl SyncFailed else Inr ()))"

section \<open>The history of a script\<close>

type_synonym histories = "(byte list, sync_status) table"

definition page_entry ::
  "history_entry \<Rightarrow> byte list list \<times> histories \<Rightarrow> (byte list list \<times> histories) result" where
  "page_entry tx = (\<lambda>(seen, history).
     if List.member seen (he_txid tx) then Inl SyncFailed
     else if (case map_of history (he_txid tx) of None \<Rightarrow> False | Some s \<Rightarrow> s \<noteq> he_status tx)
       then Inl StaleSync
     else
       (let history = tbl_upsert (he_txid tx) (he_status tx) history in
        if MAX_TXS < length history then Inl SyncLimit
        else Inr (he_txid tx # seen, history)))"

definition confirmed_entries :: "history_entry list \<Rightarrow> history_entry list" where
  "confirmed_entries page = filter (\<lambda>t. st_confirmed (he_status t)) page"

text \<open>
  The pages of one script, from a path on: whether anything was found, the histories and the
  client. A page of 25 confirmed transactions has a successor; the number of requests bounds the
  loop.
\<close>

function page_loop ::
  "bitcoin \<Rightarrow> ('w, 'cs) chain \<Rightarrow> network_answers \<Rightarrow> string \<Rightarrow> string \<Rightarrow> byte list list \<Rightarrow> bool \<Rightarrow>
   histories \<Rightarrow> http \<Rightarrow> (bool \<times> histories \<times> http) result" where
  "page_loop B N net script path seen active history h =
     rbind (http_json net (decode_history N) path h) (\<lambda>(page, h').
     let confirmed = confirmed_entries page in
     if 50 \<le> length page - length confirmed \<or> 25 < length confirmed then Inl SyncLimit
     else
       rbind (rfold page_entry page (seen, history)) (\<lambda>(seen, history).
       if length confirmed < 25 then Inr (active \<or> page \<noteq> [], history, h')
       else
         page_loop B N net script
           (''/scripthash/'' @ script @ ''/txs/chain/'' @ show_hash B (he_txid (last confirmed)))
           seen (active \<or> page \<noteq> []) history h'))"
  by pat_completeness auto
termination
proof (relation "measure (\<lambda>(B, N, net, script, path, seen, active, history, h).
    MAX_REQUESTS + 1 - h_requests h)", goal_cases)
  case 1
  show ?case by simp
next
  case (2 B N net script path seen active history h x page h')
  then show ?case
    using http_json_Inr [of net "decode_history N" path h page h'] http_bytes_Inr(1,2) [of net path MAX_BODY h]
    by fastforce
qed

declare page_loop.simps [simp del]

section \<open>Scanning the scripts of a keychain\<close>

datatype sync_phase = Prepared | Scanning | Applying | Complete | CancelledPhase | Failed

record scan_state =
  sc_http :: http
  sc_history :: histories
  sc_active :: "(keychain \<times> nat) list"
  sc_scanned :: nat

text \<open>The phase the scan finds its operation in after a script; \<open>None\<close> is a removed operation.\<close>

type_synonym watch = "nat \<Rightarrow> sync_phase option"

definition check_operation :: "watch \<Rightarrow> nat \<Rightarrow> unit result" where
  "check_operation phase_at n =
     rbind (ok_or (phase_at n) NotFound) (\<lambda>p. if p = CancelledPhase then Inl Cancelled else Inr ())"

text \<open>The scripts from an index on, \<open>n\<close> of them left; whether the gap limit was reached.\<close>

fun script_loop ::
  "bitcoin \<Rightarrow> ('w, 'cs) chain \<Rightarrow> network_answers \<Rightarrow> watch \<Rightarrow> 'w \<Rightarrow> keychain \<Rightarrow> nat \<Rightarrow> nat \<Rightarrow> nat \<Rightarrow> scan_state \<Rightarrow>
   (bool \<times> scan_state) result" where
  "script_loop B N net phase_at w k gap index 0 s = Inr (False, s)"
| "script_loop B N net phase_at w k gap index (Suc n) s =
     (let script = script_hash N (script_at N w k index) in
      rbind (page_loop B N net script (''/scripthash/'' @ script @ ''/txs'') [] False (sc_history s) (sc_http s))
        (\<lambda>(active, history, h).
      let gap = (if active then 0 else gap + 1);
          s = s\<lparr>sc_http := h, sc_history := history,
                sc_active := (if active then tbl_upsert k index (sc_active s) else sc_active s)\<rparr> in
      rbind (check_operation phase_at (sc_scanned s)) (\<lambda>_.
      let s = s\<lparr>sc_scanned := sc_scanned s + 1\<rparr> in
      if GAP \<le> gap \<and> (case derivation_index N w k of None \<Rightarrow> 0 | Some i \<Rightarrow> i) + (GAP - 1) \<le> index
      then Inr (True, s)
      else script_loop B N net phase_at w k gap (index + 1) n s)))"

definition keychain_scan ::
  "bitcoin \<Rightarrow> ('w, 'cs) chain \<Rightarrow> network_answers \<Rightarrow> watch \<Rightarrow> 'w \<Rightarrow> keychain \<Rightarrow> scan_state \<Rightarrow> scan_state result" where
  "keychain_scan B N net phase_at w k s =
     rbind (script_loop B N net phase_at w k 0 0 MAX_SCRIPTS s) (\<lambda>(complete, s).
     if \<not> complete then Inl SyncLimit else Inr s)"

section \<open>Fetching and proving the transactions\<close>

record fetch_state =
  fe_http :: http
  fe_blocks :: "(nat, byte list) table"
  fe_headers :: "(byte list, header) table"
  fe_update :: chain_update

definition fetch_block :: "web \<Rightarrow> network_answers \<Rightarrow> nat \<Rightarrow> fetch_state \<Rightarrow> fetch_state result" where
  "fetch_block T net height s =
     (if has_key height (fe_blocks s) then Inr s
      else
        rbind (http_hash T net height (fe_http s)) (\<lambda>(b, h).
        Inr (s\<lparr>fe_http := h, fe_blocks := tbl_upsert height b (fe_blocks s)\<rparr>)))"

definition fetch_header ::
  "web \<Rightarrow> ('w, 'cs) chain \<Rightarrow> network_answers \<Rightarrow> byte list \<Rightarrow> fetch_state \<Rightarrow> (header \<times> fetch_state) result" where
  "fetch_header T N net hash s =
     (case map_of (fe_headers s) hash of
        Some header \<Rightarrow> Inr (header, s)
      | None \<Rightarrow>
          rbind (http_text net (''/block/'' @ show_block_hash T hash @ ''/header'') 160 (fe_http s)) (\<lambda>(hex, h).
          rbind (ok_or (from_hex T hex) SyncFailed) (\<lambda>bs.
          rbind (ok_or (decode_header N bs) SyncFailed) (\<lambda>header.
          if header_hash N header \<noteq> hash then Inl SyncFailed
          else Inr (header, s\<lparr>fe_http := h, fe_headers := tbl_upsert hash header (fe_headers s)\<rparr>)))))"

text \<open>The anchor of a confirmed transaction: its block is on the scanned chain and commits to it.\<close>

definition anchor_tx ::
  "bitcoin \<Rightarrow> web \<Rightarrow> ('w, 'cs) chain \<Rightarrow> network_answers \<Rightarrow> nat \<Rightarrow> byte list \<Rightarrow> sync_status \<Rightarrow> fetch_state \<Rightarrow>
   fetch_state result" where
  "anchor_tx B T N net tip txid status s =
     rbind (ok_or (block_height status) SyncFailed) (\<lambda>h.
     rbind (ok_or (block_hash status) SyncFailed) (\<lambda>hash.
     if tip < h then Inl StaleSync
     else
       rbind (fetch_block T net h s) (\<lambda>s.
       if map_of (fe_blocks s) h \<noteq> Some hash then Inl StaleSync
       else
         rbind (fetch_header T N net hash s) (\<lambda>(header, s).
         rbind (http_json net (decode_proof N) (''/tx/'' @ show_hash B txid @ ''/merkle-proof'') (fe_http s)) (\<lambda>(pr, client).
         rbind (verify_proof N txid pr header h) (\<lambda>_.
         if block_time status \<noteq> Some (header_time header) then Inl SyncFailed
         else
           (let a = \<lparr>an_height = h, an_hash = hash, an_time = header_time header\<rparr>; u = fe_update s in
            Inr (s\<lparr>fe_http := client, fe_update := u\<lparr>anchors := anchors u @ [(a, txid)]\<rparr>\<rparr>))))))))"

definition fetch_tx ::
  "bitcoin \<Rightarrow> web \<Rightarrow> ('w, 'cs) chain \<Rightarrow> network_answers \<Rightarrow> nat \<Rightarrow> nat \<Rightarrow> byte list \<times> sync_status \<Rightarrow>
   fetch_state \<Rightarrow> fetch_state result" where
  "fetch_tx B T N net tip observed_at = (\<lambda>(txid, status) s.
     rbind (http_bytes net (''/tx/'' @ show_hash B txid @ ''/raw'') MAX_BODY (fe_http s)) (\<lambda>(raw, h).
     rbind (ok_or (tx_deserialize B raw) SyncFailed) (\<lambda>tx.
     let s = s\<lparr>fe_http := h\<rparr> in
     if compute_txid B tx \<noteq> txid then Inl SyncFailed
     else
       rbind (if st_confirmed status then anchor_tx B T N net tip txid status s
              else if block_hash status \<noteq> None \<or> block_height status \<noteq> None then Inl SyncFailed
              else (let u = fe_update s in
                    Inr (s\<lparr>fe_update := u\<lparr>seen_ats := seen_ats u @ [(txid, observed_at)]\<rparr>\<rparr>))) (\<lambda>s.
       let u = fe_update s in
       Inr (s\<lparr>fe_update := u\<lparr>up_txs := up_txs u @ [tx]\<rparr>\<rparr>)))))"

section \<open>The scan\<close>

definition parse_u32 :: "string \<Rightarrow> nat option" where
  "parse_u32 s = (case parse_u64 s of None \<Rightarrow> None | Some n \<Rightarrow> if n < 2 ^ 32 then Some n else None)"

definition tip_of :: "network_answers \<Rightarrow> http \<Rightarrow> (nat \<times> http) result" where
  "tip_of net h =
     rbind (http_text net ''/blocks/tip/height'' 10 h) (\<lambda>(s, h).
     rbind (ok_or (parse_u32 s) SyncFailed) (\<lambda>height. Inr (height, h)))"

definition known_block ::
  "web \<Rightarrow> network_answers \<Rightarrow> nat \<Rightarrow> nat \<Rightarrow> (nat, byte list) table \<times> http \<Rightarrow>
   ((nat, byte list) table \<times> http) result" where
  "known_block T net tip height = (\<lambda>(blocks, h).
     if height \<le> tip \<and> \<not> has_key height blocks
     then rbind (http_hash T net height h) (\<lambda>(b, h). Inr (tbl_upsert height b blocks, h))
     else Inr (blocks, h))"

record scan_result =
  sr_blocks :: "(nat, byte list) table"
  sr_update :: chain_update

definition empty_update :: chain_update where
  "empty_update = \<lparr>last_active = [], up_txs = [], anchors = [], seen_ats = [], evicted_ats = []\<rparr>"

definition scan ::
  "bitcoin \<Rightarrow> ('w, 'cs) bdk \<Rightarrow> web \<Rightarrow> ('w, 'cs) chain \<Rightarrow> network_answers \<Rightarrow> watch \<Rightarrow> string \<Rightarrow> 'w \<Rightarrow> nat \<Rightarrow>
   scan_result result" where
  "scan B W T N net phase_at e w observed_at =
     (let genesis = genesis_hash T (wallet_network W w) in
      rbind (http_hash T net 0 (http_new e)) (\<lambda>(first, h).
      if first \<noteq> genesis then Inl NetworkMismatch
      else
        rbind (tip_of net h) (\<lambda>(height, h).
        rbind (http_hash T net height h) (\<lambda>(tip, h).
        rbind (rfold (known_block T net height) (checkpoints N w)
                 (tbl_upsert height tip [(0, genesis)], h)) (\<lambda>(blocks, h).
        rbind (rfold (keychain_scan B N net phase_at w) [External, Internal]
                 \<lparr>sc_http = h, sc_history = [], sc_active = [], sc_scanned = 0\<rparr>) (\<lambda>s.
        rbind (rfold (fetch_tx B T N net height observed_at) (sort_key fst (sc_history s))
                 \<lparr>fe_http = sc_http s, fe_blocks = blocks, fe_headers = [],
                  fe_update = empty_update\<lparr>last_active := sc_active s\<rparr>\<rparr>) (\<lambda>f.
        let missing = filter (\<lambda>t. \<not> has_key t (sc_history s))
                        (map (\<lambda>t. compute_txid B (wt_tx t)) (transactions W w));
            u = fe_update f in
        rbind (http_hash T net height (fe_http f)) (\<lambda>(tip', h).
        if tip' \<noteq> tip then Inl StaleSync
        else
          rbind (tip_of net h) (\<lambda>(height', h).
          if height' \<noteq> height then Inl StaleSync
          else Inr \<lparr>sr_blocks = fe_blocks f,
                    sr_update = u\<lparr>evicted_ats := map (\<lambda>t. (t, observed_at)) missing\<rparr>\<rparr>)))))))))"

section \<open>Applying a scan\<close>

definition revision :: "'cs db \<Rightarrow> string \<Rightarrow> nat" where
  "revision db wid = (case map_of (sync_state db) wid of None \<Rightarrow> 0 | Some (r, _) \<Rightarrow> r)"

definition eligible_coins :: "bitcoin \<Rightarrow> ('w, 'cs) bdk \<Rightarrow> 'w \<Rightarrow> string list" where
  "eligible_coins B W w =
     map (\<lambda>c. show_outpoint B (lo_outpoint c))
       (filter (\<lambda>c. spendable (lo_position c) (tip_height W w) (funded_by_coinbase B W w (lo_outpoint c)))
          (list_unspent W w))"

definition invalidate_draft ::
  "bitcoin \<Rightarrow> ('w, 'cs) bdk \<Rightarrow> string \<Rightarrow> 'w \<Rightarrow> string \<times> draft_row \<Rightarrow> 'cs db \<Rightarrow> 'cs db result" where
  "invalidate_draft B W wid w = (\<lambda>(d, row) db.
     rbind (ok_or (d_review row) CorruptState) (\<lambda>review.
     rbind (observe_draft B W wid review w db) (\<lambda>(seen, db).
     if seen then Inr db
     else if dv_state review = ''observed''
             \<or> list_ex (\<lambda>i. \<not> List.member (eligible_coins B W w) (ri_outpoint i)) (dv_inputs review)
       then Inr (sql_release wid d (sql_set_review_by_id d (review\<lparr>dv_state := ''invalidated''\<rparr>) db))
     else Inr db)))"

definition invalidate_drafts ::
  "bitcoin \<Rightarrow> ('w, 'cs) bdk \<Rightarrow> string \<Rightarrow> 'w \<Rightarrow> 'cs db \<Rightarrow> 'cs db result" where
  "invalidate_drafts B W wid w db =
     rfold (invalidate_draft B W wid w)
       (map (\<lambda>((_, d), row). (d, row)) (filter (\<lambda>r. fst (fst r) = wid) (drafts db))) db"

record ('w, 'cs) snapshot =
  sn_loaded :: "('w, 'cs) loaded"
  sn_revision :: nat
  sn_serialized :: string
  sn_endpoint :: string

definition observation_time :: "nat \<Rightarrow> ('w, 'cs) snapshot \<Rightarrow> nat" where
  "observation_time now snap =
     max now (saturating_add_u64 (case ws_synced_at (l_summary (sn_loaded snap)) of None \<Rightarrow> 0 | Some t \<Rightarrow> t) 1)"

definition apply_scan ::
  "bitcoin \<Rightarrow> ('w, 'cs) bdk \<Rightarrow> ('w, 'cs) chain \<Rightarrow> string \<Rightarrow> ('w, 'cs) snapshot \<Rightarrow> nat \<Rightarrow> scan_result \<Rightarrow> 'cs db \<Rightarrow>
   (unit \<times> 'cs db) result" where
  "apply_scan B W N wid snap observed_at result db =
     rbind (load W db wid) (\<lambda>l.
     if revision db wid \<noteq> sn_revision snap \<or> state_text N (l_state l) \<noteq> sn_serialized snap
     then Inl StaleSync
     else
       (let state = set_blocks N (sr_blocks result) (l_state l) in
        rbind (ok_or (wallet_load W (ws_network (l_summary l)) state) CorruptState) (\<lambda>w.
        rbind (ok_or (apply_update N (sr_update result) w) SyncFailed) (\<lambda>w.
        rbind (invalidate_drafts B W wid w db) (\<lambda>db.
        let db = sql_set_synced wid observed_at (save W wid (l\<lparr>l_wallet := w, l_state := state\<rparr>) db) in
        rbind (sql_upsert_sync wid (revision db wid + 1) (sn_endpoint snap) db) (\<lambda>db.
        Inr ((), db)))))))"

end
