(* ===== verification/Sync_Operations.thy ===== *)
theory Sync_Operations
  imports Sync
begin

text \<open>
  The synchronization operations of \<^verbatim>\<open>crates/tundra-core/src/sync.rs\<close>: prepared, run, cancelled
  and committed by different threads over one table of operations. Every critical section of the
  table's lock is one step; a scanning thread keeps its snapshot (\<open>Running\<close>), a thread whose scan
  failed still has to report it (\<open>Reporting\<close>). Between two steps any other call may run.
\<close>

definition terminal :: "sync_phase \<Rightarrow> bool" where
  "terminal p = (p = Complete \<or> p = CancelledPhase \<or> p = Failed)"

text \<open>\<open>sy_error\<close> is the error whose text the progress shows.\<close>

record sync_progress =
  sy_id :: nat
  sy_wallet_id :: string
  sy_phase :: sync_phase
  scanned_scripts :: nat
  sy_error :: "error option"

record ('w, 'cs) operation =
  op_progress :: sync_progress
  op_pending :: "('w, 'cs) snapshot option"
  op_notified :: bool

datatype ('w, 'cs) thread = Running "('w, 'cs) snapshot" | Reporting error

type_synonym ('w, 'cs) entries = "(nat, ('w, 'cs) operation) table"

text \<open>\<open>co_next\<close> is the process-wide counter of operation ids.\<close>

record ('w, 'cs) core =
  co_db :: "'cs db"
  co_entries :: "('w, 'cs) entries"
  co_next :: nat
  co_threads :: "(nat \<times> ('w, 'cs) thread) list"

definition op_phase :: "('w, 'cs) operation \<Rightarrow> sync_phase" where
  "op_phase x = sy_phase (op_progress x)"

definition op_wallet :: "('w, 'cs) operation \<Rightarrow> string" where
  "op_wallet x = sy_wallet_id (op_progress x)"

definition set_phase :: "sync_phase \<Rightarrow> ('w, 'cs) operation \<Rightarrow> ('w, 'cs) operation" where
  "set_phase p x = x\<lparr>op_progress := (op_progress x)\<lparr>sy_phase := p\<rparr>\<rparr>"

section \<open>Preparing\<close>

definition take_snapshot ::
  "('w, 'cs) bdk \<Rightarrow> web \<Rightarrow> ('w, 'cs) chain \<Rightarrow> string \<Rightarrow> string \<Rightarrow> bool \<Rightarrow> 'cs db \<Rightarrow> ('w, 'cs) snapshot result" where
  "take_snapshot W T N wid source consent db =
     rbind (load W db wid) (\<lambda>l.
     rbind (endpoint T source (ws_network (l_summary l)) consent) (\<lambda>e.
     Inr \<lparr>sn_loaded = l, sn_revision = revision db wid, sn_serialized = state_text N (l_state l),
          sn_endpoint = e\<rparr>))"

definition MAX_OPERATIONS :: nat where
  "MAX_OPERATIONS = 32"

definition live :: "('w, 'cs) operation \<Rightarrow> bool" where
  "live x = (\<not> terminal (op_phase x))"

definition make_room :: "('w, 'cs) entries \<Rightarrow> ('w, 'cs) entries" where
  "make_room entries =
     (if MAX_OPERATIONS \<le> length entries then filter (\<lambda>r. live (snd r)) entries else entries)"

definition register_operation ::
  "string \<Rightarrow> ('w, 'cs) snapshot \<Rightarrow> ('w, 'cs) entries \<Rightarrow> nat \<Rightarrow>
   (sync_progress \<times> ('w, 'cs) entries \<times> nat) result" where
  "register_operation wid snap entries next_id =
     (let p = \<lparr>sy_id = next_id + 1, sy_wallet_id = wid, sy_phase = Prepared, scanned_scripts = 0,
               sy_error = None\<rparr> in
      if u64_bound \<le> next_id + 1 then Inl SyncLimit
      else Inr (p, tbl_upsert (next_id + 1) \<lparr>op_progress = p, op_pending = Some snap, op_notified = False\<rparr> entries,
                next_id + 1))"

text \<open>Pruning happens even when the operation is then refused.\<close>

definition prepare_sync ::
  "('w, 'cs) bdk \<Rightarrow> web \<Rightarrow> ('w, 'cs) chain \<Rightarrow> string \<Rightarrow> string \<Rightarrow> bool \<Rightarrow> ('w, 'cs) core \<Rightarrow>
   sync_progress result \<times> ('w, 'cs) core" where
  "prepare_sync W T N wid source consent s =
     (case take_snapshot W T N wid source consent (co_db s) of
        Inl e \<Rightarrow> (Inl e, s)
      | Inr snap \<Rightarrow>
          (if list_ex (\<lambda>(_, x). op_wallet x = wid \<and> live x) (co_entries s) then (Inl SyncBusy, s)
           else
             (let entries = make_room (co_entries s) in
              if MAX_OPERATIONS \<le> length entries then (Inl SyncBusy, s\<lparr>co_entries := entries\<rparr>)
              else case register_operation wid snap entries (co_next s) of
                Inl e \<Rightarrow> (Inl e, s\<lparr>co_entries := entries\<rparr>)
              | Inr (p, entries, n) \<Rightarrow> (Inr p, s\<lparr>co_entries := entries, co_next := n\<rparr>))))"

definition sync_progress_of :: "nat \<Rightarrow> ('w, 'cs) core \<Rightarrow> sync_progress result" where
  "sync_progress_of i s = rbind (ok_or (map_of (co_entries s) i) NotFound) (\<lambda>x. Inr (op_progress x))"

definition sync_endpoint :: "('w, 'cs) bdk \<Rightarrow> string \<Rightarrow> ('w, 'cs) core \<Rightarrow> string option result" where
  "sync_endpoint W wid s =
     rbind (load W (co_db s) wid) (\<lambda>_.
     Inr (map_option snd (map_of (sync_state (co_db s)) wid)))"

section \<open>Cancelling and running\<close>

definition cancel_operation :: "('w, 'cs) operation \<Rightarrow> ('w, 'cs) operation" where
  "cancel_operation x =
     (if terminal (op_phase x) then x
      else (set_phase CancelledPhase x)\<lparr>op_pending := None, op_notified := True\<rparr>)"

definition cancel_sync :: "nat \<Rightarrow> ('w, 'cs) core \<Rightarrow> sync_progress result \<times> ('w, 'cs) core" where
  "cancel_sync i s =
     (case map_of (co_entries s) i of
        None \<Rightarrow> (Inl NotFound, s)
      | Some x \<Rightarrow> (Inr (op_progress (cancel_operation x)),
                  s\<lparr>co_entries := tbl_upsert i (cancel_operation x) (co_entries s)\<rparr>))"

definition begin_run ::
  "nat \<Rightarrow> ('w, 'cs) core \<Rightarrow> ('w, 'cs) snapshot result \<times> ('w, 'cs) core" where
  "begin_run i s =
     (case map_of (co_entries s) i of
        None \<Rightarrow> (Inl NotFound, s)
      | Some x \<Rightarrow>
          (if op_phase x = CancelledPhase then (Inl Cancelled, s)
           else case op_pending x of
             None \<Rightarrow> (Inl SyncBusy, s)
           | Some snap \<Rightarrow>
               (Inr snap, s\<lparr>co_entries := tbl_upsert i ((set_phase Scanning x)\<lparr>op_pending := None\<rparr>) (co_entries s)\<rparr>)))"

text \<open>\<open>spawned\<close>: whether the system could start the thread.\<close>

definition run_sync :: "nat \<Rightarrow> bool \<Rightarrow> ('w, 'cs) core \<Rightarrow> unit result \<times> ('w, 'cs) core" where
  "run_sync i spawned s =
     (case begin_run i s of
        (Inl e, s) \<Rightarrow> (Inl e, s)
      | (Inr snap, s) \<Rightarrow>
          (if spawned then (Inr (), s\<lparr>co_threads := co_threads s @ [(i, Running snap)]\<rparr>)
           else case cancel_sync i s of
             (Inl e, s) \<Rightarrow> (Inl e, s)
           | (Inr _, s) \<Rightarrow> (Inl SyncFailed, s)))"

section \<open>The thread\<close>

definition count_script :: "nat \<Rightarrow> ('w, 'cs) core \<Rightarrow> unit result \<times> ('w, 'cs) core" where
  "count_script i s =
     (case map_of (co_entries s) i of
        None \<Rightarrow> (Inl NotFound, s)
      | Some x \<Rightarrow>
          (if op_phase x = CancelledPhase then (Inl Cancelled, s)
           else (Inr (), s\<lparr>co_entries := tbl_upsert i
                  (x\<lparr>op_progress := (op_progress x)\<lparr>scanned_scripts := scanned_scripts (op_progress x) + 1\<rparr>\<rparr>)
                  (co_entries s)\<rparr>)))"

text \<open>The lock is held from the check of the phase to the commit.\<close>

definition commit_scan ::
  "bitcoin \<Rightarrow> ('w, 'cs) bdk \<Rightarrow> ('w, 'cs) chain \<Rightarrow> nat \<Rightarrow> ('w, 'cs) snapshot \<Rightarrow> nat \<Rightarrow> scan_result \<Rightarrow> ('w, 'cs) core \<Rightarrow>
   unit result \<times> ('w, 'cs) core" where
  "commit_scan B W N i snap observed_at result s =
     (case map_of (co_entries s) i of
        None \<Rightarrow> (Inl NotFound, s)
      | Some x \<Rightarrow>
          (if op_phase x = CancelledPhase then (Inl Cancelled, s)
           else case run_tx (co_db s) (apply_scan B W N (op_wallet x) snap observed_at result) of
             (Inl e, _) \<Rightarrow> (Inl e, s\<lparr>co_entries := tbl_upsert i (set_phase Applying x) (co_entries s)\<rparr>)
           | (Inr _, db) \<Rightarrow>
               (Inr (), s\<lparr>co_db := db, co_entries := tbl_upsert i (set_phase Complete x) (co_entries s)\<rparr>)))"

definition report_error :: "nat \<Rightarrow> error \<Rightarrow> ('w, 'cs) core \<Rightarrow> ('w, 'cs) core" where
  "report_error i e s =
     (case map_of (co_entries s) i of
        None \<Rightarrow> s
      | Some x \<Rightarrow>
          (if terminal (op_phase x) then s
           else
             (let x = set_phase (if e = Cancelled then CancelledPhase else Failed) x in
              s\<lparr>co_entries := tbl_upsert i
                 (x\<lparr>op_progress := (op_progress x)\<lparr>sy_error := Some e\<rparr>\<rparr>) (co_entries s)\<rparr>)))"

definition thread_done :: "nat \<Rightarrow> ('w, 'cs) core \<Rightarrow> ('w, 'cs) core" where
  "thread_done i s = s\<lparr>co_threads := filter (\<lambda>t. fst t \<noteq> i) (co_threads s)\<rparr>"

definition thread_failed :: "nat \<Rightarrow> error \<Rightarrow> ('w, 'cs) core \<Rightarrow> ('w, 'cs) core" where
  "thread_failed i e s =
     s\<lparr>co_threads := map (\<lambda>t. if fst t = i then (i, Reporting e) else t) (co_threads s)\<rparr>"

section \<open>The machine\<close>

text \<open>
  One critical section at a time. \<open>Scan_Step\<close> is the count of a scanned script, \<open>Scan_Error\<close> an error
  of the scan itself (network, limits, cancellation), \<open>Other_Call\<close> any call that is not a
  synchronization.
\<close>

inductive sync_step ::
  "bitcoin \<Rightarrow> ('w, 'cs) bdk \<Rightarrow> web \<Rightarrow> ('w, 'cs) chain \<Rightarrow> ('w, 'cs) core \<Rightarrow> ('w, 'cs) core \<Rightarrow> bool"
  for B W T N where
  Prepare_Step: "prepare_sync W T N wid source consent s = (r, t) \<Longrightarrow> sync_step B W T N s t"
| Cancel_Step: "cancel_sync i s = (p, t) \<Longrightarrow> sync_step B W T N s t"
| Run_Step: "run_sync i spawned s = (u, t) \<Longrightarrow> sync_step B W T N s t"
| Scan_Step: "(i, Running snap) \<in> set (co_threads s) \<Longrightarrow> count_script i s = (Inr (), t) \<Longrightarrow>
    sync_step B W T N s t"
| Scan_Error: "(i, Running snap) \<in> set (co_threads s) \<Longrightarrow> sync_step B W T N s (thread_failed i e s)"
| Commit_Step: "(i, Running snap) \<in> set (co_threads s) \<Longrightarrow>
    commit_scan B W N i snap observed_at result s = (Inr (), t) \<Longrightarrow>
    sync_step B W T N s (thread_done i t)"
| Refused_Commit: "(i, Running snap) \<in> set (co_threads s) \<Longrightarrow>
    commit_scan B W N i snap observed_at result s = (Inl e, t) \<Longrightarrow>
    sync_step B W T N s (thread_failed i e t)"
| Report_Step: "(i, Reporting e) \<in> set (co_threads s) \<Longrightarrow>
    sync_step B W T N s (thread_done i (report_error i e s))"
| Other_Call: "sync_step B W T N s (s\<lparr>co_db := db\<rparr>)"

inductive sync_run ::
  "bitcoin \<Rightarrow> ('w, 'cs) bdk \<Rightarrow> web \<Rightarrow> ('w, 'cs) chain \<Rightarrow> ('w, 'cs) core \<Rightarrow> ('w, 'cs) core \<Rightarrow> bool"
  for B W T N where
  Run_Refl: "sync_run B W T N s s"
| Run_Trans: "sync_run B W T N s t \<Longrightarrow> sync_step B W T N t u \<Longrightarrow> sync_run B W T N s u"

end
