(* ===== verification/Usb_Protocol.thy ===== *)
theory Usb_Protocol
  imports Session Framing Descriptors Table
begin

text \<open>
  \<^verbatim>\<open>crates/tundra-core/src/usb/protocol.rs\<close>: the restricted Ledger driver. A session asks for the
  application's version, the master fingerprint and one account key, in this order, and only then
  performs the single intent it was started with. The interpreter of Ledger commands is a
  parameter (a state \<open>'i\<close> with its transitions); which command is sent when, which answers are
  taken, and when the session ends are the core's. A call reads the clock once (\<open>now\<close>, in
  nanoseconds).
\<close>

definition MAX_EXCHANGES :: nat where
  "MAX_EXCHANGES = 4096"

definition MAX_RECEIVED_BYTES :: nat where
  "MAX_RECEIVED_BYTES = 4 * 1048576"

definition LIFETIME :: nat where
  "LIFETIME = 180000000000"

record account =
  ac_fingerprint :: string
  ac_path :: "child_number list"
  ac_xpub :: string

record ledger_policy =
  lp_name :: string
  lp_version2 :: bool
  lp_template :: string
  lp_keys :: "string list"

record hw_context =
  hc_policy :: ledger_policy
  hc_accounts :: "account list"
  hc_registrations :: "(string, byte list) table"

record transmit =
  to_device :: bool
  encrypted :: bool
  tr_payload :: "byte list"

datatype hw_error = UserCancelled | OtherHardware

datatype command =
    GetVersion
  | GetMasterFingerprint
  | GetXpub "child_number list" bool
  | RegisterWallet string ledger_policy
  | DisplayAddress nat bool bool string ledger_policy "byte list"
  | SignTx psbt ledger_policy "byte list"

datatype response =
    Info "string option" string
  | MasterFingerprint string
  | XpubResponse string
  | WalletRegistration "byte list option"
  | AddressResponse string
  | SignedPsbtResponse psbt
  | OtherResponse

record 'i ledger =
  start_command :: "command \<Rightarrow> hw_error + (transmit \<times> 'i)"
  exchange_step :: "'i \<Rightarrow> byte list \<Rightarrow> hw_error + (transmit option \<times> 'i)"
  end_command :: "'i \<Rightarrow> hw_error + response"
  policy_id :: "ledger_policy \<Rightarrow> byte list option"
  parse_key :: "string \<Rightarrow> string option"
  new_policy :: "string \<Rightarrow> string list \<Rightarrow> ledger_policy option"

definition usb_invalid :: error where
  "usb_invalid = InvalidInput ''invalid or unexpected Ledger response''"

definition usb_cancelled :: error where
  "usb_cancelled = InvalidInput ''hardware operation cancelled on the device''"

fun protocol_error :: "hw_error \<Rightarrow> error" where
  "protocol_error UserCancelled = usb_cancelled"
| "protocol_error OtherHardware = usb_invalid"

section \<open>The context of a wallet\<close>

definition account_of :: "bitcoin \<Rightarrow> 'i ledger \<Rightarrow> descriptor_key \<Rightarrow> (account \<times> string) result" where
  "account_of B L key =
     (case key of
        OtherKey _ \<Rightarrow> Inl usb_invalid
      | XPub x \<Rightarrow>
          rbind (ok_or (xk_origin x) usb_invalid) (\<lambda>(fingerprint, path).
          rbind (ok_or (parse_key L (''['' @ fingerprint @ ''/'' @ show_path B path @ '']'' @ xk_text x @ ''/<0;1>/*''))
                   usb_invalid) (\<lambda>k.
          Inr (\<lparr>ac_fingerprint = fingerprint, ac_path = path, ac_xpub = xk_text x\<rparr>, k))))"

fun policy_template :: "policy \<Rightarrow> string" where
  "policy_template SingleSig = ''wpkh(@0/**)''"
| "policy_template TwoOfThree = ''wsh(sortedmulti(2,@0/**,@1/**,@2/**))''"

definition context_from_preview ::
  "bitcoin \<Rightarrow> miniscript \<Rightarrow> ('w, 'cs) bdk \<Rightarrow> (string \<Rightarrow> json option) \<Rightarrow> 'i ledger \<Rightarrow> import_preview \<Rightarrow>
   hw_context result" where
  "context_from_preview B M W parse L preview =
     rbind (preview_import B M W parse
              (receive_descriptor preview @ [CHR 0x0A] @ change_descriptor preview) (ip_network preview)) (\<lambda>checked.
     if ip_network checked = Mainnet then Inl (Unavailable ''mainnet hardware operations'')
     else
       rbind (ok_or (parse_descriptor M (receive_descriptor checked)) usb_invalid) (\<lambda>d.
       rbind (rmap (account_of B L) (descriptor_keys d)) (\<lambda>found.
       rbind (ok_or (new_policy L (policy_template (ip_policy checked)) (map snd found)) usb_invalid) (\<lambda>p.
       Inr \<lparr>hc_policy = p, hc_accounts = map fst found, hc_registrations = []\<rparr>))))"

section \<open>The session\<close>

datatype intent = Inspect | Register | Address nat string | Sign psbt

datatype outcome = Inspected | Registered "byte list" | AddressMatches | Signed psbt

datatype usb_state = Waiting | UsbComplete | UsbCancelled | UsbFailed

record usb_update =
  uu_state :: usb_state
  uu_step :: nat
  packets :: "byte list list"
  app_version :: "string option"
  uu_fingerprint :: "string option"

datatype usb_phase = InfoPhase | FingerprintPhase | AccountPhase | ActionPhase

record 'i usb_session =
  se_context :: hw_context
  se_intent :: "intent option"
  se_interpreter :: "'i option"
  se_reader :: reader
  se_phase :: usb_phase
  se_account :: "account option"
  se_started :: nat
  se_bytes :: nat
  se_update :: usb_update
  se_outcome :: "outcome option"

definition se_state :: "'i usb_session \<Rightarrow> usb_state" where
  "se_state s = uu_state (se_update s)"

definition close :: "usb_state \<Rightarrow> 'i usb_session \<Rightarrow> 'i usb_session" where
  "close st s = s\<lparr>se_update := (se_update s)\<lparr>uu_state := st, packets := []\<rparr>, se_interpreter := None,
     se_intent := None, se_outcome := None, se_reader := reader_default\<rparr>"

definition usb_progress :: "nat \<Rightarrow> 'i usb_session \<Rightarrow> usb_update \<times> 'i usb_session" where
  "usb_progress now s =
     (let s = (if se_state s = Waiting \<and> LIFETIME < now - se_started s then close UsbFailed s else s) in
      (se_update s, s))"

definition usb_cancel :: "'i usb_session \<Rightarrow> usb_update \<times> 'i usb_session" where
  "usb_cancel s = (let s = close UsbCancelled s in (se_update s, s))"

definition transmit_to :: "transmit \<Rightarrow> 'i usb_session \<Rightarrow> unit result \<times> 'i usb_session" where
  "transmit_to t s =
     (if \<not> to_device t \<or> encrypted t \<or> MAX_EXCHANGES \<le> uu_step (se_update s) then (Inl usb_invalid, s)
      else case command_reports (tr_payload t) of
        Inl e \<Rightarrow> (Inl e, s)
      | Inr ps \<Rightarrow>
          (Inr (), s\<lparr>se_update := (se_update s)\<lparr>packets := ps, uu_step := uu_step (se_update s) + 1\<rparr>,
                     se_reader := reader_default\<rparr>))"

definition send_command :: "'i ledger \<Rightarrow> command \<Rightarrow> 'i usb_session \<Rightarrow> unit result \<times> 'i usb_session" where
  "send_command L c s =
     (case start_command L c of
        Inl e \<Rightarrow> (Inl (protocol_error e), s)
      | Inr (t, i) \<Rightarrow>
          (case transmit_to t s of
             (Inl e, s) \<Rightarrow> (Inl e, s)
           | (Inr _, s) \<Rightarrow> (Inr (), s\<lparr>se_interpreter := Some i\<rparr>)))"

definition session_start :: "'i ledger \<Rightarrow> nat \<Rightarrow> hw_context \<Rightarrow> intent \<Rightarrow> 'i usb_session result" where
  "session_start L now context intent =
     (if hc_accounts context = [] \<or> 3 < length (hc_accounts context) \<or> \<not> lp_version2 (hc_policy context)
      then Inl usb_invalid
      else
        (case send_command L GetVersion
           \<lparr>se_context = context, se_intent = Some intent, se_interpreter = None, se_reader = reader_default,
            se_phase = InfoPhase, se_account = None, se_started = now, se_bytes = 0,
            se_update = \<lparr>uu_state = Waiting, uu_step = 0, packets = [], app_version = None,
                         uu_fingerprint = None\<rparr>,
            se_outcome = None\<rparr> of
           (Inl e, _) \<Rightarrow> Inl e
         | (Inr _, s) \<Rightarrow> Inr s))"

definition finish_session :: "outcome \<Rightarrow> 'i usb_session \<Rightarrow> 'i usb_session" where
  "finish_session out s = s\<lparr>se_update := (se_update s)\<lparr>uu_state := UsbComplete, packets := []\<rparr>,
     se_intent := None, se_outcome := Some out\<rparr>"

definition take_outcome :: "'i usb_session \<Rightarrow> outcome result \<times> 'i usb_session" where
  "take_outcome s =
     (if se_state s \<noteq> UsbComplete then (Inl usb_invalid, s)
      else (ok_or (se_outcome s) usb_invalid, s\<lparr>se_outcome := None\<rparr>))"

section \<open>Checking a response before it is interpreted\<close>

definition expected_app :: "byte list" where
  "expected_app = bytes_of ''Bitcoin Test''"

text \<open>A counted field of at most 32 bytes.\<close>

definition info_field :: "byte list \<Rightarrow> (byte list \<times> byte list) result" where
  "info_field rest =
     (case rest of
        [] \<Rightarrow> Inl usb_invalid
      | n # r \<Rightarrow>
          (if 32 < unat n \<or> length r < unat n then Inl usb_invalid
           else Inr (take (unat n) r, drop (unat n) r)))"

definition version_byte :: "byte \<Rightarrow> bool" where
  "version_byte b =
     ((48 \<le> b \<and> b \<le> 57) \<or> (65 \<le> b \<and> b \<le> 90) \<or> (97 \<le> b \<and> b \<le> 122) \<or> b = 46 \<or> b = 45)"

definition check_info :: "byte list \<Rightarrow> unit result" where
  "check_info payload =
     (case payload of
        [] \<Rightarrow> Inl usb_invalid
      | format # rest \<Rightarrow>
          (if format \<noteq> 1 then Inl usb_invalid
           else
             rbind (info_field rest) (\<lambda>(name, rest).
             rbind (info_field rest) (\<lambda>(version, rest).
             rbind (info_field rest) (\<lambda>(_, rest).
             if rest \<noteq> [] \<or> name \<noteq> expected_app \<or> version = [] \<or> \<not> list_all version_byte version
             then Inl usb_invalid else Inr ())))))"

definition success_status :: "byte list" where
  "success_status = [0x90, 0x00]"

definition device_preflight :: "'i ledger \<Rightarrow> 'i usb_session \<Rightarrow> byte list \<Rightarrow> unit result" where
  "device_preflight L s response =
     (if length response < 2 then Inl usb_invalid
      else
        (let payload = take (length response - 2) response; status = drop (length response - 2) response in
         if status \<noteq> success_status
         then
           (if status = [0x69, 0x85] \<or> status = [0x69, 0x82] then Inl usb_cancelled
            else if se_phase s = ActionPhase \<and> status = [0xe0, 0x00]
                    \<or> se_phase s = AccountPhase \<and> status = [0x6a, 0x82] then Inr ()
            else Inl usb_invalid)
         else
           (case se_phase s of
              InfoPhase \<Rightarrow> check_info payload
            | FingerprintPhase \<Rightarrow> if length payload \<noteq> 4 then Inl usb_invalid else Inr ()
            | AccountPhase \<Rightarrow> if 112 < length payload then Inl usb_invalid else Inr ()
            | ActionPhase \<Rightarrow>
                (if se_intent s \<noteq> Some Register then Inr ()
                 else if length payload \<noteq> 64 then Inl usb_invalid
                 else
                   rbind (ok_or (policy_id L (hc_policy (se_context s))) usb_invalid) (\<lambda>pid.
                   if take 32 payload \<noteq> pid then Inl usb_invalid else Inr ())))))"

section \<open>The answers\<close>

definition registration :: "'i usb_session \<Rightarrow> byte list result" where
  "registration s =
     rbind (ok_or (se_account s) usb_invalid) (\<lambda>a.
     ok_or (map_of (hc_registrations (se_context s)) (ac_fingerprint a))
       (InvalidInput ''register this wallet policy on the connected hardware first''))"

definition act :: "'i ledger \<Rightarrow> 'i usb_session \<Rightarrow> unit result \<times> 'i usb_session" where
  "act L s =
     (let p = hc_policy (se_context s) in
      case se_intent s of
        None \<Rightarrow> (Inl usb_invalid, s)
      | Some Inspect \<Rightarrow> (Inr (), finish_session Inspected s)
      | Some Register \<Rightarrow> send_command L (RegisterWallet (lp_name p) p) s
      | Some (Address index _) \<Rightarrow>
          (case registration s of
             Inl e \<Rightarrow> (Inl e, s)
           | Inr hmac \<Rightarrow> send_command L (DisplayAddress index False True (lp_name p) p hmac) s)
      | Some (Sign psbt) \<Rightarrow>
          (case registration s of
             Inl e \<Rightarrow> (Inl e, s)
           | Inr hmac \<Rightarrow> send_command L (SignTx psbt p hmac) s))"

definition answer_info :: "'i ledger \<Rightarrow> string option \<Rightarrow> string \<Rightarrow> 'i usb_session \<Rightarrow> unit result \<times> 'i usb_session" where
  "answer_info L firmware version s =
     (if firmware \<noteq> Some ''Bitcoin Test'' then (Inl NetworkMismatch, s)
      else send_command L GetMasterFingerprint
             (s\<lparr>se_update := (se_update s)\<lparr>app_version := Some version\<rparr>, se_phase := FingerprintPhase\<rparr>))"

definition answer_fingerprint :: "'i ledger \<Rightarrow> string \<Rightarrow> 'i usb_session \<Rightarrow> unit result \<times> 'i usb_session" where
  "answer_fingerprint L fingerprint s =
     (case find (\<lambda>a. ac_fingerprint a = fingerprint) (hc_accounts (se_context s)) of
        None \<Rightarrow> (Inl (InvalidInput ''connected hardware does not match this wallet''), s)
      | Some a \<Rightarrow>
          send_command L (GetXpub (ac_path a) False)
            (s\<lparr>se_update := (se_update s)\<lparr>uu_fingerprint := Some fingerprint\<rparr>, se_phase := AccountPhase,
               se_account := Some a\<rparr>))"

definition answer_xpub :: "'i ledger \<Rightarrow> string \<Rightarrow> 'i usb_session \<Rightarrow> unit result \<times> 'i usb_session" where
  "answer_xpub L xpub s =
     (if (case se_account s of None \<Rightarrow> True | Some a \<Rightarrow> ac_xpub a \<noteq> xpub)
      then (Inl (InvalidInput ''hardware public account does not match this wallet''), s)
      else act L (s\<lparr>se_phase := ActionPhase\<rparr>))"

definition answer_action :: "response \<Rightarrow> 'i usb_session \<Rightarrow> unit result \<times> 'i usb_session" where
  "answer_action r s =
     (case r of
        WalletRegistration hmac \<Rightarrow>
          (if se_intent s \<noteq> Some Register then (Inl usb_invalid, s)
           else case hmac of None \<Rightarrow> (Inl usb_invalid, s) | Some h \<Rightarrow> (Inr (), finish_session (Registered h) s))
      | AddressResponse a \<Rightarrow>
          (case se_intent s of
             Some (Address _ wanted) \<Rightarrow>
               (if wanted = a then (Inr (), finish_session AddressMatches s)
                else (Inl (InvalidInput ''hardware address does not match the issued wallet address''), s))
           | _ \<Rightarrow> (Inl (InvalidInput ''hardware address does not match the issued wallet address''), s))
      | SignedPsbtResponse psbt \<Rightarrow>
          (case se_intent s of
             Some (Sign _) \<Rightarrow> (Inr (), finish_session (Signed psbt) s)
           | _ \<Rightarrow> (Inl usb_invalid, s))
      | _ \<Rightarrow> (Inl usb_invalid, s))"

definition answer :: "'i ledger \<Rightarrow> response \<Rightarrow> 'i usb_session \<Rightarrow> unit result \<times> 'i usb_session" where
  "answer L r s =
     (case se_phase s of
        InfoPhase \<Rightarrow> (case r of Info firmware version \<Rightarrow> answer_info L firmware version s | _ \<Rightarrow> (Inl usb_invalid, s))
      | FingerprintPhase \<Rightarrow>
          (case r of MasterFingerprint f \<Rightarrow> answer_fingerprint L f s | _ \<Rightarrow> (Inl usb_invalid, s))
      | AccountPhase \<Rightarrow> (case r of XpubResponse x \<Rightarrow> answer_xpub L x s | _ \<Rightarrow> (Inl usb_invalid, s))
      | ActionPhase \<Rightarrow> answer_action r s)"

section \<open>Receiving a report\<close>

definition interpret_response :: "'i ledger \<Rightarrow> byte list \<Rightarrow> 'i usb_session \<Rightarrow> unit result \<times> 'i usb_session" where
  "interpret_response L response s =
     (case device_preflight L s response of
        Inl e \<Rightarrow> (Inl e, s)
      | Inr _ \<Rightarrow>
          (case se_interpreter s of
             None \<Rightarrow> (Inl usb_invalid, s)
           | Some i \<Rightarrow>
               (case exchange_step L i response of
                  Inl e \<Rightarrow> (Inl (protocol_error e), s)
                | Inr (Some t, i) \<Rightarrow> transmit_to t (s\<lparr>se_interpreter := Some i\<rparr>)
                | Inr (None, i) \<Rightarrow>
                    (case end_command L i of
                       Inl e \<Rightarrow> (Inl (protocol_error e), s\<lparr>se_interpreter := None\<rparr>)
                     | Inr r \<Rightarrow> answer L r (s\<lparr>se_interpreter := None\<rparr>)))))"

definition session_receive_inner ::
  "'i ledger \<Rightarrow> nat \<Rightarrow> nat \<Rightarrow> byte list \<Rightarrow> 'i usb_session \<Rightarrow> unit result \<times> 'i usb_session" where
  "session_receive_inner L now step report s =
     (let s = snd (usb_progress now s) in
      if se_state s \<noteq> Waiting \<or> step \<noteq> uu_step (se_update s) then (Inl usb_invalid, s)
      else
        (let s = s\<lparr>se_bytes := se_bytes s + length report\<rparr> in
         if MAX_RECEIVED_BYTES < se_bytes s then (Inl usb_invalid, s)
         else
           (let s = s\<lparr>se_update := (se_update s)\<lparr>packets := []\<rparr>\<rparr> in
            case reader_receive (se_reader s) report of
              (Inl e, r) \<Rightarrow> (Inl e, s\<lparr>se_reader := r\<rparr>)
            | (Inr None, r) \<Rightarrow> (Inr (), s\<lparr>se_reader := r\<rparr>)
            | (Inr (Some response), r) \<Rightarrow> interpret_response L response (s\<lparr>se_reader := r\<rparr>))))"

definition session_receive ::
  "'i ledger \<Rightarrow> 'i usb_session \<Rightarrow> nat \<times> nat \<times> byte list \<Rightarrow> usb_update result \<times> 'i usb_session" where
  "session_receive L s = (\<lambda>(now, step, report).
     case session_receive_inner L now step report s of
       (Inl e, s) \<Rightarrow> (Inl e, close UsbFailed s)
     | (Inr _, s) \<Rightarrow> (Inr (se_update s), s))"

end
