(* ===== verification/Usb.thy ===== *)
theory Usb
  imports Usb_Protocol Sync
begin

text \<open>
  \<^verbatim>\<open>crates/tundra-core/src/usb/mod.rs\<close> and \<^verbatim>\<open>crates/tundra-core/src/hardware.rs\<close>: a protocol session
  bound to a wallet. Its context is built from the stored wallet when it starts and again, in the
  transaction that records the outcome, when it completes.
\<close>

datatype transport = QrTransport | UsbTransport

record hardware_capabilities =
  available :: bool
  reason :: string

definition capabilities :: "transport \<Rightarrow> hardware_capabilities" where
  "capabilities t = \<lparr>available = False, reason = ''No hardware model and firmware have been qualified''\<rparr>"

definition start_signing :: "string \<Rightarrow> transport \<Rightarrow> unit result" where
  "start_signing d t = Inl (Unavailable ''hardware signing'')"

datatype usb_operation = InspectOp | RegisterPolicy | VerifyReceive nat | SignDraft string

record 'i usb =
  ub_wallet_id :: string
  ub_policy_id :: "byte list"
  ub_operation :: usb_operation
  ub_protocol :: "'i usb_session"
  ub_signing :: "signing_progress option"

text \<open>One stored registration: it must belong to an account of the wallet.\<close>

definition add_registration ::
  "bitcoin \<Rightarrow> string \<times> byte list \<Rightarrow> hw_context \<Rightarrow> hw_context result" where
  "add_registration B = (\<lambda>(text, hmac) c.
     rbind (ok_or (parse_fingerprint B text) CorruptState) (\<lambda>fingerprint.
     if \<not> list_ex (\<lambda>a. ac_fingerprint a = fingerprint) (hc_accounts c) \<or> length hmac \<noteq> 32
     then Inl CorruptState
     else Inr (c\<lparr>hc_registrations := tbl_upsert fingerprint hmac (hc_registrations c)\<rparr>)))"

definition usb_context ::
  "bitcoin \<Rightarrow> miniscript \<Rightarrow> ('w, 'cs) bdk \<Rightarrow> (string \<Rightarrow> json option) \<Rightarrow> 'i ledger \<Rightarrow> 'cs db \<Rightarrow> string \<Rightarrow>
   hw_context result" where
  "usb_context B M W parse L db wid =
     rbind (load W db wid) (\<lambda>l.
     rbind (preview_import B M W parse
              (show_descriptor M (public_desc W (l_wallet l) External) @ [CHR 0x0A]
               @ show_descriptor M (public_desc W (l_wallet l) Internal))
              (ws_network (l_summary l))) (\<lambda>preview.
     rbind (context_from_preview B M W parse L preview) (\<lambda>c.
     rbind (ok_or (policy_id L (hc_policy c)) CorruptState) (\<lambda>pid.
     rfold (add_registration B)
       (map (\<lambda>((_, f, _), hmac). (f, hmac))
          (filter (\<lambda>((w, _, p), _). w = wid \<and> p = pid) (hardware_registrations db))) c))))"

text \<open>A receive address may be verified only when its index has been issued.\<close>

definition issued :: "('w, 'cs) chain \<Rightarrow> 'w \<Rightarrow> nat \<Rightarrow> bool" where
  "issued N w index = (case derivation_index N w External of None \<Rightarrow> False | Some newest \<Rightarrow> index \<le> newest)"

definition usb_intent ::
  "bitcoin \<Rightarrow> psbt_codec \<Rightarrow> crypto \<Rightarrow> ('w, 'cs) bdk \<Rightarrow> ('w, 'cs) chain \<Rightarrow> 'cs db \<Rightarrow> string \<Rightarrow> usb_operation \<Rightarrow>
   intent result" where
  "usb_intent B C K W N db wid operation =
     (case operation of
        InspectOp \<Rightarrow> Inr Inspect
      | RegisterPolicy \<Rightarrow> Inr Register
      | VerifyReceive index \<Rightarrow>
          rbind (load W db wid) (\<lambda>l.
          if \<not> issued N (l_wallet l) index
          then Inl (InvalidInput ''receive address has not been issued by this wallet'')
          else Inr (Address index (peek_address W (l_wallet l) External index)))
      | SignDraft d \<Rightarrow>
          rbind (export_signing_psbt B C K W wid d db) (\<lambda>text.
          rbind (parse_response C (bytes_of text)) (\<lambda>psbt. Inr (Sign psbt))))"

definition prepare_usb ::
  "bitcoin \<Rightarrow> psbt_codec \<Rightarrow> miniscript \<Rightarrow> crypto \<Rightarrow> ('w, 'cs) bdk \<Rightarrow> ('w, 'cs) chain \<Rightarrow>
   (string \<Rightarrow> json option) \<Rightarrow> 'i ledger \<Rightarrow> nat \<Rightarrow> string \<Rightarrow> usb_operation \<Rightarrow> 'cs db \<Rightarrow> 'i usb result" where
  "prepare_usb B C M K W N parse L now wid operation db =
     (if (case operation of SignDraft _ \<Rightarrow> True | _ \<Rightarrow> False) \<and> \<not> available (capabilities UsbTransport)
      then Inl (Unavailable ''hardware signing'')
      else
        rbind (usb_context B M W parse L db wid) (\<lambda>c.
        rbind (ok_or (policy_id L (hc_policy c)) CorruptState) (\<lambda>pid.
        rbind (usb_intent B C K W N db wid operation) (\<lambda>intent.
        rbind (session_start L now c intent) (\<lambda>p.
        Inr \<lparr>ub_wallet_id = wid, ub_policy_id = pid, ub_operation = operation, ub_protocol = p,
             ub_signing = None\<rparr>)))))"

definition usb_progress_of :: "nat \<Rightarrow> 'i usb \<Rightarrow> usb_update \<times> 'i usb" where
  "usb_progress_of now u = (let (p, s) = usb_progress now (ub_protocol u) in (p, u\<lparr>ub_protocol := s\<rparr>))"

definition usb_cancel_of :: "'i usb \<Rightarrow> usb_update \<times> 'i usb" where
  "usb_cancel_of u =
     (let (p, s) = usb_cancel (ub_protocol u) in (p, u\<lparr>ub_signing := None, ub_protocol := s\<rparr>))"

text \<open>The outcome against the operation, in one transaction; a signed draft is accepted after it.\<close>

definition record_outcome ::
  "bitcoin \<Rightarrow> miniscript \<Rightarrow> ('w, 'cs) bdk \<Rightarrow> ('w, 'cs) chain \<Rightarrow> (string \<Rightarrow> json option) \<Rightarrow> 'i ledger \<Rightarrow>
   'i usb \<Rightarrow> usb_update \<Rightarrow> outcome \<Rightarrow> 'cs db \<Rightarrow> ((string \<times> psbt) option \<times> 'cs db) result" where
  "record_outcome B M W N parse L u update outcome db =
     rbind (usb_context B M W parse L db (ub_wallet_id u)) (\<lambda>c.
     rbind (ok_or (policy_id L (hc_policy c)) CorruptState) (\<lambda>pid.
     if pid \<noteq> ub_policy_id u then Inl CorruptState
     else case (ub_operation u, outcome) of
       (InspectOp, Inspected) \<Rightarrow> Inr (None, db)
     | (RegisterPolicy, Registered hmac) \<Rightarrow>
         rbind (ok_or (uu_fingerprint update) CorruptState) (\<lambda>f.
         rbind (sql_upsert_registration (ub_wallet_id u) f (ub_policy_id u) hmac db) (\<lambda>db.
         Inr (None, db)))
     | (VerifyReceive index, AddressMatches) \<Rightarrow>
         rbind (load W db (ub_wallet_id u)) (\<lambda>l.
         if \<not> issued N (l_wallet l) index then Inl CorruptState else Inr (None, db))
     | (SignDraft d, Signed psbt) \<Rightarrow> Inr (Some (d, psbt), db)
     | _ \<Rightarrow> Inl CorruptState))"

definition usb_complete ::
  "bitcoin \<Rightarrow> psbt_codec \<Rightarrow> miniscript \<Rightarrow> crypto \<Rightarrow> ('w, 'cs) bdk \<Rightarrow> ('w, 'cs) chain \<Rightarrow>
   (string \<Rightarrow> json option) \<Rightarrow> 'i ledger \<Rightarrow> 'i usb \<Rightarrow> usb_update \<Rightarrow> 'cs db \<Rightarrow>
   usb_update result \<times> 'i usb \<times> 'cs db" where
  "usb_complete B C M K W N parse L u update db =
     (let (out, s) = take_outcome (ub_protocol u); u = u\<lparr>ub_protocol := s\<rparr> in
      case out of
        Inl e \<Rightarrow> (Inl e, u, db)
      | Inr outcome \<Rightarrow>
          (case run_tx db (record_outcome B M W N parse L u update outcome) of
             (Inl e, db) \<Rightarrow> (Inl e, u, db)
           | (Inr None, db) \<Rightarrow> (Inr update, u, db)
           | (Inr (Some (d, psbt)), db) \<Rightarrow>
               (case accept_signed_psbt B C K W (ub_wallet_id u) d (psbt_bytes C psbt) db of
                  (Inl e, db) \<Rightarrow> (Inl e, u, db)
                | (Inr p, db) \<Rightarrow> (Inr update, u\<lparr>ub_signing := Some p\<rparr>, db))))"

definition usb_receive ::
  "bitcoin \<Rightarrow> psbt_codec \<Rightarrow> miniscript \<Rightarrow> crypto \<Rightarrow> ('w, 'cs) bdk \<Rightarrow> ('w, 'cs) chain \<Rightarrow>
   (string \<Rightarrow> json option) \<Rightarrow> 'i ledger \<Rightarrow> nat \<Rightarrow> nat \<Rightarrow> byte list \<Rightarrow> 'i usb \<Rightarrow> 'cs db \<Rightarrow>
   usb_update result \<times> 'i usb \<times> 'cs db" where
  "usb_receive B C M K W N parse L now step report u db =
     (let (r, s) = session_receive L (ub_protocol u) (now, step, report); u = u\<lparr>ub_protocol := s\<rparr>;
          (r, u, db) =
            (case r of
               Inl e \<Rightarrow> (Inl e, u, db)
             | Inr update \<Rightarrow>
                 (if uu_state update \<noteq> UsbComplete then (Inr update, u, db)
                  else usb_complete B C M K W N parse L u update db)) in
      case r of
        Inl e \<Rightarrow> (Inl e, u\<lparr>ub_protocol := close UsbFailed (ub_protocol u), ub_signing := None\<rparr>, db)
      | Inr update \<Rightarrow> (Inr update, u, db))"

end
