(* ===== verification/Invariants.thy ===== *)
theory Invariants
  imports Engine_Facts Recovery Sync_Operations Usb
begin

text \<open>
  What every operation of the core keeps of the database. A property of the database that every
  SQL statement of the core keeps (the locales) is kept by every operation built from them. Each
  locale covers more statements than the ones it extends, and so more operations: a property that
  only some statements keep is interpreted in a smaller one. The largest is interpreted on the
  schema's keys and foreign keys, on its CHECK constraints, and on the bound on submissions, which no
  constraint of the schema enforces.
\<close>

section \<open>From the statements to the operations\<close>

locale database_plain =
  fixes inv :: "'cs db \<Rightarrow> bool"
  assumes set_synced: "inv db \<Longrightarrow> inv (sql_set_synced w t db)"
    and unsync_all: "inv db \<Longrightarrow> inv (sql_unsync_all db)"
    and insert_wallet: "inv db \<Longrightarrow> sql_insert_wallet w row db = Inr db' \<Longrightarrow> inv db'"
    and upsert_label: "inv db \<Longrightarrow> sql_upsert_label w kind ref label db = Inr db' \<Longrightarrow> inv db'"
    and ignore_label: "inv db \<Longrightarrow> sql_ignore_label w kind ref label db = Inr db' \<Longrightarrow> inv db'"
    and freeze: "inv db \<Longrightarrow> sql_freeze w outpoint db = Inr db' \<Longrightarrow> inv db'"
    and unfreeze: "inv db \<Longrightarrow> inv (sql_unfreeze w outpoint db)"
    and ignore_provenance: "inv db \<Longrightarrow> sql_ignore_provenance w outpoint d db = Inr db' \<Longrightarrow> inv db'"
    and ignore_marker: "inv db \<Longrightarrow> sql_ignore_marker w d db = Inr (n, db') \<Longrightarrow> inv db'"
    and upsert_sync: "inv db \<Longrightarrow> sql_upsert_sync w n endp db = Inr db' \<Longrightarrow> inv db'"
    and upsert_registration: "inv db \<Longrightarrow> sql_upsert_registration w f pid hmac db = Inr db' \<Longrightarrow> inv db'"
begin

lemma run_tx_inv:
  assumes "inv db" and "\<And>a db'. body db = Inr (a, db') \<Longrightarrow> inv db'"
  shows "inv (snd (run_tx db body))"
  using assms by (auto simp: run_tx_def split: sum.splits)

lemma rfold_inv:
  assumes "rfold f xs db = Inr db'" and "inv db"
    and "\<And>x u v. x \<in> set xs \<Longrightarrow> inv u \<Longrightarrow> f x u = Inr v \<Longrightarrow> inv v"
  shows "inv db'"
  using assms by (rule rfold_invariant)

subsection \<open>The engine\<close>

lemma inv_put_label: "inv db \<Longrightarrow> put_label db wid kind r label = Inr db' \<Longrightarrow> inv db'"
  unfolding put_label_def by (rule upsert_label)

lemma inv_write_freeze: "inv db \<Longrightarrow> write_freeze wid op frozen db = Inr db' \<Longrightarrow> inv db'"
  by (auto simp: write_freeze_def unfreeze dest: freeze split: if_splits)

lemma inv_import_wallet:
  assumes "inv db"
  shows "inv (snd (import_wallet B M W parse now name payload n db))"
proof -
  have "inv db'" if "import_wallet_body B M W now name p n db = Inr (a, db')" for p a db'
    using that assms by (auto simp: import_wallet_body_def result_simps dest: insert_wallet split: if_splits)
  then have "inv (snd (run_tx db (import_wallet_body B M W now name p n)))" for p
    by (rule run_tx_inv [OF assms])
  then show ?thesis using assms by (simp add: import_wallet_def split: sum.splits)
qed

lemma inv_set_label: "inv db \<Longrightarrow> inv (snd (set_label B W wid kind r label db))"
  by (auto simp: set_label_def result_simps intro!: run_tx_inv dest: inv_put_label split: sum.splits)

lemma inv_set_frozen: "inv db \<Longrightarrow> inv (snd (set_frozen B W wid r frozen db))"
  by (auto simp: set_frozen_def result_simps intro!: run_tx_inv dest: inv_write_freeze split: sum.splits)

lemma inv_edit_coin_step:
  assumes "edit_coin_step known wid label frozen r db = Inr db'" and "inv db"
  shows "inv db'"
proof -
  obtain db1 where 1: "(case label of None \<Rightarrow> Inr db | Some l \<Rightarrow> put_label db wid ''output'' r l) = Inr db1"
    and 2: "(case frozen of None \<Rightarrow> Inr db1 | Some f \<Rightarrow> write_freeze wid r f db1) = Inr db'"
    using assms(1) unfolding edit_coin_step_def if_Inl_Inr_iff rbind_Inr_iff by blast
  from 1 have "inv db1" using assms(2) by (cases label) (auto dest: inv_put_label [OF assms(2)])
  then show ?thesis using 2 by (cases frozen) (auto dest: inv_write_freeze [OF \<open>inv db1\<close>])
qed

lemma inv_edit_coins:
  assumes "inv db"
  shows "inv (snd (edit_coins B W wid rs label frozen db))"
proof -
  have "inv db'" if "rfold (edit_coin_step known wid label frozen) rs db = Inr db'" for known db'
    using that assms by (rule rfold_invariant) (rule inv_edit_coin_step)
  then show ?thesis
    using assms run_tx_inv [OF assms]
    by (auto simp: edit_coins_def Let_def result_simps intro!: run_tx_inv split: sum.splits)
qed

lemma inv_import_fields:
  assumes "inv db"
  shows "import_label_field apply wid r db = Inr (c, db') \<Longrightarrow> inv db'"
    and "import_freeze_field apply wid r db = Inr (c, db') \<Longrightarrow> inv db'"
  using assms
  by (auto simp: import_label_field_def import_freeze_field_def result_simps Let_def
      dest: inv_put_label [OF assms] inv_write_freeze [OF assms] split: if_splits option.splits)

lemma inv_import_label_step:
  assumes "import_label_step B W w origin wid apply r st = Inr st'" and "inv (fst st)"
  shows "inv (fst st')"
proof -
  obtain db seen p where st: "st = (db, seen, p)" by (cases st)
  show ?thesis
    using assms
    by (auto simp: st import_label_step_def result_simps split: if_splits
        dest!: inv_import_fields(1) [rotated] inv_import_fields(2) [rotated])
qed

lemma inv_import_labels: "inv db \<Longrightarrow> inv (snd (import_labels B W parse wid payload apply db))"
proof -
  assume wf: "inv db"
  have "inv (fst st')" if "rfold (import_label_step B W w origin wid apply) rs (db, s, p) = Inr st'"
    for w origin rs s p st'
    using that by (rule rfold_invariant [where P = "\<lambda>st. inv (fst st)"]) (auto simp: wf intro: inv_import_label_step)
  then show ?thesis
    using wf by (fastforce simp: import_labels_def result_simps intro!: run_tx_inv split: sum.splits prod.splits)
qed

subsection \<open>Broadcasting\<close>

lemma inv_label_output:
  assumes "inv db" and "label_output W wid review w txid x db = Inr db'"
  shows "inv db'"
  using assms
  by (cases x) (auto simp: label_output_def Let_def result_simps split: if_splits
      dest: ignore_provenance ignore_label)

lemma inv_apply_observed_labels:
  assumes "inv db" and "apply_observed_labels B W wid review w info db = Inr db'"
  shows "inv db'"
proof -
  obtain n db1 where m: "sql_ignore_marker wid (dv_id review) db = Inr (n, db1)"
    using assms(2) by (auto simp: apply_observed_labels_def result_simps)
  have 1: "inv db1" by (rule ignore_marker [OF assms(1) m])
  show ?thesis
  proof (cases "n = 0")
    case True
    then show ?thesis using assms(2) 1 by (simp add: apply_observed_labels_def m)
  next
    case False
    have "\<exists>(found :: wallet_tx) db2. (if dv_label review = [] then Inr db1 else sql_ignore_label wid ''tx'' (bi_txid info) (dv_label review) db1) = Inr db2
        \<and> rfold (label_output W wid review w (bi_txid info)) (enumerate 0 (tx_output (wt_tx found))) db2 = Inr db'"
      using assms(2) False unfolding apply_observed_labels_def m rbind_simps case_prod_conv rbind_Inr_iff if_not_P [OF False]
      by (elim exE conjE) (intro exI conjI, assumption+)
    then obtain found :: wallet_tx and db2 where
      l: "(if dv_label review = [] then Inr db1 else sql_ignore_label wid ''tx'' (bi_txid info) (dv_label review) db1) = Inr db2"
      and f: "rfold (label_output W wid review w (bi_txid info)) (enumerate 0 (tx_output (wt_tx found))) db2 = Inr db'"
      by blast
    have "inv db2" using l 1 by (auto split: if_splits dest: ignore_label)
    from rfold_inv [OF f this] show ?thesis by (auto intro: inv_label_output)
  qed
qed

subsection \<open>Hardware\<close>

lemma inv_record_outcome:
  assumes "inv db" and "record_outcome B M W N parse L u update out db = Inr (a, db')"
  shows "inv db'"
  using assms
  by (cases "ub_operation u"; cases out) (auto simp: record_outcome_def result_simps dest: upsert_registration)

end

text \<open>The same for a property that recording submissions keeps.\<close>

locale database_quiet = database_plain +
  assumes acknowledge: "inv db \<Longrightarrow> inv (sql_acknowledge i w d db)"
    and insert_attempt: "inv db \<Longrightarrow> length (attempts_of db (a_wallet at) (a_draft at)) < attempt_limit \<Longrightarrow>
      sql_insert_attempt at db = Inr (i, db') \<Longrightarrow> inv db'"
begin

lemma check_previous_Inr:
  "check_previous db wid d prev retry = Inr () \<longleftrightarrow>
     map_option bi_attempt_id (latest db wid d) = prev \<and> (latest db wid d \<noteq> None \<longrightarrow> retry)
     \<and> length (attempts_of db wid d) < attempt_limit"
  by (auto simp: check_previous_def Let_def)

lemma inv_record_attempt:
  assumes "inv db" and "record_attempt B C K W r e approved now db = Inr (i, db')"
  shows "inv db'"
proof -
  obtain at where i: "sql_insert_attempt at db = Inr (i, db')"
    and "length (attempts_of db (a_wallet at) (a_draft at)) < attempt_limit"
    using assms(2) by (force simp: record_attempt_def result_simps check_previous_Inr)
  then show ?thesis using insert_attempt [OF assms(1)] by blast
qed

text \<open>What other calls commit while the lock is released is assumed to keep the property too.\<close>

lemma inv_broadcast_draft:
  assumes "inv db" and "\<And>db. inv db \<Longrightarrow> inv (during_get x db)" and "\<And>db. inv db \<Longrightarrow> inv (during_post x db)"
  shows "inv (snd (broadcast_draft B C K W T x r db))"
proof -
  have "inv db2" if "run_tx (during_get x db) (record_attempt B C K W r e approved (clock x)) = (u, db2)" for e approved u db2
    using run_tx_inv [OF assms(2) [OF assms(1)]] inv_record_attempt [OF assms(2) [OF assms(1)]] that
    by (metis snd_conv)
  then show ?thesis
    using assms by (auto simp: broadcast_draft_def Let_def intro: acknowledge split: sum.splits prod.splits)
qed

end

text \<open>
  The same for a property that replacing the stored state of a wallet keeps.
\<close>

locale database_frame = database_quiet +
  assumes set_state: "inv db \<Longrightarrow> inv (sql_set_state w st db)"
begin

lemma inv_save: "inv db \<Longrightarrow> inv (save W wid l db)"
  unfolding save_def by (rule set_state)

lemma inv_receive_address: "inv db \<Longrightarrow> inv (snd (receive_address W wid db))"
  unfolding receive_address_def case_prod_beta Let_def
  by (rule run_tx_inv, assumption) (auto simp: result_simps intro: inv_save)

end

text \<open>
  The same for a property that the statements on drafts, their signatures, final transactions,
  reservations and recovery records keep as well: every operation that stores no wallet keeps it but
  the one that deletes a draft.
\<close>

locale database_moves = database_quiet +
  assumes upsert_signatures: "inv db \<Longrightarrow> sql_upsert_signatures w d psbt db = Inr db' \<Longrightarrow> inv db'"
    and insert_finalized: "inv db \<Longrightarrow> sql_insert_finalized w d bytes db = Inr db' \<Longrightarrow> inv db'"
    and delete_recovered: "inv db \<Longrightarrow> inv (sql_delete_recovered w d db)"
    and insert_recovered: "inv db \<Longrightarrow> sql_insert_recovered w d db = Inr db' \<Longrightarrow> inv db'"
    and insert_hold: "inv db \<Longrightarrow> sql_insert_hold w outpoint d db = Inr db' \<Longrightarrow> inv db'"
    and insert_draft: "inv db \<Longrightarrow> sql_insert_draft w d draft db = Inr db' \<Longrightarrow> inv db'"
    and set_review: "inv db \<Longrightarrow> inv (sql_set_review w d review db)"
    and set_review_by_id: "inv db \<Longrightarrow> inv (sql_set_review_by_id d review db)"
    and insert_reservation: "inv db \<Longrightarrow> sql_insert_reservation w outpoint d db = Inr db' \<Longrightarrow> inv db'"
    and ignore_reservation: "inv db \<Longrightarrow> sql_ignore_reservation w outpoint d db = Inr db' \<Longrightarrow> inv db'"
    and release: "inv db \<Longrightarrow> inv (sql_release w d db)"
    and clear_recovery: "inv db \<Longrightarrow> inv (sql_clear_recovery db)"
begin

subsection \<open>Drafts\<close>

lemma inv_store_draft:
  assumes "inv db" and "store_draft C now request psbt review db = Inr db'"
  shows "inv db'"
proof -
  obtain db1 where "sql_insert_draft (dr_wallet_id request) (dv_id review)
      \<lparr>d_psbt = psbt_text C psbt, d_review = Some review, d_label = dr_label request, d_created_at = now\<rparr> db = Inr db1"
    and "rfold (\<lambda>i. sql_insert_reservation (dr_wallet_id request) (ri_outpoint i) (dv_id review))
      (dv_inputs review) db1 = Inr db'"
    using assms(2) by (auto simp: store_draft_def result_simps)
  from rfold_invariant [where P = inv, OF this(2) insert_draft [OF assms(1) this(1)]]
  show ?thesis using insert_reservation by blast
qed

subsection \<open>Signing\<close>

lemma inv_accept_signed_psbt: "inv db \<Longrightarrow> inv (snd (accept_signed_psbt B C K W wid d payload db))"
  by (auto simp: accept_signed_psbt_def accept_body_def Let_def result_simps
      intro!: run_tx_inv set_review dest: upsert_signatures split: sum.splits)

lemma inv_finalize_draft: "inv db \<Longrightarrow> inv (snd (finalize_draft B C K W wid d db))"
  by (auto simp: finalize_draft_def finalize_draft_body_def Let_def result_simps
      intro!: run_tx_inv set_review dest: insert_finalized split: option.splits if_splits)

subsection \<open>Synchronization\<close>

lemma inv_observe_draft:
  assumes "inv db" and "observe_draft B W wid review w db = Inr (seen, db')"
  shows "inv db'"
  using assms inv_apply_observed_labels [OF assms(1)]
  by (auto simp: observe_draft_def result_simps split: option.splits if_splits
      intro!: release set_review delete_recovered)

lemma inv_invalidate_draft:
  assumes "inv db" and "invalidate_draft B W wid w x db = Inr db'"
  shows "inv db'"
proof -
  obtain d row where x: "x = (d, row)" by (cases x)
  obtain review seen db1 where o: "observe_draft B W wid review w db = Inr (seen, db1)"
    and r: "d_review row = Some review"
    using assms(2) by (auto simp: x invalidate_draft_def result_simps)
  have "inv db1" by (rule inv_observe_draft [OF assms(1) o])
  then show ?thesis
    using assms(2) by (auto simp: x invalidate_draft_def r o intro!: release set_review_by_id split: if_splits)
qed

subsection \<open>Recovery\<close>

lemma inv_suspend_draft:
  assumes "suspend_draft B C W x st = Inr st'" and "inv (snd st)"
  shows "inv (snd st')"
proof -
  obtain wid d cached db where x: "x = (wid, d)" "st = (cached, db)" by (cases x, cases st)
  obtain review db1 l where h: "hold_inputs wid d review db = Inr db1"
    and st': "st' = (Some (wid, l), sql_set_review wid d (review\<lparr>dv_state := ''invalidated''\<rparr>) db1)"
    using assms(1) by (auto simp: x suspend_draft_def result_simps)
  have db: "inv db" using assms(2) by (simp add: x)
  have "inv db1"
  proof (cases "submitted db wid d")
    case True
    then obtain db0 where r: "sql_insert_recovered wid d db = Inr db0"
      and f: "rfold (\<lambda>i. sql_insert_hold wid (ri_outpoint i) d) (dv_inputs review) db0 = Inr db1"
      using h by (auto simp: hold_inputs_def result_simps)
    from rfold_inv [OF f insert_recovered [OF db r]] show ?thesis by (auto intro: insert_hold)
  qed (use h db in \<open>simp add: hold_inputs_def\<close>)
  then show ?thesis by (simp add: st' set_review)
qed

lemma inv_suspend:
  assumes "inv db" and "suspend B C W review_len db = Inr db'"
  shows "inv db'"
proof -
  obtain cached db1 where f: "rfold (suspend_draft B C W) (sort_key id (map fst (drafts db))) (None, sql_clear_recovery db) = Inr (cached, db1)"
    and db': "db' = sql_unsync_all db1"
    using assms(2) by (auto simp: suspend_def result_simps)
  have "inv (snd (cached, db1))"
    by (rule rfold_invariant [where P = "\<lambda>st. inv (snd st)", OF f])
      (use assms(1) in \<open>auto intro: clear_recovery inv_suspend_draft\<close>)
  then show ?thesis by (simp add: db' unsync_all)
qed

lemma inv_resume:
  assumes "inv db"
  shows "inv (snd (resume_recovered_submission B C K W wid d txid attempt ack db))"
proof -
  have "inv db'" if body: "resume_body B C K W wid d txid attempt db = Inr (a, db')" for a db'
  proof -
    obtain review db1 where
      f: "rfold (\<lambda>i. sql_ignore_reservation wid (ri_outpoint i) d) (dv_inputs review)
            (sql_set_review wid d (review\<lparr>dv_state := ''finalized''\<rparr>) db) = Inr db1"
      and db': "db' = sql_delete_recovered wid d db1"
      using body by (auto simp: resume_body_def result_simps)
    have "inv db1" by (rule rfold_inv [OF f set_review [OF assms]]) (auto intro: ignore_reservation)
    then show ?thesis by (simp add: db' delete_recovered)
  qed
  then show ?thesis
    using assms by (auto simp: resume_recovered_submission_def intro!: run_tx_inv)
qed

subsection \<open>Hardware sessions\<close>

lemma inv_usb_complete:
  assumes "inv db"
  shows "inv (snd (snd (usb_complete B C M K W N parse L u update db)))"
proof -
  have "inv (snd (run_tx db (record_outcome B M W N parse L u' update out)))" for u' out
    by (rule run_tx_inv [OF assms]) (rule inv_record_outcome [OF assms])
  then have "inv db1" if "run_tx db (record_outcome B M W N parse L u' update out) = (a, db1)" for u' out a db1
    using that by (metis snd_conv)
  moreover have "inv db2" if "accept_signed_psbt B C K W wid d payload db1 = (a, db2)" "inv db1" for wid d payload db1 a db2
    using inv_accept_signed_psbt [OF that(2)] that(1) by (metis snd_conv)
  ultimately show ?thesis
    using assms by (auto simp: usb_complete_def Let_def split: prod.splits sum.splits option.splits)
qed

lemma inv_usb_receive:
  assumes "inv db"
  shows "inv (snd (snd (usb_receive B C M K W N parse L now step report u db)))"
proof -
  have "inv db'" if "usb_complete B C M K W N parse L u' update db = (a, v, db')" for u' update a v db'
    using inv_usb_complete [OF assms] that by (metis snd_conv)
  then show ?thesis
    using assms by (auto simp: usb_receive_def Let_def split: prod.splits sum.splits)
qed

end

text \<open>A property of both kinds is kept by the operations that store a draft or a scan with the wallet.\<close>

locale database_writes = database_frame + database_moves
begin

lemma inv_create_draft:
  assumes "inv db"
  shows "inv (snd (create_draft B C W now request db))"
proof -
  have "inv db'" if "create_draft_body B C W now request db = Inr (a, db')" for a db'
    using that assms inv_store_draft
    by (auto simp: create_draft_body_def Let_def result_simps intro!: inv_save split: if_splits)
  then have "inv (snd (run_tx db (create_draft_body B C W now request)))" by (rule run_tx_inv [OF assms])
  then show ?thesis using assms by (simp add: create_draft_def split: sum.splits)
qed

lemma inv_apply_scan:
  assumes "inv db" and "apply_scan B W N wid snap observed_at result db = Inr (u, db')"
  shows "inv db'"
proof -
  obtain l w db1 db2 where i: "invalidate_drafts B W wid w db = Inr db1"
    and u: "sql_upsert_sync wid (revision db2 wid + 1) (sn_endpoint snap) db2 = Inr db'"
    and db2: "db2 = sql_set_synced wid observed_at (save W wid l db1)"
    using assms(2) by (auto simp: apply_scan_def Let_def result_simps)
  have "inv db1"
    by (rule rfold_inv [OF i [unfolded invalidate_drafts_def] assms(1)]) (auto intro: inv_invalidate_draft)
  then have "inv db2" by (simp add: db2 set_synced inv_save)
  then show ?thesis by (rule upsert_sync [OF _ u])
qed

lemma inv_commit_scan:
  assumes "inv (co_db s)"
  shows "inv (co_db (snd (commit_scan B W N i snap observed_at result s)))"
proof -
  have "inv (snd (run_tx (co_db s) (apply_scan B W N wid snap observed_at result)))" for wid
    by (rule run_tx_inv [OF assms]) (auto intro: inv_apply_scan [OF assms])
  then have "inv db" if "run_tx (co_db s) (apply_scan B W N wid snap observed_at result) = (r, db)" for wid r db
    using that by (metis snd_conv)
  then show ?thesis
    using assms by (auto simp: commit_scan_def split: option.splits sum.splits prod.splits)
qed

end

locale database_invariant = database_writes +
  assumes delete_draft: "inv db \<Longrightarrow> inv (sql_delete_draft w d db)"
begin

lemma inv_discard_draft: "inv db \<Longrightarrow> inv (snd (discard_draft wid d db))"
  unfolding discard_draft_def by (rule run_tx_inv, assumption) (auto simp: delete_draft split: if_splits)

end

section \<open>The schema\<close>

lemma wf_unsync_all: "wf_db db \<Longrightarrow> wf_db (sql_unsync_all db)"
  by (simp add: wf_db_def sql_unsync_all_def)

lemma wf_clear_recovery: "wf_db db \<Longrightarrow> wf_db (sql_clear_recovery db)"
  by (simp add: wf_db_def sql_clear_recovery_def)

interpretation schema: database_invariant wf_db
  by unfold_locales
    (blast intro: wf_intros wf_unsync_all wf_clear_recovery)+

section \<open>The CHECK constraints\<close>

definition checked_db :: "'cs db \<Rightarrow> bool" where
  "checked_db db \<longleftrightarrow>
     (\<forall>x \<in> set (wallets db). 1 \<le> char_count (w_name (snd x)) \<and> char_count (w_name (snd x)) \<le> 80)
     \<and> (\<forall>x \<in> set (labels db). label_check (fst (snd (fst x))) (snd x))
     \<and> (\<forall>x \<in> set (broadcast_attempts db). char_count (a_txid (snd x)) = 64 \<and> char_count (a_wtxid (snd x)) = 64)
     \<and> (\<forall>x \<in> set (hardware_registrations db).
          char_count (fst (snd (fst x))) = 8 \<and> length (snd (snd (fst x))) = 32 \<and> length (snd x) = 32)"

lemma tbl_upsert_cases: "x \<in> set (tbl_upsert k v t) \<Longrightarrow> x = (k, v) \<or> x \<in> set t"
  by (auto simp: tbl_upsert_def split: if_splits)

lemma ball_upsert: "\<forall>x \<in> set t. P x \<Longrightarrow> P (k, v) \<Longrightarrow> \<forall>x \<in> set (tbl_upsert k v t). P x"
  using tbl_upsert_cases by fastforce

lemma ball_update: "\<forall>x \<in> set t. P x \<Longrightarrow> (\<And>x. P x \<Longrightarrow> P (fst x, f (snd x))) \<Longrightarrow> \<forall>x \<in> set (tbl_update Q f t). P x"
  by (auto simp: tbl_update_def)

lemma ball_ignore: "\<forall>x \<in> set t. P x \<Longrightarrow> P (k, v) \<Longrightarrow> \<forall>x \<in> set (tbl_insert_ignore k v t). P x"
  by (simp add: tbl_insert_ignore_def)

text \<open>Statements on other tables.\<close>

lemma checked_same:
  assumes "checked_db db" and "wallets db' = wallets db" and "labels db' = labels db"
    and "broadcast_attempts db' = broadcast_attempts db" and "hardware_registrations db' = hardware_registrations db"
  shows "checked_db db'"
  using assms by (simp add: checked_db_def)

lemmas statement_defs = sql_set_state_def sql_set_synced_def sql_unsync_all_def sql_clear_recovery_def
  sql_insert_wallet_def sql_upsert_label_def sql_ignore_label_def sql_freeze_def sql_unfreeze_def
  sql_insert_draft_def sql_delete_draft_def sql_set_review_def sql_set_review_by_id_def
  sql_insert_reservation_def sql_ignore_reservation_def sql_release_def sql_upsert_signatures_def
  sql_insert_finalized_def sql_acknowledge_def sql_ignore_provenance_def sql_ignore_marker_def
  sql_delete_recovered_def sql_insert_recovered_def sql_insert_hold_def sql_upsert_sync_def
  sql_upsert_registration_def sql_insert_attempt_def

text \<open>The statements on the four tables with constraints.\<close>

lemma checked_statements:
  "checked_db db \<Longrightarrow> checked_db (sql_set_state w st db)"
  "checked_db db \<Longrightarrow> checked_db (sql_set_synced w t db)"
  "checked_db db \<Longrightarrow> checked_db (sql_unsync_all db)"
  "checked_db db \<Longrightarrow> checked_db (sql_delete_draft w d db)"
  "checked_db db \<Longrightarrow> checked_db (sql_acknowledge i w d db)"
  by (auto simp: checked_db_def sql_set_state_def sql_set_synced_def sql_unsync_all_def tbl_update_def
      sql_delete_draft_def sql_release_def sql_delete_recovered_def sql_acknowledge_def)

lemma checked_inserts:
  assumes "checked_db db"
  shows "sql_insert_wallet w row db = Inr db' \<Longrightarrow> checked_db db'"
    and "sql_upsert_label w kind ref label db = Inr db' \<Longrightarrow> checked_db db'"
    and "sql_ignore_label w kind ref label db = Inr db' \<Longrightarrow> checked_db db'"
    and "sql_upsert_registration w f pid hmac db = Inr db' \<Longrightarrow> checked_db db'"
    and "sql_insert_attempt at db = Inr (i, db') \<Longrightarrow> checked_db db'"
  using assms
  by (auto simp: checked_db_def sql_insert_wallet_def sql_upsert_label_def sql_ignore_label_def
      sql_upsert_registration_def sql_insert_attempt_def result_simps Let_def dest!: tbl_upsert_cases split: if_splits)

lemmas other_statement_defs = sql_clear_recovery_def sql_freeze_def sql_unfreeze_def
  sql_insert_draft_def sql_set_review_def sql_set_review_by_id_def sql_insert_reservation_def
  sql_ignore_reservation_def sql_release_def sql_upsert_signatures_def sql_insert_finalized_def
  sql_ignore_provenance_def sql_ignore_marker_def sql_delete_recovered_def sql_insert_recovered_def
  sql_insert_hold_def sql_upsert_sync_def

interpretation checks: database_invariant checked_db
  by unfold_locales
    (erule checked_statements | erule (1) checked_inserts
      | (erule checked_same; auto simp: other_statement_defs result_simps split: if_splits))+

section \<open>The bound on submissions\<close>

definition attempts_bounded :: "'cs db \<Rightarrow> bool" where
  "attempts_bounded db \<longleftrightarrow> (\<forall>w d. length (attempts_of db w d) \<le> attempt_limit)"

lemma attempts_filter:
  "broadcast_attempts db' = filter P (broadcast_attempts db) \<Longrightarrow> attempts_bounded db \<Longrightarrow> attempts_bounded db'"
proof -
  have "length (filter Q (filter P xs)) \<le> length (filter Q xs)" for Q and xs :: "(nat \<times> attempt_row) list"
    by (induction xs) auto
  then show "broadcast_attempts db' = filter P (broadcast_attempts db) \<Longrightarrow> attempts_bounded db \<Longrightarrow> ?thesis"
    unfolding attempts_bounded_def attempts_of_def by (metis order_trans)
qed

lemma attempts_same:
  "broadcast_attempts db' = broadcast_attempts db \<Longrightarrow> attempts_bounded db \<Longrightarrow> attempts_bounded db'"
  by (simp add: attempts_bounded_def attempts_of_def)

lemma attempts_acknowledge: "attempts_bounded db \<Longrightarrow> attempts_bounded (sql_acknowledge i w d db)"
proof -
  let ?f = "\<lambda>(j, r). if j = i \<and> a_wallet r = w \<and> a_draft r = d then (j, r\<lparr>a_acknowledged := True\<rparr>) else (j, r)"
  have "attempt_draft (?f x) = attempt_draft x" for x by (auto simp: attempt_draft_def split: prod.splits)
  then have "length (filter (\<lambda>r. attempt_draft r = k) (map ?f xs)) = length (filter (\<lambda>r. attempt_draft r = k) xs)" for k xs
    by (induction xs) auto
  then show "attempts_bounded db \<Longrightarrow> ?thesis"
    by (simp add: attempts_bounded_def attempts_of_def sql_acknowledge_def)
qed

lemma attempts_insert:
  assumes "attempts_bounded db" and "length (attempts_of db (a_wallet at) (a_draft at)) < attempt_limit"
    and "sql_insert_attempt at db = Inr (i, db')"
  shows "attempts_bounded db'"
  using assms
  by (auto simp: attempts_bounded_def attempts_of_def sql_insert_attempt_def Let_def attempt_draft_def split: if_splits)

interpretation attempts: database_invariant attempts_bounded
  by unfold_locales
    (erule attempts_acknowledge | erule (2) attempts_insert
      | (erule attempts_filter [rotated]; simp add: sql_delete_draft_def sql_release_def sql_delete_recovered_def; fail)
      | (erule attempts_same [rotated]; auto simp: statement_defs result_simps split: if_splits))+

end
