(* ===== verification/Core_Machine.thy ===== *)
theory Core_Machine
  imports Invariants
begin

text \<open>
  The core as one machine over its database: every commit any of its operations can make is a step
  (a submission commits twice, when it records the attempt and when it records the answer, with
  other steps in between; a synchronization commits when it applies its scan). What every step
  keeps holds in every reachable database, and a call that reports an error has changed nothing.
\<close>

section \<open>The machine\<close>

inductive core_step ::
  "bitcoin \<Rightarrow> psbt_codec \<Rightarrow> crypto \<Rightarrow> miniscript \<Rightarrow> ('w, 'cs) bdk \<Rightarrow> ('w, 'cs) chain \<Rightarrow> 'i ledger \<Rightarrow>
   (string \<Rightarrow> json option) \<Rightarrow> 'cs db \<Rightarrow> 'cs db \<Rightarrow> bool"
  for B C K M W N L parse where
  Import_Step: "import_wallet B M W parse now name payload n db = (r, db') \<Longrightarrow> core_step B C K M W N L parse db db'"
| Address_Step: "receive_address W wid db = (r, db') \<Longrightarrow> core_step B C K M W N L parse db db'"
| Label_Step: "set_label B W wid kind ref label db = (r, db') \<Longrightarrow> core_step B C K M W N L parse db db'"
| Freeze_Step: "set_frozen B W wid ref frozen db = (r, db') \<Longrightarrow> core_step B C K M W N L parse db db'"
| Edit_Step: "edit_coins B W wid references label freeze db = (r, db') \<Longrightarrow> core_step B C K M W N L parse db db'"
| Labels_Step: "import_labels B W parse wid payload apply db = (r, db') \<Longrightarrow> core_step B C K M W N L parse db db'"
| Draft_Step: "create_draft B C W now request db = (r, db') \<Longrightarrow> core_step B C K M W N L parse db db'"
| Discard_Step: "discard_draft wid d db = (r, db') \<Longrightarrow> core_step B C K M W N L parse db db'"
| Accept_Step: "accept_signed_psbt B C K W wid d payload db = (r, db') \<Longrightarrow> core_step B C K M W N L parse db db'"
| Finalize_Step: "finalize_draft B C K W wid d db = (r, db') \<Longrightarrow> core_step B C K M W N L parse db db'"
| Attempt_Step: "run_tx db (record_attempt B C K W request e approved now) = (r, db') \<Longrightarrow> core_step B C K M W N L parse db db'"
| Scan_Step: "run_tx db (apply_scan B W N wid snap observed_at result) = (r, db') \<Longrightarrow> core_step B C K M W N L parse db db'"
| Resume_Step: "resume_recovered_submission B C K W wid d txid attempt ack db = (r, db') \<Longrightarrow> core_step B C K M W N L parse db db'"
| Acknowledge_Step: "core_step B C K M W N L parse db (sql_acknowledge i wid d db)"
| Device_Step: "usb_receive B C M K W N parse L now step report u db = (r, v, db') \<Longrightarrow>
    core_step B C K M W N L parse db db'"
| Restore_Step: "suspend B C W review_len db = Inr db' \<Longrightarrow> core_step B C K M W N L parse db db'"

inductive core_run ::
  "bitcoin \<Rightarrow> psbt_codec \<Rightarrow> crypto \<Rightarrow> miniscript \<Rightarrow> ('w, 'cs) bdk \<Rightarrow> ('w, 'cs) chain \<Rightarrow> 'i ledger \<Rightarrow>
   (string \<Rightarrow> json option) \<Rightarrow> 'cs db \<Rightarrow> 'cs db \<Rightarrow> bool"
  for B C K M W N L parse where
  No_Step: "core_run B C K M W N L parse db db"
| More_Steps: "core_run B C K M W N L parse db db1 \<Longrightarrow> core_step B C K M W N L parse db1 db2 \<Longrightarrow>
    core_run B C K M W N L parse db db2"

inductive_cases core_stepE: "core_step B C K M W N L parse db db'"

lemma core_run_trans:
  assumes "core_run B C K M W N L parse db1 db2" and "core_run B C K M W N L parse db0 db1"
  shows "core_run B C K M W N L parse db0 db2"
  using assms by (induction rule: core_run.induct) (auto intro: core_run.intros)

text \<open>
  The steps that store a wallet (an address, a draft, a scan) and the one that deletes a draft are set
  apart: what the other statements keep, the other steps keep.
\<close>

context database_moves
begin

lemma inv_step_cases:
  "core_step B C K M W N L parse db db' \<Longrightarrow> inv db \<Longrightarrow>
     inv db' \<or> (\<exists>wid d r. discard_draft wid d db = (r, db'))
     \<or> (\<exists>wid r. receive_address W wid db = (r, db')) \<or> (\<exists>now request r. create_draft B C W now request db = (r, db'))
     \<or> (\<exists>wid snap observed_at result r. run_tx db (apply_scan B W N wid snap observed_at result) = (r, db'))"
proof (induction rule: core_step.induct)
  case (Attempt_Step db request e approved now r db')
  have "inv (snd (run_tx db (record_attempt B C K W request e approved now)))"
    by (rule run_tx_inv [OF Attempt_Step(2)]) (rule inv_record_attempt [OF Attempt_Step(2)])
  then show ?case using Attempt_Step(1) by simp
next
  case (Device_Step now step report u db r v db')
  then show ?case using inv_usb_receive by (metis snd_conv)
next
  case (Restore_Step review_len db db')
  then show ?case using inv_suspend by blast
qed (blast | (metis acknowledge snd_conv inv_import_wallet inv_set_label inv_set_frozen inv_edit_coins
    inv_import_labels inv_accept_signed_psbt inv_finalize_draft inv_resume))+

end

context database_writes
begin

lemma inv_step_or_discard:
  assumes "core_step B C K M W N L parse db db'" and "inv db"
  shows "inv db' \<or> (\<exists>wid d r. discard_draft wid d db = (r, db'))"
proof -
  have "inv (snd (run_tx db (apply_scan B W N wid snap observed_at result)))" for wid snap observed_at result
    by (rule run_tx_inv [OF assms(2)]) (auto intro: inv_apply_scan [OF assms(2)])
  with inv_step_cases [OF assms] inv_receive_address [OF assms(2)] inv_create_draft [OF assms(2)]
  show ?thesis by (metis snd_conv)
qed

end

context database_invariant
begin

lemma inv_step: "core_step B C K M W N L parse db db' \<Longrightarrow> inv db \<Longrightarrow> inv db'"
  using inv_step_or_discard inv_discard_draft by (metis snd_conv)

lemma inv_run: "core_run B C K M W N L parse db db' \<Longrightarrow> inv db \<Longrightarrow> inv db'"
  by (induction rule: core_run.induct) (auto intro: inv_step)

end

section \<open>Reachable databases\<close>

lemma empty_invariants: "wf_db empty_db" "checked_db empty_db" "attempts_bounded empty_db"
  by (rule wf_empty) (simp_all add: checked_db_def attempts_bounded_def attempts_of_def empty_db_def)

text \<open>
  The schema in every reachable database: unique keys, every row's parent present, ids of submissions
  never reused, the CHECK constraints. SQLite refuses a statement that would break one of them, so
  this says of the operations only that none leaves the statements modelled here; that no draft has
  more than 64 recorded submissions is checked by the program alone.
\<close>

lemma reachable_database:
  assumes "core_run B C K M W N L parse empty_db db"
  shows "wf_db db \<and> checked_db db \<and> attempts_bounded db"
  using schema.inv_run [OF assms empty_invariants(1)] checks.inv_run [OF assms empty_invariants(2)]
    attempts.inv_run [OF assms empty_invariants(3)] by blast

text \<open>The sample wallet imported into an empty database.\<close>

lemma sample_import_wallet:
  "\<exists>r db row. import_wallet sample_bitcoin sample_miniscript sample_bdk (\<lambda>_. None) 1 ''n'' sample_pair Signet empty_db
     = (Inr r, db) \<and> wallets db = [(ip_id sample_preview, row)]"
proof -
  have name: "trim ''n'' = ''n''" by (rule trim_plain; simp)
  then have "valid_name ''n'' 80 = Inr ()"
    by (simp add: valid_name_def char_count_def has_control.simps)
  moreover have "refuse_equivalent sample_miniscript sample_bdk sample_preview Signet empty_db = Inr ()"
    by (simp add: refuse_equivalent_def empty_db_def)
  ultimately show ?thesis
    by (simp add: import_wallet_def sample_preview_import run_tx_def import_wallet_body_def has_key_def
        sql_insert_wallet_def tbl_insert_def name char_count_def)
      (simp add: empty_db_def has_key_def char_count_def)
qed

section \<open>Errors\<close>

definition atomic_call :: "'cs db \<Rightarrow> 'a result \<times> 'cs db \<Rightarrow> bool" where
  "atomic_call db call = (case fst call of Inl _ \<Rightarrow> snd call = db | Inr _ \<Rightarrow> True)"

lemma atomic_run_tx [simp]: "atomic_call db (run_tx db body)"
  by (simp add: atomic_call_def run_tx_def split: sum.splits)

lemma atomic_refused [simp]: "atomic_call db (Inl e, db)"
  by (simp add: atomic_call_def)

text \<open>
  A call that reports an error has changed nothing: whatever failed, and at whatever point of
  the operation, the database is the one before the call.
\<close>

lemma errors_change_nothing:
  "atomic_call db (import_wallet B M W parse now name payload n db)
   \<and> atomic_call db (receive_address W wid db)
   \<and> atomic_call db (set_label B W wid kind ref label db)
   \<and> atomic_call db (set_frozen B W wid ref frozen db)
   \<and> atomic_call db (edit_coins B W wid references new_label freeze db)
   \<and> atomic_call db (import_labels B W parse wid payload apply db)
   \<and> atomic_call db (create_draft B C W now request db)
   \<and> atomic_call db (discard_draft wid d db)
   \<and> atomic_call db (accept_signed_psbt B C K W wid d response db)
   \<and> atomic_call db (finalize_draft B C K W wid d db)
   \<and> atomic_call db (resume_recovered_submission B C K W wid d txid attempt ack db)"
  by (simp add: import_wallet_def receive_address_def set_label_def set_frozen_def edit_coins_def import_labels_def
      create_draft_def discard_draft_def accept_signed_psbt_def finalize_draft_def resume_recovered_submission_def
      split: sum.splits prod.splits)

section \<open>A submission among the other calls\<close>

text \<open>
  The two commits of a submission are steps; what happens while the lock is released is a run.
\<close>

lemma broadcast_draft_run:
  assumes "\<And>db. core_run B C K M W N L parse db (during_get x db)"
    and "\<And>db. core_run B C K M W N L parse db (during_post x db)"
  shows "core_run B C K M W N L parse db (snd (broadcast_draft B C K W T x r db))"
proof (cases "broadcast_prepare B C K W T r db")
  case (Inr p)
  obtain e genesis approved where p: "p = (e, genesis, approved)" by (cases p)
  let ?db1 = "during_get x db"
  obtain u db2 where t: "run_tx ?db1 (record_attempt B C K W r e approved (clock x)) = (u, db2)"
    by (cases "run_tx ?db1 (record_attempt B C K W r e approved (clock x))")
  have 2: "core_run B C K M W N L parse db db2"
    by (rule More_Steps [OF assms(1) Attempt_Step [OF t]])
  then have 3: "core_run B C K M W N L parse db (during_post x db2)"
    using core_run_trans [OF assms(2)] by blast
  then have "core_run B C K M W N L parse db (sql_acknowledge i wid d (during_post x db2))" for i wid d
    by (rule More_Steps) (rule Acknowledge_Step)
  then show ?thesis
    using 2 3 assms(1) by (auto simp: broadcast_draft_def Inr p t Let_def split: sum.splits)
qed (simp add: broadcast_draft_def No_Step)

end
