(* ===== verification/Broadcast_Facts.thy ===== *)
theory Broadcast_Facts
  imports Invariants Signing_Lifecycle
begin

text \<open>
  The order of a submission: the attempt is recorded, with the approved bytes checked again, before
  anything is sent, and only the transaction id as the answer marks it acknowledged.
\<close>

section \<open>What is recorded before anything is sent\<close>

lemma broadcast_prepare_Inr:
  assumes "broadcast_prepare B C K W T r db = Inr (e, genesis, approved)"
  shows "expected_txid r = fr_txid approved" and "privacy_consent r"
    and "\<exists>l. load W db (br_wallet_id r) = Inr l \<and> ws_network (l_summary l) \<noteq> Mainnet
      \<and> genesis = genesis_hash T (ws_network (l_summary l))
      \<and> endpoint T (br_endpoint r) (ws_network (l_summary l)) True = Inr e"
  using assms by (auto simp: broadcast_prepare_def Let_def result_simps endpoint_def split: if_splits)

lemma record_attempt_Inr:
  assumes "record_attempt B C K W r e approved now db = Inr (i, db')"
  shows "finalized_draft B C K W (br_wallet_id r) (br_draft_id r) db = Inr (Some approved)
    \<and> check_previous db (br_wallet_id r) (br_draft_id r) (previous_attempt r) (retry_acknowledged r) = Inr ()
    \<and> i = attempt_seq db + 1
    \<and> (\<exists>a. broadcast_attempts db' = broadcast_attempts db @ [(i, a)]
          \<and> a_wallet a = br_wallet_id r \<and> a_draft a = br_draft_id r \<and> a_endpoint a = e
          \<and> a_txid a = fr_txid approved \<and> \<not> a_acknowledged a)"
  using assms
  by (auto simp: record_attempt_def finalized_draft_def result_simps sql_insert_attempt_def Let_def split: if_splits)

text \<open>
  C10. Nothing is sent before the attempt is durable. Either the submission is refused, with the
  database as it was (up to what other calls did) and an outcome that does not depend on what the
  server would answer; or exactly one attempt with a fresh id and the approved transaction id was
  appended first, to a database in which the draft was still finalized to the same bytes, the last
  attempt was the one the user saw, and the limit was not reached. It is marked acknowledged only
  when the server's answer is that transaction id.
\<close>

theorem broadcast_records_first:
  assumes "broadcast_draft B C K W T x r db = (res, db')"
  shows "(\<exists>e. res = Inl e \<and> (db' = db \<or> db' = during_get x db)
          \<and> (\<forall>f. broadcast_draft B C K W T (x\<lparr>post_reply := f\<rparr>) r db = (res, db')))
    \<or> (\<exists>approved i a e db1. finalized_draft B C K W (br_wallet_id r) (br_draft_id r) (during_get x db) = Inr (Some approved)
          \<and> fr_txid approved = expected_txid r
          \<and> check_previous (during_get x db) (br_wallet_id r) (br_draft_id r) (previous_attempt r)
                (retry_acknowledged r) = Inr ()
          \<and> broadcast_attempts db1 = broadcast_attempts (during_get x db) @ [(i, a)]
          \<and> i = attempt_seq (during_get x db) + 1
          \<and> a_wallet a = br_wallet_id r \<and> a_draft a = br_draft_id r \<and> a_txid a = expected_txid r
          \<and> \<not> a_acknowledged a
          \<and> db' = (if is_acknowledged approved (post_reply x (e @ ''/tx'') (lower_hex T (transaction_bytes approved)))
                   then sql_acknowledge i (br_wallet_id r) (br_draft_id r) (during_post x db1)
                   else during_post x db1))"
proof (cases "broadcast_prepare B C K W T r db")
  case (Inl err)
  then show ?thesis using assms by (auto simp: broadcast_draft_def)
next
  case (Inr p)
  obtain e genesis approved where p: "p = (e, genesis, approved)" by (cases p)
  note prepared = Inr [unfolded p]
  let ?db1 = "during_get x db"
  show ?thesis
  proof (cases "preflight T genesis (get_reply x (e @ ''/block-height/0''))")
    case (Inl err)
    then show ?thesis using assms by (auto simp: broadcast_draft_def prepared Let_def)
  next
    case (Inr u)
    show ?thesis
    proof (cases "record_attempt B C K W r e approved (clock x) ?db1")
      case (Inl err)
      then show ?thesis using assms Inr by (auto simp: broadcast_draft_def prepared Let_def run_tx_def)
    next
      case (Inr q)
      obtain i db2 where q: "q = (i, db2)" by (cases q)
      note recorded = record_attempt_Inr [OF Inr [unfolded q]]
      have "db' = (if is_acknowledged approved (post_reply x (e @ ''/tx'') (lower_hex T (transaction_bytes approved)))
          then sql_acknowledge i (br_wallet_id r) (br_draft_id r) (during_post x db2) else during_post x db2)"
        using assms \<open>preflight T genesis _ = Inr u\<close> Inr by (auto simp: broadcast_draft_def prepared Let_def run_tx_def q)
      then show ?thesis using recorded broadcast_prepare_Inr(1) [OF prepared] by metis
    qed
  qed
qed

section \<open>The sample submission\<close>

definition sample_web :: web where
  "sample_web = \<lparr>parse_url = (\<lambda>s. Some \<lparr>url_scheme = ''https'', url_host = Some ''h'', url_username = [],
       url_password = None, url_query = None, url_fragment = None, url_text = s\<rparr>),
     parse_block_hash = (\<lambda>s. if s = ''0'' then Some [0] else None), show_block_hash = (\<lambda>_. ''0''),
     genesis_hash = (\<lambda>_. [0]), lower_hex = (\<lambda>_. []), from_hex = (\<lambda>_. None)\<rparr>"

text \<open>The server names its genesis block, and answers nothing to the submission.\<close>

definition sample_exchange :: "nat exchange" where
  "sample_exchange = \<lparr>get_reply = (\<lambda>_. Some \<lparr>status_success = True, content_length = None, body_chunks = [Some (bytes_of ''0'')]\<rparr>),
     post_reply = (\<lambda>_ _. None), during_get = (\<lambda>db. db), during_post = (\<lambda>db. db), clock = 7\<rparr>"

definition sample_broadcast :: broadcast_request where
  "sample_broadcast = \<lparr>br_wallet_id = ''w'', br_draft_id = sample_id, br_endpoint = ''e'',
     expected_txid = sample_hash [12], previous_attempt = None, privacy_consent = True, retry_acknowledged = False\<rparr>"

lemma sample_final_tables:
  assumes final: "finalize_draft sample_bitcoin signed_codec sample_crypto sample_bdk ''w'' sample_id (signing_db ''signed'' True)
      = (Inr sample_final, db)"
  shows "load sample_bdk db ''w'' = Inr sample_loaded" and "broadcast_attempts db = []"
    and "has_key (''w'', sample_id) (finalized_drafts db)" and "map_of (finalized_drafts db) (''w'', sample_id) = Some [2, 2]"
    and "finalized_draft sample_bitcoin signed_codec sample_crypto sample_bdk ''w'' sample_id db = Inr (Some sample_final)"
proof -
  let ?db = "signing_db ''signed'' True"
  have frame: "wallets db = wallets ?db \<and> broadcast_attempts db = broadcast_attempts ?db"
    using finalize_draft_Inr [OF final] by (auto simp: sql_set_review_def)
  show "load sample_bdk db ''w'' = Inr sample_loaded"
    using sample_load frame by (simp add: load_def signing_db_def sample_draft_db_def)
  show "broadcast_attempts db = []"
    using frame by (simp add: signing_db_def sample_draft_db_def)
  show bytes: "map_of (finalized_drafts db) (''w'', sample_id) = Some [2, 2]"
    using finalize_draft_Inr [OF final] by (auto simp: stored_finalized_def sample_final_def)
  show "has_key (''w'', sample_id) (finalized_drafts db)"
    using bytes by (simp add: has_key_iff map_of_Some_key)
  show "finalized_draft sample_bitcoin signed_codec sample_crypto sample_bdk ''w'' sample_id db = Inr (Some sample_final)"
    by (rule finalized_after [OF final])
qed

lemma sample_finalized_db:
  obtains db where "load sample_bdk db ''w'' = Inr sample_loaded" and "broadcast_attempts db = []"
    and "has_key (''w'', sample_id) (finalized_drafts db)" and "map_of (finalized_drafts db) (''w'', sample_id) = Some [2, 2]"
    and "finalized_draft sample_bitcoin signed_codec sample_crypto sample_bdk ''w'' sample_id db = Inr (Some sample_final)"
  using sample_finalize sample_final_tables that by blast

lemma length_bytes_of: "length (bytes_of s) = length s"
  by (simp add: bytes_of_def)

lemma sample_char_count: "char_count (sample_hash [12]) = 64" "char_count (sample_hash [14]) = 64"
  by (simp_all add: sample_hash_def char_count_def hex_digit_def)

text \<open>The sample submission up to its request: the attempt that is recorded first.\<close>

definition recorded_attempt :: attempt_row where
  "recorded_attempt = \<lparr>a_wallet = ''w'', a_draft = sample_id, a_endpoint = ''e'', a_txid = sample_hash [12],
     a_wtxid = sample_hash [14], a_requested_at = 7, a_acknowledged = False\<rparr>"

definition attempt_recorded :: "nat db \<Rightarrow> nat db" where
  "attempt_recorded db = db\<lparr>broadcast_attempts := [(attempt_seq db + 1, recorded_attempt)], attempt_seq := attempt_seq db + 1\<rparr>"

lemma sample_submission:
  assumes l: "load sample_bdk db ''w'' = Inr sample_loaded" and none: "broadcast_attempts db = []"
    and key: "has_key (''w'', sample_id) (finalized_drafts db)"
    and bytes: "map_of (finalized_drafts db) (''w'', sample_id) = Some [2, 2]"
    and final: "finalized_draft sample_bitcoin signed_codec sample_crypto sample_bdk ''w'' sample_id db = Inr (Some sample_final)"
  shows "record_attempt sample_bitcoin signed_codec sample_crypto sample_bdk sample_broadcast ''e'' sample_final 7 db
      = Inr (attempt_seq db + 1, attempt_recorded db)"
    and "snd (broadcast_draft sample_bitcoin signed_codec sample_crypto sample_bdk sample_web
        (sample_exchange\<lparr>post_reply := f\<rparr>) sample_broadcast db)
      = (if is_acknowledged sample_final (f ''e/tx'' [])
         then sql_acknowledge (attempt_seq db + 1) ''w'' sample_id (attempt_recorded db) else attempt_recorded db)"
    and "\<exists>info. broadcast_draft sample_bitcoin signed_codec sample_crypto sample_bdk sample_web sample_exchange
        sample_broadcast db = (Inr info, attempt_recorded db)"
proof -
  have r: "br_wallet_id sample_broadcast = ''w''" "br_draft_id sample_broadcast = sample_id" "br_endpoint sample_broadcast = ''e''"
    "expected_txid sample_broadcast = sample_hash [12]" "previous_attempt sample_broadcast = None" "privacy_consent sample_broadcast"
    by (simp_all add: sample_broadcast_def)
  have f: "fr_txid sample_final = sample_hash [12]" "fr_wtxid sample_final = sample_hash [14]"
    by (simp_all add: sample_final_def)
  have e: "endpoint sample_web ''e'' Signet True = Inr ''e''"
    by (simp add: endpoint_def sample_web_def url_allowed_def trim_end_slashes_def has_control.simps)
  have c: "check_previous db ''w'' sample_id None retry = Inr ()" for retry
    by (simp add: check_previous_def latest_def attempts_of_def none attempt_limit_def)
  have network: "ws_network (l_summary sample_loaded) = Signet" by (simp add: sample_loaded_def)
  have prepare: "broadcast_prepare sample_bitcoin signed_codec sample_crypto sample_bdk sample_web sample_broadcast db
      = Inr (''e'', [0], sample_final)"
    using final c by (simp add: broadcast_prepare_def r l network e finalized_draft_def f) (simp add: sample_web_def)
  have "trim ''0'' = ''0''" by (rule trim_plain; simp)
  then have flight: "preflight sample_web [0] (get_reply sample_exchange u) = Inr ()" for u
    by (simp add: preflight_def sample_exchange_def response_text_def RESPONSE_LIMIT_def utf8_text_def text_of_bytes_of
        length_bytes_of sample_web_def)
  show stored: "record_attempt sample_bitcoin signed_codec sample_crypto sample_bdk sample_broadcast ''e'' sample_final 7 db
      = Inr (attempt_seq db + 1, attempt_recorded db)"
    using final c key
    by (simp add: record_attempt_def r finalized_draft_def f sql_insert_attempt_def sample_char_count none attempt_recorded_def
        recorded_attempt_def)
  have x: "during_get sample_exchange = (\<lambda>db. db)" "during_post sample_exchange = (\<lambda>db. db)" "clock sample_exchange = 7"
    by (simp_all add: sample_exchange_def)
  have hex: "lower_hex sample_web b = []" for b by (simp add: sample_web_def)
  show "snd (broadcast_draft sample_bitcoin signed_codec sample_crypto sample_bdk sample_web
        (sample_exchange\<lparr>post_reply := f\<rparr>) sample_broadcast db)
      = (if is_acknowledged sample_final (f ''e/tx'' [])
         then sql_acknowledge (attempt_seq db + 1) ''w'' sample_id (attempt_recorded db) else attempt_recorded db)"
    using flight stored by (simp add: broadcast_draft_def prepare x r run_tx_def hex Let_def)
  have "load sample_bdk (attempt_recorded db) ''w'' = Inr sample_loaded" using l by (simp add: load_def attempt_recorded_def)
  then have "\<exists>info. broadcast_status sample_bitcoin sample_bdk ''w'' sample_id (attempt_recorded db) = Inr (Some info)"
    using bytes
    by (simp add: broadcast_status_def latest_def attempts_of_def attempt_draft_def observation_def MAX_PSBT_BYTES_def
        final_tx_def attempt_recorded_def recorded_attempt_def)
  moreover have "post_reply sample_exchange u v = None" for u v by (simp add: sample_exchange_def)
  ultimately show "\<exists>info. broadcast_draft sample_bitcoin signed_codec sample_crypto sample_bdk sample_web sample_exchange
        sample_broadcast db = (Inr info, attempt_recorded db)"
    using flight stored by (auto simp: broadcast_draft_def prepare x r run_tx_def hex Let_def is_acknowledged_def)
qed

theorem broadcast_records_first_witness:
  "\<exists>db info db' i a. broadcast_draft sample_bitcoin signed_codec sample_crypto sample_bdk sample_web sample_exchange
       sample_broadcast db = (Inr info, db')
     \<and> broadcast_attempts db = [] \<and> broadcast_attempts db' = [(i, a)]
     \<and> a_txid a = sample_hash [12] \<and> \<not> a_acknowledged a"
proof -
  obtain db where db: "load sample_bdk db ''w'' = Inr sample_loaded" "broadcast_attempts db = []"
    "has_key (''w'', sample_id) (finalized_drafts db)" "map_of (finalized_drafts db) (''w'', sample_id) = Some [2, 2]"
    "finalized_draft sample_bitcoin signed_codec sample_crypto sample_bdk ''w'' sample_id db = Inr (Some sample_final)"
    by (rule sample_finalized_db)
  obtain info where run: "broadcast_draft sample_bitcoin signed_codec sample_crypto sample_bdk sample_web
      sample_exchange sample_broadcast db = (Inr info, attempt_recorded db)"
    using sample_submission(3) [OF db] by blast
  have x: "during_get sample_exchange db = db" "during_post sample_exchange s = s" "post_reply sample_exchange u v = None"
    "expected_txid sample_broadcast = sample_hash [12]" for s u v
    by (simp_all add: sample_exchange_def sample_broadcast_def)
  obtain i a where "broadcast_attempts (attempt_recorded db) = [(i, a)]" and "a_txid a = sample_hash [12]" and "\<not> a_acknowledged a"
    using broadcast_records_first [OF run] db(2) by (auto simp: x is_acknowledged_def)
  then show ?thesis using run db(2) by blast
qed

end
