(* ===== verification/Recovery_Facts.thy ===== *)
theory Recovery_Facts
  imports Core_Machine Signing_Lifecycle
begin

text \<open>
  A restored database can neither spend nor sign: every review is invalidated, every
  synchronization forgotten, and the coins of everything that was ever submitted stay held until
  that submission is resumed explicitly.
\<close>

section \<open>Suspending\<close>

text \<open>A fold of which every step establishes its own fact and keeps those of the others.\<close>

lemma rfold_establishes:
  assumes "rfold f xs s = Inr t"
    and "\<And>x u v. x \<in> set xs \<Longrightarrow> f x u = Inr v \<Longrightarrow> Q x v"
    and "\<And>x y u v. f x u = Inr v \<Longrightarrow> Q y u \<Longrightarrow> Q y v"
  shows "\<forall>x \<in> set xs. Q x t"
  using assms(1,2)
proof (induction xs arbitrary: s)
  case (Cons x xs)
  then obtain u where u: "f x s = Inr u" "rfold f xs u = Inr t" by (auto simp: result_simps)
  have "Q x t" by (rule rfold_invariant [where P = "Q x", OF u(2)]) (use Cons.prems(2) u(1) assms(3) in auto)
  then show ?case using Cons.IH [OF u(2)] Cons.prems(2) by auto
qed simp

definition suspended :: "'cs db \<Rightarrow> string \<times> string \<Rightarrow> bool" where
  "suspended db = (\<lambda>(w, d). \<exists>row r. map_of (drafts db) (w, d) = Some row \<and> d_review row = Some r
     \<and> dv_state r = ''invalidated''
     \<and> (submitted db w d \<longrightarrow> (w, d) \<in> keys (recovered_submissions db)
          \<and> (\<forall>i \<in> set (dv_inputs r). (w, ri_outpoint i, d) \<in> keys (recovery_holds db))))"

lemma hold_inputs_Inr:
  assumes "hold_inputs wid d review db = Inr db'"
  shows "\<exists>rs hs. db' = db\<lparr>recovered_submissions := rs, recovery_holds := hs\<rparr>
    \<and> keys (recovered_submissions db) \<subseteq> keys rs \<and> keys (recovery_holds db) \<subseteq> keys hs
    \<and> (submitted db wid d \<longrightarrow> (wid, d) \<in> keys rs \<and> (\<forall>i \<in> set (dv_inputs review). (wid, ri_outpoint i, d) \<in> keys hs))"
proof (cases "submitted db wid d")
  case False
  then have "db' = db" using assms by (simp add: hold_inputs_def)
  then show ?thesis using False by (intro exI [of _ "recovered_submissions db"] exI [of _ "recovery_holds db"]) simp
next
  case True
  then obtain db1 where r: "sql_insert_recovered wid d db = Inr db1"
    and f: "rfold (\<lambda>i. sql_insert_hold wid (ri_outpoint i) d) (dv_inputs review) db1 = Inr db'"
    using assms by (auto simp: hold_inputs_def result_simps)
  have step: "v = u\<lparr>recovery_holds := recovery_holds u @ [((wid, ri_outpoint i, d), ())]\<rparr>"
    if "sql_insert_hold wid (ri_outpoint i) d u = Inr v" for i u v
    using that by (auto simp: sql_insert_hold_def result_simps split: if_splits)
  have 1: "db1 = db\<lparr>recovered_submissions := recovered_submissions db @ [((wid, d), ())]\<rparr>"
    using r by (auto simp: sql_insert_recovered_def result_simps split: if_splits)
  have hs: "\<exists>hs. db' = db1\<lparr>recovery_holds := hs\<rparr> \<and> keys (recovery_holds db1) \<subseteq> keys hs"
  proof (rule rfold_invariant [where P = "\<lambda>u. \<exists>hs. u = db1\<lparr>recovery_holds := hs\<rparr> \<and> keys (recovery_holds db1) \<subseteq> keys hs", OF f])
    show "\<exists>hs. db1 = db1\<lparr>recovery_holds := hs\<rparr> \<and> keys (recovery_holds db1) \<subseteq> keys hs"
      by (rule exI [of _ "recovery_holds db1"]) simp
  next
    fix i u v assume "\<exists>hs. u = db1\<lparr>recovery_holds := hs\<rparr> \<and> keys (recovery_holds db1) \<subseteq> keys hs"
      and v: "sql_insert_hold wid (ri_outpoint i) d u = Inr v"
    then obtain hs where u: "u = db1\<lparr>recovery_holds := hs\<rparr>" "keys (recovery_holds db1) \<subseteq> keys hs" by blast
    show "\<exists>hs. v = db1\<lparr>recovery_holds := hs\<rparr> \<and> keys (recovery_holds db1) \<subseteq> keys hs"
      by (rule exI [of _ "hs @ [((wid, ri_outpoint i, d), ())]"]) (use u step [OF v] in auto)
  qed
  have all: "\<forall>i \<in> set (dv_inputs review). (wid, ri_outpoint i, d) \<in> keys (recovery_holds db')"
    by (rule rfold_establishes [OF f]) (auto dest!: step)
  from hs obtain hs where "db' = db1\<lparr>recovery_holds := hs\<rparr>" and "keys (recovery_holds db1) \<subseteq> keys hs" by blast
  then show ?thesis
    using all by (intro exI [of _ "recovered_submissions db1"] exI [of _ hs]) (auto simp: 1)
qed

lemma suspend_draft_Inr:
  assumes "suspend_draft B C W (wid, d) (cached, db) = Inr (cached', db')"
  obtains row r rs hs where "map_of (drafts db) (wid, d) = Some row" and "d_review row = Some r"
    and "db' = sql_set_review wid d (r\<lparr>dv_state := ''invalidated''\<rparr>)
           (db\<lparr>recovered_submissions := rs, recovery_holds := hs\<rparr>)"
    and "keys (recovered_submissions db) \<subseteq> keys rs" and "keys (recovery_holds db) \<subseteq> keys hs"
    and "submitted db wid d \<longrightarrow> (wid, d) \<in> keys rs \<and> (\<forall>i \<in> set (dv_inputs r). (wid, ri_outpoint i, d) \<in> keys hs)"
proof -
  obtain row r db1 where "map_of (drafts db) (wid, d) = Some row" "d_review row = Some r"
    and h: "hold_inputs wid d r db = Inr db1"
    and "db' = sql_set_review wid d (r\<lparr>dv_state := ''invalidated''\<rparr>) db1"
    using assms by (auto simp: suspend_draft_def result_simps)
  then show ?thesis using hold_inputs_Inr [OF h] that by blast
qed

lemma submitted_frame: "broadcast_attempts db' = broadcast_attempts db \<Longrightarrow> submitted db' w d = submitted db w d"
  by (simp add: submitted_def)

lemma suspended_mono:
  assumes "suspended db y" and "map_of (drafts db') y = map_of (drafts db) y"
    and "broadcast_attempts db' = broadcast_attempts db"
    and "keys (recovered_submissions db) \<subseteq> keys (recovered_submissions db')"
    and "keys (recovery_holds db) \<subseteq> keys (recovery_holds db')"
  shows "suspended db' y"
  using assms by (cases y) (fastforce simp: suspended_def submitted_def)

lemma suspend_draft_suspends:
  assumes "suspend_draft B C W (wid, d) (cached, db) = Inr (cached', db')"
  shows "suspended db' (wid, d)"
  by (rule suspend_draft_Inr [OF assms])
    (auto simp: suspended_def sql_set_review_def map_of_update submitted_def)

lemma suspend_draft_keeps:
  assumes "suspend_draft B C W x (cached, db) = Inr (cached', db')" and "suspended db y"
  shows "suspended db' y"
proof (cases "x = y")
  case True
  then show ?thesis using suspend_draft_suspends assms(1) by (metis surj_pair)
next
  case False
  obtain wid d where x: "x = (wid, d)" by (cases x)
  show ?thesis
  proof (rule suspend_draft_Inr [OF assms(1) [unfolded x]], goal_cases)
    case (1 row r rs hs)
    have "map_of (drafts db') y = map_of (drafts db) y"
      using False by (simp add: 1(3) x sql_set_review_def map_of_update)
    then show ?case
      by (rule suspended_mono [OF assms(2)]) (use 1(4,5) in \<open>simp_all add: 1(3) sql_set_review_def\<close>)
  qed
qed

lemma unsynced_refuses:
  assumes "\<And>row. map_of (wallets db) wid = Some row \<Longrightarrow> w_synced_at row = None"
  shows "\<not> is_ok (load_draft B C K W db wid d)"
    and "dr_wallet_id request = wid \<Longrightarrow> \<not> is_ok (fst (create_draft B C W now request db))"
proof -
  have l: "ws_synced_at (l_summary l) = None" if "load W db wid = Inr l" for l
    using assms that by (auto simp: load_def result_simps Let_def)
  then show "\<not> is_ok (load_draft B C K W db wid d)"
    by (auto simp: is_ok_iff load_draft_def Let_def result_simps)
  show "\<not> is_ok (fst (create_draft B C W now request db))" if "dr_wallet_id request = wid"
    using l that
    by (auto simp: is_ok_iff create_draft_def run_tx_def create_draft_body_def Let_def result_simps
        split: sum.splits)
qed

lemma suspend_all:
  assumes "suspend B C W review_len db = Inr db'"
  shows "(\<forall>k \<in> keys (drafts db). suspended db' k) \<and> keys (drafts db') = keys (drafts db)
    \<and> reservations db' = [] \<and> labels db' = labels db \<and> freezes db' = freezes db
    \<and> finalized_drafts db' = finalized_drafts db \<and> broadcast_attempts db' = broadcast_attempts db"
proof -
  let ?start = "(None, sql_clear_recovery db)"
  obtain cached db1 where f: "rfold (suspend_draft B C W) (sort_key id (map fst (drafts db))) ?start = Inr (cached, db1)"
    and db': "db' = sql_unsync_all db1"
    using assms by (auto simp: suspend_def result_simps)
  have "\<forall>k \<in> set (sort_key id (map fst (drafts db))). suspended (snd (cached, db1)) k"
    by (rule rfold_establishes [OF f, where Q = "\<lambda>k st. suspended (snd st) k"])
      (auto intro: suspend_draft_suspends suspend_draft_keeps)
  moreover have "suspended db' k = suspended db1 k" for k
    by (simp add: db' sql_unsync_all_def suspended_def submitted_def split: prod.splits)
  moreover
  let ?same = "\<lambda>st. keys (drafts (snd st)) = keys (drafts db) \<and> reservations (snd st) = []
      \<and> labels (snd st) = labels db \<and> freezes (snd st) = freezes db
      \<and> finalized_drafts (snd st) = finalized_drafts db \<and> broadcast_attempts (snd st) = broadcast_attempts db"
  have "?same (cached, db1)"
  proof (rule rfold_invariant [where P = ?same, OF f])
    fix x u v assume "?same u" and "suspend_draft B C W x u = Inr v"
    then show "?same v"
      by (cases x; cases u; cases v) (auto elim!: suspend_draft_Inr simp: sql_set_review_def)
  qed (simp add: sql_clear_recovery_def)
  moreover have "keys (drafts db) = set (map fst (drafts db))" by (simp add: keys_def)
  ultimately show ?thesis by (auto simp: db' sql_unsync_all_def)
qed

text \<open>
  C19. A restored backup is quarantined. Every draft's review is invalidated, no coin is reserved,
  no wallet counts as synchronized, and every input of every draft with a recorded submission is
  held for that submission; labels, freezes, final transactions and the submissions themselves are
  what they were. Until a wallet is synchronized again no draft of it is made, signed or finalized.
\<close>

theorem suspend_quarantines:
  assumes "suspend B C W review_len db = Inr db'"
  shows "(\<forall>k \<in> keys (drafts db). suspended db' k) \<and> keys (drafts db') = keys (drafts db)
    \<and> reservations db' = []
    \<and> (\<forall>w row. map_of (wallets db') w = Some row \<longrightarrow> w_synced_at row = None)
    \<and> labels db' = labels db \<and> freezes db' = freezes db
    \<and> finalized_drafts db' = finalized_drafts db \<and> broadcast_attempts db' = broadcast_attempts db
    \<and> (\<forall>K wid d. \<not> is_ok (load_draft B C K W db' wid d))
    \<and> (\<forall>now request. \<not> is_ok (fst (create_draft B C W now request db')))"
proof -
  have unsynced: "w_synced_at row = None" if "map_of (wallets db') w = Some row" for w row
    using assms that by (auto simp: suspend_def result_simps sql_unsync_all_def map_of_update)
  moreover have "\<not> is_ok (load_draft B C K W db' wid d)" for K wid d
    by (rule unsynced_refuses(1)) (rule unsynced)
  moreover have "\<not> is_ok (fst (create_draft B C W now request db'))" for now request
    by (rule unsynced_refuses(2) [OF unsynced refl])
  ultimately show ?thesis using suspend_all [OF assms] by blast
qed

section \<open>Resuming\<close>

text \<open>What a draft was loaded with does not depend on the records of the recovery.\<close>

lemma load_draft_cong:
  assumes "wallets db' = wallets db" and "drafts db' = drafts db" and "reservations db' = reservations db"
    and "freezes db' = freezes db" and "draft_signatures db' = draft_signatures db"
  shows "load_draft B C K W db' = load_draft B C K W db"
proof -
  have "load_input B K W db' = load_input B K W db"
    unfolding load_input_def reserved_by_def is_frozen_def assms ..
  then show ?thesis by (intro ext) (simp only: load_draft_def load_def stored_signatures_def assms)
qed

lemma validated_finalized_recovered:
  "validated_finalized B C K W (sql_delete_recovered wid d db) = validated_finalized B C K W db"
proof -
  have "load_draft B C K W (sql_delete_recovered wid d db) = load_draft B C K W db"
    by (rule load_draft_cong) (simp_all add: sql_delete_recovered_def)
  then show ?thesis
    by (intro ext) (simp add: validated_finalized_def stored_finalized_def sql_delete_recovered_def)
qed

text \<open>Every input of a loaded draft is reserved by it, not frozen, and spendable.\<close>

lemma load_draft_inputs:
  assumes "load_draft B C K W db wid d = Inr draft"
  shows "\<forall>i \<in> set (tx_input (unsigned_tx (sd_approved draft))).
    map_of (reservations db) (wid, show_outpoint B (previous_output i)) = Some d
    \<and> (wid, show_outpoint B (previous_output i)) \<notin> keys (freezes db)"
proof (rule load_draft_Inr [OF assms], goal_cases)
  case (1 l row seen input_sum output_sum)
  have "map_of (reservations db) (wid, show_outpoint B (previous_output i)) = Some d
    \<and> (wid, show_outpoint B (previous_output i)) \<notin> keys (freezes db)"
    if member: "i \<in> set (tx_input (unsigned_tx (sd_approved draft)))" for i
  proof -
    obtain j where j: "j < length (tx_input (unsigned_tx (sd_approved draft)))"
      "tx_input (unsigned_tx (sd_approved draft)) ! j = i"
      using member by (auto simp: in_set_conv_nth)
    then have "(j, i) \<in> set (enumerate 0 (tx_input (unsigned_tx (sd_approved draft))))"
      by (auto simp: in_set_enumerate_eq)
    then obtain u v where "load_input B K W db wid d (l_wallet l) (sd_review draft) (j, i) u = Inr v"
      using rfold_each [OF 1(16)] by blast
    then show ?thesis
      by (auto simp: load_input_def Let_def result_simps reserved_by_def is_frozen_def has_key_iff split: prod.splits)
  qed
  then show ?case by blast
qed

text \<open>
  C33. A recovered submission is resumed only as what it was. The user must have reviewed it and
  name the latest recorded attempt and its transaction id; afterwards the draft is finalized to
  exactly that transaction, each of its coins is reserved by it and not frozen, its recovery record
  and its holds are gone, and no submission was added or removed.
\<close>

theorem resume_restores:
  assumes "resume_recovered_submission B C K W wid d txid attempt reviewed db = (Inr f, db')"
  shows "reviewed \<and> recovery_required wid d db \<and> \<not> recovery_required wid d db'
    \<and> (\<exists>info. latest db wid d = Some info \<and> bi_attempt_id info = attempt \<and> bi_txid info = txid)
    \<and> fr_txid f = txid \<and> finalized_draft B C K W wid d db' = Inr (Some f)
    \<and> (\<exists>draft. load_draft B C K W db' wid d = Inr draft
         \<and> (\<forall>i \<in> set (tx_input (unsigned_tx (sd_approved draft))).
              map_of (reservations db') (wid, show_outpoint B (previous_output i)) = Some d
              \<and> (wid, show_outpoint B (previous_output i)) \<notin> keys (freezes db')))
    \<and> (\<forall>outpoint. (wid, outpoint, d) \<notin> keys (recovery_holds db'))
    \<and> broadcast_attempts db' = broadcast_attempts db"
proof -
  have reviewed: reviewed and body: "resume_body B C K W wid d txid attempt db = Inr (f, db')"
    using assms by (auto simp: resume_recovered_submission_def run_tx_ok split: if_splits)
  obtain info review db1 where r: "recovery_required wid d db" "latest db wid d = Some info"
      "bi_attempt_id info = attempt" "bi_txid info = txid"
    and fold: "rfold (\<lambda>i. sql_ignore_reservation wid (ri_outpoint i) d) (dv_inputs review)
            (sql_set_review wid d (review\<lparr>dv_state := ''finalized''\<rparr>) db) = Inr db1"
    and v: "validated_finalized B C K W db1 wid d = Inr (Some f)" "fr_txid f = txid"
    and db': "db' = sql_delete_recovered wid d db1"
    using body by (auto simp: resume_body_def result_simps)
  have final: "finalized_draft B C K W wid d db' = Inr (Some f)"
    using v(1) by (simp add: finalized_draft_def db' validated_finalized_recovered)
  then obtain draft where l: "load_draft B C K W db' wid d = Inr draft"
    by (auto simp: finalized_draft_def validated_finalized_def result_simps)
  have "broadcast_attempts db1 = broadcast_attempts db"
    by (rule rfold_invariant [where P = "\<lambda>u. broadcast_attempts u = broadcast_attempts db", OF fold])
      (auto simp: sql_set_review_def sql_ignore_reservation_def result_simps)
  moreover have "\<not> recovery_required wid d db'" "(wid, outpoint, d) \<notin> keys (recovery_holds db')" for outpoint
    by (simp_all add: recovery_required_def db' sql_delete_recovered_def has_key_iff)
  ultimately show ?thesis
    using reviewed r v final l load_draft_inputs [OF l] by (auto simp: db' sql_delete_recovered_def)
qed

section \<open>A sample recovery\<close>

text \<open>The sample draft, finalized and submitted once.\<close>

definition sample_attempt :: attempt_row where
  "sample_attempt = \<lparr>a_wallet = ''w'', a_draft = sample_id, a_endpoint = ''e'', a_txid = sample_hash [12],
     a_wtxid = sample_hash [14], a_requested_at = 7, a_acknowledged = False\<rparr>"

definition submitted_db :: "nat db" where
  "submitted_db = (signing_db ''finalized'' True)\<lparr>finalized_drafts := [((''w'', sample_id), [2, 2])],
     broadcast_attempts := [(1, sample_attempt)], attempt_seq := 1\<rparr>"

text \<open>The same restored from a backup, and synchronized again.\<close>

definition quarantined_db :: "nat option \<Rightarrow> nat db" where
  "quarantined_db synced = submitted_db\<lparr>
     wallets := [(''w'', sample_row\<lparr>w_synced_at := synced\<rparr>)],
     drafts := [((''w'', sample_id), sample_draft_row\<lparr>d_review := Some (sample_review\<lparr>dv_state := ''invalidated''\<rparr>)\<rparr>)],
     reservations := [], recovered_submissions := [((''w'', sample_id), ())],
     recovery_holds := [((''w'', ''a:0'', sample_id), ())]\<rparr>"

lemma sample_suspend: "suspend sample_bitcoin signed_codec sample_bdk (\<lambda>_. 0) submitted_db = Inr (quarantined_db None)"
proof -
  let ?db = "sql_clear_recovery submitted_db"
  let ?r = "sample_review\<lparr>dv_state := ''finalized''\<rparr>"
  have tables: "wallets ?db = [(''w'', sample_row)]" "freezes submitted_db = [((''w'', ''b:0''), ())]" "labels submitted_db = []"
    "drafts submitted_db = [((''w'', sample_id), sample_draft_row\<lparr>d_review := Some ?r\<rparr>)]" "drafts ?db = drafts submitted_db"
    "draft_signatures ?db = [((''w'', sample_id), ''cHNidP9='')]" "finalized_drafts ?db = [((''w'', sample_id), [2, 2])]"
    "broadcast_attempts ?db = [(1, sample_attempt)]" "draft_signatures submitted_db = [((''w'', sample_id), ''cHNidP9='')]"
    "finalized_drafts submitted_db = [((''w'', sample_id), [2, 2])]"
    by (simp_all add: submitted_db_def sql_clear_recovery_def signing_db_def sample_draft_db_def)
  have l: "load sample_bdk ?db ''w'' = Inr sample_loaded"
    using sample_load by (simp add: load_def tables(1))
  have attempts: "attempts_of ?db ''w'' sample_id = [(1, sample_attempt)]" "submitted ?db ''w'' sample_id"
    by (simp_all add: attempts_of_def submitted_def tables(8) sample_attempt_def)
  have shape: "check_review_shape sample_bitcoin ''w'' sample_id spend_psbt ?r = Inr ()"
    by (simp add: check_review_shape_def known_states_def signable_states_def List.member_iff sample_review_def
        sample_id_def draft_identity_def spend_psbt_def spend_tx_def validate_label_def char_count_def)
  have ins: "rfold (suspend_input sample_bitcoin) (zip (dv_inputs ?r) (tx_input spend_tx)) 0 = Inr 50000"
    by (simp add: suspend_input_def sample_review_def spend_tx_def validate_label_def char_count_def
        checked_add_u64_def u64_bound_def)
  have outs: "rfold (suspend_output sample_bitcoin sample_bdk Signet (l_wallet sample_loaded))
      (zip (dv_outputs ?r) (tx_output spend_tx)) 0 = Inr 49000"
    by (simp add: suspend_output_def sample_review_def spend_tx_def sample_scripts_def checked_add_u64_def u64_bound_def)
  have "without_witnesses final_tx = spend_tx"
    by (simp add: without_witnesses_def final_tx_def spend_tx_def)
  then have final: "check_final_bytes sample_bitcoin ?db ''w'' sample_id spend_psbt = Inr ()"
    by (simp add: check_final_bytes_def tables MAX_PSBT_BYTES_def attempts sample_fields)
      (simp add: sample_attempt_def final_tx_def)
  have sigs: "check_stored_signatures signed_codec ?db ''w'' sample_id spend_psbt = Inr ()"
    by (simp add: check_stored_signatures_def tables sample_texts sample_fields)
  have hold: "hold_inputs ''w'' sample_id ?r ?db = Inr (?db\<lparr>recovered_submissions := [((''w'', sample_id), ())],
      recovery_holds := [((''w'', ''a:0'', sample_id), ())]\<rparr>)"
    by (simp add: hold_inputs_def attempts sql_insert_recovered_def tables has_key_def tbl_insert_def sample_review_def
        sql_insert_hold_def) (simp add: sql_clear_recovery_def tbl_insert_def has_key_def)
  have fee: "checked_sub 50000 49000 = Some (fee_sats ?r)" by (simp add: checked_sub_def sample_review_def)
  have row: "d_psbt (sample_draft_row\<lparr>d_review := x\<rparr>) = ''cHNidP8=''" for x by (simp add: sample_draft_row_def)
  have network: "ws_network (l_summary sample_loaded) = Signet" by (simp add: sample_loaded_def)
  have "suspend_draft sample_bitcoin signed_codec sample_bdk (''w'', sample_id) (None, ?db) =
      Inr (Some (''w'', sample_loaded), sql_set_review ''w'' sample_id (?r\<lparr>dv_state := ''invalidated''\<rparr>)
        (?db\<lparr>recovered_submissions := [((''w'', sample_id), ())], recovery_holds := [((''w'', ''a:0'', sample_id), ())]\<rparr>))"
    using ins outs fee
    by (simp add: suspend_draft_def tables(4,5) row sample_texts shape cached_load_def l network final sigs hold sample_fields)
  moreover have "\<not> oversized (\<lambda>_. 0) submitted_db"
    by (simp add: oversized_def tables row MAX_PSBT_TEXT_def MAX_FINAL_BYTES_def)
  ultimately have "suspend sample_bitcoin signed_codec sample_bdk (\<lambda>_. 0) submitted_db = Inr (sql_unsync_all
      (sql_set_review ''w'' sample_id (?r\<lparr>dv_state := ''invalidated''\<rparr>)
        (?db\<lparr>recovered_submissions := [((''w'', sample_id), ())], recovery_holds := [((''w'', ''a:0'', sample_id), ())]\<rparr>)))"
    by (simp add: suspend_def tables sample_outpoints_def)
  then show ?thesis
    by (simp add: quarantined_db_def submitted_db_def sql_unsync_all_def sql_set_review_def sql_clear_recovery_def
        signing_db_def sample_draft_db_def tbl_update_def)
qed

theorem suspend_quarantines_witness:
  "suspended (quarantined_db None) (''w'', sample_id)
   \<and> (''w'', ''a:0'', sample_id) \<in> keys (recovery_holds (quarantined_db None))
   \<and> \<not> is_ok (load_draft sample_bitcoin signed_codec sample_crypto sample_bdk (quarantined_db None) ''w'' sample_id)"
  using suspend_quarantines [OF sample_suspend]
  by (simp add: submitted_db_def signing_db_def) (simp add: quarantined_db_def)

text \<open>Once the wallet is synchronized again the submission can be resumed.\<close>

lemma sample_resume:
  "\<exists>db'. resume_recovered_submission sample_bitcoin signed_codec sample_crypto sample_bdk ''w'' sample_id
     (sample_hash [12]) 1 True (quarantined_db (Some 5)) = (Inr sample_final, db')"
proof -
  let ?db = "quarantined_db (Some 5)"
  let ?r = "sample_review\<lparr>dv_state := ''invalidated''\<rparr>"
  let ?db1 = "?db\<lparr>drafts := drafts (signing_db ''finalized'' True),
      reservations := [((''w'', ''a:0''), sample_id)]\<rparr>"
  have tables: "map_of (drafts ?db) (''w'', sample_id) = Some (sample_draft_row\<lparr>d_review := Some ?r\<rparr>)"
    "recovery_required ''w'' sample_id ?db" "finalized_drafts ?db1 = [((''w'', sample_id), [2, 2])]"
    by (simp_all add: quarantined_db_def submitted_db_def recovery_required_def has_key_def)
  have latest: "latest ?db ''w'' sample_id = Some \<lparr>bi_attempt_id = 1, bi_wallet_id = ''w'', bi_draft_id = sample_id,
      bi_endpoint = ''e'', bi_txid = sample_hash [12], bi_wtxid = sample_hash [14], bi_requested_at = 7, acknowledged = False,
      bi_observation = SeenNowhere\<rparr>"
    by (simp add: latest_def attempts_of_def quarantined_db_def submitted_db_def sample_attempt_def attempt_draft_def)
  have "sql_set_review ''w'' sample_id (?r\<lparr>dv_state := ''finalized''\<rparr>) ?db
      = ?db\<lparr>drafts := drafts (signing_db ''finalized'' True)\<rparr>"
    by (simp add: sql_set_review_def quarantined_db_def tbl_update_def signing_db_def)
  moreover have "dv_inputs ?r = [\<lparr>ri_outpoint = ''a:0'', ri_sats = 50000, ri_label = []\<rparr>]"
    by (simp add: sample_review_def)
  ultimately have fold: "rfold (\<lambda>i. sql_ignore_reservation ''w'' (ri_outpoint i) sample_id) (dv_inputs ?r)
      (sql_set_review ''w'' sample_id (?r\<lparr>dv_state := ''finalized''\<rparr>) ?db) = Inr ?db1"
    by (simp add: sql_ignore_reservation_def ignore_insert_def draft_exists_def has_key_def tbl_insert_ignore_def)
      (simp add: quarantined_db_def signing_db_def)
  have "load_draft sample_bitcoin signed_codec sample_crypto sample_bdk ?db1
      = load_draft sample_bitcoin signed_codec sample_crypto sample_bdk (signing_db ''finalized'' True)"
    by (rule load_draft_cong)
      (simp_all add: quarantined_db_def submitted_db_def signing_db_def sample_draft_db_def sample_row_def sample_id_def)
  then have "load_draft sample_bitcoin signed_codec sample_crypto sample_bdk ?db1 ''w'' sample_id
      = Inr (sample_loaded_draft ''finalized'' True)"
    using sample_load_draft [of "''finalized''"] by (simp add: signable_states_def)
  then have "validated_finalized sample_bitcoin signed_codec sample_crypto sample_bdk ?db1 ''w'' sample_id = Inr (Some sample_final)"
    by (simp add: validated_finalized_def stored_finalized_def tables sample_loaded_fields sample_finalize_transaction Let_def)
      (simp add: sample_final_def)
  then have "\<exists>db'. resume_body sample_bitcoin signed_codec sample_crypto sample_bdk ''w'' sample_id (sample_hash [12]) 1 ?db
      = Inr (sample_final, db')"
    using fold by (simp add: resume_body_def tables latest) (simp add: sample_final_def)
  then show ?thesis by (auto simp: resume_recovered_submission_def run_tx_def)
qed

theorem resume_restores_witness:
  "\<exists>db'. \<not> recovery_required ''w'' sample_id db'
     \<and> finalized_draft sample_bitcoin signed_codec sample_crypto sample_bdk ''w'' sample_id db' = Inr (Some sample_final)"
  using sample_resume resume_restores by metis

end
