(* ===== verification/Sync_Facts.thy ===== *)
theory Sync_Facts
  imports Sync Invariants Draft_Facts
begin

text \<open>
  What a scan proves before it reports anything, and what applying it leaves behind: merkle proofs
  against a reference definition of the tree, the bounds of a scan, the confirmed transactions it
  vouches for, and the drafts that survive it.
\<close>

section \<open>Merkle proofs\<close>

text \<open>The tree of a block (the last hash of an odd level is paired with itself), as a reference.\<close>

fun merkle_level :: "('w, 'cs) chain \<Rightarrow> byte list list \<Rightarrow> byte list list" where
  "merkle_level N [] = []"
| "merkle_level N [a] = [sha256d N (a @ a)]"
| "merkle_level N (a # b # xs) = sha256d N (a @ b) # merkle_level N xs"

definition sibling_of :: "byte list list \<Rightarrow> nat \<Rightarrow> byte list" where
  "sibling_of xs pos =
     (if pos mod 2 = 1 then xs ! (pos - 1) else if pos + 1 < length xs then xs ! (pos + 1) else xs ! pos)"

fun tree_root :: "('w, 'cs) chain \<Rightarrow> nat \<Rightarrow> byte list list \<Rightarrow> byte list" where
  "tree_root N 0 xs = hd xs"
| "tree_root N (Suc n) xs = tree_root N n (merkle_level N xs)"

text \<open>The siblings on the way from a leaf to the root, for a tree of the given depth.\<close>

fun proof_of :: "('w, 'cs) chain \<Rightarrow> nat \<Rightarrow> byte list list \<Rightarrow> nat \<Rightarrow> byte list list" where
  "proof_of N 0 xs pos = []"
| "proof_of N (Suc n) xs pos = sibling_of xs pos # proof_of N n (merkle_level N xs) (pos div 2)"

lemma merkle_level_nth:
  "pos < length xs \<Longrightarrow> pos div 2 < length (merkle_level N xs)
     \<and> merkle_level N xs ! (pos div 2) = fst (merkle_step N (sibling_of xs pos) (xs ! pos, pos))"
proof (induction N xs arbitrary: pos rule: merkle_level.induct)
  case (3 N a b xs)
  show ?case
  proof (cases pos)
    case 0
    then show ?thesis by (simp add: merkle_step_def sibling_of_def)
  next
    case (Suc q)
    show ?thesis
    proof (cases q)
      case 0
      then show ?thesis using Suc by (simp add: merkle_step_def sibling_of_def)
    next
      case (Suc p)
      have "sibling_of (a # b # xs) pos = sibling_of xs p"
        using \<open>pos = Suc q\<close> Suc by (auto simp: sibling_of_def nth_Cons' mod_Suc)
      then show ?thesis using 3 \<open>pos = Suc q\<close> Suc by (simp add: merkle_step_def)
    qed
  qed
qed (simp_all add: merkle_step_def sibling_of_def)

lemma length_merkle_level: "length (merkle_level N xs) = (length xs + 1) div 2"
  by (induction N xs rule: merkle_level.induct) auto

lemma proof_walks:
  assumes "pos < length xs" and "length xs \<le> 2 ^ n"
  shows "fold (merkle_step N) (proof_of N n xs pos) (xs ! pos, pos) = (tree_root N n xs, 0)"
  using assms
proof (induction n arbitrary: xs pos)
  case 0
  then have "length xs = 1" "pos = 0" by auto
  then show ?case by (cases xs) auto
next
  case (Suc n)
  note l = merkle_level_nth [OF Suc.prems(1), of N]
  have "merkle_step N (sibling_of xs pos) (xs ! pos, pos) = (merkle_level N xs ! (pos div 2), pos div 2)"
    using l by (simp add: merkle_step_def)
  moreover have "length (merkle_level N xs) \<le> 2 ^ n" using Suc.prems(2) by (simp add: length_merkle_level)
  ultimately show ?case using Suc.IH [OF conjunct1 [OF l]] by simp
qed

lemma length_proof_of: "length (proof_of N n xs pos) = n"
  by (induction n arbitrary: xs pos) auto

text \<open>
  C34. The merkle proof of a transaction in a block is accepted: for the transactions of a block of
  up to \<open>2 ^ n\<close> transactions and any position, the siblings on the way up verify against a header
  with the tree's root.
\<close>

theorem merkle_proof_accepted:
  assumes "pos < length txids" and "length txids \<le> 2 ^ n" and "n \<le> 32"
    and "merkle_root header = tree_root N n txids"
  shows "verify_proof N (txids ! pos)
    \<lparr>proof_height = h, merkle = proof_of N n txids pos, proof_pos = pos\<rparr> header h = Inr ()"
  using assms proof_walks [OF assms(1,2), of N] by (simp add: verify_proof_def length_proof_of)






section \<open>The bounds of a scan\<close>

definition within_limits :: "http \<Rightarrow> http \<Rightarrow> bool" where
  "within_limits h h' \<longleftrightarrow> h_requests h \<le> h_requests h' \<and> (h_requests h \<le> MAX_REQUESTS \<longrightarrow> h_requests h' \<le> MAX_REQUESTS)
     \<and> h_endpoint h' = h_endpoint h \<and> (h_total h \<le> MAX_TOTAL \<longrightarrow> h_total h' \<le> MAX_TOTAL)"

lemma within_refl [simp]: "within_limits h h"
  by (simp add: within_limits_def)

lemma within_trans: "within_limits a b \<Longrightarrow> within_limits b c \<Longrightarrow> within_limits a c"
  by (auto simp: within_limits_def)

lemma http_within:
  assumes "http_bytes net path limit h = Inr (bs, h')"
  shows "within_limits h h'" and "h_requests h < h_requests h'"
  using http_bytes_Inr [OF assms] by (auto simp: within_limits_def)

lemma requests_within:
  "http_text net path limit h = Inr (s, h') \<Longrightarrow> within_limits h h'"
  "http_json net decode path h = Inr (v, h') \<Longrightarrow> within_limits h h'"
  "http_hash T net height h = Inr (b, h') \<Longrightarrow> within_limits h h'"
  "tip_of net h = Inr (n, h') \<Longrightarrow> within_limits h h'"
  by (auto simp: tip_of_def result_simps dest!: http_text_Inr http_json_Inr http_hash_Inr intro: http_within(1))

lemma page_entries_bounded:
  assumes "rfold page_entry page (seen, history) = Inr (seen', history')"
    and "length history \<le> MAX_TXS"
  shows "length history' \<le> MAX_TXS"
proof -
  have "length (snd (seen', history')) \<le> MAX_TXS"
    by (rule rfold_invariant [where P = "\<lambda>st. length (snd st) \<le> MAX_TXS", OF assms(1)])
      (use assms(2) in \<open>auto simp: page_entry_def Let_def split: prod.splits if_splits\<close>)
  then show ?thesis by simp
qed

lemma page_loop_bounds:
  assumes "page_loop B N net script path seen active history h = Inr (active', history', h')"
    and "length history \<le> MAX_TXS"
  shows "within_limits h h' \<and> h_requests h < h_requests h' \<and> length history' \<le> MAX_TXS"
  using assms
proof (induction B N net script path seen active history h rule: page_loop.induct)
  case (1 B N net script path seen active history h)
  from 1(2) obtain page h1 where j: "http_json net (decode_history N) path h = Inr (page, h1)"
    by (subst (asm) page_loop.simps) (auto simp: result_simps)
  let ?confirmed = "confirmed_entries page"
  from 1(2) j obtain seen1 history1 where lim: "\<not> (50 \<le> length page - length ?confirmed \<or> 25 < length ?confirmed)"
    and f: "rfold page_entry page (seen, history) = Inr (seen1, history1)"
    by (subst (asm) page_loop.simps) (auto simp: Let_def result_simps)
  have w: "within_limits h h1" "h_requests h < h_requests h1"
    using j by (auto dest!: http_json_Inr intro: http_within)
  note b = page_entries_bounded [OF f 1(3)]
  show ?case
  proof (cases "length ?confirmed < 25")
    case True
    then have "history' = history1" "h' = h1"
      using 1(2) lim by (subst (asm) page_loop.simps, simp add: j f)+
    then show ?thesis using w b by simp
  next
    case False
    then have rec: "page_loop B N net script (''/scripthash/'' @ script @ ''/txs/chain/'' @ show_hash B (he_txid (last ?confirmed)))
        seen1 (active \<or> page \<noteq> []) history1 h1 = Inr (active', history', h')"
      using 1(2) lim by (subst (asm) page_loop.simps) (simp add: j f)
    have "within_limits h1 h' \<and> h_requests h1 < h_requests h' \<and> length history' \<le> MAX_TXS"
      using 1(1) [OF j refl refl lim f refl False rec b] by blast
    then show ?thesis using w within_trans by fastforce
  qed
qed

text \<open>The gap counter: the number of scripts since the last one with a history.\<close>

definition gap_at :: "keychain \<Rightarrow> scan_state \<Rightarrow> nat \<Rightarrow> nat \<Rightarrow> bool" where
  "gap_at k s index gap \<longleftrightarrow>
     (case map_of (sc_active s) k of None \<Rightarrow> gap = index | Some i \<Rightarrow> i + gap + 1 = index)"

lemma script_loop_bounds:
  assumes "script_loop B N net phase_at w k gap index n s = Inr (complete, s')"
    and "length (sc_history s) \<le> MAX_TXS" and "gap_at k s index gap"
  shows "within_limits (sc_http s) (sc_http s') \<and> length (sc_history s') \<le> MAX_TXS
    \<and> (complete \<longrightarrow> (\<exists>stop gap'. index \<le> stop \<and> stop < index + n \<and> sc_scanned s' = sc_scanned s + (stop + 1 - index)
          \<and> GAP \<le> gap' \<and> gap_at k s' (stop + 1) gap'
          \<and> (case derivation_index N w k of None \<Rightarrow> 0 | Some i \<Rightarrow> i) + (GAP - 1) \<le> stop))"
  using assms
proof (induction B N net phase_at w k gap index n s rule: script_loop.induct)
  case (2 B N net phase_at w k gap index n s)
  let ?script = "script_hash N (script_at N w k index)"
  from 2(2) obtain active history h where
    p: "page_loop B N net ?script (''/scripthash/'' @ ?script @ ''/txs'') [] False (sc_history s) (sc_http s) = Inr (active, history, h)"
    unfolding script_loop.simps Let_def rbind_Inr_iff by fast
  note b = page_loop_bounds [OF p 2(3)]
  define gap1 where "gap1 = (if active then 0 else gap + 1)"
  define s1 where "s1 = s\<lparr>sc_http := h, sc_history := history,
      sc_active := (if active then tbl_upsert k index (sc_active s) else sc_active s)\<rparr>"
  define s2 where "s2 = s1\<lparr>sc_scanned := sc_scanned s1 + 1\<rparr>"
  let ?stop = "GAP \<le> gap1 \<and> (case derivation_index N w k of None \<Rightarrow> 0 | Some i \<Rightarrow> i) + (GAP - 1) \<le> index"
  from 2(2) have c: "check_operation phase_at (sc_scanned s1) = Inr ()"
    and rest: "(if ?stop then Inr (True, s2) else script_loop B N net phase_at w k gap1 (index + 1) n s2) = Inr (complete, s')"
    unfolding script_loop.simps Let_def p rbind_simps prod.case gap1_def s1_def s2_def rbind_Inr_iff by simp_all
  have g: "gap_at k s2 (index + 1) gap1"
    using 2(4) by (auto simp: gap_at_def gap1_def s2_def s1_def map_of_upsert split: option.splits)
  have f: "sc_scanned s2 = sc_scanned s + 1" "sc_http s2 = h" "sc_history s2 = history"
    by (simp_all add: s2_def s1_def)
  show ?case
  proof (cases ?stop)
    case True
    then have "s' = s2" "complete" using rest by simp_all
    moreover have "\<exists>stop gap'. index \<le> stop \<and> stop < index + Suc n \<and> sc_scanned s2 = sc_scanned s + (stop + 1 - index)
          \<and> GAP \<le> gap' \<and> gap_at k s2 (stop + 1) gap'
          \<and> (case derivation_index N w k of None \<Rightarrow> 0 | Some i \<Rightarrow> i) + (GAP - 1) \<le> stop"
      by (rule exI [of _ index], rule exI [of _ gap1]) (use True g f in simp)
    ultimately show ?thesis using b f by simp
  next
    case False
    then have r: "script_loop B N net phase_at w k gap1 (index + 1) n s2 = Inr (complete, s')"
      using rest by (simp only: if_False)
    have ih: "within_limits (sc_http s2) (sc_http s') \<and> length (sc_history s') \<le> MAX_TXS
      \<and> (complete \<longrightarrow> (\<exists>stop gap'. index + 1 \<le> stop \<and> stop < index + 1 + n \<and> sc_scanned s' = sc_scanned s2 + (stop + 1 - (index + 1))
          \<and> GAP \<le> gap' \<and> gap_at k s' (stop + 1) gap'
          \<and> (case derivation_index N w k of None \<Rightarrow> 0 | Some i \<Rightarrow> i) + (GAP - 1) \<le> stop))"
      by (rule "2.IH" [OF refl p refl refl gap1_def s1_def c s2_def False r _ g]) (use b f in simp)
    moreover have "\<exists>stop gap'. index \<le> stop \<and> stop < index + Suc n \<and> sc_scanned s' = sc_scanned s + (stop + 1 - index)
          \<and> GAP \<le> gap' \<and> gap_at k s' (stop + 1) gap'
          \<and> (case derivation_index N w k of None \<Rightarrow> 0 | Some i \<Rightarrow> i) + (GAP - 1) \<le> stop" if complete
    proof -
      from ih that obtain stop gap' where "index + 1 \<le> stop" "stop < index + 1 + n"
        "sc_scanned s' = sc_scanned s2 + (stop + 1 - (index + 1))" "GAP \<le> gap'" "gap_at k s' (stop + 1) gap'"
        "(case derivation_index N w k of None \<Rightarrow> 0 | Some i \<Rightarrow> i) + (GAP - 1) \<le> stop"
        by blast
      then show ?thesis by (intro exI [of _ stop] exI [of _ gap']) (simp add: f)
    qed
    ultimately show ?thesis using b f within_trans by simp blast
  qed
qed simp

text \<open>
  C32. A keychain is scanned within bounds and far enough. When the scan of a keychain succeeds it
  looked at no more than 2000 scripts, made no more than 20000 requests, read no more than 64 MB
  and kept no more than 5000 transactions; it ended at an index at least 19 past the newest address
  the wallet has revealed, and at least 20 scripts past the last one with a history.
\<close>

theorem scan_gap_limit:
  assumes "keychain_scan B N net phase_at w k s = Inr s'"
    and "map_of (sc_active s) k = None" and "length (sc_history s) \<le> 5000"
    and "h_requests (sc_http s) \<le> 20000" and "h_total (sc_http s) \<le> 64000000"
  shows "h_requests (sc_http s') \<le> 20000 \<and> h_total (sc_http s') \<le> 64000000 \<and> length (sc_history s') \<le> 5000
    \<and> (\<exists>stop < 2000. sc_scanned s' = sc_scanned s + stop + 1
         \<and> (\<forall>i. derivation_index N w k = Some i \<longrightarrow> i + 19 \<le> stop) \<and> 19 \<le> stop
         \<and> (\<forall>i. map_of (sc_active s') k = Some i \<longrightarrow> i + 20 \<le> stop))"
proof -
  have l: "script_loop B N net phase_at w k 0 0 MAX_SCRIPTS s = Inr (True, s')"
    using assms(1) by (auto simp: keychain_scan_def result_simps)
  have "gap_at k s 0 0" using assms(2) by (simp add: gap_at_def)
  note b = script_loop_bounds [OF l _ this]
  have "length (sc_history s) \<le> MAX_TXS" using assms(3) by (simp add: MAX_TXS_def)
  then have w: "within_limits (sc_http s) (sc_http s')" "length (sc_history s') \<le> 5000"
    and "\<exists>stop gap'. stop < 2000 \<and> sc_scanned s' = sc_scanned s + (stop + 1) \<and> 20 \<le> gap'
      \<and> gap_at k s' (stop + 1) gap' \<and> (case derivation_index N w k of None \<Rightarrow> 0 | Some i \<Rightarrow> i) + 19 \<le> stop"
    using b by (auto simp: MAX_TXS_def GAP_def MAX_SCRIPTS_def)
  then obtain stop gap' where stop: "stop < 2000" "sc_scanned s' = sc_scanned s + (stop + 1)" "20 \<le> gap'"
    "gap_at k s' (stop + 1) gap'" "(case derivation_index N w k of None \<Rightarrow> 0 | Some i \<Rightarrow> i) + 19 \<le> stop"
    by blast
  have "i + 19 \<le> stop" if "derivation_index N w k = Some i" for i using stop(5) that by simp
  moreover have "19 \<le> stop" using stop(5) by (auto split: option.splits)
  moreover have "i + 20 \<le> stop" if "map_of (sc_active s') k = Some i" for i
    using stop(3,4) that by (simp add: gap_at_def)
  ultimately show ?thesis
    using w assms(4,5) stop(1,2) by (auto simp: within_limits_def MAX_REQUESTS_def MAX_TOTAL_def)
qed

section \<open>What a scan vouches for\<close>

text \<open>A confirmed transaction of the update: in the fetched chain, and proved by a header of it.\<close>

definition proved :: "('w, 'cs) chain \<Rightarrow> nat \<Rightarrow> (nat, byte list) table \<Rightarrow> anchor \<times> byte list \<Rightarrow> bool" where
  "proved N tip blocks = (\<lambda>(a, txid). an_height a \<le> tip \<and> map_of blocks (an_height a) = Some (an_hash a)
     \<and> (\<exists>header pr. header_hash N header = an_hash a \<and> header_time header = an_time a
          \<and> verify_proof N txid pr header (an_height a) = Inr ()))"

definition blocks_extend :: "(nat, byte list) table \<Rightarrow> (nat, byte list) table \<Rightarrow> bool" where
  "blocks_extend b b' \<longleftrightarrow> (\<forall>h x. map_of b h = Some x \<longrightarrow> map_of b' h = Some x)"

lemma proved_extend: "proved N tip b x \<Longrightarrow> blocks_extend b b' \<Longrightarrow> proved N tip b' x"
  by (auto simp: proved_def blocks_extend_def split: prod.splits)

definition fetched_ok :: "bitcoin \<Rightarrow> ('w, 'cs) chain \<Rightarrow> nat \<Rightarrow> fetch_state \<Rightarrow> bool" where
  "fetched_ok B N tip s \<longleftrightarrow> (\<forall>hash header. map_of (fe_headers s) hash = Some header \<longrightarrow> header_hash N header = hash)
     \<and> (\<forall>x \<in> set (anchors (fe_update s)). proved N tip (fe_blocks s) x
          \<and> snd x \<in> set (map (compute_txid B) (up_txs (fe_update s))))"

lemma fetch_block_Inr:
  assumes "fetch_block T net height s = Inr s'"
  shows "blocks_extend (fe_blocks s) (fe_blocks s') \<and> fe_headers s' = fe_headers s \<and> fe_update s' = fe_update s"
  using assms
  by (auto simp: fetch_block_def result_simps blocks_extend_def map_of_upsert has_key_iff map_of_Some_key split: if_splits)

lemma fetch_header_Inr:
  assumes "fetch_header T N net hash s = Inr (header, s')"
    and "\<forall>hash header. map_of (fe_headers s) hash = Some header \<longrightarrow> header_hash N header = hash"
  shows "header_hash N header = hash \<and> fe_blocks s' = fe_blocks s \<and> fe_update s' = fe_update s
    \<and> (\<forall>hash header. map_of (fe_headers s') hash = Some header \<longrightarrow> header_hash N header = hash)"
  using assms by (auto simp: fetch_header_def result_simps map_of_upsert split: option.splits if_splits)

lemma anchor_tx_Inr:
  assumes "anchor_tx B T N net tip txid status s = Inr s'"
    and "\<forall>hash header. map_of (fe_headers s) hash = Some header \<longrightarrow> header_hash N header = hash"
  shows "blocks_extend (fe_blocks s) (fe_blocks s')
    \<and> (\<forall>hash header. map_of (fe_headers s') hash = Some header \<longrightarrow> header_hash N header = hash)
    \<and> (\<exists>a. proved N tip (fe_blocks s') (a, txid)
         \<and> fe_update s' = (fe_update s)\<lparr>anchors := anchors (fe_update s) @ [(a, txid)]\<rparr>)"
proof -
  obtain h hash s1 header s2 pr client where st: "block_height status = Some h" "block_hash status = Some hash" "h \<le> tip"
    and b: "fetch_block T net h s = Inr s1" "map_of (fe_blocks s1) h = Some hash"
    and f: "fetch_header T N net hash s1 = Inr (header, s2)"
    and v: "verify_proof N txid pr header h = Inr ()"
    and s': "s' = s2\<lparr>fe_http := client, fe_update := (fe_update s2)\<lparr>anchors := anchors (fe_update s2)
        @ [(\<lparr>an_height = h, an_hash = hash, an_time = header_time header\<rparr>, txid)]\<rparr>\<rparr>"
    using assms(1) by (auto simp: anchor_tx_def result_simps Let_def not_less)
  note b' = fetch_block_Inr [OF b(1)]
  have "\<forall>hash header. map_of (fe_headers s1) hash = Some header \<longrightarrow> header_hash N header = hash"
    using assms(2) b' by simp
  note f' = fetch_header_Inr [OF f this]
  have "proved N tip (fe_blocks s') (\<lparr>an_height = h, an_hash = hash, an_time = header_time header\<rparr>, txid)"
    using st b(2) f' v by (auto simp: proved_def s')
  then show ?thesis using b' f' by (auto simp: s')
qed

lemma blocks_extend_trans: "blocks_extend a b \<Longrightarrow> blocks_extend b c \<Longrightarrow> blocks_extend a c"
  by (simp add: blocks_extend_def)

lemma fetch_tx_Inr:
  assumes "fetch_tx B T N net tip at x s = Inr s'" and "fetched_ok B N tip s"
  shows "fetched_ok B N tip s' \<and> blocks_extend (fe_blocks s) (fe_blocks s')"
proof -
  obtain txid status where x: "x = (txid, status)" by (cases x)
  obtain raw h tx where raw: "http_bytes net (''/tx/'' @ show_hash B txid @ ''/raw'') MAX_BODY (fe_http s) = Inr (raw, h)"
    and tx: "tx_deserialize B raw = Some tx" and t: "compute_txid B tx = txid"
    using assms(1) by (auto simp: x fetch_tx_def Let_def result_simps)
  obtain s1 where
    step: "(if st_confirmed status then anchor_tx B T N net tip txid status (s\<lparr>fe_http := h\<rparr>)
              else if block_hash status \<noteq> None \<or> block_height status \<noteq> None then Inl SyncFailed
              else Inr (s\<lparr>fe_http := h, fe_update := (fe_update s)\<lparr>seen_ats := seen_ats (fe_update s) @ [(txid, at)]\<rparr>\<rparr>)) = Inr s1"
    and s': "s' = s1\<lparr>fe_update := (fe_update s1)\<lparr>up_txs := up_txs (fe_update s1) @ [tx]\<rparr>\<rparr>"
    using assms(1) unfolding x fetch_tx_def prod.case raw rbind_simps tx ok_or_simps Let_def t
    by (simp add: rbind_Inr_iff cong: if_cong) blast
  have headers: "\<forall>hash header. map_of (fe_headers s) hash = Some header \<longrightarrow> header_hash N header = hash"
    and old: "\<forall>x \<in> set (anchors (fe_update s)). proved N tip (fe_blocks s) x \<and> snd x \<in> set (map (compute_txid B) (up_txs (fe_update s)))"
    using assms(2) by (simp_all add: fetched_ok_def)
  show ?thesis
  proof (cases "st_confirmed status")
    case False
    then show ?thesis
      using step headers old by (fastforce simp: s' fetched_ok_def blocks_extend_def split: if_splits)
  next
    case True
    then have "anchor_tx B T N net tip txid status (s\<lparr>fe_http := h\<rparr>) = Inr s1" using step by simp
    from anchor_tx_Inr [OF this] headers obtain a where b: "blocks_extend (fe_blocks s) (fe_blocks s1)"
      and hd: "\<forall>hash header. map_of (fe_headers s1) hash = Some header \<longrightarrow> header_hash N header = hash"
      and pr: "proved N tip (fe_blocks s1) (a, txid)"
      and u: "fe_update s1 = (fe_update s)\<lparr>anchors := anchors (fe_update s) @ [(a, txid)]\<rparr>"
      by auto
    have "proved N tip (fe_blocks s1) x" if "x \<in> set (anchors (fe_update s))" for x
      using old that proved_extend [OF _ b] by blast
    then show ?thesis using hd pr b old t by (auto simp: s' fetched_ok_def u)
  qed
qed

lemma known_blocks_extend:
  assumes "rfold (known_block T net tip) hs (b, h) = Inr (b', h')"
  shows "blocks_extend b b'"
proof -
  have "blocks_extend b (fst (b', h'))"
  proof (rule rfold_invariant [where P = "\<lambda>st. blocks_extend b (fst st)", OF assms])
    fix x u v assume "blocks_extend b (fst u)" and "known_block T net tip x u = Inr v"
    then show "blocks_extend b (fst v)"
      by (cases u) (auto simp: known_block_def result_simps blocks_extend_def map_of_upsert has_key_iff map_of_Some_key
          split: if_splits)
  qed (simp add: blocks_extend_def)
  then show ?thesis by simp
qed

text \<open>
  C11. A scan vouches only for what it has checked. Every confirmed transaction it reports is among
  the transactions it returns, lies in a block of the fetched chain not above the tip, and has a
  merkle proof that verifies against a header whose hash is that block's and whose time is the
  reported one; the chain contains the tip, and the genesis block of the wallet's network.
\<close>

theorem scan_proves_confirmations:
  assumes "scan B W T N net phase_at e w observed_at = Inr r"
  shows "\<exists>tip hash. map_of (sr_blocks r) tip = Some hash
    \<and> (0 < tip \<longrightarrow> map_of (sr_blocks r) 0 = Some (genesis_hash T (wallet_network W w)))
    \<and> (\<forall>(a, txid) \<in> set (anchors (sr_update r)).
         (\<exists>tx \<in> set (up_txs (sr_update r)). compute_txid B tx = txid)
         \<and> an_height a \<le> tip \<and> map_of (sr_blocks r) (an_height a) = Some (an_hash a)
         \<and> (\<exists>header pr. header_hash N header = an_hash a \<and> header_time header = an_time a
              \<and> verify_proof N txid pr header (an_height a) = Inr ()))"
proof -
  let ?genesis = "genesis_hash T (wallet_network W w)"
  obtain tip hash blocks h0 h1 f and s :: scan_state where
    k: "rfold (known_block T net tip) (checkpoints N w) (tbl_upsert tip hash [(0, ?genesis)], h0) = Inr (blocks, h1)"
    and f: "rfold (fetch_tx B T N net tip observed_at) (sort_key fst (sc_history s))
        \<lparr>fe_http = sc_http s, fe_blocks = blocks, fe_headers = [], fe_update = empty_update\<lparr>last_active := sc_active s\<rparr>\<rparr> = Inr f"
    and r: "sr_blocks r = fe_blocks f" "anchors (sr_update r) = anchors (fe_update f)"
      "up_txs (sr_update r) = up_txs (fe_update f)"
    using assms unfolding scan_def Let_def
    by (auto simp: result_simps simp del: rfold.simps)
  let ?ok = "\<lambda>f. fetched_ok B N tip f \<and> blocks_extend blocks (fe_blocks f)"
  have "?ok f"
  proof (rule rfold_invariant [where P = ?ok, OF f])
    show "?ok \<lparr>fe_http = sc_http s, fe_blocks = blocks, fe_headers = [],
        fe_update = empty_update\<lparr>last_active := sc_active s\<rparr>\<rparr>"
      by (simp add: fetched_ok_def empty_update_def blocks_extend_def)
  qed (use fetch_tx_Inr blocks_extend_trans in blast)
  moreover have "blocks_extend (tbl_upsert tip hash [(0, ?genesis)]) (fe_blocks f)"
    using known_blocks_extend [OF k] calculation blocks_extend_trans by blast
  moreover have "map_of (tbl_upsert tip hash [(0, ?genesis)]) tip = Some hash"
    "0 < tip \<Longrightarrow> map_of (tbl_upsert tip hash [(0, ?genesis)]) 0 = Some ?genesis"
    by (simp_all add: map_of_upsert)
  ultimately show ?thesis
    by (intro exI [of _ tip] exI [of _ hash]) (fastforce simp: r fetched_ok_def proved_def blocks_extend_def)
qed

section \<open>What applying a scan leaves behind\<close>

lemma label_output_frame:
  "label_output W wid review w txid x db = Inr db' \<Longrightarrow> drafts db' = drafts db \<and> reservations db' = reservations db \<and> sync_state db' = sync_state db"
  by (cases x) (auto simp: label_output_def sql_ignore_provenance_def sql_ignore_label_def Let_def result_simps split: if_splits)

lemma apply_observed_labels_frame:
  assumes "apply_observed_labels B W wid review w info db = Inr db'"
  shows "drafts db' = drafts db \<and> reservations db' = reservations db \<and> sync_state db' = sync_state db"
proof -
  obtain n db1 where m: "sql_ignore_marker wid (dv_id review) db = Inr (n, db1)"
    using assms by (auto simp: apply_observed_labels_def result_simps)
  have 1: "drafts db1 = drafts db \<and> reservations db1 = reservations db \<and> sync_state db1 = sync_state db"
    using m by (auto simp: sql_ignore_marker_def result_simps)
  show ?thesis
  proof (cases "n = 0")
    case True
    then show ?thesis using assms 1 by (simp add: apply_observed_labels_def m)
  next
    case False
    obtain found :: wallet_tx and db2 where
      l: "(if dv_label review = [] then Inr db1 else sql_ignore_label wid ''tx'' (bi_txid info) (dv_label review) db1) = Inr db2"
      and f: "rfold (label_output W wid review w (bi_txid info)) (enumerate 0 (tx_output (wt_tx found))) db2 = Inr db'"
      using assms unfolding apply_observed_labels_def m rbind_simps case_prod_conv rbind_Inr_iff if_not_P [OF False]
      by (elim exE conjE) (rule that)
    have 2: "drafts db2 = drafts db1 \<and> reservations db2 = reservations db1 \<and> sync_state db2 = sync_state db1"
      using l by (auto simp: sql_ignore_label_def result_simps split: if_splits)
    have "drafts db' = drafts db2 \<and> reservations db' = reservations db2 \<and> sync_state db' = sync_state db2"
      by (rule rfold_invariant [where P = "\<lambda>u. drafts u = drafts db2 \<and> reservations u = reservations db2 \<and> sync_state u = sync_state db2", OF f])
        (auto dest: label_output_frame)
    then show ?thesis using 1 2 by simp
  qed
qed

text \<open>
  After a step for one draft: its review is closed and nothing is reserved for it, or every input
  of it is still eligible. The draft's review is stored under its own id.
\<close>

definition settled :: "string list \<Rightarrow> 'cs db \<Rightarrow> string \<Rightarrow> string \<Rightarrow> bool" where
  "settled eligible db wid d \<longleftrightarrow> (\<exists>row r. map_of (drafts db) (wid, d) = Some row \<and> d_review row = Some r
     \<and> ((\<forall>i \<in> set (dv_inputs r). ri_outpoint i \<in> set eligible)
        \<or> dv_state r \<in> {''observed'', ''invalidated''} \<and> (\<forall>op. ((wid, op), d) \<notin> set (reservations db))))"

lemma invalidate_draft_Inr:
  assumes "invalidate_draft B W wid w (d, row) db = Inr db'"
    and "map_of (drafts db) (wid, d) = Some row" and "\<And>r. d_review row = Some r \<Longrightarrow> dv_id r = d"
  shows "settled (eligible_coins B W w) db' wid d
    \<and> (\<forall>k. snd k \<noteq> d \<longrightarrow> map_of (drafts db') k = map_of (drafts db) k)
    \<and> set (reservations db') \<subseteq> set (reservations db) \<and> sync_state db' = sync_state db"
proof -
  obtain r seen db1 where r: "d_review row = Some r" and o: "observe_draft B W wid r w db = Inr (seen, db1)"
    and rest: "db' = (if seen then db1
      else if dv_state r = ''observed'' \<or> list_ex (\<lambda>i. \<not> List.member (eligible_coins B W w) (ri_outpoint i)) (dv_inputs r)
        then sql_release wid d (sql_set_review_by_id d (r\<lparr>dv_state := ''invalidated''\<rparr>) db1)
      else db1)"
    using assms(1) by (auto simp: invalidate_draft_def result_simps split: if_splits)
  have d: "dv_id r = d" by (rule assms(3) [OF r])
  show ?thesis
  proof (cases seen)
    case False
    then have "db1 = db"
      using o by (auto simp: observe_draft_def result_simps split: option.splits if_splits)
    then show ?thesis
      using rest False r assms(2)
      by (auto simp: settled_def sql_release_def sql_set_review_by_id_def map_of_update list_ex_iff List.member_iff
          split: if_splits)
  next
    case True
    then obtain info db2 where a: "apply_observed_labels B W wid r w info db = Inr db2"
      and db1: "db1 = sql_release wid d (sql_set_review wid d (r\<lparr>dv_state := ''observed''\<rparr>) (sql_delete_recovered wid d db2))"
      using o by (auto simp: observe_draft_def result_simps d split: option.splits if_splits)
    have "db' = db1" using rest True by simp
    then show ?thesis
      using apply_observed_labels_frame [OF a] assms(2)
      by (auto simp: db1 settled_def sql_release_def sql_set_review_def sql_delete_recovered_def map_of_update)
  qed
qed

lemma settled_other:
  assumes "settled eligible db wid d" and "map_of (drafts db') (wid, d) = map_of (drafts db) (wid, d)"
    and "set (reservations db') \<subseteq> set (reservations db)"
  shows "settled eligible db' wid d"
  using assms by (fastforce simp: settled_def)

lemma invalidate_drafts_settle:
  assumes "rfold (invalidate_draft B W wid w) xs db = Inr db'" and "distinct (map fst xs)"
    and "\<forall>(d, row) \<in> set xs. map_of (drafts db) (wid, d) = Some row \<and> (\<forall>r. d_review row = Some r \<longrightarrow> dv_id r = d)"
  shows "(\<forall>d \<in> fst ` set xs. settled (eligible_coins B W w) db' wid d)
    \<and> (\<forall>k. snd k \<notin> fst ` set xs \<longrightarrow> map_of (drafts db') k = map_of (drafts db) k)
    \<and> set (reservations db') \<subseteq> set (reservations db) \<and> sync_state db' = sync_state db"
  using assms
proof (induction xs arbitrary: db)
  case (Cons x xs)
  obtain d row where x: "x = (d, row)" by (cases x)
  obtain db1 where s: "invalidate_draft B W wid w (d, row) db = Inr db1"
    and f: "rfold (invalidate_draft B W wid w) xs db1 = Inr db'"
    using Cons.prems(1) by (auto simp: x result_simps)
  have "map_of (drafts db) (wid, d) = Some row" "\<And>r. d_review row = Some r \<Longrightarrow> dv_id r = d"
    using Cons.prems(3) by (auto simp: x)
  note step = invalidate_draft_Inr [OF s this]
  have new: "d \<notin> fst ` set xs" using Cons.prems(2) by (auto simp: x)
  have "map_of (drafts db1) (wid, e) = Some row' \<and> (\<forall>r. d_review row' = Some r \<longrightarrow> dv_id r = e)"
    if m: "(e, row') \<in> set xs" for e row'
  proof -
    have "e \<noteq> d" using new m by force
    then have "map_of (drafts db1) (wid, e) = map_of (drafts db) (wid, e)" using step by simp
    then show ?thesis using bspec [OF Cons.prems(3), of "(e, row')"] m by simp
  qed
  then have "\<forall>(e, row) \<in> set xs. map_of (drafts db1) (wid, e) = Some row \<and> (\<forall>r. d_review row = Some r \<longrightarrow> dv_id r = e)"
    by blast
  note ih = Cons.IH [OF f _ this]
  have "distinct (map fst xs)" using Cons.prems(2) by simp
  note ih = ih [OF this]
  have "settled (eligible_coins B W w) db' wid d"
    by (rule settled_other [of _ db1]) (use step ih new in auto)
  then show ?case using step ih by (auto simp: x)
qed simp

text \<open>
  C18. Applying a scan leaves no draft of the wallet alive on a coin that is gone. The scan must
  still fit the stored state and revision it was started from; then the revision advances by one,
  the wallet counts as synchronized at the observation, and every stored draft either has only
  inputs that are eligible in the updated wallet, or is closed with nothing reserved for it.
\<close>

theorem apply_scan_settles_drafts:
  assumes "apply_scan B W N wid snap observed_at result db = Inr ((), db')" and "wf_db db"
    and "\<And>d row r. map_of (drafts db) (wid, d) = Some row \<Longrightarrow> d_review row = Some r \<Longrightarrow> dv_id r = d"
  shows "\<exists>l w w0. load W db wid = Inr l \<and> revision db wid = sn_revision snap \<and> state_text N (l_state l) = sn_serialized snap
    \<and> apply_update N (sr_update result) w0 = Some w
    \<and> map_of (sync_state db') wid = Some (revision db wid + 1, sn_endpoint snap)
    \<and> (\<forall>row. map_of (wallets db') wid = Some row \<longrightarrow> w_synced_at row = Some observed_at)
    \<and> (\<forall>d. (wid, d) \<in> keys (drafts db) \<longrightarrow> settled (eligible_coins B W w) db' wid d)"
proof -
  obtain l w0 w db1 db2 where l: "load W db wid = Inr l" "revision db wid = sn_revision snap" "state_text N (l_state l) = sn_serialized snap"
    and w: "apply_update N (sr_update result) w0 = Some w"
    and i: "invalidate_drafts B W wid w db = Inr db1"
    and db2: "db2 = sql_set_synced wid observed_at
        (save W wid (l\<lparr>l_wallet := w, l_state := set_blocks N (sr_blocks result) (l_state l)\<rparr>) db1)"
    and u: "sql_upsert_sync wid (revision db2 wid + 1) (sn_endpoint snap) db2 = Inr db'"
    using assms(1) unfolding apply_scan_def Let_def rbind_Inr_iff if_Inl_Inr_iff ok_or_Inr_iff
    by (elim exE conjE) (rule that, auto)
  let ?xs = "map (\<lambda>((_, d), row). (d, row)) (filter (\<lambda>r. fst (fst r) = wid) (drafts db))"
  have lookup: "map_of (drafts db) (wid, d) = Some row" if "((wid, d), row) \<in> set (drafts db)" for d row
    using assms(2) that by (simp add: wf_db_def unique_map_of)
  have "map fst ?xs = map (\<lambda>r. snd (fst r)) (filter (\<lambda>r. fst (fst r) = wid) (drafts db))"
    by (simp add: comp_def split_def)
  moreover have "distinct (map (\<lambda>r. snd (fst r)) (filter (\<lambda>r. fst (fst r) = wid) (drafts db)))"
    using assms(2) by (simp add: wf_db_def unique_ids_def distinct_map_filter)
  ultimately have distinct: "distinct (map fst ?xs)" by (simp only:)
  have rows: "\<forall>(d, row) \<in> set ?xs. map_of (drafts db) (wid, d) = Some row \<and> (\<forall>r. d_review row = Some r \<longrightarrow> dv_id r = d)"
    using lookup assms(3) by fastforce
  have settled: "\<forall>d \<in> fst ` set ?xs. settled (eligible_coins B W w) db1 wid d"
    using invalidate_drafts_settle [OF i [unfolded invalidate_drafts_def] distinct rows] by blast
  have "settled (eligible_coins B W w) db1 wid d" if key: "(wid, d) \<in> keys (drafts db)" for d
  proof -
    obtain row where "((wid, d), row) \<in> set (drafts db)" using key by (auto simp: keys_def)
    then have "d \<in> fst ` set ?xs" by force
    then show ?thesis using settled by blast
  qed
  moreover have "settled E db' wid d" if "settled E db1 wid d" for E d
    by (rule settled_other [OF that])
      (use u in \<open>auto simp: db2 sql_upsert_sync_def sql_set_synced_def save_def sql_set_state_def split: if_splits\<close>)
  moreover have "revision db2 wid = revision db wid"
    using invalidate_drafts_settle [OF i [unfolded invalidate_drafts_def] distinct rows]
    by (simp add: revision_def db2 sql_set_synced_def save_def sql_set_state_def)
  then have "map_of (sync_state db') wid = Some (revision db wid + 1, sn_endpoint snap)"
    using u by (auto simp: sql_upsert_sync_def map_of_upsert split: if_splits)
  moreover have "w_synced_at row = Some observed_at" if "map_of (wallets db') wid = Some row" for row
    using u that by (auto simp: db2 sql_upsert_sync_def sql_set_synced_def map_of_update split: if_splits)
  ultimately show ?thesis using l w by blast
qed

section \<open>A sample chain\<close>

text \<open>A server that answers everything with a zero: no history anywhere, the tip is the genesis block.\<close>

definition sample_chain :: "(nat, nat) chain" where
  "sample_chain = \<lparr>state_text = (\<lambda>_. []), set_blocks = (\<lambda>_ s. s), apply_update = (\<lambda>_ w. Some w), checkpoints = (\<lambda>_. [0]),
     script_at = (\<lambda>_ _ _. []), derivation_index = (\<lambda>_ _. None), script_hash = (\<lambda>_. []),
     sha256d = (\<lambda>_. replicate 32 0), decode_history = (\<lambda>_. Some []), decode_proof = (\<lambda>_. None),
     decode_header = (\<lambda>_. None), header_hash = merkle_root\<rparr>"

lemma sample_chain_simps [simp]:
  "state_text sample_chain = (\<lambda>_. [])" "set_blocks sample_chain = (\<lambda>_ s. s)" "apply_update sample_chain = (\<lambda>_ w. Some w)"
  "checkpoints sample_chain = (\<lambda>_. [0])" "script_hash sample_chain = (\<lambda>_. [])" "derivation_index sample_chain = (\<lambda>_ _. None)"
  "sha256d sample_chain = (\<lambda>_. replicate 32 0)" "decode_history sample_chain = (\<lambda>_. Some [])"
  by (simp_all add: sample_chain_def)

definition zero_network :: network_answers where
  "zero_network = (\<lambda>_ _. Some \<lparr>status_success = True, content_length = None, body_chunks = [Some (bytes_of ''0'')]\<rparr>)"

definition zero_web :: web where
  "zero_web = \<lparr>parse_url = (\<lambda>_. None), parse_block_hash = (\<lambda>s. if s = ''0'' then Some [0] else None),
     show_block_hash = (\<lambda>_. ''0''), genesis_hash = (\<lambda>_. [0]), lower_hex = (\<lambda>_. []), from_hex = (\<lambda>_. None)\<rparr>"

definition advance :: "nat \<Rightarrow> http \<Rightarrow> http" where
  "advance n h = h\<lparr>h_requests := h_requests h + n, h_total := h_total h + n\<rparr>"

definition room :: "nat \<Rightarrow> http \<Rightarrow> bool" where
  "room n h \<longleftrightarrow> h_requests h + n \<le> 20000 \<and> h_total h + n \<le> 64000000"

lemma zero_bytes:
  assumes "room 1 h" and "0 < limit"
  shows "http_bytes zero_network path limit h = Inr (bytes_of ''0'', advance 1 h)"
  using assms by (simp add: http_bytes_def zero_network_def room_def advance_def MAX_REQUESTS_def MAX_TOTAL_def bytes_of_def)

lemma parse_zero: "parse_u32 ''0'' = Some 0"
  by (simp add: parse_u32_def parse_u64_def all_digits_def is_digit_def digits_val_def u64_bound_def)

lemma zero_requests:
  assumes "room 1 h"
  shows "0 < limit \<Longrightarrow> http_text zero_network path limit h = Inr (''0'', advance 1 h)"
    and "http_hash zero_web zero_network n h = Inr ([0], advance 1 h)"
    and "tip_of zero_network h = Inr (0, advance 1 h)"
    and "http_json zero_network (decode_history sample_chain) path h = Inr ([], advance 1 h)"
  using zero_bytes [OF assms]
  by (simp_all add: http_text_def http_hash_def tip_of_def http_json_def utf8_text_def text_of_bytes_of zero_web_def
      MAX_BODY_def parse_zero)

lemma advance_simps [simp]: "advance m (advance n h) = advance (n + m) h" "room m (advance n h) = room (n + m) h"
  by (auto simp: advance_def room_def)

lemma zero_page:
  assumes "room 1 h"
  shows "page_loop B sample_chain zero_network script path [] False history h = Inr (False, history, advance 1 h)"
  by (subst page_loop.simps) (simp add: zero_requests(4) [OF assms, simplified] confirmed_entries_def)

lemma zero_scripts:
  assumes "index \<le> 19" and "19 - index < n" and "room (20 - index) (sc_http s)"
    and "\<And>i. phase_at i = Some Scanning"
  shows "script_loop B sample_chain zero_network phase_at w k index index n s =
    Inr (True, s\<lparr>sc_http := advance (20 - index) (sc_http s), sc_scanned := sc_scanned s + (20 - index)\<rparr>)"
  using assms(1-3)
proof (induction "19 - index" arbitrary: index n s)
  case 0
  then have "index = 19" "\<exists>m. n = Suc m" by (simp_all add: not0_implies_Suc)
  then show ?case
    using 0 assms(4) by (auto simp: zero_page [simplified] check_operation_def GAP_def Let_def)
next
  case (Suc d)
  then obtain m where n: "n = Suc m" by (cases n) auto
  have "room 1 (sc_http s)" using Suc.prems(3) Suc.hyps(2) by (auto simp: room_def)
  note page = zero_page [OF this, simplified]
  have ih: "script_loop B sample_chain zero_network phase_at w k (index + 1) (index + 1) m s1 =
    Inr (True, s1\<lparr>sc_http := advance (20 - (index + 1)) (sc_http s1), sc_scanned := sc_scanned s1 + (20 - (index + 1))\<rparr>)"
    if "room (20 - (index + 1)) (sc_http s1)" for s1
    using Suc.hyps that Suc.prems(2) n by (intro Suc.hyps(1)) auto
  have "room (20 - (index + 1)) (advance 1 (sc_http s))" using Suc.prems(3) Suc.hyps(2) by (auto simp: room_def advance_def)
  then have "room (20 - (index + 1)) (sc_http (s\<lparr>sc_http := advance 1 (sc_http s), sc_scanned := sc_scanned s + 1\<rparr>))" by simp
  note ih = ih [OF this]
  have "\<not> GAP \<le> index + 1" using Suc.hyps(2) by (simp add: GAP_def)
  moreover have "advance (20 - (index + 1)) (advance 1 h) = advance (20 - index) h" for h
  proof -
    have "20 - index = Suc (20 - (index + 1))" using Suc.hyps(2) by simp
    then show ?thesis by simp
  qed
  moreover have "1 + (20 - (index + 1)) = 20 - index" using Suc.hyps(2) by simp
  ultimately show ?case
    using ih assms(4) by (simp add: n page check_operation_def Let_def)
qed


theorem merkle_proof_accepted_witness:
  "verify_proof sample_chain [3] \<lparr>proof_height = 7, merkle = [[3], replicate 32 0], proof_pos = 2\<rparr>
     \<lparr>merkle_root = replicate 32 0, header_time = 0\<rparr> 7 = Inr ()"
  using merkle_proof_accepted [of 2 "[[1], [2], [3]]" 2 "\<lparr>merkle_root = replicate 32 0, header_time = 0\<rparr>" sample_chain 7]
  by (simp add: sibling_of_def merkle_step_def numeral_2_eq_2)


text \<open>A whole keychain takes one request per script and ends at the gap limit.\<close>

definition fresh_scan :: "nat \<Rightarrow> scan_state" where
  "fresh_scan n = \<lparr>sc_http = advance n (http_new []), sc_history = [], sc_active = [], sc_scanned = 0\<rparr>"

lemma zero_keychain:
  assumes "room 20 (sc_http s)"
  shows "keychain_scan B sample_chain zero_network (\<lambda>_. Some Scanning) w k s =
    Inr (s\<lparr>sc_http := advance 20 (sc_http s), sc_scanned := sc_scanned s + 20\<rparr>)"
  using zero_scripts [of 0 MAX_SCRIPTS s "\<lambda>_. Some Scanning" B w k] assms
  by (simp add: keychain_scan_def MAX_SCRIPTS_def)

lemma room_new: "n \<le> 20000 \<Longrightarrow> room n (http_new e)"
  by (simp add: room_def http_new_def)

theorem scan_gap_limit_witness:
  "\<exists>s'. keychain_scan sample_bitcoin sample_chain zero_network (\<lambda>_. Some Scanning) (0 :: nat) External (fresh_scan 0) = Inr s'
    \<and> h_requests (sc_http s') \<le> 20000 \<and> (\<exists>stop < 2000. sc_scanned s' = stop + 1 \<and> 19 \<le> stop)"
proof -
  have "room 20 (sc_http (fresh_scan 0))" by (simp add: fresh_scan_def room_new)
  note run = zero_keychain [OF this, of sample_bitcoin "0 :: nat" External]
  have empty: "map_of (sc_active (fresh_scan 0)) External = None" "length (sc_history (fresh_scan 0)) \<le> 5000"
    "h_requests (sc_http (fresh_scan 0)) \<le> 20000" "h_total (sc_http (fresh_scan 0)) \<le> 64000000"
    "sc_scanned (fresh_scan 0) = 0"
    by (simp_all add: fresh_scan_def advance_def http_new_def)
  from scan_gap_limit [OF run empty(1-4)] show ?thesis unfolding run using empty(5) by auto
qed

lemma zero_scan:
  "\<exists>r. scan sample_bitcoin sample_bdk zero_web sample_chain zero_network (\<lambda>_. Some Scanning) [] (0 :: nat) 9 = Inr r
     \<and> evicted_ats (sr_update r) = [([10], 9), ([11], 9)]"
proof -
  note [simp] = room_new rbind_def
  have requests: "http_hash zero_web zero_network m (advance n (http_new [])) = Inr ([0], advance (n + 1) (http_new []))"
      "tip_of zero_network (advance n (http_new [])) = Inr (0, advance (n + 1) (http_new []))" if "n \<le> 100" for m n
    using zero_requests(2,3) [of "advance n (http_new [])"] that by simp_all
  have new: "http_new [] = advance 0 (http_new [])" by (simp add: advance_def)
  have genesis: "genesis_hash zero_web n = [0]" for n by (simp add: zero_web_def)
  show ?thesis
    unfolding scan_def Let_def
    by (subst new) (simp add: requests genesis known_block_def has_key_def zero_keychain empty_update_def
        sort_key_def tx_a_def tx_b_def)
qed

theorem scan_proves_confirmations_witness:
  "\<exists>r tip hash. scan sample_bitcoin sample_bdk zero_web sample_chain zero_network (\<lambda>_. Some Scanning) [] (0 :: nat) 9 = Inr r
     \<and> map_of (sr_blocks r) tip = Some hash"
proof -
  obtain r where r: "scan sample_bitcoin sample_bdk zero_web sample_chain zero_network (\<lambda>_. Some Scanning) [] (0 :: nat) 9 = Inr r"
    using zero_scan by blast
  from scan_proves_confirmations [OF r] r show ?thesis by blast
qed

definition sample_snapshot :: "(nat, nat) snapshot" where
  "sample_snapshot = \<lparr>sn_loaded = sample_loaded, sn_revision = 0, sn_serialized = [], sn_endpoint = ''e''\<rparr>"

lemma sample_draft_tables:
  "drafts sample_draft_db = [((''w'', ''w:'' @ sample_hash [12]), sample_draft_row)]"
  "wallets sample_draft_db = [(''w'', sample_row)]" "sync_state sample_draft_db = []"
  by (simp_all add: sample_draft_db_def sample_db_def empty_db_def)

lemma sample_apply:
  "\<exists>db'. apply_scan sample_bitcoin sample_bdk sample_chain ''w'' sample_snapshot 9
     \<lparr>sr_blocks = [], sr_update = empty_update\<rparr> sample_draft_db = Inr ((), db')"
proof -
  have l: "load sample_bdk sample_draft_db ''w'' = Inr sample_loaded"
    using sample_load by (simp add: load_def sample_draft_db_def)
  have "eligible_coins sample_bitcoin sample_bdk w = [''b:0'', ''a:0'']" for w
    by (simp add: eligible_coins_def sample_coins_def funded_by_coinbase_def tx_a_def tx_b_def)
  moreover have "latest sample_draft_db ''w'' d = None" for d
    by (simp add: latest_def attempts_of_def sample_draft_db_def sort_key_def)
  ultimately have "invalidate_drafts sample_bitcoin sample_bdk ''w'' w sample_draft_db = Inr sample_draft_db" for w
    by (simp add: invalidate_drafts_def sample_draft_tables invalidate_draft_def observe_draft_def
        sample_draft_row_def sample_review_def)
  then show ?thesis
    by (simp add: apply_scan_def l sample_snapshot_def revision_def sample_draft_tables sql_upsert_sync_def
        wallet_exists_def has_key_def save_def sql_set_state_def sql_set_synced_def sample_loaded_def
        tbl_update_def Let_def)
qed

theorem apply_scan_settles_drafts_witness:
  "\<exists>db'. apply_scan sample_bitcoin sample_bdk sample_chain ''w'' sample_snapshot 9
       \<lparr>sr_blocks = [], sr_update = empty_update\<rparr> sample_draft_db = Inr ((), db')
     \<and> map_of (sync_state db') ''w'' = Some (1, ''e'')
     \<and> settled [''b:0'', ''a:0''] db' ''w'' (''w:'' @ sample_hash [12])"
proof -
  obtain db' where r: "apply_scan sample_bitcoin sample_bdk sample_chain ''w'' sample_snapshot 9
      \<lparr>sr_blocks = [], sr_update = empty_update\<rparr> sample_draft_db = Inr ((), db')"
    using sample_apply by blast
  have own: "dv_id v = d" if "map_of (drafts sample_draft_db) (''w'', d) = Some row" "d_review row = Some v" for d row v
    using that by (auto simp: sample_draft_db_def sample_draft_row_def sample_review_def split: if_splits)
  have e: "eligible_coins sample_bitcoin sample_bdk w = [''b:0'', ''a:0'']" for w
    by (simp add: eligible_coins_def sample_coins_def funded_by_coinbase_def tx_a_def tx_b_def)
  have k: "(''w'', ''w:'' @ sample_hash [12]) \<in> keys (drafts sample_draft_db)" by (simp add: sample_draft_db_def)
  from apply_scan_settles_drafts [OF r sample_draft_wf own] r k show ?thesis
    by (auto simp: e revision_def sample_draft_db_def sample_snapshot_def sample_db_def)
qed

end
