(* ===== verification/Draft_History.thy ===== *)
theory Draft_History
  imports Core_Machine Sync_Facts Recovery_Facts
begin

text \<open>
  A stored draft is never rewritten: whatever the core does, the PSBT and the review of a draft,
  its state aside, stay what \<^verbatim>\<open>create_draft\<close> stored until the draft is discarded, and once a
  submission of it is recorded it cannot be discarded any more.
\<close>

section \<open>What is fixed of a draft\<close>

definition fixed_review :: "draft_review \<Rightarrow> draft_review" where
  "fixed_review r = r\<lparr>dv_state := []\<rparr>"

definition fixed_part :: "draft_row \<Rightarrow> draft_row" where
  "fixed_part row = row\<lparr>d_review := map_option fixed_review (d_review row)\<rparr>"

definition draft_at :: "'cs db \<Rightarrow> string \<times> string \<Rightarrow> draft_row option" where
  "draft_at db k = map_option fixed_part (map_of (drafts db) k)"

text \<open>A stored review has the id of its draft.\<close>

definition reviews_named :: "'cs db \<Rightarrow> bool" where
  "reviews_named db \<longleftrightarrow> (\<forall>w d row r. draft_at db (w, d) = Some row \<longrightarrow> d_review row = Some r \<longrightarrow> dv_id r = d)"

lemma fixed_review_simps [simp]:
  "fixed_review (r\<lparr>dv_state := st\<rparr>) = fixed_review r" "fixed_review (fixed_review r) = fixed_review r"
  "dv_id (fixed_review r) = dv_id r" "dv_inputs (fixed_review r) = dv_inputs r"
  "dv_outputs (fixed_review r) = dv_outputs r" "fee_sats (fixed_review r) = fee_sats r"
  by (simp_all add: fixed_review_def)

lemma fixed_part_simps [simp]:
  "d_review (fixed_part row) = map_option fixed_review (d_review row)"
  "d_psbt (fixed_part row) = d_psbt row" "fixed_part (fixed_part row) = fixed_part row"
  by (cases "d_review row"; simp add: fixed_part_def)+

lemma draft_at_drafts: "drafts db' = drafts db \<Longrightarrow> draft_at db' = draft_at db"
  by (rule ext) (simp add: draft_at_def)

lemma draft_at_frame [simp]:
  "draft_at (sql_release w d db) = draft_at db" "draft_at (sql_delete_recovered w d db) = draft_at db"
  "draft_at (sql_set_state w s db) = draft_at db" "draft_at (sql_set_synced w t db) = draft_at db"
  "draft_at (sql_unsync_all db) = draft_at db" "draft_at (sql_clear_recovery db) = draft_at db"
  by (rule draft_at_drafts; simp add: sql_release_def sql_delete_recovered_def sql_set_state_def sql_set_synced_def
      sql_unsync_all_def sql_clear_recovery_def)+

lemma fixed_part_update:
  assumes "d_review (fixed_part row) = Some (fixed_review r)"
  shows "fixed_part (row\<lparr>d_review := Some r\<rparr>) = fixed_part row"
  using assms by (cases row) (auto simp: fixed_part_def)

lemma draft_at_set_review:
  assumes "draft_at db (w, d) = Some c" and "d_review c = Some (fixed_review r)"
  shows "draft_at (sql_set_review w d r db) = draft_at db"
  using assms by (intro ext) (auto simp: draft_at_def sql_set_review_def map_of_update fixed_part_update)

lemma unique_id_wallet:
  assumes "unique_ids t" and "(w, d) \<in> keys t" and "(w', d) \<in> keys t"
  shows "w' = w"
proof -
  obtain v v' where rows: "((w, d), v) \<in> set t" "((w', d), v') \<in> set t" using assms(2,3) by (auto simp: keys_def)
  have inj: "inj_on (\<lambda>r. snd (fst r)) (set t)" using assms(1) by (simp add: unique_ids_def distinct_map)
  have "((w, d), v) = ((w', d), v')" by (rule inj_onD [OF inj _ rows]) simp
  then show ?thesis by simp
qed

lemma draft_at_set_review_by_id:
  assumes "wf_db db" and "draft_at db (w, d) = Some c" and "d_review c = Some (fixed_review r)"
  shows "draft_at (sql_set_review_by_id d r db) = draft_at db"
proof
  fix k :: "string \<times> string"
  obtain w' e where k: "k = (w', e)" by (cases k)
  have ids: "unique_ids (drafts db)" using assms(1) by (simp add: wf_db_def)
  have "w' = w" if "e = d" "map_of (drafts db) (w', d) = Some row" for row
    by (rule unique_id_wallet [OF ids])
      (use assms(2) that in \<open>auto simp: draft_at_def intro: map_of_Some_key\<close>)
  then show "draft_at (sql_set_review_by_id d r db) k = draft_at db k"
    using assms(2,3)
    by (cases "map_of (drafts db) (w', d)")
      (auto simp: k draft_at_def sql_set_review_by_id_def map_of_update fixed_part_update)
qed

section \<open>The operations that write reviews\<close>

lemma load_draft_at:
  assumes "load_draft B C K W db wid d = Inr draft"
  obtains c where "draft_at db (wid, d) = Some c" and "d_review c = Some (fixed_review (sd_review draft))"
  by (rule load_draft_Inr [OF assms]) (simp add: draft_at_def that)

lemma accept_draft_at:
  "draft_at (snd (accept_signed_psbt B C K W wid d payload db)) = draft_at db"
proof (cases "accept_signed_psbt B C K W wid d payload db")
  case (Pair r db')
  show ?thesis
  proof (cases r)
    case (Inl e)
    then show ?thesis using Pair by (auto simp: accept_signed_psbt_def split: sum.splits dest: run_tx_error)
  next
    case (Inr p)
    show ?thesis
    proof (rule accept_Inr [OF Pair [unfolded Inr]], goal_cases)
      case (1 response draft m)
      obtain c where c: "draft_at db (wid, d) = Some c" "d_review c = Some (fixed_review (sd_review draft))"
        using 1(2) by (rule load_draft_at)
      let ?db = "db\<lparr>draft_signatures := tbl_upsert (wid, d) (psbt_text C m) (draft_signatures db)\<rparr>"
      have "draft_at ?db = draft_at db" by (rule draft_at_drafts) simp
      then show ?case using c draft_at_set_review [of ?db wid d c] by (simp add: Pair 1(8))
    qed
  qed
qed

lemma finalize_draft_at:
  "draft_at (snd (finalize_draft B C K W wid d db)) = draft_at db"
proof (cases "finalize_draft B C K W wid d db")
  case (Pair r db')
  show ?thesis
  proof (cases r)
    case (Inl e)
    then show ?thesis using Pair by (auto simp: finalize_draft_def dest: run_tx_error)
  next
    case (Inr f)
    obtain draft where l: "load_draft B C K W db wid d = Inr draft"
      and db': "db' = db \<or> db' = sql_set_review wid d ((sd_review draft)\<lparr>dv_state := ''finalized''\<rparr>)
            (db\<lparr>finalized_drafts := finalized_drafts db @ [((wid, d), transaction_bytes f)]\<rparr>)"
      using finalize_draft_Inr [OF Pair [unfolded Inr]] by blast
    obtain c where c: "draft_at db (wid, d) = Some c" "d_review c = Some (fixed_review (sd_review draft))"
      using l by (rule load_draft_at)
    let ?db = "db\<lparr>finalized_drafts := finalized_drafts db @ [((wid, d), transaction_bytes f)]\<rparr>"
    have "draft_at ?db = draft_at db" by (rule draft_at_drafts) simp
    then show ?thesis using c draft_at_set_review [of ?db wid d c] db' by (auto simp: Pair)
  qed
qed

lemma resume_draft_at:
  "draft_at (snd (resume_recovered_submission B C K W wid d txid attempt ack db)) = draft_at db"
proof -
  have "draft_at db' = draft_at db" if body: "resume_body B C K W wid d txid attempt db = Inr (f, db')" for f db'
  proof -
    obtain row review db1 where row: "map_of (drafts db) (wid, d) = Some row" "d_review row = Some review"
      and fold: "rfold (\<lambda>i. sql_ignore_reservation wid (ri_outpoint i) d) (dv_inputs review)
            (sql_set_review wid d (review\<lparr>dv_state := ''finalized''\<rparr>) db) = Inr db1"
      and db': "db' = sql_delete_recovered wid d db1"
      using body by (auto simp: resume_body_def result_simps)
    let ?db = "sql_set_review wid d (review\<lparr>dv_state := ''finalized''\<rparr>) db"
    have "drafts db1 = drafts ?db"
      by (rule rfold_invariant [where P = "\<lambda>u. drafts u = drafts ?db", OF fold])
        (auto simp: sql_ignore_reservation_def result_simps)
    moreover have "draft_at ?db = draft_at db"
      by (rule draft_at_set_review [of _ _ _ "fixed_part row"]) (simp_all add: draft_at_def row)
    ultimately show ?thesis using draft_at_drafts [of db1 ?db] by (simp add: db')
  qed
  then show ?thesis
    by (auto simp: resume_recovered_submission_def run_tx_def split: sum.splits)
qed

lemma suspend_draft_at:
  assumes "suspend B C W review_len db = Inr db'"
  shows "draft_at db' = draft_at db"
proof -
  obtain cached db1 where f: "rfold (suspend_draft B C W) (sort_key id (map fst (drafts db)))
        (None, sql_clear_recovery db) = Inr (cached, db1)"
    and db': "db' = sql_unsync_all db1"
    using assms by (auto simp: suspend_def result_simps)
  have "draft_at (snd (cached, db1)) = draft_at db"
  proof (rule rfold_invariant [where P = "\<lambda>st. draft_at (snd st) = draft_at db", OF f])
    fix x u v assume u: "draft_at (snd u) = draft_at db" and s: "suspend_draft B C W x u = Inr v"
    obtain wid d cached db1 cached' db2 where eq: "x = (wid, d)" "u = (cached, db1)" "v = (cached', db2)"
      by (cases x, cases u, cases v)
    show "draft_at (snd v) = draft_at db"
    proof (rule suspend_draft_Inr [OF s [unfolded eq]], goal_cases)
      case (1 row r rs hs)
      let ?db = "db1\<lparr>recovered_submissions := rs, recovery_holds := hs\<rparr>"
      have "draft_at ?db = draft_at db1" by (rule draft_at_drafts) simp
      moreover have "draft_at (sql_set_review wid d (r\<lparr>dv_state := ''invalidated''\<rparr>) ?db) = draft_at ?db"
        by (rule draft_at_set_review [of _ _ _ "fixed_part row"]) (simp_all add: draft_at_def 1(1,2))
      ultimately show ?case using u by (simp add: eq 1(3))
    qed
  qed simp
  then show ?thesis by (simp add: db')
qed

lemma invalidate_draft_at:
  assumes "invalidate_draft B W wid w (d, row) db = Inr db'" and "wf_db db"
    and "draft_at db (wid, d) = Some (fixed_part row)" and "\<And>r. d_review row = Some r \<Longrightarrow> dv_id r = d"
  shows "draft_at db' = draft_at db"
proof -
  obtain r seen db1 where r: "d_review row = Some r" and o: "observe_draft B W wid r w db = Inr (seen, db1)"
    and db': "db' = db1 \<or> \<not> seen \<and> db' = sql_release wid d (sql_set_review_by_id d (r\<lparr>dv_state := ''invalidated''\<rparr>) db1)"
    using assms(1) by (auto simp: invalidate_draft_def result_simps split: if_splits)
  have d: "dv_id r = d" by (rule assms(4) [OF r])
  have c: "d_review (fixed_part row) = Some (fixed_review (r\<lparr>dv_state := st\<rparr>))" for st by (simp add: r)
  show ?thesis
  proof (cases seen)
    case False
    then have "db1 = db" using o by (auto simp: observe_draft_def result_simps split: option.splits if_splits)
    then show ?thesis using db' draft_at_set_review_by_id [OF assms(2,3) c] by auto
  next
    case True
    then obtain info db2 where a: "apply_observed_labels B W wid r w info db = Inr db2"
      and db1: "db1 = sql_release wid d (sql_set_review wid d (r\<lparr>dv_state := ''observed''\<rparr>) (sql_delete_recovered wid d db2))"
      using o by (auto simp: observe_draft_def result_simps d split: option.splits if_splits)
    have same: "draft_at db2 = draft_at db" by (rule draft_at_drafts) (use apply_observed_labels_frame [OF a] in simp)
    then have "draft_at (sql_delete_recovered wid d db2) (wid, d) = Some (fixed_part row)" using assms(3) by simp
    from draft_at_set_review [OF this c] have "draft_at db1 = draft_at db" using same by (simp add: db1)
    then show ?thesis using db' True by simp
  qed
qed

lemma stored_row:
  assumes "((w, d), row) \<in> set (drafts db)" and "wf_db db" and "reviews_named db"
  shows "draft_at db (w, d) = Some (fixed_part row)" and "\<And>r. d_review row = Some r \<Longrightarrow> dv_id r = d"
proof -
  have row: "map_of (drafts db) (w, d) = Some row" using assms(1,2) by (simp add: wf_db_def unique_map_of)
  then show "draft_at db (w, d) = Some (fixed_part row)" by (simp add: draft_at_def)
  show "dv_id r = d" if "d_review row = Some r" for r
    using assms(3) row that by (fastforce simp: reviews_named_def draft_at_def)
qed

lemma apply_scan_draft_at:
  assumes "apply_scan B W N wid snap observed_at result db = Inr (u, db')" and wf: "wf_db db" and named: "reviews_named db"
  shows "draft_at db' = draft_at db"
proof -
  obtain l w db1 db2 where i: "invalidate_drafts B W wid w db = Inr db1"
    and up: "sql_upsert_sync wid (revision db2 wid + 1) (sn_endpoint snap) db2 = Inr db'"
    and db2: "db2 = sql_set_synced wid observed_at (save W wid l db1)"
    using assms(1) by (auto simp: apply_scan_def Let_def result_simps)
  let ?P = "\<lambda>u. wf_db u \<and> draft_at u = draft_at db"
  have "?P db1"
  proof (rule rfold_invariant [where P = ?P, OF i [unfolded invalidate_drafts_def]])
    fix x u v
    assume x: "x \<in> set (map (\<lambda>((_, d), row). (d, row)) (filter (\<lambda>r. fst (fst r) = wid) (drafts db)))"
      and u: "?P u" and s: "invalidate_draft B W wid w x u = Inr v"
    obtain d row where xd: "x = (d, row)" by (cases x)
    have "((wid, d), row) \<in> set (drafts db)" using x by (auto simp: xd)
    note stored = stored_row [OF this wf named]
    have "draft_at u (wid, d) = Some (fixed_part row)" using u stored(1) by simp
    then have "draft_at v = draft_at u" using invalidate_draft_at [OF s [unfolded xd]] u stored(2) by blast
    then show "?P v" using u schema.inv_invalidate_draft [OF _ s] by simp
  qed (use wf in simp)
  moreover have "draft_at db' = draft_at db2"
    by (rule draft_at_drafts) (use up in \<open>auto simp: sql_upsert_sync_def split: if_splits\<close>)
  ultimately show ?thesis by (simp add: db2 save_def)
qed

section \<open>Every step\<close>

text \<open>The other operations do not touch the table of drafts.\<close>

interpretation drafts_frame: database_frame "\<lambda>db. drafts db = D" for D
  by unfold_locales (auto simp: statement_defs result_simps split: if_splits)

lemma usb_receive_draft_at:
  "draft_at (snd (snd (usb_receive B C M K W N parse L now step report u db))) = draft_at db"
proof -
  have rec: "draft_at (snd (run_tx db (record_outcome B M W N parse L u' update out))) = draft_at db" for u' update out
    by (rule draft_at_drafts, rule drafts_frame.run_tx_inv) (auto intro: drafts_frame.inv_record_outcome)
  have "draft_at (snd (snd (usb_complete B C M K W N parse L u' update db))) = draft_at db" for u' update
  proof -
    have "draft_at db1 = draft_at db" if "run_tx db (record_outcome B M W N parse L u' update out) = (a, db1)" for u' out a db1
      using rec that by (metis snd_conv)
    moreover have "draft_at db2 = draft_at db1" if "accept_signed_psbt B C K W wid d payload db1 = (a, db2)" for wid d payload db1 a db2
      using accept_draft_at that by (metis snd_conv)
    ultimately show ?thesis
      by (auto simp: usb_complete_def Let_def split: prod.splits sum.splits option.splits)
  qed
  then have "draft_at db' = draft_at db" if "usb_complete B C M K W N parse L u' update db = (a, v, db')" for u' update a v db'
    using that by (metis snd_conv)
  then show ?thesis
    by (auto simp: usb_receive_def Let_def split: prod.splits sum.splits)
qed

lemma create_draft_at:
  assumes "create_draft B C W now request db = (Inr review, db')"
  shows "draft_at db (dr_wallet_id request, dv_id review) = None
    \<and> (\<exists>row. d_review row = Some (fixed_review review)
         \<and> draft_at db' = (draft_at db)((dr_wallet_id request, dv_id review) \<mapsto> row))"
proof (rule create_draft_Inr [OF assms], goal_cases)
  case (1 l cs selected target w psbt w' db1)
  note s = store_draft_Inr [OF 1(11)]
  let ?row = "\<lparr>d_psbt = psbt_text C psbt, d_review = Some review, d_label = dr_label request, d_created_at = now\<rparr>"
  let ?k = "(dr_wallet_id request, dv_id review)"
  have new: "map_of (drafts db) ?k = None" using s by (simp add: map_of_None_iff)
  have "drafts db' = drafts db @ [(?k, ?row)]" using s by (simp add: 1(12) save_def sql_set_state_def)
  then have "draft_at db' = (draft_at db)(?k \<mapsto> fixed_part ?row)"
    using new by (intro ext) (auto simp: draft_at_def map_add_def split: option.splits)
  moreover have "d_review (fixed_part ?row) = Some (fixed_review review)" by simp
  moreover have "draft_at db ?k = None" using new by (simp add: draft_at_def)
  ultimately show ?case by blast
qed

lemma discard_draft_at:
  assumes "discard_draft wid d db = (r, db')"
  shows "draft_at db' = draft_at db \<or> \<not> submitted db wid d \<and> draft_at db' = (draft_at db)((wid, d) := None)"
proof -
  have "draft_at (sql_delete_draft wid d db) = (draft_at db)((wid, d) := None)"
    by (intro ext) (simp add: draft_at_def delete_draft_tables map_of_delete)
  then show ?thesis using assms by (auto simp: discard_draft_def run_tx_def split: if_splits)
qed

lemma core_step_drafts:
  assumes "core_step B C K M W N L parse db db'" and "wf_db db" and "reviews_named db"
  shows "draft_at db' = draft_at db
    \<or> (\<exists>w d. \<not> submitted db w d \<and> draft_at db' = (draft_at db)((w, d) := None))
    \<or> (\<exists>w row r. draft_at db (w, dv_id r) = None \<and> d_review row = Some (fixed_review r)
         \<and> draft_at db' = (draft_at db)((w, dv_id r) \<mapsto> row))"
  using assms
proof (cases rule: core_step.cases)
  case (Draft_Step now request r)
  show ?thesis
  proof (cases r)
    case (Inl e)
    then have "db' = db" using Draft_Step errors_change_nothing by (auto simp: create_draft_def split: sum.splits if_splits dest: run_tx_error)
    then show ?thesis by simp
  next
    case (Inr review)
    then show ?thesis using create_draft_at [of B C W now request db review db'] Draft_Step by blast
  qed
next
  case (Attempt_Step request e approved now r)
  have "drafts (snd (run_tx db (record_attempt B C K W request e approved now))) = drafts db"
    by (rule drafts_frame.run_tx_inv) (auto intro: drafts_frame.inv_record_attempt)
  then show ?thesis using Attempt_Step draft_at_drafts [of db' db] by simp
next
  case (Scan_Step wid snap observed_at result r)
  have "draft_at db' = draft_at db"
    using Scan_Step assms(2,3) by (auto simp: run_tx_def split: sum.splits dest: apply_scan_draft_at)
  then show ?thesis by simp
next
  case (Discard_Step wid d r)
  then show ?thesis using discard_draft_at by blast
next
  case (Device_Step now step report u r v)
  then show ?thesis using usb_receive_draft_at by (metis snd_conv)
next
  case (Restore_Step review_len)
  then show ?thesis using suspend_draft_at by blast
next
  case (Acknowledge_Step i wid d)
  then show ?thesis using drafts_frame.acknowledge draft_at_drafts by blast
next
  case (Accept_Step wid d payload r)
  then show ?thesis using accept_draft_at by (metis snd_conv)
next
  case (Finalize_Step wid d r)
  then show ?thesis using finalize_draft_at by (metis snd_conv)
next
  case (Resume_Step wid d txid attempt ack r)
  then show ?thesis using resume_draft_at by (metis snd_conv)
qed (metis snd_conv draft_at_drafts drafts_frame.inv_import_wallet drafts_frame.inv_receive_address
    drafts_frame.inv_set_label drafts_frame.inv_set_frozen drafts_frame.inv_edit_coins
    drafts_frame.inv_import_labels)+

lemma named_step:
  assumes "core_step B C K M W N L parse db db'" and "wf_db db" and "reviews_named db"
  shows "reviews_named db'"
  using core_step_drafts [OF assms] assms(3)
  by (elim disjE exE conjE) (auto simp: reviews_named_def split: if_splits)

lemma named_run:
  assumes "core_run B C K M W N L parse db db'" and "wf_db db" and "reviews_named db"
  shows "wf_db db' \<and> reviews_named db'"
  using assms by (induction rule: core_run.induct) (auto intro: named_step schema.inv_step)

lemma reachable_reviews:
  assumes "core_run B C K M W N L parse empty_db db"
  shows "wf_db db \<and> reviews_named db"
  by (rule named_run [OF assms empty_invariants(1)]) (simp add: reviews_named_def draft_at_def empty_db_def)

section \<open>A draft that is not discarded\<close>

text \<open>A run of the core in which the draft is never missing.\<close>

inductive run_keeping ::
  "bitcoin \<Rightarrow> psbt_codec \<Rightarrow> crypto \<Rightarrow> miniscript \<Rightarrow> ('w, 'cs) bdk \<Rightarrow> ('w, 'cs) chain \<Rightarrow> 'i ledger \<Rightarrow>
   (string \<Rightarrow> json option) \<Rightarrow> string \<times> string \<Rightarrow> 'cs db \<Rightarrow> 'cs db \<Rightarrow> bool"
  for B C K M W N L parse k where
  Keep_Start: "run_keeping B C K M W N L parse k db db"
| Keep_Step: "run_keeping B C K M W N L parse k db db1 \<Longrightarrow> core_step B C K M W N L parse db1 db2 \<Longrightarrow>
    k \<in> keys (drafts db2) \<Longrightarrow> run_keeping B C K M W N L parse k db db2"

lemma draft_at_None: "draft_at db k = None \<longleftrightarrow> k \<notin> keys (drafts db)"
  by (simp add: draft_at_def map_of_None_iff)

lemma kept_draft:
  assumes "run_keeping B C K M W N L parse k db db'" and "wf_db db" and "reviews_named db"
    and "draft_at db k = Some row"
  shows "wf_db db' \<and> reviews_named db' \<and> draft_at db' k = Some row"
  using assms
proof (induction rule: run_keeping.induct)
  case (Keep_Step db db1 db2)
  then have ih: "wf_db db1" "reviews_named db1" "draft_at db1 k = Some row" by simp_all
  have "draft_at db2 k \<noteq> None" using Keep_Step.hyps(3) by (simp add: draft_at_None)
  then have "draft_at db2 k = Some row"
    using core_step_drafts [OF Keep_Step.hyps(2) ih(1,2)] ih(3) by (auto split: if_splits)
  then show ?case
    using ih named_step [OF Keep_Step.hyps(2)] schema.inv_step [OF Keep_Step.hyps(2)] by simp
qed simp

section \<open>A draft that was submitted\<close>

definition forget_answer :: "nat \<times> attempt_row \<Rightarrow> nat \<times> attempt_row" where
  "forget_answer = (\<lambda>(i, a). (i, a\<lparr>a_acknowledged := True\<rparr>))"

text \<open>The final bytes of a draft, and a record of submissions its own begins with.\<close>

definition submission_kept ::
  "string \<Rightarrow> string \<Rightarrow> (nat \<times> attempt_row) list \<Rightarrow> byte list \<Rightarrow> 'cs db \<Rightarrow> bool" where
  "submission_kept w d log bytes db \<longleftrightarrow> map_of (finalized_drafts db) (w, d) = Some bytes
     \<and> (\<exists>later. map forget_answer (attempts_of db w d) = log @ later)"

lemma submission_kept_same:
  "submission_kept w d log bytes db \<Longrightarrow> finalized_drafts db' = finalized_drafts db \<Longrightarrow>
   broadcast_attempts db' = broadcast_attempts db \<Longrightarrow> submission_kept w d log bytes db'"
  by (simp add: submission_kept_def attempts_of_def)

lemma submission_kept_finalized:
  "submission_kept w d log bytes db \<Longrightarrow> sql_insert_finalized w' d' new db = Inr db' \<Longrightarrow>
   submission_kept w d log bytes db'"
  by (auto simp: submission_kept_def attempts_of_def sql_insert_finalized_def result_simps split: if_splits)

lemma submission_kept_acknowledge:
  assumes "submission_kept w d log bytes db"
  shows "submission_kept w d log bytes (sql_acknowledge i w' d' db)"
proof -
  let ?f = "\<lambda>(j, r). if j = i \<and> a_wallet r = w' \<and> a_draft r = d' then (j, r\<lparr>a_acknowledged := True\<rparr>) else (j, r)"
  have "attempt_draft (?f x) = attempt_draft x" "forget_answer (?f x) = forget_answer x" for x
    by (auto simp: attempt_draft_def forget_answer_def split: prod.splits)
  then have "map forget_answer (filter (\<lambda>r. attempt_draft r = k) (map ?f xs))
      = map forget_answer (filter (\<lambda>r. attempt_draft r = k) xs)" for k xs
    by (induction xs) auto
  then show ?thesis using assms by (simp add: submission_kept_def attempts_of_def sql_acknowledge_def)
qed

lemma submission_kept_attempt:
  "submission_kept w d log bytes db \<Longrightarrow> sql_insert_attempt at db = Inr (i, db') \<Longrightarrow> submission_kept w d log bytes db'"
  by (auto simp: submission_kept_def attempts_of_def sql_insert_attempt_def Let_def result_simps split: if_splits)

interpretation submission: database_writes "submission_kept w d log bytes" for w d log bytes
  by unfold_locales
    (erule submission_kept_acknowledge | erule (1) submission_kept_finalized | erule submission_kept_attempt, assumption
      | (erule submission_kept_same; auto simp: statement_defs result_simps split: if_splits))+

lemma submitted_attempts: "submitted db w d \<longleftrightarrow> attempts_of db w d \<noteq> []"
  by (auto simp: submitted_def attempts_of_def list_ex_iff filter_empty_conv)

lemma submission_step:
  assumes step: "core_step B C K M W N L parse db db'" and "submission_kept w d log bytes db" and "log \<noteq> []"
  shows "submission_kept w d log bytes db'"
  using submission.inv_step_or_discard [OF step assms(2)]
proof (elim disjE exE)
  fix w' d' r assume discard: "discard_draft w' d' db = (r, db')"
  show ?thesis
  proof (cases "db' = db")
    case False
    then have db': "db' = sql_delete_draft w' d' db" and "\<not> submitted db w' d'"
      using discard by (auto simp: discard_draft_def run_tx_def split: if_splits)
    moreover have "submitted db w d" using assms(2,3) by (auto simp: submission_kept_def submitted_attempts)
    ultimately have other: "(w', d') \<noteq> (w, d)" by auto
    then have "attempts_of db' w d = attempts_of db w d"
      by (auto simp: db' attempts_of_def sql_delete_draft_def attempt_draft_def intro!: filter_cong [OF refl])
    moreover have "map_of (finalized_drafts db') (w, d) = map_of (finalized_drafts db) (w, d)"
      using other by (auto simp: db' sql_delete_draft_def map_of_delete)
    ultimately show ?thesis using assms(2) by (simp add: submission_kept_def)
  qed (use assms(2) in simp)
qed

lemma submitted_finalized:
  assumes "wf_db db" and "submitted db w d"
  shows "\<exists>bytes. map_of (finalized_drafts db) (w, d) = Some bytes" and "draft_at db (w, d) \<noteq> None"
proof -
  have "(w, d) \<in> keys (finalized_drafts db)"
    using assms by (auto simp: wf_db_def submitted_def list_ex_iff refs_def)
  then show "\<exists>bytes. map_of (finalized_drafts db) (w, d) = Some bytes" using map_of_None_iff by (metis not_None_eq)
  have "refs fst (finalized_drafts db) (drafts db)" using assms(1) by (simp add: wf_db_def)
  then have "(w, d) \<in> keys (drafts db)"
    using \<open>(w, d) \<in> keys (finalized_drafts db)\<close> by (force simp: refs_def keys_def)
  then show "draft_at db (w, d) \<noteq> None" by (simp add: draft_at_None)
qed

lemma submission_run:
  assumes "core_run B C K M W N L parse db db'" and "wf_db db" and "reviews_named db"
    and "submission_kept w d log bytes db" and "log \<noteq> []"
  shows "wf_db db' \<and> reviews_named db' \<and> submission_kept w d log bytes db' \<and> draft_at db' (w, d) = draft_at db (w, d)"
  using assms
proof (induction rule: core_run.induct)
  case (More_Steps db db1 db2)
  then have ih: "wf_db db1" "reviews_named db1" "submission_kept w d log bytes db1" "draft_at db1 (w, d) = draft_at db (w, d)"
    by simp_all
  have sub: "submitted db1 w d" using ih(3) assms(5) by (auto simp: submission_kept_def submitted_attempts)
  then have "draft_at db2 (w, d) = draft_at db1 (w, d)"
    using core_step_drafts [OF More_Steps.hyps(2) ih(1,2)] submitted_finalized(2) [OF ih(1) sub] by auto
  then show ?case
    using ih named_step [OF More_Steps.hyps(2)] schema.inv_step [OF More_Steps.hyps(2)]
      submission_step [OF More_Steps.hyps(2) ih(3) assms(5)] by simp
qed simp

text \<open>
  C8. A submission is permanent. Once one is recorded for a draft, whatever the core is asked to do
  afterwards, the draft stays stored with the PSBT and the review it had, its state aside, with the
  final transaction that was sent, and with every recorded submission in its place; further
  submissions only follow them.
\<close>

theorem submission_permanent:
  assumes "core_run B C K M W N L parse db db'" and "wf_db db" and "reviews_named db" and "submitted db w d"
  shows "submitted db' w d \<and> draft_at db' (w, d) = draft_at db (w, d) \<and> draft_at db (w, d) \<noteq> None
    \<and> map_of (finalized_drafts db') (w, d) = map_of (finalized_drafts db) (w, d)
    \<and> (\<exists>later. map forget_answer (attempts_of db' w d) = map forget_answer (attempts_of db w d) @ later)"
proof -
  obtain bytes where bytes: "map_of (finalized_drafts db) (w, d) = Some bytes"
    using submitted_finalized(1) [OF assms(2,4)] by blast
  let ?log = "map forget_answer (attempts_of db w d)"
  have log: "?log \<noteq> []" using assms(4) by (simp add: submitted_attempts)
  have "submission_kept w d ?log bytes db" using bytes by (simp add: submission_kept_def)
  note run = submission_run [OF assms(1-3) this log]
  then have "submitted db' w d" using log by (auto simp: submission_kept_def submitted_attempts)
  then show ?thesis using run bytes submitted_finalized(2) [OF assms(2,4)] by (auto simp: submission_kept_def)
qed

end
