(* ===== verification/Payment_Facts.thy ===== *)
theory Payment_Facts
  imports Broadcast_Facts Draft_History
begin

text \<open>
  The agreement between what the user reviewed and what the network is given, over the whole path
  of a payment (\<^verbatim>\<open>signing.rs\<close>, \<^verbatim>\<open>broadcast.rs\<close>): the only transaction a submission sends spends the
  reviewed coins, pays the reviewed outputs and fee, and carries enough genuine signatures of the
  wallet's own keys; and two payments of a wallet never spend the same coin.
\<close>

section \<open>The specification of a reviewed payment\<close>

text \<open>
  An input as it was reviewed: its coin is one of the wallet's own, unspent, spendable and not
  frozen, reserved for this draft, and shown with its outpoint and value.
\<close>

definition spends_reviewed ::
  "bitcoin \<Rightarrow> crypto \<Rightarrow> ('w, 'cs) bdk \<Rightarrow> 'cs db \<Rightarrow> string \<Rightarrow> string \<Rightarrow> 'w \<Rightarrow> reviewed_input \<Rightarrow> outpoint \<Rightarrow>
   trusted_input \<Rightarrow> bool" where
  "spends_reviewed B K W db wid d w reviewed op t \<longleftrightarrow>
     (\<exists>coin funding. unspent_at W w op = Some coin \<and> get_tx W w (op_txid op) = Some funding
        \<and> spendable (lo_position coin) (tip_height W w) (is_coinbase B (wt_tx funding))
        \<and> \<not> is_frozen db wid (show_outpoint B op) \<and> reserved_by db wid d (show_outpoint B op)
        \<and> ri_outpoint reviewed = show_outpoint B op \<and> ri_sats reviewed = txo_value (lo_txout coin)
        \<and> trust_coin K W w (lo_txout coin) = Inr t)"

text \<open>An output as it was reviewed: the address and value shown, change only of the wallet itself.\<close>

definition pays_reviewed :: "bitcoin \<Rightarrow> ('w, 'cs) bdk \<Rightarrow> network \<Rightarrow> 'w \<Rightarrow> reviewed_output \<Rightarrow> txout \<Rightarrow> bool" where
  "pays_reviewed B W network w reviewed out \<longleftrightarrow>
     script_address B (script_pubkey out) network = Some (ro_address reviewed)
     \<and> txo_value out = ro_sats reviewed \<and> is_mine W w (script_pubkey out) = ro_is_mine reviewed
     \<and> (is_change reviewed \<longrightarrow> is_mine W w (script_pubkey out))"

text \<open>
  A witness of exactly the required number of genuine signatures, by different keys of the input's
  own policy.
\<close>

definition authorised :: "crypto \<Rightarrow> transaction \<Rightarrow> nat \<Rightarrow> trusted_input \<Rightarrow> byte list list \<Rightarrow> bool" where
  "authorised K tx j t stack \<longleftrightarrow>
     (\<exists>ks required chosen. trusted_keys K t = Inr (ks, required) \<and> length chosen = required
        \<and> distinct (map fst chosen) \<and> (\<forall>x \<in> set chosen. genuine K tx j t x)
        \<and> final_stack K (t_descriptor t) chosen = Inr stack)"

definition reviewed_payment ::
  "bitcoin \<Rightarrow> crypto \<Rightarrow> ('w, 'cs) bdk \<Rightarrow> 'cs db \<Rightarrow> string \<Rightarrow> string \<Rightarrow> network \<Rightarrow> 'w \<Rightarrow> draft_review \<Rightarrow>
   transaction \<Rightarrow> bool" where
  "reviewed_payment B K W db wid d network w review tx \<longleftrightarrow>
     network \<noteq> Mainnet
     \<and> length (tx_input tx) = length (dv_inputs review) \<and> distinct (map previous_output (tx_input tx))
     \<and> length (tx_output tx) = length (dv_outputs review)
     \<and> (\<exists>unsigned. without_witnesses unsigned = without_witnesses tx \<and> draft_identity B wid unsigned = d
          \<and> (\<forall>j < length (tx_input tx). \<exists>t.
               spends_reviewed B K W db wid d w (dv_inputs review ! j) (previous_output (tx_input tx ! j)) t
               \<and> authorised K unsigned j t (tx_witness (tx_input tx ! j))))
     \<and> (\<forall>j < length (tx_output tx). pays_reviewed B W network w (dv_outputs review ! j) (tx_output tx ! j))
     \<and> sum_list (map ri_sats (dv_inputs review)) = sum_list (map txo_value (tx_output tx)) + fee_sats review
     \<and> fee_sats review \<le> fee_cap"

section \<open>The loops of the code establish it\<close>

lemma rfold_enumerate_invariant:
  assumes "rfold f (enumerate 0 xs) s = Inr t" and "P 0 s"
    and "\<And>j u v. j < length xs \<Longrightarrow> P j u \<Longrightarrow> f (j, xs ! j) u = Inr v \<Longrightarrow> P (Suc j) v"
  shows "P (length xs) t"
proof -
  have "P n u" if "n \<le> length xs" "rfold f (enumerate 0 (take n xs)) s = Inr u" for n u
    using that
  proof (induction n arbitrary: u)
    case (Suc n)
    then obtain v where v: "rfold f (enumerate 0 (take n xs)) s = Inr v" "f (n, xs ! n) v = Inr u"
      by (auto simp: enumerate_take_Suc rfold_append result_simps)
    show ?case by (rule assms(3) [OF _ Suc.IH [OF _ v(1)] v(2)]) (use Suc.prems in simp_all)
  qed (use assms(2) in simp)
  then show ?thesis using assms(1) by simp
qed

lemma load_inputs:
  assumes "rfold (load_input B K W db wid d w review) (enumerate 0 ins) ([], [], 0) = Inr (seen, trusted, acc)"
    and len: "length ins = length (dv_inputs review)"
  shows "length trusted = length ins \<and> distinct (map previous_output ins)
    \<and> acc = sum_list (map ri_sats (dv_inputs review))
    \<and> (\<forall>j < length ins. spends_reviewed B K W db wid d w (dv_inputs review ! j) (previous_output (ins ! j)) (trusted ! j))"
proof -
  let ?P = "\<lambda>j (seen, trusted, acc). length trusted = j \<and> set seen = set (map previous_output (take j ins))
    \<and> distinct (map previous_output (take j ins)) \<and> acc = sum_list (map ri_sats (take j (dv_inputs review)))
    \<and> (\<forall>k < j. spends_reviewed B K W db wid d w (dv_inputs review ! k) (previous_output (ins ! k)) (trusted ! k))"
  have "?P (length ins) (seen, trusted, acc)"
  proof (rule rfold_enumerate_invariant [where P = ?P, OF assms(1)])
    fix j u v
    assume j: "j < length ins" and u: "?P j u" and v: "load_input B K W db wid d w review (j, ins ! j) u = Inr v"
    obtain s tr n where uu: "u = (s, tr, n)" by (cases u)
    obtain t where t: "spends_reviewed B K W db wid d w (dv_inputs review ! j) (previous_output (ins ! j)) t"
      "previous_output (ins ! j) \<notin> set s"
      "v = (previous_output (ins ! j) # s, tr @ [t], n + ri_sats (dv_inputs review ! j))"
      using v by (auto simp: uu load_input_def Let_def result_simps spends_reviewed_def List.member_iff)
    show "?P (Suc j) v"
      using u t j len by (auto simp: uu take_Suc_conv_app_nth nth_append less_Suc_eq)
  qed simp
  then show ?thesis using len by simp
qed

lemma load_outputs:
  assumes "rfold (load_output B K W network w approved) (enumerate 0 (zip outs reviewed)) 0 = Inr acc"
    and len: "length outs = length reviewed"
  shows "acc = sum_list (map txo_value outs)
    \<and> (\<forall>j < length outs. pays_reviewed B W network w (reviewed ! j) (outs ! j))"
proof -
  let ?z = "zip outs reviewed"
  let ?P = "\<lambda>j acc. acc = sum_list (map txo_value (take j outs))
    \<and> (\<forall>k < j. pays_reviewed B W network w (reviewed ! k) (outs ! k))"
  have "?P (length ?z) acc"
  proof (rule rfold_enumerate_invariant [where P = ?P, OF assms(1)])
    fix j u v
    assume j: "j < length ?z" and u: "?P j u" and v: "load_output B K W network w approved (j, ?z ! j) u = Inr v"
    have "pays_reviewed B W network w (reviewed ! j) (outs ! j) \<and> v = u + txo_value (outs ! j)"
      using v j by (auto simp: load_output_def Let_def result_simps pays_reviewed_def)
    then show "?P (Suc j) v" using u j by (auto simp: take_Suc_conv_app_nth less_Suc_eq)
  qed simp
  then show ?thesis using len by simp
qed

lemma chosen_authorise:
  assumes m: "merging K tx trusted base (ps_inputs m)" and j: "j < length base"
    and keys: "trusted_keys K (trusted ! j) = Inr (ks, required)"
    and len: "length (select_signatures ks required (ps_inputs m ! j)) = required"
    and stack: "final_stack K (t_descriptor (trusted ! j)) (select_signatures ks required (ps_inputs m ! j)) = Inr stack"
  shows "authorised K tx j (trusted ! j) stack"
proof -
  let ?i = "ps_inputs m ! j"
  let ?f = "\<lambda>key. map_option (Pair key) (map_of (partial_sigs ?i) key)"
  let ?chosen = "select_signatures ks required ?i"
  have sel: "?chosen = take required (map (the \<circ> ?f) (filter (\<lambda>k. ?f k \<noteq> None) ks))"
    by (simp add: select_signatures_def List.map_filter_def)
  have "map fst (map (the \<circ> ?f) ys) = ys" if "\<forall>k \<in> set ys. ?f k \<noteq> None" for ys
    using that by (induction ys) auto
  then have "map fst ?chosen = take required (filter (\<lambda>k. ?f k \<noteq> None) ks)"
    unfolding sel take_map [symmetric] by simp
  then have "distinct (map fst ?chosen)" using trusted_keys_Inr(1) [OF keys] by simp
  moreover have "x \<in> set (partial_sigs ?i)" if "x \<in> set ?chosen" for x
    using that by (auto simp: sel dest!: in_set_takeD) (erule map_of_SomeD)
  then have "\<forall>x \<in> set ?chosen. genuine K tx j (trusted ! j) x" using m j by (auto simp: merging_def)
  ultimately show ?thesis using keys len stack unfolding authorised_def by blast
qed

lemma finalize_transaction_authorised:
  assumes "finalize_transaction B K approved stored trusted = Inr tx"
  shows "without_witnesses (unsigned_tx approved) = without_witnesses tx
    \<and> compute_txid B tx = compute_txid B (unsigned_tx approved)
    \<and> tx_output tx = tx_output (unsigned_tx approved)
    \<and> map previous_output (tx_input tx) = map previous_output (tx_input (unsigned_tx approved))
    \<and> length trusted = length (tx_input tx) \<and> approved_ok B approved trusted
    \<and> (\<forall>j < length (tx_input tx). authorised K (unsigned_tx approved) j (trusted ! j) (tx_witness (tx_input tx ! j)))"
proof -
  let ?u = "unsigned_tx approved"
  obtain m ins fin where m: "merge_response B K approved stored approved trusted = Inr m"
    and fold: "rfold (finalize_input K m) (enumerate 0 trusted) (tx_input ?u, ps_inputs approved) = Inr (ins, fin)"
    and tx: "tx = ?u\<lparr>tx_input := ins\<rparr>" and txid: "compute_txid B tx = compute_txid B ?u"
    using assms by (auto simp: finalize_transaction_def Let_def result_simps)
  have ok: "approved_ok B approved trusted" using m by (simp add: merge_response_Inr)
  then have len: "length (tx_input ?u) = length trusted" "length (ps_inputs approved) = length trusted"
    by (simp_all add: approved_ok_def)
  let ?P = "\<lambda>n (ins, fin :: psbt_input list). map (\<lambda>i. i\<lparr>tx_witness := []\<rparr>) ins = map (\<lambda>i. i\<lparr>tx_witness := []\<rparr>) (tx_input ?u)
    \<and> (\<forall>j < n. authorised K ?u j (trusted ! j) (tx_witness (ins ! j)))"
  have P: "?P (length trusted) (ins, fin)"
  proof (rule rfold_enumerate_invariant [where P = ?P, OF fold])
    fix j u v
    assume j: "j < length trusted" and u: "?P j u" and v: "finalize_input K m (j, trusted ! j) u = Inr v"
    obtain a b where uu: "u = (a, b)" by (cases u)
    obtain ks required stack where keys: "trusted_keys K (trusted ! j) = Inr (ks, required)"
      and n: "length (select_signatures ks required (ps_inputs m ! j)) = required"
      and stack: "final_stack K (t_descriptor (trusted ! j)) (select_signatures ks required (ps_inputs m ! j)) = Inr stack"
      and w: "fst v = a[j := (a ! j)\<lparr>tx_witness := stack\<rparr>]"
      using v by (auto simp: uu finalize_input_def Let_def result_simps)
    note w
    moreover have "authorised K ?u j (trusted ! j) stack"
      by (rule chosen_authorise [OF conjunct1 [OF merge_response_merging [OF m]] _ keys n stack]) (use j len(2) in simp)
    moreover have "length a = length trusted" using u len(1) by (auto simp: uu dest: map_eq_imp_length_eq)
    ultimately show "?P (Suc j) v"
      using u j by (cases v) (auto simp: uu map_update_same nth_list_update less_Suc_eq)
  qed simp
  then have "length ins = length trusted" using len(1) by (auto dest: map_eq_imp_length_eq)
  moreover have "map previous_output ins = map previous_output (tx_input ?u)"
    using arg_cong [where f = "map previous_output", OF conjunct1 [OF P [simplified]]] by (simp add: comp_def)
  ultimately show ?thesis
    using P ok txid by (auto simp: tx without_witnesses_def)
qed

section \<open>What a finalized draft is\<close>

lemma finalized_draft_reviewed:
  assumes "finalized_draft B C K W wid d db = Inr (Some approved)"
  shows "\<exists>l row review tx. load W db wid = Inr l \<and> map_of (drafts db) (wid, d) = Some row
    \<and> d_review row = Some review \<and> dv_state review = ''finalized''
    \<and> transaction_bytes approved = tx_serialize B tx \<and> fr_txid approved = show_hash B (compute_txid B tx)
    \<and> reviewed_payment B K W db wid d (ws_network (l_summary l)) (l_wallet l) review tx"
proof -
  obtain draft tx where load: "load_draft B C K W db wid d = Inr draft"
    and st: "dv_state (sd_review draft) = ''finalized''"
    and tx: "finalize_transaction B K (sd_approved draft) (sd_stored draft) (sd_trusted draft) = Inr tx"
    and approved: "approved = finalized_review_of B draft tx"
    using assms
    by (auto simp: finalized_draft_def validated_finalized_def Let_def result_simps split: option.splits if_splits)
  note final = finalize_transaction_authorised [OF tx]
  show ?thesis
  proof (rule load_draft_Inr [OF load], goal_cases)
    case (1 l row seen input_sum output_sum)
    let ?u = "unsigned_tx (sd_approved draft)"
    have ok: "approved_ok B (sd_approved draft) (sd_trusted draft)" using final by blast
    then have len: "length (tx_input ?u) = length (dv_inputs (sd_review draft))"
      "length (tx_output ?u) = length (dv_outputs (sd_review draft))"
      using 1(11,12) by (simp_all add: approved_ok_def)
    have same: "length (tx_input tx) = length (tx_input ?u)"
      "j < length (tx_input tx) \<Longrightarrow> previous_output (tx_input tx ! j) = previous_output (tx_input ?u ! j)" for j
      using final by (metis length_map) (metis final length_map nth_map)
    note ins = load_inputs [OF 1(16) len(1)] and outs = load_outputs [OF 1(17) len(2)]
    have "reviewed_payment B K W db wid d (ws_network (l_summary l)) (l_wallet l) (sd_review draft) tx"
      unfolding reviewed_payment_def
      using ins outs final 1(2,8,19,20) len same by (auto simp: result_simps) blast
    then show ?thesis
      using 1(1,4,6) st approved by (auto simp: finalized_review_of_def)
  qed
qed

section \<open>What is sent\<close>

text \<open>
  C3. What the network is given is what the user reviewed. Two servers can lead a submission to
  different results only by their answers to one request, and that request carries a transaction
  with the id the user confirmed, which is the stored review's payment: it spends the reviewed coins,
  each one the wallet's own, reserved for this draft, spendable and not frozen; it pays the reviewed
  addresses and amounts, with change only to the wallet; the difference is the reviewed fee, below
  the cap; and every input carries exactly the signatures its policy requires, all genuine, by
  different keys of the wallet. Never on the main network.
\<close>

theorem submission_is_reviewed:
  assumes "broadcast_draft B C K W T x r db = (res, db')"
    and "broadcast_draft B C K W T (x\<lparr>post_reply := f\<rparr>) r db \<noteq> (res, db')"
  shows "\<exists>e tx l row review. post_reply x (e @ ''/tx'') (lower_hex T (tx_serialize B tx))
      \<noteq> f (e @ ''/tx'') (lower_hex T (tx_serialize B tx))
    \<and> load W (during_get x db) (br_wallet_id r) = Inr l
    \<and> map_of (drafts (during_get x db)) (br_wallet_id r, br_draft_id r) = Some row \<and> d_review row = Some review
    \<and> show_hash B (compute_txid B tx) = expected_txid r
    \<and> reviewed_payment B K W (during_get x db) (br_wallet_id r) (br_draft_id r) (ws_network (l_summary l))
        (l_wallet l) review tx"
proof -
  let ?db1 = "during_get x db"
  obtain e genesis approved where p: "broadcast_prepare B C K W T r db = Inr (e, genesis, approved)"
    using assms by (cases "broadcast_prepare B C K W T r db") (auto simp: broadcast_draft_def)
  have fl: "preflight T genesis (get_reply x (e @ ''/block-height/0'')) = Inr ()"
    using assms by (cases "preflight T genesis (get_reply x (e @ ''/block-height/0''))") (auto simp: broadcast_draft_def p Let_def)
  obtain i db2 where a: "record_attempt B C K W r e approved (clock x) ?db1 = Inr (i, db2)"
    using assms
    by (cases "record_attempt B C K W r e approved (clock x) ?db1") (auto simp: broadcast_draft_def p fl Let_def run_tx_def)
  have "post_reply x (e @ ''/tx'') (lower_hex T (transaction_bytes approved))
      \<noteq> f (e @ ''/tx'') (lower_hex T (transaction_bytes approved))"
    using assms by (auto simp: broadcast_draft_def p fl a Let_def run_tx_def)
  moreover have "finalized_draft B C K W (br_wallet_id r) (br_draft_id r) ?db1 = Inr (Some approved)"
    using record_attempt_Inr [OF a] by blast
  ultimately show ?thesis
    using finalized_draft_reviewed broadcast_prepare_Inr(1) [OF p] by metis
qed

text \<open>Two payments of a wallet for different drafts never spend the same coin.\<close>

lemma payments_disjoint:
  assumes "reviewed_payment B K W db wid d network w review tx" and "reviewed_payment B K W db wid d' network' w' review' tx'"
    and "d \<noteq> d'"
  shows "set (map previous_output (tx_input tx)) \<inter> set (map previous_output (tx_input tx')) = {}"
proof -
  have reserved: "reserved_by db wid e (show_outpoint B op)"
    if "reviewed_payment B K W db wid e n v r t" and "op \<in> set (map previous_output (tx_input t))" for e n v r t op
    using that by (auto simp: reviewed_payment_def spends_reviewed_def in_set_conv_nth)
  have "op \<notin> set (map previous_output (tx_input tx'))" if "op \<in> set (map previous_output (tx_input tx))" for op
    using reserved [OF assms(1) that] reserved [OF assms(2), of op] assms(3) by (auto simp: reserved_by_def)
  then show ?thesis by blast
qed

section \<open>From the draft to the network\<close>

lemma reviewed_payment_fixed:
  assumes "fixed_review r = fixed_review r'"
  shows "reviewed_payment B K W db wid d network w r tx = reviewed_payment B K W db wid d network w r' tx"
proof -
  have "dv_inputs r = dv_inputs r'" "dv_outputs r = dv_outputs r'" "fee_sats r = fee_sats r'"
    using assms by (metis fixed_review_simps)+
  then show ?thesis by (simp add: reviewed_payment_def)
qed

text \<open>
  C1. The payment the user saw when the draft was made is the one that is submitted. Let a draft be
  made, with the review that call returned; let anything happen to the database afterwards, in any
  order and any number of steps, short of discarding this draft. A submission that is then recorded
  for it is of a transaction that is the payment of that very review, in the database of that
  moment.
\<close>

theorem sent_as_created:
  assumes "create_draft B C W now request db0 = (Inr review, db1)" and "wf_db db0" and "reviews_named db0"
    and "run_keeping B C K M W N L parse (dr_wallet_id request, dv_id review) db1 db2"
    and "record_attempt B C K W r e approved at db2 = Inr (i, db3)"
    and "br_wallet_id r = dr_wallet_id request" and "br_draft_id r = dv_id review"
  shows "\<exists>l tx. load W db2 (dr_wallet_id request) = Inr l
    \<and> transaction_bytes approved = tx_serialize B tx \<and> fr_txid approved = show_hash B (compute_txid B tx)
    \<and> reviewed_payment B K W db2 (dr_wallet_id request) (dv_id review) (ws_network (l_summary l)) (l_wallet l)
        review tx"
proof -
  let ?k = "(dr_wallet_id request, dv_id review)"
  have step: "core_step B C K M W N L parse db0 db1" by (rule Draft_Step [OF assms(1)])
  obtain c where c: "draft_at db1 ?k = Some c" "d_review c = Some (fixed_review review)"
    using create_draft_at [OF assms(1)] by auto
  have kept: "draft_at db2 ?k = Some c"
    using kept_draft [OF assms(4) schema.inv_step [OF step assms(2)] named_step [OF step assms(2,3)] c(1)] by blast
  have "finalized_draft B C K W (dr_wallet_id request) (dv_id review) db2 = Inr (Some approved)"
    using record_attempt_Inr [OF assms(5)] assms(6,7) by simp
  then obtain l row review' tx where l: "load W db2 (dr_wallet_id request) = Inr l"
    and row: "map_of (drafts db2) ?k = Some row" "d_review row = Some review'"
    and tx: "transaction_bytes approved = tx_serialize B tx" "fr_txid approved = show_hash B (compute_txid B tx)"
    and pay: "reviewed_payment B K W db2 (dr_wallet_id request) (dv_id review) (ws_network (l_summary l)) (l_wallet l)
        review' tx"
    using finalized_draft_reviewed by blast
  have "c = fixed_part row" using kept row(1) by (simp add: draft_at_def)
  then have same: "fixed_review review' = fixed_review review" using c(2) row(2) by simp
  show ?thesis using l tx pay unfolding reviewed_payment_fixed [OF same] by blast
qed

section \<open>The sample payment\<close>

lemma sample_created:
  "create_draft sample_bitcoin signed_codec sample_bdk 9 sample_request sample_db
     = (Inr sample_review, signing_db ''unsigned'' False)"
proof -
  have "create_draft sample_bitcoin signed_codec sample_bdk 9 sample_request sample_db = (Inr sample_review, sample_draft_db)"
    by (rule sample_create_with [OF sample_responses(1)]) (simp_all add: signed_codec_def)
  moreover have "sample_draft_db = signing_db ''unsigned'' False"
    by (simp add: signing_db_def sample_draft_db_def sample_db_def empty_db_def sample_draft_row_def sample_review_def
        sample_id_def)
  ultimately show ?thesis by simp
qed

lemma sample_db_ok: "wf_db sample_db" "reviews_named sample_db"
  by (simp_all add: sample_db_def empty_db_def wf_db_def unique_keys_def unique_ids_def ids_below_def refs_def
      reviews_named_def draft_at_def)

lemma sample_review_parts:
  "dr_wallet_id sample_request = ''w''" "dv_id sample_review = sample_id" "br_wallet_id sample_broadcast = ''w''"
  "br_draft_id sample_broadcast = sample_id" "expected_txid sample_broadcast = sample_hash [12]"
  by (simp_all add: sample_request_def sample_review_def sample_id_def sample_broadcast_def)

lemma sample_keeps:
  assumes final: "finalize_draft sample_bitcoin signed_codec sample_crypto sample_bdk ''w'' sample_id (signing_db ''signed'' True)
      = (Inr sample_final, db)"
  shows "run_keeping sample_bitcoin signed_codec sample_crypto M sample_bdk N L parse (''w'', sample_id)
      (signing_db ''unsigned'' False) db"
proof (rule Keep_Step [OF Keep_Step [OF Keep_Start Accept_Step [OF sample_accept]] Finalize_Step [OF final]])
  show "(''w'', sample_id) \<in> keys (drafts (signing_db ''signed'' True))" by (simp add: signing_db_def keys_def)
  have "draft_at db = draft_at (signing_db ''signed'' True)" using finalize_draft_at final by (metis snd_conv)
  then have "draft_at db (''w'', sample_id) \<noteq> None" by (simp add: draft_at_None signing_db_def keys_def)
  then show "(''w'', sample_id) \<in> keys (drafts db)" by (simp add: draft_at_None)
qed

theorem submission_is_reviewed_witness:
  "\<exists>db :: nat db. \<exists>tx l review. load sample_bdk db ''w'' = Inr l \<and> show_hash sample_bitcoin (compute_txid sample_bitcoin tx) = sample_hash [12]
    \<and> reviewed_payment sample_bitcoin sample_crypto sample_bdk db ''w'' sample_id (ws_network (l_summary l))
        (l_wallet l) review tx"
proof -
  obtain db where db: "load sample_bdk db ''w'' = Inr sample_loaded" "broadcast_attempts db = []"
    "has_key (''w'', sample_id) (finalized_drafts db)" "map_of (finalized_drafts db) (''w'', sample_id) = Some [2, 2]"
    "finalized_draft sample_bitcoin signed_codec sample_crypto sample_bdk ''w'' sample_id db = Inr (Some sample_final)"
    by (rule sample_finalized_db)
  let ?send = "\<lambda>x. broadcast_draft sample_bitcoin signed_codec sample_crypto sample_bdk sample_web x sample_broadcast db"
  let ?f = "\<lambda>(_ :: string) (_ :: string). Some \<lparr>status_success = True, content_length = None,
      body_chunks = [Some (bytes_of (sample_hash [12]))]\<rparr>"
  obtain info where run: "?send sample_exchange = (Inr info, attempt_recorded db)" using sample_submission(3) [OF db] by blast
  have "trim (sample_hash [12]) = sample_hash [12]"
    by (rule trim_plain) (simp_all add: sample_hash_def hex_digit_def)
  moreover have "length (sample_hash [12]) = 64" by (simp add: sample_hash_def)
  moreover have "utf8_valid (replicate n (CHR ''0'') @ s) = utf8_valid s" for n s by (induction n) simp_all
  then have "utf8_valid (sample_hash [12])" by (simp add: sample_hash_def hex_digit_def)
  ultimately have "is_acknowledged sample_final (?f u v)" for u v
    by (simp add: is_acknowledged_def response_text_def RESPONSE_LIMIT_def utf8_text_def text_of_bytes_of length_bytes_of
        sample_final_def)
  then have "snd (?send (sample_exchange\<lparr>post_reply := ?f\<rparr>)) = sql_acknowledge (attempt_seq db + 1) ''w'' sample_id (attempt_recorded db)"
    using sample_submission(2) [OF db, of ?f] by simp
  moreover have "broadcast_attempts (sql_acknowledge (attempt_seq db + 1) ''w'' sample_id (attempt_recorded db))
      \<noteq> broadcast_attempts (attempt_recorded db)"
    by (simp add: sql_acknowledge_def attempt_recorded_def recorded_attempt_def)
  ultimately have "?send (sample_exchange\<lparr>post_reply := ?f\<rparr>) \<noteq> (Inr info, attempt_recorded db)" by (metis snd_conv)
  from submission_is_reviewed [OF run this] show ?thesis
    unfolding sample_review_parts by blast
qed

theorem sent_as_created_witness:
  "\<exists>db2 :: nat db. \<exists>l tx. load sample_bdk db2 ''w'' = Inr l \<and> transaction_bytes sample_final = tx_serialize sample_bitcoin tx
    \<and> reviewed_payment sample_bitcoin sample_crypto sample_bdk db2 ''w'' sample_id (ws_network (l_summary l))
        (l_wallet l) sample_review tx"
proof -
  obtain db where final: "finalize_draft sample_bitcoin signed_codec sample_crypto sample_bdk ''w'' sample_id
      (signing_db ''signed'' True) = (Inr sample_final, db)"
    using sample_finalize by blast
  have keeps: "run_keeping sample_bitcoin signed_codec sample_crypto sample_miniscript sample_bdk sample_chain
      (undefined :: unit ledger) (\<lambda>_. None) (dr_wallet_id sample_request, dv_id sample_review) (signing_db ''unsigned'' False) db"
    unfolding sample_review_parts by (rule sample_keeps [OF final])
  note recorded = sample_submission(1) [OF sample_final_tables [OF final]]
  have "br_wallet_id sample_broadcast = dr_wallet_id sample_request" "br_draft_id sample_broadcast = dv_id sample_review"
    by (simp_all add: sample_review_parts)
  from sent_as_created [OF sample_created sample_db_ok keeps recorded this] show ?thesis
    unfolding sample_review_parts by blast
qed

theorem submission_permanent_witness:
  "\<exists>db :: nat db. broadcast_attempts db \<noteq> [] \<and> submitted (snd (discard_draft ''w'' sample_id db)) ''w'' sample_id
    \<and> draft_at (snd (discard_draft ''w'' sample_id db)) (''w'', sample_id) \<noteq> None"
proof -
  obtain db where final: "finalize_draft sample_bitcoin signed_codec sample_crypto sample_bdk ''w'' sample_id
      (signing_db ''signed'' True) = (Inr sample_final, db)"
    using sample_finalize by blast
  let ?step = "core_step sample_bitcoin signed_codec sample_crypto sample_miniscript sample_bdk sample_chain
      (undefined :: unit ledger) (\<lambda>_. None)"
  have created: "?step sample_db (signing_db ''unsigned'' False)" by (rule Draft_Step [OF sample_created])
  have "draft_at (signing_db ''unsigned'' False) (''w'', sample_id) \<noteq> None"
    by (simp add: draft_at_None signing_db_def keys_def)
  then have ok: "wf_db db" "reviews_named db"
    using kept_draft [OF sample_keeps [OF final] schema.inv_step [OF created sample_db_ok(1)]
        named_step [OF created sample_db_ok]] by blast+
  have "run_tx db (record_attempt sample_bitcoin signed_codec sample_crypto sample_bdk sample_broadcast ''e'' sample_final 7)
      = (Inr (attempt_seq db + 1), attempt_recorded db)"
    using sample_submission(1) [OF sample_final_tables [OF final]] by (simp add: run_tx_def)
  then have attempt: "?step db (attempt_recorded db)" by (rule Attempt_Step)
  note ok = schema.inv_step [OF attempt ok(1)] named_step [OF attempt ok]
  have sub: "submitted (attempt_recorded db) ''w'' sample_id"
    by (simp add: submitted_def attempt_recorded_def recorded_attempt_def attempt_draft_def)
  have "core_run sample_bitcoin signed_codec sample_crypto sample_miniscript sample_bdk sample_chain
      (undefined :: unit ledger) (\<lambda>_. None) (attempt_recorded db) (snd (discard_draft ''w'' sample_id (attempt_recorded db)))"
    by (rule More_Steps [OF No_Step Discard_Step]) (rule prod.collapse [symmetric])
  from submission_permanent [OF this ok sub] show ?thesis
    by (intro exI [of _ "attempt_recorded db"]) (auto simp: attempt_recorded_def)
qed

end
