(* ===== verification/Reservation_Facts.thy ===== *)
theory Reservation_Facts
  imports Payment_Facts
begin

text \<open>
  The reservations are exactly the inputs of the drafts that can still be signed or submitted: in
  every reachable database a coin is reserved for a draft if and only if that draft is alive and
  its review shows the coin, so no coin is claimed twice and none stays locked by a closed draft.
\<close>

section \<open>What a draft needs and what it has\<close>

definition needed :: "draft_review \<Rightarrow> string set" where
  "needed r = (if List.member signable_states (dv_state r) then ri_outpoint ` set (dv_inputs r) else {})"

definition needs :: "'cs db \<Rightarrow> string \<times> string \<Rightarrow> string set" where
  "needs db k =
     (case map_of (drafts db) k of
        None \<Rightarrow> {}
      | Some row \<Rightarrow> (case d_review row of None \<Rightarrow> {} | Some r \<Rightarrow> needed r))"

definition claims :: "'cs db \<Rightarrow> string \<times> string \<Rightarrow> string set" where
  "claims db k = {op. map_of (reservations db) (fst k, op) = Some (snd k)}"

definition reservations_exact :: "'cs db \<Rightarrow> bool" where
  "reservations_exact db \<longleftrightarrow> claims db = needs db"

lemma reservations_exact_same:
  "drafts db' = drafts db \<Longrightarrow> reservations db' = reservations db \<Longrightarrow> reservations_exact db \<Longrightarrow> reservations_exact db'"
  by (simp add: reservations_exact_def fun_eq_iff needs_def claims_def)

text \<open>A change of one draft together with its reservations.\<close>

lemma reservations_exact_update:
  assumes "reservations_exact db" and "claims db' = (claims db)(k := S)" and "needs db' = (needs db)(k := S)"
  shows "reservations_exact db'"
  using assms by (simp add: reservations_exact_def)

lemma needs_drafts: "drafts db' = drafts db \<Longrightarrow> needs db' = needs db"
  by (rule ext) (simp add: needs_def)

lemma claims_reservations: "reservations db' = reservations db \<Longrightarrow> claims db' = claims db"
  by (rule ext) (simp add: claims_def)

lemma needs_set_review:
  assumes "(w, d) \<in> keys (drafts db)"
  shows "needs (sql_set_review w d r db) = (needs db)((w, d) := needed r)"
proof -
  obtain row where "map_of (drafts db) (w, d) = Some row" using assms map_of_None_iff by (metis not_None_eq)
  then show ?thesis by (intro ext) (auto simp: needs_def sql_set_review_def map_of_update)
qed

lemma needs_set_review_by_id:
  assumes "wf_db db" and "(w, d) \<in> keys (drafts db)"
  shows "needs (sql_set_review_by_id d r db) = (needs db)((w, d) := needed r)"
proof
  fix k :: "string \<times> string"
  obtain w' e where k: "k = (w', e)" by (cases k)
  obtain row where row: "map_of (drafts db) (w, d) = Some row" using assms(2) map_of_None_iff by (metis not_None_eq)
  have ids: "unique_ids (drafts db)" using assms(1) by (simp add: wf_db_def)
  have "w' = w" if "e = d" "map_of (drafts db) (w', d) = Some row'" for row'
    by (rule unique_id_wallet [OF ids assms(2)]) (use that in \<open>auto intro: map_of_Some_key\<close>)
  then show "needs (sql_set_review_by_id d r db) k = ((needs db)((w, d) := needed r)) k"
    using row by (cases "map_of (drafts db) (w', d)")
      (auto simp: k needs_def sql_set_review_by_id_def map_of_update)
qed

lemma claims_release:
  assumes "wf_db db"
  shows "claims (sql_release w d db) = (claims db)((w, d) := {})"
proof
  fix k :: "string \<times> string"
  have u: "unique_keys (reservations db)" using assms by (simp add: wf_db_def)
  show "claims (sql_release w d db) k = ((claims db)((w, d) := {})) k"
    using map_of_filter_value [OF u, of "\<lambda>k. fst k = w" d]
    by (cases k) (auto simp: claims_def sql_release_def split: if_splits)
qed

lemma other_statements [simp]:
  "needs (sql_release w d db) = needs db" "needs (sql_delete_recovered w d db) = needs db"
  "needs (sql_unsync_all db) = needs db" "needs (sql_set_state w s db) = needs db" "needs (sql_set_synced w t db) = needs db"
  "claims (sql_set_review w d r db) = claims db" "claims (sql_set_review_by_id d r db) = claims db"
  "claims (sql_delete_recovered w d db) = claims db" "claims (sql_unsync_all db) = claims db"
  "claims (sql_set_state w s db) = claims db" "claims (sql_set_synced w t db) = claims db"
  by (rule needs_drafts claims_reservations;
      simp add: sql_release_def sql_delete_recovered_def sql_unsync_all_def sql_set_state_def sql_set_synced_def
        sql_set_review_def sql_set_review_by_id_def)+

section \<open>The operations on drafts\<close>

lemma create_exact:
  assumes "create_draft B C W now request db = (Inr review, db')" and exact: "reservations_exact db"
  shows "reservations_exact db'"
proof (rule create_draft_Inr [OF assms(1)], goal_cases)
  case (1 l cs selected target w psbt w' db1)
  note s = store_draft_Inr [OF 1(11)]
  let ?k = "(dr_wallet_id request, dv_id review)"
  let ?row = "\<lparr>d_psbt = psbt_text C psbt, d_review = Some review, d_label = dr_label request, d_created_at = now\<rparr>"
  let ?S = "ri_outpoint ` set (dv_inputs review)"
  have new: "map_of (drafts db) ?k = None" using s by (simp add: map_of_None_iff)
  have tables: "drafts db' = drafts db @ [(?k, ?row)]"
    "reservations db' = reservations db @ map (\<lambda>i. ((dr_wallet_id request, ri_outpoint i), dv_id review)) (dv_inputs review)"
    using s by (simp_all add: 1(12) save_def sql_set_state_def)
  have "needed review = ?S" using review_draft_Inr [OF 1(10)] by (simp add: needed_def signable_states_def)
  then have needs: "needs db' = (needs db)(?k := ?S)"
    using new by (intro ext) (auto simp: needs_def tables map_add_def split: option.splits)
  have free: "map_of (reservations db) (dr_wallet_id request, op) = None" if "op \<in> ?S" for op
    using s that by (auto simp: map_of_None_iff)
  have "claims db ?k = {}" using exact new by (simp add: reservations_exact_def needs_def)
  then have "claims db' = (claims db)(?k := ?S)"
    using free by (intro ext) (auto simp: claims_def tables map_add_def map_of_new_rows split: option.splits if_splits)
  with needs show ?case by (intro reservations_exact_update [OF exact])
qed

lemma discard_exact:
  assumes "discard_draft w d db = (r, db')" and "wf_db db" and exact: "reservations_exact db"
  shows "reservations_exact db'"
proof (cases "db' = db")
  case False
  then have db': "db' = sql_delete_draft w d db"
    using assms(1) by (auto simp: discard_draft_def run_tx_def split: if_splits)
  have "claims db' = claims (sql_release w d db)"
    by (rule claims_reservations) (simp add: db' delete_draft_tables sql_release_def)
  moreover have "needs db' = (needs db)((w, d) := {})"
    by (intro ext) (simp add: db' needs_def delete_draft_tables map_of_delete)
  ultimately show ?thesis using claims_release [OF assms(2)] by (intro reservations_exact_update [OF exact]) simp_all
qed (use exact in simp)

text \<open>A draft keeps its reservations while its review goes from one live state to another.\<close>

lemma advance_exact:
  assumes load: "load_draft B C K W db wid d = Inr draft" and exact: "reservations_exact db"
    and same: "drafts db1 = drafts db" "reservations db1 = reservations db"
    and live: "List.member signable_states st"
  shows "reservations_exact (sql_set_review wid d ((sd_review draft)\<lparr>dv_state := st\<rparr>) db1)"
proof (rule load_draft_Inr [OF load], goal_cases)
  case (1 l row seen input_sum output_sum)
  let ?r = "(sd_review draft)\<lparr>dv_state := st\<rparr>"
  have "needs db (wid, d) = needed ?r" using 1(4,6,7) live by (simp add: needs_def needed_def)
  moreover have "needs (sql_set_review wid d ?r db1) = (needs db1)((wid, d) := needed ?r)"
    by (rule needs_set_review) (use 1(4) same in \<open>auto intro: map_of_Some_key\<close>)
  ultimately have "needs (sql_set_review wid d ?r db1) = needs db"
    using needs_drafts [OF same(1)] by (metis fun_upd_triv)
  then show ?case using exact claims_reservations [OF same(2)] by (simp add: reservations_exact_def)
qed

lemma accept_exact:
  assumes "accept_signed_psbt B C K W wid d payload db = (r, db')" and exact: "reservations_exact db"
  shows "reservations_exact db'"
proof (cases r)
  case (Inl e)
  then show ?thesis using assms by (auto simp: accept_signed_psbt_def split: sum.splits dest: run_tx_error)
next
  case (Inr p)
  show ?thesis
  proof (rule accept_Inr [OF assms(1) [unfolded Inr]], goal_cases)
    case (1 response draft m)
    show ?case unfolding 1(8) by (rule advance_exact [OF 1(2) exact]) (simp_all add: signable_states_def)
  qed
qed

lemma finalize_exact:
  assumes "finalize_draft B C K W wid d db = (r, db')" and exact: "reservations_exact db"
  shows "reservations_exact db'"
proof (cases r)
  case (Inl e)
  then show ?thesis using assms by (auto simp: finalize_draft_def dest: run_tx_error)
next
  case (Inr f)
  obtain draft where l: "load_draft B C K W db wid d = Inr draft"
    and db': "db' = db \<or> db' = sql_set_review wid d ((sd_review draft)\<lparr>dv_state := ''finalized''\<rparr>)
          (db\<lparr>finalized_drafts := finalized_drafts db @ [((wid, d), transaction_bytes f)]\<rparr>)"
    using finalize_draft_Inr [OF assms(1) [unfolded Inr]] by blast
  have "reservations_exact (sql_set_review wid d ((sd_review draft)\<lparr>dv_state := ''finalized''\<rparr>)
      (db\<lparr>finalized_drafts := finalized_drafts db @ [((wid, d), transaction_bytes f)]\<rparr>))"
    by (rule advance_exact [OF l exact]) (simp_all add: signable_states_def)
  then show ?thesis using db' exact by auto
qed

text \<open>Closing a draft releases what it had.\<close>

lemma close_exact:
  assumes "reservations_exact db" and "wf_db db" and "needs db' = (needs db)((w, d) := {})" and "claims db' = claims (sql_release w d db)"
  shows "reservations_exact db'"
  using claims_release [OF assms(2)] assms by (intro reservations_exact_update [OF assms(1)]) simp_all

lemma invalidate_exact:
  assumes "invalidate_draft B W wid w (d, row) db = Inr db'" and wf: "wf_db db" and exact: "reservations_exact db"
    and key: "(wid, d) \<in> keys (drafts db)" and named: "\<And>r. d_review row = Some r \<Longrightarrow> dv_id r = d"
  shows "reservations_exact db'"
proof -
  obtain r seen db1 where r: "d_review row = Some r" and o: "observe_draft B W wid r w db = Inr (seen, db1)"
    and db': "db' = db1 \<or> \<not> seen \<and> db' = sql_release wid d (sql_set_review_by_id d (r\<lparr>dv_state := ''invalidated''\<rparr>) db1)"
    using assms(1) by (auto simp: invalidate_draft_def result_simps split: if_splits)
  have closed: "needed (r\<lparr>dv_state := ''invalidated''\<rparr>) = {}" "needed (r\<lparr>dv_state := ''observed''\<rparr>) = {}"
    by (simp_all add: needed_def signable_states_def)
  show ?thesis
  proof (cases seen)
    case False
    then have "db1 = db" using o by (auto simp: observe_draft_def result_simps split: option.splits if_splits)
    moreover have "reservations_exact (sql_release wid d (sql_set_review_by_id d (r\<lparr>dv_state := ''invalidated''\<rparr>) db))"
    proof (rule close_exact [where w = wid and d = d, OF exact wf])
      show "claims (sql_release wid d (sql_set_review_by_id d (r\<lparr>dv_state := ''invalidated''\<rparr>) db)) = claims (sql_release wid d db)"
        by (rule claims_reservations) (simp add: sql_release_def sql_set_review_by_id_def)
    qed (simp add: needs_set_review_by_id [OF wf key] closed)
    ultimately show ?thesis using db' exact by auto
  next
    case True
    then obtain info db2 where a: "apply_observed_labels B W wid r w info db = Inr db2"
      and db1: "db1 = sql_release wid d (sql_set_review wid d (r\<lparr>dv_state := ''observed''\<rparr>) (sql_delete_recovered wid d db2))"
      using o by (auto simp: observe_draft_def result_simps named [OF r] split: option.splits if_splits)
    have same: "drafts db2 = drafts db" "reservations db2 = reservations db"
      using apply_observed_labels_frame [OF a] by simp_all
    have "(wid, d) \<in> keys (drafts (sql_delete_recovered wid d db2))" using key by (simp add: sql_delete_recovered_def same)
    note needs_set_review [OF this]
    then have "needs db1 = (needs db)((wid, d) := {})"
      using closed(2) needs_drafts [OF same(1)] by (simp add: db1)
    moreover have "claims db1 = claims (sql_release wid d db)"
      by (rule claims_reservations) (simp add: db1 sql_release_def sql_set_review_def sql_delete_recovered_def same)
    ultimately show ?thesis using db' True close_exact [OF exact wf] by simp
  qed
qed

lemma apply_scan_exact:
  assumes "apply_scan B W N wid snap observed_at result db = Inr (u, db')" and wf: "wf_db db" and named: "reviews_named db"
    and exact: "reservations_exact db"
  shows "reservations_exact db'"
proof -
  obtain l w db1 db2 where i: "invalidate_drafts B W wid w db = Inr db1"
    and up: "sql_upsert_sync wid (revision db2 wid + 1) (sn_endpoint snap) db2 = Inr db'"
    and db2: "db2 = sql_set_synced wid observed_at (save W wid l db1)"
    using assms(1) by (auto simp: apply_scan_def Let_def result_simps)
  let ?P = "\<lambda>u. wf_db u \<and> draft_at u = draft_at db \<and> reservations_exact u"
  have "?P db1"
  proof (rule rfold_invariant [where P = ?P, OF i [unfolded invalidate_drafts_def]])
    fix x u v
    assume x: "x \<in> set (map (\<lambda>((_, d), row). (d, row)) (filter (\<lambda>r. fst (fst r) = wid) (drafts db)))"
      and u: "?P u" and s: "invalidate_draft B W wid w x u = Inr v"
    obtain d row where xd: "x = (d, row)" by (cases x)
    have "((wid, d), row) \<in> set (drafts db)" using x by (auto simp: xd)
    note facts = stored_row [OF this wf named]
    have at: "draft_at u (wid, d) = Some (fixed_part row)" using u facts(1) by simp
    then have "(wid, d) \<in> keys (drafts u)" by (metis draft_at_None option.distinct(1))
    then have "reservations_exact v" using invalidate_exact [OF s [unfolded xd]] u facts(2) by blast
    moreover have "draft_at v = draft_at u" using invalidate_draft_at [OF s [unfolded xd] _ at facts(2)] u by blast
    ultimately show "?P v" using u schema.inv_invalidate_draft [OF _ s] by simp
  qed (use wf exact in simp)
  moreover have "drafts db' = drafts db1" "reservations db' = reservations db1"
    using up by (auto simp: db2 save_def sql_set_state_def sql_set_synced_def sql_upsert_sync_def split: if_splits)
  ultimately show ?thesis using reservations_exact_same by blast
qed

lemma suspend_exact:
  assumes "suspend B C W review_len db = Inr db'"
  shows "reservations_exact db'"
proof -
  note s = suspend_all [OF assms]
  have "needs db' k = {}" for k
  proof (cases "map_of (drafts db') k")
    case (Some row)
    then have "suspended db' k" using s map_of_Some_key by metis
    then show ?thesis using Some by (cases k) (auto simp: suspended_def needs_def needed_def signable_states_def)
  qed (simp add: needs_def)
  then show ?thesis using s by (simp add: reservations_exact_def fun_eq_iff claims_def)
qed

lemma claims_ignore:
  assumes "rfold (\<lambda>i. sql_ignore_reservation w (ri_outpoint i) d) is db = Inr db'"
  shows "drafts db' = drafts db \<and> (\<forall>k. k \<noteq> (w, d) \<longrightarrow> claims db' k = claims db k)
    \<and> claims db' (w, d) \<subseteq> claims db (w, d) \<union> ri_outpoint ` set is"
  using assms
proof (induction "is" arbitrary: db)
  case (Cons i "is")
  obtain db1 where 1: "sql_ignore_reservation w (ri_outpoint i) d db = Inr db1"
    and 2: "rfold (\<lambda>i. sql_ignore_reservation w (ri_outpoint i) d) is db1 = Inr db'"
    using Cons.prems by (auto simp: result_simps)
  have db1: "db1 = db\<lparr>reservations := tbl_insert_ignore (w, ri_outpoint i) d (reservations db)\<rparr>"
    using 1 by (auto simp: sql_ignore_reservation_def result_simps tbl_insert_ignore_def has_key_iff)
  have "drafts db1 = drafts db \<and> (\<forall>k. k \<noteq> (w, d) \<longrightarrow> claims db1 k = claims db k)
      \<and> claims db1 (w, d) \<subseteq> insert (ri_outpoint i) (claims db (w, d))"
    by (auto simp: db1 claims_def map_of_insert_ignore split: if_splits dest: map_of_Some_key)
  then show ?case using Cons.IH [OF 2] by auto
qed simp

text \<open>A submission is resumed only if every reviewed coin could be reserved for it again.\<close>

lemma payment_reserved:
  assumes "reviewed_payment B K W db wid d network w r tx" and "i \<in> set (dv_inputs r)"
  shows "map_of (reservations db) (wid, ri_outpoint i) = Some d"
  using assms by (auto simp: reviewed_payment_def spends_reviewed_def reserved_by_def in_set_conv_nth)

lemma resume_exact:
  assumes "resume_recovered_submission B C K W wid d txid attempt ack db = (r, db')" and exact: "reservations_exact db"
  shows "reservations_exact db'"
proof -
  have "reservations_exact db'" if body: "resume_body B C K W wid d txid attempt db = Inr (f, db')" for f db'
  proof -
    obtain row review db1 where row: "map_of (drafts db) (wid, d) = Some row" "d_review row = Some review"
      and inv: "dv_state review = ''invalidated''"
      and fold: "rfold (\<lambda>i. sql_ignore_reservation wid (ri_outpoint i) d) (dv_inputs review)
            (sql_set_review wid d (review\<lparr>dv_state := ''finalized''\<rparr>) db) = Inr db1"
      and v: "finalized_draft B C K W wid d db1 = Inr (Some f)"
      and db': "db' = sql_delete_recovered wid d db1"
      using body by (auto simp: resume_body_def finalized_draft_def result_simps)
    let ?r = "review\<lparr>dv_state := ''finalized''\<rparr>"
    let ?S = "ri_outpoint ` set (dv_inputs review)"
    note ignored = claims_ignore [OF fold]
    have key: "(wid, d) \<in> keys (drafts db)" using row(1) by (rule map_of_Some_key)
    have "needed ?r = ?S" by (simp add: needed_def signable_states_def)
    then have needs: "needs db1 = (needs db)((wid, d) := ?S)"
      using needs_drafts needs_set_review [OF key] ignored by metis
    have "claims db (wid, d) = {}"
      using exact row inv by (simp add: reservations_exact_def needs_def needed_def signable_states_def)
    then have sub: "claims db1 (wid, d) \<subseteq> ?S" using ignored by simp
    have stored: "map_of (drafts db1) (wid, d) = Some (row\<lparr>d_review := Some ?r\<rparr>)"
      using ignored row(1) by (simp add: sql_set_review_def map_of_update)
    then obtain l tx where "load W db1 wid = Inr l" and "reviewed_payment B K W db1 wid d (ws_network (l_summary l)) (l_wallet l) ?r tx"
      using finalized_draft_reviewed [OF v] by auto
    then have "?S \<subseteq> claims db1 (wid, d)" by (auto simp: claims_def dest: payment_reserved)
    with sub have "claims db1 (wid, d) = ?S" by blast
    then have "claims db1 k = ((claims db)((wid, d) := ?S)) k" for k
      using ignored by (cases "k = (wid, d)") (simp_all del: split_paired_All)
    then have "claims db1 = (claims db)((wid, d) := ?S)" by (rule ext)
    then show ?thesis using reservations_exact_update [OF exact, of db'] needs by (simp add: db')
  qed
  then show ?thesis
    using assms by (auto simp: resume_recovered_submission_def run_tx_def split: sum.splits if_splits)
qed

section \<open>Every step\<close>

text \<open>The other operations touch neither table.\<close>

interpretation tables_frame: database_frame "\<lambda>db. drafts db = D \<and> reservations db = R" for D R
  by unfold_locales (auto simp: statement_defs result_simps split: if_splits)

lemma usb_receive_exact:
  assumes "usb_receive B C M K W N parse L now step report u db = (r, v, db')" and exact: "reservations_exact db"
  shows "reservations_exact db'"
proof -
  have rec: "reservations_exact db1" if "run_tx db (record_outcome B M W N parse L u' update out) = (a, db1)" for u' update out a db1
  proof -
    have "drafts (snd (run_tx db (record_outcome B M W N parse L u' update out))) = drafts db
        \<and> reservations (snd (run_tx db (record_outcome B M W N parse L u' update out))) = reservations db"
      by (rule tables_frame.run_tx_inv) (auto dest: tables_frame.inv_record_outcome [rotated])
    then show ?thesis using that reservations_exact_same exact by (metis snd_conv)
  qed
  have "reservations_exact db2" if "usb_complete B C M K W N parse L u' update db = (a, v', db2)" for u' update a v' db2
    using that exact
    by (auto simp: usb_complete_def Let_def split: prod.splits sum.splits option.splits dest: rec intro: accept_exact)
  then show ?thesis
    using assms by (auto simp: usb_receive_def Let_def split: prod.splits sum.splits if_splits)
qed

lemma core_step_exact:
  assumes "core_step B C K M W N L parse db db'" and "wf_db db" and "reviews_named db" and "reservations_exact db"
  shows "reservations_exact db'"
  using assms
proof (cases rule: core_step.cases)
  case (Draft_Step now request r)
  show ?thesis
  proof (cases r)
    case (Inl e)
    then have "db' = db" using Draft_Step by (auto simp: create_draft_def split: sum.splits if_splits dest: run_tx_error)
    then show ?thesis using assms(4) by simp
  next
    case (Inr review)
    then show ?thesis using create_exact Draft_Step assms(4) by blast
  qed
next
  case (Attempt_Step request e approved now r)
  have "drafts (snd (run_tx db (record_attempt B C K W request e approved now))) = drafts db
      \<and> reservations (snd (run_tx db (record_attempt B C K W request e approved now))) = reservations db"
    by (rule tables_frame.run_tx_inv) (auto dest: tables_frame.inv_record_attempt [rotated])
  then show ?thesis using Attempt_Step reservations_exact_same assms(4) by (metis snd_conv)
next
  case (Scan_Step wid snap observed_at result r)
  then show ?thesis using assms(2-4) by (auto simp: run_tx_def split: sum.splits dest: apply_scan_exact)
next
  case (Acknowledge_Step i wid d)
  show ?thesis unfolding Acknowledge_Step
    by (rule reservations_exact_same [OF _ _ assms(4)]) (auto dest: tables_frame.acknowledge simp: sql_acknowledge_def)
next
  case (Discard_Step wid d r)
  then show ?thesis using discard_exact assms(2,4) by blast
next
  case (Accept_Step wid d payload r)
  then show ?thesis using accept_exact assms(4) by blast
next
  case (Finalize_Step wid d r)
  then show ?thesis using finalize_exact assms(4) by blast
next
  case (Resume_Step wid d txid attempt ack r)
  then show ?thesis using resume_exact assms(4) by blast
next
  case (Device_Step now step report u r v)
  then show ?thesis using usb_receive_exact assms(4) by blast
next
  case (Restore_Step review_len)
  then show ?thesis using suspend_exact by blast
qed (metis snd_conv reservations_exact_same tables_frame.inv_import_wallet tables_frame.inv_receive_address
    tables_frame.inv_set_label tables_frame.inv_set_frozen tables_frame.inv_edit_coins
    tables_frame.inv_import_labels)+

lemma core_run_exact:
  assumes "core_run B C K M W N L parse db db'" and "wf_db db" and "reviews_named db" and "reservations_exact db"
  shows "wf_db db' \<and> reviews_named db' \<and> reservations_exact db'"
  using assms
  by (induction rule: core_run.induct) (auto intro: named_step schema.inv_step core_step_exact)

lemma empty_exact: "wf_db empty_db" "reviews_named empty_db" "reservations_exact empty_db"
  by (rule empty_invariants(1))
    (simp_all add: reviews_named_def draft_at_def reservations_exact_def fun_eq_iff needs_def claims_def empty_db_def)

text \<open>
  C4. The reservations are exactly what the live drafts need. From an empty database on, or from any
  other that satisfies it, however the operations of the core are called and interleaved: a coin is
  reserved for a draft if and only if that draft is stored, its review is unsigned, partially signed,
  signed or finalized, and shows the coin. So two live drafts of a wallet never share a coin, every
  way a draft is closed (discarded, observed on the chain, invalidated by a scan or by a restored
  backup) frees its coins, and none of the ways it stays alive does.
\<close>

theorem reservations_match_drafts:
  assumes "core_run B C K M W N L parse db0 db"
    and "wf_db db0" and "reviews_named db0" and "reservations_exact db0"
  shows "map_of (reservations db) (w, outpoint) = Some d \<longleftrightarrow>
    (\<exists>row r. map_of (drafts db) (w, d) = Some row \<and> d_review row = Some r
      \<and> dv_state r \<in> {''unsigned'', ''partially_signed'', ''signed'', ''finalized''}
      \<and> outpoint \<in> ri_outpoint ` set (dv_inputs r))"
proof -
  have "claims db (w, d) = needs db (w, d)"
    using core_run_exact [OF assms] by (simp add: reservations_exact_def)
  then have "map_of (reservations db) (w, outpoint) = Some d \<longleftrightarrow> outpoint \<in> needs db (w, d)"
    by (auto simp: claims_def)
  then show ?thesis
    by (auto simp: needs_def needed_def signable_states_def List.member_iff split: option.splits if_splits)
qed

theorem reservations_match_drafts_witness:
  "map_of (reservations sample_draft_db) (''w'', ''a:0'') = Some (dv_id sample_review)
   \<and> map_of (reservations sample_draft_db) (''w'', ''b:0'') \<noteq> Some (dv_id sample_review)"
proof -
  have run: "core_run sample_bitcoin sample_codec sample_crypto sample_miniscript sample_bdk sample_chain
      (undefined :: unit ledger) (\<lambda>_. None) sample_db sample_draft_db"
    by (rule More_Steps [OF No_Step Draft_Step [OF sample_create]])
  have "reservations_exact sample_db"
    by (simp add: reservations_exact_def fun_eq_iff needs_def claims_def sample_db_def empty_db_def)
  note exact = reservations_match_drafts [OF run sample_db_ok this]
  have "map_of (drafts sample_draft_db) (''w'', dv_id sample_review) = Some sample_draft_row"
    by (simp add: sample_draft_db_def sample_review_def)
  then show ?thesis
    unfolding exact by (simp add: sample_draft_row_def) (simp add: sample_review_def)
qed

end
