(* ===== verification/Draft_Lifecycle.thy ===== *)
theory Draft_Lifecycle
  imports Reservation_Facts
begin

text \<open>
  The life of a draft as the tables show it. No constraint of the schema relates the state of a
  stored review to the signatures, the final transaction, the submissions and the recovery record
  stored beside it; the operations of the core keep them in step, and this theory shows that they do,
  from any database in order, over every run of the core.
\<close>

section \<open>What the tables hold for a draft\<close>

text \<open>
  The state of its review (\<open>None\<close> for no draft, \<open>Some None\<close> for a draft without a review), and
  whether signatures, a final transaction, a recovery record and a submission are stored.
\<close>

type_synonym stage = "string option option \<times> bool \<times> bool \<times> bool \<times> bool"

definition stage :: "'cs db \<Rightarrow> string \<times> string \<Rightarrow> stage" where
  "stage db k = (map_option (\<lambda>row. map_option dv_state (d_review row)) (map_of (drafts db) k),
     k \<in> keys (draft_signatures db), k \<in> keys (finalized_drafts db), k \<in> keys (recovered_submissions db),
     submitted db (fst k) (snd k))"

text \<open>
  An unsigned draft has nothing beside it; a partially signed or signed one has signatures, and
  neither a final transaction nor a submission; a finalized one has its final transaction; an observed
  one was submitted; only an invalidated one awaits recovery, and only if it was submitted. A
  submission is always one of a stored final transaction.
\<close>

fun in_order :: "stage \<Rightarrow> bool" where
  "in_order (None, sig, bytes, recovered, sub) = (\<not> sig \<and> \<not> bytes \<and> \<not> recovered \<and> \<not> sub)"
| "in_order (Some None, sig, bytes, recovered, sub) = False"
| "in_order (Some (Some st), sig, bytes, recovered, sub) =
     (if st = ''unsigned'' then \<not> sig \<and> \<not> bytes \<and> \<not> recovered \<and> \<not> sub
      else if st = ''partially_signed'' \<or> st = ''signed'' then sig \<and> \<not> bytes \<and> \<not> recovered \<and> \<not> sub
      else if st = ''finalized'' then bytes \<and> \<not> recovered
      else if st = ''observed'' then bytes \<and> \<not> recovered \<and> sub
      else st = ''invalidated'' \<and> (sub \<longrightarrow> bytes) \<and> (recovered \<longrightarrow> sub))"

definition drafts_in_order :: "'cs db \<Rightarrow> bool" where
  "drafts_in_order db \<longleftrightarrow> (\<forall>k. in_order (stage db k))"

lemma in_orderD:
  "in_order (s, sig, bytes, recovered, sub) \<Longrightarrow> (sub \<longrightarrow> bytes) \<and> (recovered \<longrightarrow> sub)"
  "in_order (Some (Some st), sig, bytes, recovered, sub) \<Longrightarrow> List.member signable_states st \<Longrightarrow> st \<noteq> ''finalized'' \<Longrightarrow>
     \<not> bytes \<and> \<not> recovered \<and> \<not> sub"
  by (cases "(s, sig, bytes, recovered, sub)" rule: in_order.cases; auto split: if_splits)
    (auto simp: signable_states_def split: if_splits)

lemma drafts_in_order_update:
  assumes "drafts_in_order db" and "\<And>k. k \<noteq> k0 \<Longrightarrow> stage db' k = stage db k" and "in_order (stage db' k0)"
  shows "drafts_in_order db'"
  unfolding drafts_in_order_def
proof
  fix k show "in_order (stage db' k)"
    using assms by (cases "k = k0") (simp_all add: drafts_in_order_def del: split_paired_All)
qed

text \<open>The five tables a stage is read from.\<close>

definition draft_tables where
  "draft_tables db = (drafts db, draft_signatures db, finalized_drafts db, recovered_submissions db)"

lemma stage_same:
  "draft_tables db' = draft_tables db \<Longrightarrow> (\<And>w d. submitted db' w d = submitted db w d) \<Longrightarrow> stage db' = stage db"
  by (rule ext) (simp add: stage_def draft_tables_def)

lemma drafts_in_order_same:
  "drafts_in_order db \<Longrightarrow> draft_tables db' = draft_tables db \<Longrightarrow> broadcast_attempts db' = broadcast_attempts db \<Longrightarrow>
     drafts_in_order db'"
  using stage_same [of db' db] by (simp add: drafts_in_order_def submitted_def)

section \<open>The operations that only read drafts\<close>

interpretation untouched: database_plain "\<lambda>db. draft_tables db = T \<and> broadcast_attempts db = A" for T A
  by unfold_locales (auto simp: draft_tables_def statement_defs result_simps split: if_splits)

interpretation unsent: database_quiet "\<lambda>db. draft_tables db = T" for T
  by unfold_locales (auto simp: draft_tables_def statement_defs result_simps Let_def split: if_splits)

lemma plain_in_order:
  assumes "drafts_in_order db"
  shows "import_wallet B M W parse now name payload n db = (r1, db') \<Longrightarrow> drafts_in_order db'"
    and "set_label B W wid kind ref label db = (r2, db') \<Longrightarrow> drafts_in_order db'"
    and "set_frozen B W wid ref frozen db = (r3, db') \<Longrightarrow> drafts_in_order db'"
    and "edit_coins B W wid references new_label freeze db = (r4, db') \<Longrightarrow> drafts_in_order db'"
    and "import_labels B W parse wid payload apply db = (r5, db') \<Longrightarrow> drafts_in_order db'"
    and "receive_address W wid db = (r6, db') \<Longrightarrow> drafts_in_order db'"
proof -
  note same = drafts_in_order_same [OF assms]
  let ?same = "\<lambda>db'. draft_tables db' = draft_tables db \<and> broadcast_attempts db' = broadcast_attempts db"
  show "import_wallet B M W parse now name payload n db = (r1, db') \<Longrightarrow> drafts_in_order db'"
    using untouched.inv_import_wallet [of db "draft_tables db" "broadcast_attempts db"] same by (metis snd_conv)
  show "set_label B W wid kind ref label db = (r2, db') \<Longrightarrow> drafts_in_order db'"
    using untouched.inv_set_label [of db "draft_tables db" "broadcast_attempts db"] same by (metis snd_conv)
  show "set_frozen B W wid ref frozen db = (r3, db') \<Longrightarrow> drafts_in_order db'"
    using untouched.inv_set_frozen [of db "draft_tables db" "broadcast_attempts db"] same by (metis snd_conv)
  show "edit_coins B W wid references new_label freeze db = (r4, db') \<Longrightarrow> drafts_in_order db'"
    using untouched.inv_edit_coins [of db "draft_tables db" "broadcast_attempts db"] same by (metis snd_conv)
  show "import_labels B W parse wid payload apply db = (r5, db') \<Longrightarrow> drafts_in_order db'"
    using untouched.inv_import_labels [of db "draft_tables db" "broadcast_attempts db"] same by (metis snd_conv)
  show "receive_address W wid db = (r6, db') \<Longrightarrow> drafts_in_order db'"
    using same [of db'] assms
    by (cases r6) (auto simp: receive_address_Inr save_def sql_set_state_def draft_tables_def,
      auto simp: receive_address_def dest: run_tx_error)
qed

section \<open>Making and closing a draft\<close>

lemma create_in_order:
  assumes "create_draft B C W now request db = (Inr review, db')" and ordered: "drafts_in_order db"
  shows "drafts_in_order db'"
proof (rule create_draft_Inr [OF assms(1)], goal_cases)
  case (1 l cs selected target w psbt w' db1)
  let ?k = "(dr_wallet_id request, dv_id review)"
  note s = store_draft_Inr [OF 1(11)]
  have new: "map_of (drafts db) ?k = None" using s by (simp add: map_of_None_iff)
  have st: "dv_state review = ''unsigned''" using review_draft_Inr [OF 1(10)] by simp
  have "in_order (stage db ?k)" using ordered by (simp add: drafts_in_order_def)
  then have old: "?k \<notin> keys (draft_signatures db)" "?k \<notin> keys (finalized_drafts db)"
    "?k \<notin> keys (recovered_submissions db)" "\<not> submitted db (dr_wallet_id request) (dv_id review)"
    by (simp_all add: stage_def new)
  show ?case
  proof (rule drafts_in_order_update [OF ordered, of ?k])
    show "stage db' k = stage db k" if "k \<noteq> ?k" for k
      using s that by (auto simp: 1(12) save_def sql_set_state_def stage_def submitted_def map_add_def split: option.splits)
    show "in_order (stage db' ?k)"
      using s old new by (simp add: 1(12) save_def sql_set_state_def stage_def submitted_def map_add_def st)
  qed
qed

lemma discard_in_order:
  assumes "discard_draft w d db = (r, db')" and ordered: "drafts_in_order db"
  shows "drafts_in_order db'"
proof (cases "db' = db")
  case False
  then have db': "db' = sql_delete_draft w d db" and sub: "\<not> submitted db w d"
    using assms(1) by (auto simp: discard_draft_def run_tx_def split: if_splits)
  have "submitted db' w' d' = submitted db w' d'" for w' d'
    using sub by (auto simp: db' submitted_def sql_delete_draft_def list_ex_iff attempt_draft_def)
  then show ?thesis
    by (intro drafts_in_order_update [OF ordered, of "(w, d)"])
      (use sub in \<open>auto simp: db' stage_def sql_delete_draft_def sql_delete_recovered_def sql_release_def map_of_delete table_keys\<close>)
qed (use ordered in simp)

section \<open>Signing, finalizing, resuming\<close>

lemma stage_row:
  "map_of (drafts db) k = Some row \<Longrightarrow> d_review row = Some r \<Longrightarrow>
     stage db k = (Some (Some (dv_state r)), k \<in> keys (draft_signatures db), k \<in> keys (finalized_drafts db),
       k \<in> keys (recovered_submissions db), submitted db (fst k) (snd k))"
  by (simp add: stage_def)

text \<open>A loaded draft can still be signed: unless it is finalized, only signatures are stored with it.\<close>

lemma loaded_stage:
  assumes "load_draft B C K W db wid d = Inr draft" and "drafts_in_order db"
  obtains row where "map_of (drafts db) (wid, d) = Some row" and "d_review row = Some (sd_review draft)"
    and "(wid, d) \<notin> keys (recovered_submissions db)"
    and "dv_state (sd_review draft) \<noteq> ''finalized'' \<Longrightarrow>
      (wid, d) \<notin> keys (finalized_drafts db) \<and> \<not> submitted db wid d"
proof (rule load_draft_Inr [OF assms(1)], goal_cases)
  case (1 l row seen input_sum output_sum)
  have "in_order (stage db (wid, d))" using assms(2) by (simp add: drafts_in_order_def)
  then have ord: "in_order (Some (Some (dv_state (sd_review draft))), (wid, d) \<in> keys (draft_signatures db),
      (wid, d) \<in> keys (finalized_drafts db), (wid, d) \<in> keys (recovered_submissions db), submitted db wid d)"
    using 1(5,7) by (simp only: stage_row fst_conv snd_conv)
  have "(wid, d) \<notin> keys (recovered_submissions db)"
    using in_orderD(2) [OF ord 1(8)] ord by (cases "dv_state (sd_review draft) = ''finalized''") (simp_all del: split_paired_All)
  with in_orderD(2) [OF ord 1(8)] that [OF 1(5,7)] show ?case by blast
qed

lemma accept_in_order:
  assumes "accept_signed_psbt B C K W wid d payload db = (r, db')" and ordered: "drafts_in_order db"
  shows "drafts_in_order db'"
proof (cases r)
  case (Inl e)
  then show ?thesis using assms by (auto simp: accept_signed_psbt_def split: sum.splits dest: run_tx_error)
next
  case (Inr p)
  show ?thesis
  proof (rule accept_Inr [OF assms(1) [unfolded Inr]], goal_cases)
    case (1 response draft m)
    show ?case
    proof (rule loaded_stage [OF 1(2) ordered], goal_cases)
      case (1 row)
      show ?case
        by (rule drafts_in_order_update [OF ordered, of "(wid, d)"])
          (use 1 \<open>dv_state (sd_review draft) \<noteq> ''finalized''\<close> in
            \<open>simp_all add: \<open>db' = _\<close> stage_def sql_set_review_def map_of_update submitted_def table_keys\<close>)
    qed
  qed
qed

lemma finalize_in_order:
  assumes "finalize_draft B C K W wid d db = (r, db')" and ordered: "drafts_in_order db"
  shows "drafts_in_order db'"
proof (cases r)
  case (Inl e)
  then show ?thesis using assms by (auto simp: finalize_draft_def dest: run_tx_error)
next
  case (Inr f)
  obtain draft where l: "load_draft B C K W db wid d = Inr draft"
    and db': "db' = db \<or> db' = sql_set_review wid d ((sd_review draft)\<lparr>dv_state := ''finalized''\<rparr>)
          (db\<lparr>finalized_drafts := finalized_drafts db @ [((wid, d), transaction_bytes f)]\<rparr>)" (is "_ \<or> db' = ?new")
    using finalize_draft_Inr [OF assms(1) [unfolded Inr]] by blast
  have "drafts_in_order ?new"
  proof (rule loaded_stage [OF l ordered], goal_cases)
    case (1 row)
    show ?case
      by (rule drafts_in_order_update [OF ordered, of "(wid, d)"])
        (use 1 in \<open>simp_all add: stage_def sql_set_review_def map_of_update submitted_def\<close>)
  qed
  then show ?thesis using db' ordered by auto
qed

lemma reserve_again_tables:
  assumes "rfold (\<lambda>i. sql_ignore_reservation w (ri_outpoint i) d) is db = Inr db'"
  shows "draft_tables db' = draft_tables db \<and> broadcast_attempts db' = broadcast_attempts db"
  by (rule rfold_invariant [where P = "\<lambda>u. draft_tables u = draft_tables db \<and> broadcast_attempts u = broadcast_attempts db", OF assms])
    (auto simp: draft_tables_def sql_ignore_reservation_def result_simps)

lemma resume_in_order:
  assumes "resume_recovered_submission B C K W wid d txid attempt ack db = (r, db')" and ordered: "drafts_in_order db"
  shows "drafts_in_order db'"
proof -
  have "drafts_in_order db'" if body: "resume_body B C K W wid d txid attempt db = Inr (f, db')" for f db'
  proof -
    obtain row review db1 where row: "map_of (drafts db) (wid, d) = Some row" "d_review row = Some review"
      and fold: "rfold (\<lambda>i. sql_ignore_reservation wid (ri_outpoint i) d) (dv_inputs review)
            (sql_set_review wid d (review\<lparr>dv_state := ''finalized''\<rparr>) db) = Inr db1"
      and v: "validated_finalized B C K W db1 wid d = Inr (Some f)"
      and db': "db' = sql_delete_recovered wid d db1"
      using body by (auto simp: resume_body_def result_simps)
    note same = reserve_again_tables [OF fold]
    have "(wid, d) \<in> keys (finalized_drafts db1)"
      using v by (auto simp: validated_finalized_def stored_finalized_def result_simps split: option.splits if_splits
          intro: map_of_Some_key)
    then show ?thesis
      by (intro drafts_in_order_update [OF ordered, of "(wid, d)"])
        (use same row in \<open>simp_all add: db' draft_tables_def stage_def sql_delete_recovered_def sql_set_review_def
          map_of_update submitted_def table_keys\<close>)
  qed
  then show ?thesis
    using assms by (auto simp: resume_recovered_submission_def run_tx_def split: sum.splits if_splits)
qed

section \<open>Submitting\<close>

lemma attempt_in_order:
  assumes "record_attempt B C K W request e approved now db = Inr (i, db')" and ordered: "drafts_in_order db"
  shows "drafts_in_order db'"
proof -
  let ?k = "(br_wallet_id request, br_draft_id request)"
  obtain at where v: "validated_finalized B C K W db (br_wallet_id request) (br_draft_id request) = Inr (Some approved)"
    and at: "a_wallet at = br_wallet_id request" "a_draft at = br_draft_id request"
    and ins: "sql_insert_attempt at db = Inr (i, db')"
    using assms(1) that
    by (auto simp: record_attempt_def result_simps split: if_splits) (metis attempt_row.select_convs(1,2))
  obtain draft where l: "load_draft B C K W db (br_wallet_id request) (br_draft_id request) = Inr draft"
    and st: "dv_state (sd_review draft) = ''finalized''" and bytes: "?k \<in> keys (finalized_drafts db)"
    using v by (auto simp: validated_finalized_def stored_finalized_def result_simps split: option.splits if_splits
          intro: map_of_Some_key)
  have db': "draft_tables db' = draft_tables db" "broadcast_attempts db' = broadcast_attempts db @ [(i, at)]"
    using ins by (auto simp: sql_insert_attempt_def draft_tables_def Let_def split: if_splits)
  show ?thesis
  proof (rule loaded_stage [OF l ordered], goal_cases)
    case (1 row)
    show ?case
      by (rule drafts_in_order_update [OF ordered, of ?k])
        (use 1 db' st bytes at in \<open>auto simp: draft_tables_def stage_def submitted_def attempt_draft_def\<close>)
  qed
qed

lemma acknowledge_in_order:
  assumes "drafts_in_order db"
  shows "drafts_in_order (sql_acknowledge i w d db)"
proof -
  let ?f = "\<lambda>(j, r). if j = i \<and> a_wallet r = w \<and> a_draft r = d then (j, r\<lparr>a_acknowledged := True\<rparr>) else (j, r)"
  have "attempt_draft (?f x) = attempt_draft x" for x by (auto simp: attempt_draft_def split: prod.splits)
  then have "list_ex (\<lambda>r. attempt_draft r = k) (map ?f xs) = list_ex (\<lambda>r. attempt_draft r = k) xs" for k xs
    by (induction xs) auto
  then have "submitted (sql_acknowledge i w d db) w' d' = submitted db w' d'" for w' d'
    by (simp add: submitted_def sql_acknowledge_def)
  then have "stage (sql_acknowledge i w d db) = stage db"
    by (intro stage_same) (simp_all add: draft_tables_def sql_acknowledge_def)
  then show ?thesis using assms by (simp add: drafts_in_order_def)
qed

section \<open>A scan\<close>

lemma latest_submitted: "latest db w d = Some info \<Longrightarrow> submitted db w d"
  by (auto simp: latest_def submitted_attempts split: list.splits if_splits)

lemma invalidate_in_order:
  assumes "invalidate_draft B W wid w (d, row) db = Inr db'" and wf: "wf_db db" and ordered: "drafts_in_order db"
    and key: "(wid, d) \<in> keys (drafts db)" and named: "\<And>r. d_review row = Some r \<Longrightarrow> dv_id r = d"
  shows "drafts_in_order db'"
proof -
  obtain r seen db1 where r: "d_review row = Some r" and o: "observe_draft B W wid r w db = Inr (seen, db1)"
    and db': "db' = db1 \<or> \<not> seen \<and> db' = sql_release wid d (sql_set_review_by_id d (r\<lparr>dv_state := ''invalidated''\<rparr>) db1)"
    using assms(1) by (auto simp: invalidate_draft_def result_simps split: if_splits)
  obtain old where old: "map_of (drafts db) (wid, d) = Some old" using key key_map_of by metis
  have "in_order (stage db (wid, d))" using ordered by (simp add: drafts_in_order_def)
  then have "in_order (Some (map_option dv_state (d_review old)), (wid, d) \<in> keys (draft_signatures db),
      (wid, d) \<in> keys (finalized_drafts db), (wid, d) \<in> keys (recovered_submissions db), submitted db wid d)"
    by (simp add: stage_def old)
  note beside = in_orderD(1) [OF this]
  show ?thesis
  proof (cases seen)
    case False
    then have db1: "db1 = db" using o by (auto simp: observe_draft_def result_simps split: option.splits if_splits)
    let ?new = "sql_release wid d (sql_set_review_by_id d (r\<lparr>dv_state := ''invalidated''\<rparr>) db)"
    have "drafts_in_order ?new"
    proof (rule drafts_in_order_update [OF ordered, of "(wid, d)"])
      fix k assume other: "k \<noteq> (wid, d)"
      obtain w' e where k: "k = (w', e)" by (cases k)
      have ids: "unique_ids (drafts db)" using wf by (simp add: wf_db_def)
      have "map_of (drafts db) k = None" if "e = d"
      proof (rule ccontr)
        assume "map_of (drafts db) k \<noteq> None"
        then have "w' = wid"
          using unique_id_wallet [OF ids key, of w'] by (auto simp: k that intro: map_of_Some_key)
        then show False using other k that by simp
      qed
      then show "stage ?new k = stage db k"
        by (auto simp: k stage_def sql_release_def sql_set_review_by_id_def map_of_update submitted_def)
    next
      show "in_order (stage ?new (wid, d))"
        using beside by (simp add: stage_def sql_release_def sql_set_review_by_id_def map_of_update submitted_def old)
    qed
    then show ?thesis using db' db1 ordered by auto
  next
    case True
    then obtain info db2 where a: "apply_observed_labels B W wid r w info db = Inr db2"
      and sub: "latest db wid (dv_id r) = Some info"
      and db1: "db1 = sql_release wid d (sql_set_review wid d (r\<lparr>dv_state := ''observed''\<rparr>) (sql_delete_recovered wid d db2))"
      using o by (auto simp: observe_draft_def result_simps named [OF r] split: option.splits if_splits)
    have same: "draft_tables db2 = draft_tables db" "broadcast_attempts db2 = broadcast_attempts db"
      using untouched.inv_apply_observed_labels [OF _ a, of "draft_tables db" "broadcast_attempts db"] by simp_all
    have "submitted db wid d" using latest_submitted [OF sub] named [OF r] by simp
    then have "drafts_in_order db1"
      by (intro drafts_in_order_update [OF ordered, of "(wid, d)"])
        (use same old beside in \<open>simp_all add: db1 draft_tables_def stage_def sql_release_def sql_delete_recovered_def
          sql_set_review_def map_of_update submitted_def table_keys\<close>)
    then show ?thesis using db' True by auto
  qed
qed

lemma apply_scan_in_order:
  assumes "apply_scan B W N wid snap observed_at result db = Inr (u, db')" and wf: "wf_db db" and named: "reviews_named db"
    and ordered: "drafts_in_order db"
  shows "drafts_in_order db'"
proof -
  obtain l w db1 db2 where i: "invalidate_drafts B W wid w db = Inr db1"
    and up: "sql_upsert_sync wid (revision db2 wid + 1) (sn_endpoint snap) db2 = Inr db'"
    and db2: "db2 = sql_set_synced wid observed_at (save W wid l db1)"
    using assms(1) by (auto simp: apply_scan_def Let_def result_simps)
  let ?P = "\<lambda>u. wf_db u \<and> draft_at u = draft_at db \<and> drafts_in_order u"
  have "?P db1"
  proof (rule rfold_invariant [where P = ?P, OF i [unfolded invalidate_drafts_def]])
    fix x u v
    assume x: "x \<in> set (map (\<lambda>((_, d), row). (d, row)) (filter (\<lambda>r. fst (fst r) = wid) (drafts db)))"
      and u: "?P u" and s: "invalidate_draft B W wid w x u = Inr v"
    obtain d row where xd: "x = (d, row)" by (cases x)
    have "((wid, d), row) \<in> set (drafts db)" using x by (auto simp: xd)
    note facts = stored_row [OF this wf named]
    have at: "draft_at u (wid, d) = Some (fixed_part row)" using u facts(1) by simp
    then have "(wid, d) \<in> keys (drafts u)" by (metis draft_at_None option.distinct(1))
    then have "drafts_in_order v" using invalidate_in_order [OF s [unfolded xd]] u facts(2) by blast
    moreover have "draft_at v = draft_at u" using invalidate_draft_at [OF s [unfolded xd] _ at facts(2)] u by blast
    ultimately show "?P v" using u schema.inv_invalidate_draft [OF _ s] by simp
  qed (use wf ordered in simp)
  moreover have "draft_tables db' = draft_tables db1" "broadcast_attempts db' = broadcast_attempts db1"
    using up by (auto simp: db2 draft_tables_def save_def sql_set_state_def sql_set_synced_def sql_upsert_sync_def split: if_splits)
  ultimately show ?thesis using drafts_in_order_same by blast
qed

section \<open>A restored backup\<close>

lemma hold_inputs_recovers:
  assumes "hold_inputs wid d review db = Inr db'"
  shows "draft_signatures db' = draft_signatures db \<and> broadcast_attempts db' = broadcast_attempts db
    \<and> keys (recovered_submissions db') \<subseteq> keys (recovered_submissions db) \<union> {k. k = (wid, d) \<and> submitted db wid d}"
proof (cases "submitted db wid d")
  case True
  then obtain db1 where r: "sql_insert_recovered wid d db = Inr db1"
    and f: "rfold (\<lambda>i. sql_insert_hold wid (ri_outpoint i) d) (dv_inputs review) db1 = Inr db'"
    using assms by (auto simp: hold_inputs_def result_simps)
  have "draft_signatures db' = draft_signatures db1 \<and> broadcast_attempts db' = broadcast_attempts db1
      \<and> recovered_submissions db' = recovered_submissions db1"
    by (rule rfold_invariant [where P = "\<lambda>u. draft_signatures u = draft_signatures db1
          \<and> broadcast_attempts u = broadcast_attempts db1 \<and> recovered_submissions u = recovered_submissions db1", OF f])
      (auto simp: sql_insert_hold_def result_simps split: if_splits)
  then show ?thesis using r True by (auto simp: sql_insert_recovered_def result_simps split: if_splits)
qed (use assms in \<open>simp add: hold_inputs_def\<close>)

lemma suspend_recovers:
  assumes "suspend B C W review_len db = Inr db'"
  shows "draft_signatures db' = draft_signatures db \<and> (\<forall>k \<in> keys (recovered_submissions db'). submitted db (fst k) (snd k))"
proof -
  obtain cached db1 where f: "rfold (suspend_draft B C W) (sort_key id (map fst (drafts db))) (None, sql_clear_recovery db)
      = Inr (cached, db1)"
    and db': "db' = sql_unsync_all db1"
    using assms by (auto simp: suspend_def result_simps)
  let ?P = "\<lambda>st. draft_signatures (snd st) = draft_signatures db \<and> broadcast_attempts (snd st) = broadcast_attempts db
      \<and> (\<forall>k \<in> keys (recovered_submissions (snd st)). submitted db (fst k) (snd k))"
  have "?P (cached, db1)"
  proof (rule rfold_invariant [where P = ?P, OF f])
    fix x u v assume u: "?P u" and s: "suspend_draft B C W x u = Inr v"
    obtain wid d c where x: "x = (wid, d)" "u = (c, snd u)" by (metis surj_pair prod.collapse)
    obtain r db2 c' where h: "hold_inputs wid d r (snd u) = Inr db2"
      and v: "v = (c', sql_set_review wid d (r\<lparr>dv_state := ''invalidated''\<rparr>) db2)"
      using s by (subst (asm) x(2)) (auto simp: x(1) suspend_draft_def result_simps)
    have "submitted (snd u) wid d = submitted db wid d" using u by (simp add: submitted_def)
    then show "?P v" using hold_inputs_recovers [OF h] u by (fastforce simp: v sql_set_review_def)
  qed (simp add: sql_clear_recovery_def)
  then show ?thesis by (simp add: db' sql_unsync_all_def)
qed

lemma suspend_in_order:
  assumes "suspend B C W review_len db = Inr db'" and ordered: "drafts_in_order db"
  shows "drafts_in_order db'"
  unfolding drafts_in_order_def
proof
  fix k :: "string \<times> string"
  note s = suspend_all [OF assms(1)] and r = suspend_recovers [OF assms(1)]
  have k: "in_order (stage db k)" using ordered by (simp add: drafts_in_order_def del: split_paired_All)
  have sub: "submitted db' = submitted db" using s by (simp add: submitted_def fun_eq_iff)
  show "in_order (stage db' k)"
  proof (cases "map_of (drafts db') k")
    case None
    then have "map_of (drafts db) k = None" using s map_of_None_iff by metis
    then have "in_order (None, k \<in> keys (draft_signatures db), k \<in> keys (finalized_drafts db),
        k \<in> keys (recovered_submissions db), submitted db (fst k) (snd k))"
      using k by (simp add: stage_def)
    then show ?thesis using r s sub None by (auto simp: stage_def)
  next
    case (Some row)
    then have "suspended db' k" using s map_of_Some_key by metis
    then obtain v where "d_review row = Some v" "dv_state v = ''invalidated''"
      using Some by (cases k) (auto simp: suspended_def)
    moreover have "submitted db (fst k) (snd k) \<longrightarrow> k \<in> keys (finalized_drafts db)"
      using in_orderD(1) k [unfolded stage_def] by blast
    ultimately show ?thesis using Some r s sub by (simp add: stage_def)
  qed
qed

section \<open>Every step\<close>

lemma usb_receive_in_order:
  assumes "usb_receive B C M K W N parse L now step report u db = (r, v, db')" and ordered: "drafts_in_order db"
  shows "drafts_in_order db'"
proof -
  have rec: "drafts_in_order db1" if "run_tx db (record_outcome B M W N parse L u' update out) = (a, db1)" for u' update out a db1
  proof -
    let ?same = "\<lambda>db'. draft_tables db' = draft_tables db \<and> broadcast_attempts db' = broadcast_attempts db"
    have "?same (snd (run_tx db (record_outcome B M W N parse L u' update out)))"
      by (rule untouched.run_tx_inv) (auto dest: untouched.inv_record_outcome [rotated])
    then show ?thesis using that drafts_in_order_same [OF ordered] by (metis snd_conv)
  qed
  have "drafts_in_order db2" if "usb_complete B C M K W N parse L u' update db = (a, v', db2)" for u' update a v' db2
    using that ordered
    by (auto simp: usb_complete_def Let_def split: prod.splits sum.splits option.splits dest: rec intro: accept_in_order)
  then show ?thesis
    using assms by (auto simp: usb_receive_def Let_def split: prod.splits sum.splits if_splits)
qed

lemma core_step_in_order:
  assumes "core_step B C K M W N L parse db db'" and "wf_db db" and "reviews_named db" and ordered: "drafts_in_order db"
  shows "drafts_in_order db'"
  using assms(1)
proof (cases rule: core_step.cases)
  case (Draft_Step now request r)
  show ?thesis
  proof (cases r)
    case (Inl e)
    then have "db' = db" using Draft_Step by (auto simp: create_draft_def split: sum.splits if_splits dest: run_tx_error)
    then show ?thesis using ordered by simp
  next
    case (Inr review)
    then show ?thesis using create_in_order Draft_Step ordered by blast
  qed
next
  case (Attempt_Step request e approved now r)
  then show ?thesis using ordered by (auto simp: run_tx_def split: sum.splits dest: attempt_in_order)
next
  case (Scan_Step wid snap observed_at result r)
  then show ?thesis using assms(2-4) by (auto simp: run_tx_def split: sum.splits dest: apply_scan_in_order)
next
  case (Acknowledge_Step i wid d)
  then show ?thesis using acknowledge_in_order [OF ordered] by simp
next
  case (Discard_Step wid d r)
  then show ?thesis using discard_in_order ordered by blast
next
  case (Accept_Step wid d payload r)
  then show ?thesis using accept_in_order ordered by blast
next
  case (Finalize_Step wid d r)
  then show ?thesis using finalize_in_order ordered by blast
next
  case (Resume_Step wid d txid attempt ack r)
  then show ?thesis using resume_in_order ordered by blast
next
  case (Device_Step now step report u r v)
  then show ?thesis using usb_receive_in_order ordered by blast
next
  case (Restore_Step review_len)
  then show ?thesis using suspend_in_order ordered by blast
qed (blast intro: plain_in_order [OF ordered])+

lemma core_run_in_order:
  assumes "core_run B C K M W N L parse db db'" and "wf_db db" and "reviews_named db" and "drafts_in_order db"
  shows "wf_db db' \<and> reviews_named db' \<and> drafts_in_order db'"
  using assms
  by (induction rule: core_run.induct) (auto intro: named_step schema.inv_step core_step_in_order)

lemma empty_in_order: "drafts_in_order empty_db" "attempts_bounded empty_db"
  by (simp add: drafts_in_order_def stage_def submitted_def empty_db_def) (rule empty_invariants(3))

text \<open>
  C5. Every stored draft is in order. From an empty database on, or from any other in order, however
  the operations of the core are called and interleaved: a draft has a review in one of the six known
  states; an unsigned one has nothing stored beside it, a partially signed or signed one has its
  signatures and no final transaction or submission, a finalized one has its final transaction, an
  observed one was submitted, and only an invalidated and submitted one can await recovery; every
  submission is of a stored final transaction, and no draft has more than 64 of them. None of this is
  a constraint of the schema: each operation has to write the state with what it stores.
\<close>

theorem drafts_stay_in_order:
  assumes "core_run B C K M W N L parse db0 db"
    and "wf_db db0" and "reviews_named db0" and "drafts_in_order db0" and "attempts_bounded db0"
  shows "drafts_in_order db \<and> attempts_bounded db"
  using core_run_in_order [OF assms(1-4)] attempts.inv_run [OF assms(1,5)] by blast

text \<open>The sample payment, made, signed, finalized and submitted.\<close>

theorem drafts_stay_in_order_witness:
  "\<exists>db :: nat db. submitted db ''w'' sample_id \<and> attempts_bounded db
     \<and> in_order (stage db (''w'', sample_id)) \<and> (''w'', sample_id) \<in> keys (drafts db)"
proof -
  obtain db where final: "finalize_draft sample_bitcoin signed_codec sample_crypto sample_bdk ''w'' sample_id
      (signing_db ''signed'' True) = (Inr sample_final, db)"
    using sample_finalize by blast
  let ?run = "core_run sample_bitcoin signed_codec sample_crypto sample_miniscript sample_bdk sample_chain
      (undefined :: unit ledger) (\<lambda>_. None)"
  have "run_tx db (record_attempt sample_bitcoin signed_codec sample_crypto sample_bdk sample_broadcast ''e'' sample_final 7)
      = (Inr (attempt_seq db + 1), attempt_recorded db)"
    using sample_submission(1) [OF sample_final_tables [OF final]] by (simp add: run_tx_def)
  note attempt = Attempt_Step [OF this]
  have run: "?run sample_db (attempt_recorded db)"
    by (rule More_Steps [OF More_Steps [OF More_Steps [OF More_Steps [OF No_Step Draft_Step [OF sample_created]]
      Accept_Step [OF sample_accept]] Finalize_Step [OF final]] attempt])
  have "drafts_in_order sample_db" "attempts_bounded sample_db"
    by (simp_all add: drafts_in_order_def stage_def submitted_def attempts_bounded_def attempts_of_def sample_db_def empty_db_def)
  from drafts_stay_in_order [OF run sample_db_ok this]
  have "in_order (stage (attempt_recorded db) (''w'', sample_id))" and "attempts_bounded (attempt_recorded db)"
    by (simp_all add: drafts_in_order_def)
  moreover have "submitted (attempt_recorded db) ''w'' sample_id"
    by (simp add: submitted_def attempt_recorded_def recorded_attempt_def attempt_draft_def)
  moreover have "draft_at db = draft_at (signing_db ''signed'' True)" using finalize_draft_at final by (metis snd_conv)
  then have "draft_at db (''w'', sample_id) \<noteq> None" by (simp add: draft_at_None signing_db_def keys_def)
  then have "(''w'', sample_id) \<in> keys (drafts (attempt_recorded db))" by (simp add: draft_at_None attempt_recorded_def)
  ultimately show ?thesis by blast
qed

end
