(* ===== verification/Address_Facts.thy ===== *)
theory Address_Facts
  imports Core_Machine Sync_Facts
begin

text \<open>
  Receive addresses (\<^verbatim>\<open>receive_address\<close> of \<^verbatim>\<open>engine.rs\<close>) over the whole life of a wallet. What the
  wallet library documents of its indices and of its staged changes is stated as laws of the library
  (\<open>bdk_indices\<close>); that an address is not handed out twice is a property of the program: it saves
  what it revealed before it answers, every later operation loads what was saved, and no operation
  of the core, a scan that replaces the chain of blocks included, puts an older state back.
\<close>

section \<open>What the wallet library documents\<close>

text \<open>How many receive addresses the wallet has revealed: one more than its last index.\<close>

definition revealed :: "('w, 'cs) chain \<Rightarrow> 'w \<Rightarrow> nat" where
  "revealed N w = (case derivation_index N w External of None \<Rightarrow> 0 | Some i \<Rightarrow> Suc i)"

text \<open>The operations of the library the core calls on a wallet it has loaded.\<close>

inductive wallet_moves :: "('w, 'cs) bdk \<Rightarrow> ('w, 'cs) chain \<Rightarrow> 'w \<Rightarrow> 'w \<Rightarrow> bool" for W N where
  Loaded: "wallet_moves W N w w"
| Reveals: "wallet_moves W N w w1 \<Longrightarrow> wallet_moves W N w (snd (reveal_next_address W w1 k))"
| Builds: "wallet_moves W N w w1 \<Longrightarrow> build_tx W w1 request = Some (psbt, w2) \<Longrightarrow> wallet_moves W N w w2"
| Updates: "wallet_moves W N w w1 \<Longrightarrow> apply_update N update w1 = Some w2 \<Longrightarrow> wallet_moves W N w w2"

text \<open>
  \<open>last_index w\<close> is the last index of the wallet's receive descriptor: \<open>2 ^ 31 - 1\<close> for one with a
  wildcard, 0 for one without. Revealing hands out the index after the last one, or the last one
  again once it is \<open>last_index\<close>; no operation takes an index back; the staged changes are all changes since
  the wallet was loaded, so that loading the merged state gives the same indices and nothing is
  staged only when nothing was revealed; the blocks are a part of the state of their own.
\<close>

definition bdk_indices :: "('w, 'cs) bdk \<Rightarrow> ('w, 'cs) chain \<Rightarrow> ('w \<Rightarrow> nat) \<Rightarrow> bool" where
  "bdk_indices W N last_index \<longleftrightarrow>
     (\<forall>w. fst (fst (reveal_next_address W w External)) = (if revealed N w \<le> last_index w then revealed N w else revealed N w - 1)
        \<and> revealed N (snd (reveal_next_address W w External)) = Suc (fst (fst (reveal_next_address W w External))))
     \<and> (\<forall>w w'. wallet_moves W N w w' \<longrightarrow> revealed N w \<le> revealed N w' \<and> last_index w' = last_index w)
     \<and> (\<forall>n s w w'. wallet_load W n s = Some w \<and> wallet_moves W N w w' \<longrightarrow>
          (case fst (take_staged W w') of
             None \<Rightarrow> revealed N w' = revealed N w
           | Some c \<Rightarrow> \<forall>v. wallet_load W n (merge_changes W s c) = Some v \<longrightarrow> revealed N v = revealed N w' \<and> last_index v = last_index w'))
     \<and> (\<forall>n s w v blocks. wallet_load W n s = Some w \<and> wallet_load W n (set_blocks N blocks s) = Some v \<longrightarrow>
          revealed N v = revealed N w \<and> last_index v = last_index w)"

lemma bdk_reveal:
  assumes "bdk_indices W N last_index" and "reveal_next_address W w External = ((i, a), w')"
  shows "i = (if revealed N w \<le> last_index w then revealed N w else revealed N w - 1)" and "revealed N w' = Suc i"
  using assms unfolding bdk_indices_def by (metis fst_conv snd_conv)+

lemma bdk_moves:
  assumes "bdk_indices W N last_index" and "wallet_moves W N w w'"
  shows "revealed N w \<le> revealed N w'" and "last_index w' = last_index w"
  using assms unfolding bdk_indices_def by blast+

lemma bdk_saved:
  assumes "bdk_indices W N last_index" and "wallet_load W n s = Some w" and "wallet_moves W N w w'"
    and "wallet_load W n (staged_state W \<lparr>l_wallet = w', l_state = s, l_summary = x\<rparr>) = Some v"
  shows "revealed N v = revealed N w'" and "last_index v = last_index w'"
proof -
  have "case fst (take_staged W w') of None \<Rightarrow> revealed N w' = revealed N w
      | Some c \<Rightarrow> \<forall>v. wallet_load W n (merge_changes W s c) = Some v \<longrightarrow> revealed N v = revealed N w' \<and> last_index v = last_index w'"
    using assms(1-3) unfolding bdk_indices_def by blast
  then show "revealed N v = revealed N w'" "last_index v = last_index w'"
    using assms(2,4) bdk_moves(2) [OF assms(1,3)] by (auto simp: staged_state_def split: option.splits)
qed

lemma bdk_blocks:
  assumes "bdk_indices W N last_index" and "wallet_load W n s = Some w" and "wallet_load W n (set_blocks N blocks s) = Some v"
  shows "revealed N v = revealed N w" and "last_index v = last_index w"
  using assms unfolding bdk_indices_def by blast+

section \<open>The stored wallet\<close>

text \<open>What a wallet is loaded from; the name and the time of synchronization are not a part of it.\<close>

definition stored_wallet :: "'cs db \<Rightarrow> string \<Rightarrow> (string \<times> string \<times> 'cs option) option" where
  "stored_wallet db wid = map_option (\<lambda>r. (w_network r, w_policy r, w_state r)) (map_of (wallets db) wid)"

lemma stored_wallet_same: "wallets db' = wallets db \<Longrightarrow> stored_wallet db' = stored_wallet db"
  by (simp add: stored_wallet_def fun_eq_iff)

lemma stored_wallet_kept: "stored_wallet db wid = Some c \<Longrightarrow> wallets db' = wallets db \<Longrightarrow> stored_wallet db' wid = Some c"
  by (simp add: stored_wallet_def)

lemma stored_wallet_update:
  assumes "wallets db' = tbl_update P (\<lambda>r. r\<lparr>w_synced_at := at\<rparr>) (wallets db)"
  shows "stored_wallet db' wid = stored_wallet db wid"
  unfolding stored_wallet_def assms map_of_update by (cases "map_of (wallets db) wid") simp_all

lemma stored_wallet_synced:
  "stored_wallet (sql_set_synced w at db) wid = stored_wallet db wid"
  "stored_wallet (sql_unsync_all db) wid = stored_wallet db wid"
  by (rule stored_wallet_update, simp add: sql_set_synced_def)
    (rule stored_wallet_update, simp add: sql_unsync_all_def)

lemma stored_wallet_insert:
  "stored_wallet db wid = Some c \<Longrightarrow> sql_insert_wallet w row db = Inr db' \<Longrightarrow> stored_wallet db' wid = Some c"
  by (auto simp: stored_wallet_def sql_insert_wallet_def tbl_insert_def map_add_def split: if_splits)

interpretation stored: database_moves "\<lambda>db. stored_wallet db wid = Some c" for wid c
  by unfold_locales
    ((simp only: stored_wallet_synced; fail) | erule (1) stored_wallet_insert
      | (erule stored_wallet_kept; auto simp: statement_defs result_simps Let_def split: if_splits))+

lemma stored_wallet_save:
  "stored_wallet (save W w0 l db) wid
     = (if w0 = wid then map_option (\<lambda>(n, p, s). (n, p, Some (staged_state W l))) (stored_wallet db wid) else stored_wallet db wid)"
  by (simp add: stored_wallet_def save_def sql_set_state_def map_of_update option.map_comp comp_def)

lemma load_stored:
  assumes "load W db wid = Inr l"
  obtains n p where "stored_wallet db wid = Some (n, p, Some (l_state l))"
    and "network_parse n = Inr (ws_network (l_summary l))"
    and "wallet_load W (ws_network (l_summary l)) (l_state l) = Some (l_wallet l)"
proof -
  obtain row where "map_of (wallets db) wid = Some row" "network_parse (w_network row) = Inr (ws_network (l_summary l))"
      "w_state row = Some (l_state l)" "wallet_load W (ws_network (l_summary l)) (l_state l) = Some (l_wallet l)"
    using assms by (auto simp: load_def result_simps)
  then show thesis using that [of "w_network row" "w_policy row"] by (simp add: stored_wallet_def)
qed

section \<open>The stored index\<close>

text \<open>The wallet is stored, and whatever loads from its state has revealed at least \<open>k\<close> addresses.\<close>

definition index_stored ::
  "('w, 'cs) bdk \<Rightarrow> ('w, 'cs) chain \<Rightarrow> ('w \<Rightarrow> nat) \<Rightarrow> string \<Rightarrow> nat \<Rightarrow> nat \<Rightarrow> 'cs db \<Rightarrow> bool" where
  "index_stored W N last_index wid t k db \<longleftrightarrow>
     (\<exists>net p s. stored_wallet db wid = Some (net, p, s)
        \<and> (\<forall>n state w. network_parse net = Inr n \<and> s = Some state \<and> wallet_load W n state = Some w \<longrightarrow>
             k \<le> revealed N w \<and> last_index w = t))"

lemma index_load:
  assumes "index_stored W N last_index wid t k db" and "load W db wid = Inr l"
  shows "k \<le> revealed N (l_wallet l)" and "last_index (l_wallet l) = t"
  using assms(1) by (rule_tac [!] load_stored [OF assms(2)]) (auto simp: index_stored_def)

lemma index_same: "stored_wallet db' wid = stored_wallet db wid \<Longrightarrow> index_stored W N last_index wid t k db \<Longrightarrow> index_stored W N last_index wid t k db'"
  by (simp add: index_stored_def)

text \<open>Saving a wallet after any of the library's operations stores the index it has.\<close>

lemma index_saved:
  assumes "bdk_indices W N last_index" and "load W db wid = Inr l" and "stored_wallet db1 wid = stored_wallet db wid"
    and "wallet_load W (ws_network (l_summary l)) state = Some v" and "wallet_moves W N v w"
  shows "index_stored W N last_index wid (last_index w) (revealed N w) (save W wid (l\<lparr>l_wallet := w, l_state := state\<rparr>) db1)"
proof -
  obtain net p where st: "stored_wallet db wid = Some (net, p, Some (l_state l))"
    and net: "network_parse net = Inr (ws_network (l_summary l))"
    using assms(2) by (rule load_stored)
  have "staged_state W (l\<lparr>l_wallet := w, l_state := state\<rparr>) = staged_state W \<lparr>l_wallet = w, l_state = state, l_summary = x\<rparr>" for x
    by (simp add: staged_state_def split: option.split)
  then show ?thesis
    using bdk_saved [OF assms(1,4,5)] by (simp add: index_stored_def stored_wallet_save assms(3) st net)
qed

lemma index_weaken: "index_stored W N last_index wid t k db \<Longrightarrow> j \<le> k \<Longrightarrow> index_stored W N last_index wid t j db"
  by (fastforce simp: index_stored_def)

lemma index_save:
  assumes "bdk_indices W N last_index" and "load W db w0 = Inr l"
    and "\<And>x c. stored_wallet db x = Some c \<Longrightarrow> stored_wallet db1 x = Some c"
    and "wallet_load W (ws_network (l_summary l)) state = Some v" and "wallet_moves W N v w"
    and "revealed N v = revealed N (l_wallet l)" and "last_index v = last_index (l_wallet l)"
    and "index_stored W N last_index wid t k db"
  shows "index_stored W N last_index wid t k (save W w0 (l\<lparr>l_wallet := w, l_state := state\<rparr>) db1)"
proof -
  have same: "stored_wallet db1 wid = stored_wallet db wid"
    using assms(3,8) by (auto simp: index_stored_def)
  show ?thesis
  proof (cases "w0 = wid")
    case True
    have "k \<le> revealed N (l_wallet l)" "last_index (l_wallet l) = t" using index_load [OF assms(8)] assms(2) by (simp_all add: True)
    then have "k \<le> revealed N w" "last_index w = t" using bdk_moves [OF assms(1,5)] assms(6,7) by simp_all
    then show ?thesis
      using index_weaken [OF index_saved [OF assms(1) assms(2) [unfolded True] same assms(4,5)]] by (simp add: True)
  qed (use assms(8) same in \<open>simp add: index_stored_def stored_wallet_save\<close>)
qed

lemma index_save_moved:
  assumes "bdk_indices W N last_index" and "load W db w0 = Inr l"
    and "\<And>x c. stored_wallet db x = Some c \<Longrightarrow> stored_wallet db1 x = Some c"
    and "wallet_moves W N (l_wallet l) w" and "index_stored W N last_index wid t k db"
  shows "index_stored W N last_index wid t k (save W w0 (l\<lparr>l_wallet := w\<rparr>) db1)"
proof -
  have "wallet_load W (ws_network (l_summary l)) (l_state l) = Some (l_wallet l)" using assms(2) by (rule load_stored)
  from index_save [OF assms(1-3) this assms(4) refl refl assms(5)] show ?thesis by simp
qed

section \<open>Every operation keeps it\<close>

lemma index_receive:
  assumes "bdk_indices W N last_index" and "index_stored W N last_index wid t k db" and "receive_address W w0 db = (r, db')"
  shows "index_stored W N last_index wid t k db'"
proof (cases r)
  case (Inr a)
  then obtain l where "load W db w0 = Inr l"
    and "db' = save W w0 (l\<lparr>l_wallet := snd (reveal_next_address W (l_wallet l) External)\<rparr>) db"
    using assms(3) by (auto simp: receive_address_Inr)
  then show ?thesis
    by (auto intro: index_save_moved [OF assms(1) _ _ Reveals [OF Loaded] assms(2)])
next
  case (Inl e)
  then have "db' = db" using assms(3) by (auto simp: receive_address_def dest: run_tx_error)
  then show ?thesis using assms(2) by simp
qed

lemma payment_target_moves:
  "payment_target B W n selected pay w = Inr (target, w') \<Longrightarrow> wallet_moves W N w w'"
  using Reveals [OF Loaded, of W N w Internal]
  by (auto simp: payment_target_def result_simps Let_def split: payment.splits if_splits prod.splits intro: Loaded)

lemma create_draft_saves:
  assumes "create_draft B C W now request db = (Inr review, db')"
  shows "\<exists>l w psbt db1. load W db (dr_wallet_id request) = Inr l \<and> wallet_moves W N (l_wallet l) w
    \<and> store_draft C now request psbt review db = Inr db1
    \<and> db' = save W (dr_wallet_id request) (l\<lparr>l_wallet := w\<rparr>) db1"
proof -
  have body: "create_draft_body B C W now request db = Inr (review, db')"
    using assms by (auto simp: create_draft_def run_tx_ok split: sum.splits if_splits)
  then show ?thesis
    by (auto simp: create_draft_body_def Let_def result_simps split: if_splits)
      (blast intro: Builds payment_target_moves)
qed

lemma index_create:
  assumes "bdk_indices W N last_index" and "index_stored W N last_index wid t k db" and "create_draft B C W now request db = (r, db')"
  shows "index_stored W N last_index wid t k db'"
proof (cases r)
  case (Inr review)
  then obtain l w psbt db1 where l: "load W db (dr_wallet_id request) = Inr l" and w: "wallet_moves W N (l_wallet l) w"
    and s: "store_draft C now request psbt review db = Inr db1"
    and db': "db' = save W (dr_wallet_id request) (l\<lparr>l_wallet := w\<rparr>) db1"
    using create_draft_saves assms(3) by metis
  from index_save_moved [OF assms(1) l stored.inv_store_draft [OF _ s] w assms(2)] show ?thesis unfolding db' .
qed (use assms in \<open>auto simp: create_draft_def split: sum.splits if_splits dest: run_tx_error\<close>)

lemma index_scan:
  assumes "bdk_indices W N last_index" and "index_stored W N last_index wid t k db"
    and "apply_scan B W N w0 snap observed_at result db = Inr (u, db')"
  shows "index_stored W N last_index wid t k db'"
proof -
  obtain l v w db1 where l: "load W db w0 = Inr l"
    and v: "wallet_load W (ws_network (l_summary l)) (set_blocks N (sr_blocks result) (l_state l)) = Some v"
    and w: "apply_update N (sr_update result) v = Some w" and i: "invalidate_drafts B W w0 w db = Inr db1"
    and up: "sql_upsert_sync w0 (revision (sql_set_synced w0 observed_at
        (save W w0 (l\<lparr>l_wallet := w, l_state := set_blocks N (sr_blocks result) (l_state l)\<rparr>) db1)) w0 + 1) (sn_endpoint snap)
        (sql_set_synced w0 observed_at
          (save W w0 (l\<lparr>l_wallet := w, l_state := set_blocks N (sr_blocks result) (l_state l)\<rparr>) db1)) = Inr db'"
    using assms(3) by (auto simp: apply_scan_def Let_def result_simps split: if_splits)
  have kept: "stored_wallet db1 x = Some c" if "stored_wallet db x = Some c" for x c
    by (rule rfold_invariant [where P = "\<lambda>db. stored_wallet db x = Some c", OF i [unfolded invalidate_drafts_def] that])
      (auto intro: stored.inv_invalidate_draft)
  have "wallet_load W (ws_network (l_summary l)) (l_state l) = Some (l_wallet l)" using l by (rule load_stored)
  note same = bdk_blocks [OF assms(1) this v]
  have "index_stored W N last_index wid t k (save W w0 (l\<lparr>l_wallet := w, l_state := set_blocks N (sr_blocks result) (l_state l)\<rparr>) db1)"
    by (rule index_save [OF assms(1) l kept v Updates [OF Loaded w] same assms(2)])
  moreover have "stored_wallet db' wid
      = stored_wallet (save W w0 (l\<lparr>l_wallet := w, l_state := set_blocks N (sr_blocks result) (l_state l)\<rparr>) db1) wid"
    using up by (auto simp: sql_upsert_sync_def stored_wallet_synced stored_wallet_def [of "_\<lparr>sync_state := _\<rparr>"]
        stored_wallet_def [symmetric] split: if_splits)
  ultimately show ?thesis using index_same by blast
qed

lemma index_step:
  assumes "bdk_indices W N last_index" and "core_step B C K M W N L parse db db'" and "index_stored W N last_index wid t k db"
  shows "index_stored W N last_index wid t k db'"
proof -
  obtain c where c: "stored_wallet db wid = Some c" using assms(3) by (auto simp: index_stored_def)
  from stored.inv_step_cases [OF assms(2) this] show ?thesis
  proof (elim disjE exE)
    fix wid' d r assume "discard_draft wid' d db = (r, db')"
    then have "wallets db' = wallets db" by (auto simp: discard_draft_def run_tx_def sql_delete_draft_def sql_release_def sql_delete_recovered_def split: if_splits)
    then show ?thesis using index_same assms(3) stored_wallet_same by metis
  next
    fix w0 snap observed_at result r assume "run_tx db (apply_scan B W N w0 snap observed_at result) = (r, db')"
    then show ?thesis using index_scan [OF assms(1,3)] assms(3) by (auto simp: run_tx_def split: sum.splits)
  qed (use c assms index_same index_receive index_create in \<open>metis | blast\<close>)+
qed

lemma index_run:
  assumes "bdk_indices W N last_index" and "core_run B C K M W N L parse db db'" and "index_stored W N last_index wid t k db"
  shows "index_stored W N last_index wid t k db'"
  using assms(2,3) by (induction rule: core_run.induct) (auto intro: index_step [OF assms(1)])

section \<open>Fresh addresses\<close>

text \<open>
  C36. No address index is handed out twice. Whatever the core does between two calls for one wallet,
  the second call returns a larger index than the first; only once the last index of the descriptor
  (\<open>2 ^ 31 - 1\<close> for a ranged one) has been handed out is an index repeated. Each call loads the wallet
  from what is stored, so the same holds across restarts.
\<close>

theorem receive_address_fresh:
  assumes "bdk_indices W N last_index"
    and "receive_address W wid db = (Inr r1, db1)" and "core_run B C K M W N L parse db1 db2"
    and "receive_address W wid db2 = (Inr r2, db3)" and "load W db wid = Inr l"
  shows "ra_index r1 < ra_index r2 \<or> last_index (l_wallet l) \<le> ra_index r1 \<and> ra_index r1 \<le> ra_index r2"
proof -
  obtain i a w where reveal: "reveal_next_address W (l_wallet l) External = ((i, a), w)" by (metis surj_pair)
  have r1: "ra_index r1 = i" and db1: "db1 = save W wid (l\<lparr>l_wallet := w, l_state := l_state l\<rparr>) db"
    using assms(2,5) by (auto simp: receive_address_Inr reveal)
  have w: "wallet_moves W N (l_wallet l) w"
    using Reveals [OF Loaded, of W N "l_wallet l" External] by (simp add: reveal)
  have "wallet_load W (ws_network (l_summary l)) (l_state l) = Some (l_wallet l)" using assms(5) by (rule load_stored)
  from index_saved [OF assms(1,5) refl this w]
  have "index_stored W N last_index wid (last_index (l_wallet l)) (Suc i) db1"
    by (simp add: db1 bdk_moves(2) [OF assms(1) w] bdk_reveal(2) [OF assms(1) reveal])
  note stored = index_run [OF assms(1,3) this]
  obtain l2 where l2: "load W db2 wid = Inr l2"
    and r2: "ra_index r2 = fst (fst (reveal_next_address W (l_wallet l2) External))"
    using assms(4) by (auto simp: receive_address_Inr)
  obtain j a2 w2 where reveal2: "reveal_next_address W (l_wallet l2) External = ((j, a2), w2)" by (metis surj_pair)
  show ?thesis
    using index_load [OF stored l2] bdk_reveal(1) [OF assms(1) reveal2] r1 r2 by (auto simp: reveal2 split: if_splits)
qed

text \<open>
  The sample wallet with the indices of a ranged descriptor: the number of revealed addresses is its
  whole state, and revealing stops at \<open>2 ^ 31 - 1\<close>.
\<close>

definition last_child :: nat where
  "last_child = 2 ^ 31 - 1"

definition ranged_bdk :: "(nat, nat) bdk" where
  "ranged_bdk = sample_bdk\<lparr>reveal_next_address := (\<lambda>w k.
     if k = Internal then ((0, ''tb1change''), w)
     else if w \<le> last_child then ((w, ''tb1a''), Suc w) else ((w - 1, ''tb1a''), w))\<rparr>"

definition ranged_chain :: "(nat, nat) chain" where
  "ranged_chain = sample_chain\<lparr>derivation_index := (\<lambda>w k. if k = Internal \<or> w = 0 then None else Some (w - 1))\<rparr>"

lemma ranged_revealed: "revealed ranged_chain w = w"
  by (simp add: revealed_def ranged_chain_def)

lemma ranged_moves: "wallet_moves ranged_bdk ranged_chain w w' \<Longrightarrow> w \<le> w'"
  by (induction rule: wallet_moves.induct) (auto simp: ranged_bdk_def ranged_chain_def)

lemma ranged_indices: "bdk_indices ranged_bdk ranged_chain (\<lambda>_. last_child)"
  using ranged_moves
  by (simp add: bdk_indices_def ranged_revealed)
    (simp add: ranged_bdk_def ranged_chain_def)

lemma ranged_receive:
  assumes "map_of (wallets db) ''w'' = Some (sample_row\<lparr>w_state := Some k\<rparr>)" and "k < last_child"
  shows "\<exists>l. load ranged_bdk db ''w'' = Inr l" and "\<exists>r db'. receive_address ranged_bdk ''w'' db = (Inr r, db') \<and> ra_index r = k
    \<and> map_of (wallets db') ''w'' = Some (sample_row\<lparr>w_state := Some (Suc k)\<rparr>)"
proof -
  have l: "load ranged_bdk db ''w'' = Inr \<lparr>l_wallet = k, l_state = k, l_summary = l_summary sample_loaded\<rparr>"
    using assms(1) by (simp add: load_def ranged_bdk_def sample_row_def sample_loaded_def network_parse_def parse_policy_def)
  then show "\<exists>l. load ranged_bdk db ''w'' = Inr l" by blast
  show "\<exists>r db'. receive_address ranged_bdk ''w'' db = (Inr r, db') \<and> ra_index r = k
    \<and> map_of (wallets db') ''w'' = Some (sample_row\<lparr>w_state := Some (Suc k)\<rparr>)"
    using assms by (simp add: receive_address_Inr l save_def staged_state_def sql_set_state_def map_of_update)
      (simp add: ranged_bdk_def)
qed

theorem receive_address_fresh_witness:
  "\<exists>r1 db1 r2 db2 r3 db3. receive_address ranged_bdk ''w'' sample_db = (Inr r1, db1)
     \<and> receive_address ranged_bdk ''w'' db1 = (Inr r2, db2) \<and> receive_address ranged_bdk ''w'' db2 = (Inr r3, db3)
     \<and> ra_index r1 < ra_index r3"
proof -
  have small: "0 < last_child" "Suc 0 < last_child" "Suc (Suc 0) < last_child" by (simp_all add: last_child_def)
  have "map_of (wallets sample_db) ''w'' = Some (sample_row\<lparr>w_state := Some 0\<rparr>)" by (simp add: sample_row_def)
  note first = ranged_receive [OF this small(1)]
  obtain l where l: "load ranged_bdk sample_db ''w'' = Inr l" using first(1) ..
  obtain r1 db1 where 1: "receive_address ranged_bdk ''w'' sample_db = (Inr r1, db1)" and i: "ra_index r1 = 0"
    and "map_of (wallets db1) ''w'' = Some (sample_row\<lparr>w_state := Some (Suc 0)\<rparr>)"
    using first(2) by blast
  then obtain r2 db2 where 2: "receive_address ranged_bdk ''w'' db1 = (Inr r2, db2)"
    and "map_of (wallets db2) ''w'' = Some (sample_row\<lparr>w_state := Some (Suc (Suc 0))\<rparr>)"
    using ranged_receive(2) small by blast
  then obtain r3 db3 where 3: "receive_address ranged_bdk ''w'' db2 = (Inr r3, db3)"
    using ranged_receive(2) small by blast
  have "core_run sample_bitcoin sample_codec K sample_miniscript ranged_bdk ranged_chain L (\<lambda>_. None) db1 db2"
    for K and L :: "unit ledger"
    by (rule More_Steps [OF No_Step Address_Step [OF 2]])
  from receive_address_fresh [OF ranged_indices 1 this 3 l] have "ra_index r1 < ra_index r3"
    using i small by simp
  with 1 2 3 show ?thesis by blast
qed

end
