(* ===== verification/Sync_Machine.thy ===== *)
theory Sync_Machine
  imports Sync_Operations Sync_Facts Broadcast_Facts
begin

text \<open>
  The operations of \<^verbatim>\<open>crates/tundra-core/src/sync.rs\<close> under every interleaving: the invariant of
  the table of operations and of the threads, the ticket an operation is to its caller (an abstract
  state machine that the code refines), and what cancelling promises.
\<close>

section \<open>The table of operations\<close>

text \<open>What the phase of an operation says of its snapshot and of the thread that runs it.\<close>

definition op_ok :: "nat \<Rightarrow> ('w, 'cs) operation \<Rightarrow> ('w, 'cs) thread option \<Rightarrow> bool" where
  "op_ok i x th \<longleftrightarrow> sy_id (op_progress x) = i \<and> (op_pending x \<noteq> None \<longleftrightarrow> op_phase x = Prepared) \<and>
     (case op_phase x of
        Prepared \<Rightarrow> th = None
      | Scanning \<Rightarrow> th \<noteq> None
      | Applying \<Rightarrow> \<exists>e. th = Some (Reporting e)
      | CancelledPhase \<Rightarrow> True
      | _ \<Rightarrow> th = None)"

definition one_live :: "('w, 'cs) entries \<Rightarrow> bool" where
  "one_live t \<longleftrightarrow> (\<forall>i j x y. map_of t i = Some x \<longrightarrow> map_of t j = Some y \<longrightarrow> live x \<longrightarrow> live y \<longrightarrow>
     op_wallet x = op_wallet y \<longrightarrow> i = j)"

definition ops_inv :: "('w, 'cs) core \<Rightarrow> bool" where
  "ops_inv s \<longleftrightarrow> unique_keys (co_entries s) \<and> length (co_entries s) \<le> MAX_OPERATIONS
     \<and> unique_keys (co_threads s) \<and> co_next s < u64_bound
     \<and> (\<forall>i \<in> keys (co_entries s) \<union> keys (co_threads s). 1 \<le> i \<and> i \<le> co_next s)
     \<and> (\<forall>i x. map_of (co_entries s) i = Some x \<longrightarrow> op_ok i x (map_of (co_threads s) i))
     \<and> one_live (co_entries s)"

lemma length_upsert: "k \<in> keys t \<Longrightarrow> length (tbl_upsert k v t) = length t"
  by (simp add: tbl_upsert_def has_key_iff)

lemma upsert_twice: "tbl_upsert k v (tbl_upsert k w t) = tbl_upsert k v t"
proof (cases "k \<in> keys t")
  case False
  then have "map (\<lambda>r. if fst r = k then (k, v) else r) t = t" by (force simp: keys_def intro!: map_idI)
  then show ?thesis using False by (simp add: tbl_upsert_def has_key_iff)
next
  case True
  then have "k \<in> keys (tbl_upsert k w t)" by simp
  then show ?thesis using True by (simp add: tbl_upsert_def has_key_iff)
qed

lemma one_live_upsert:
  assumes "one_live t" and "map_of t i = Some x" and "op_wallet x' = op_wallet x" and "live x' \<Longrightarrow> live x"
  shows "one_live (tbl_upsert i x' t)"
  unfolding one_live_def
proof (intro allI impI)
  fix j k y z
  assume *: "map_of (tbl_upsert i x' t) j = Some y" "map_of (tbl_upsert i x' t) k = Some z"
    "live y" "live z" "op_wallet y = op_wallet z"
  have old: "\<exists>u. map_of t m = Some u \<and> live u \<and> op_wallet u = op_wallet v"
    if "map_of (tbl_upsert i x' t) m = Some v" "live v" for m v
    using that assms(2-) by (cases "m = i") (auto simp: map_of_upsert)
  obtain u v where "map_of t j = Some u" "live u" "op_wallet u = op_wallet y"
    and "map_of t k = Some v" "live v" "op_wallet v = op_wallet z"
    using old [OF *(1,3)] old [OF *(2,4)] by blast
  then show "j = k" using assms(1) *(5) unfolding one_live_def by metis
qed

text \<open>One entry changes, and with it at most the thread of the same number.\<close>

lemma ops_inv_entry:
  assumes "ops_inv s" and "map_of (co_entries s) i = Some x"
    and "op_wallet x' = op_wallet x" and "live x' \<Longrightarrow> live x" and "op_ok i x' (map_of ths i)"
    and "unique_keys ths" and "keys ths \<subseteq> insert i (keys (co_threads s))"
    and "\<And>j. j \<noteq> i \<Longrightarrow> map_of ths j = map_of (co_threads s) j"
  shows "ops_inv (s\<lparr>co_db := db, co_entries := tbl_upsert i x' (co_entries s), co_threads := ths\<rparr>)"
proof -
  have k: "i \<in> keys (co_entries s)" using assms(2) by (rule map_of_Some_key)
  have "one_live (tbl_upsert i x' (co_entries s))"
    using assms(1) by (intro one_live_upsert [OF _ assms(2,3,4)]) (simp_all add: ops_inv_def)
  moreover have "op_ok j y (map_of ths j)" if "map_of (tbl_upsert i x' (co_entries s)) j = Some y" for j y
    using that assms(1,5,8) by (cases "j = i") (auto simp: map_of_upsert ops_inv_def)
  ultimately show ?thesis
    using assms(1,6,7) k unfolding ops_inv_def by (auto simp: length_upsert)
qed

text \<open>Only a thread changes: there is no entry of its number any more, or the entry is cancelled.\<close>

lemma ops_inv_thread:
  assumes "ops_inv s" and "\<And>x. map_of (co_entries s) i = Some x \<Longrightarrow> op_ok i x (map_of ths i)"
    and "unique_keys ths" and "keys ths \<subseteq> insert i (keys (co_threads s))" and "1 \<le> i" and "i \<le> co_next s"
    and "\<And>j. j \<noteq> i \<Longrightarrow> map_of ths j = map_of (co_threads s) j"
  shows "ops_inv (s\<lparr>co_threads := ths\<rparr>)"
proof -
  have "op_ok j y (map_of ths j)" if "map_of (co_entries s) j = Some y" for j y
    using that assms(1,2,7) by (cases "j = i") (auto simp: ops_inv_def)
  then show ?thesis using assms(1,3-6) unfolding ops_inv_def by auto
qed

section \<open>The threads\<close>

lemma thread_done_table: "co_threads (thread_done i s) = tbl_delete (\<lambda>k. k = i) (co_threads s)"
  by (simp add: thread_done_def tbl_delete_def)

lemma thread_failed_table:
  "co_threads (thread_failed i e s) = tbl_update (\<lambda>k. k = i) (\<lambda>_. Reporting e) (co_threads s)"
  by (auto simp: thread_failed_def tbl_update_def)

lemma thread_lookup: "ops_inv s \<Longrightarrow> (i, th) \<in> set (co_threads s) \<Longrightarrow> map_of (co_threads s) i = Some th"
  by (simp add: ops_inv_def unique_map_of)

lemma thread_range: "ops_inv s \<Longrightarrow> (i, th) \<in> set (co_threads s) \<Longrightarrow> 1 \<le> i \<and> i \<le> co_next s"
  using thread_lookup [of s i th] map_of_Some_key [of "co_threads s" i] by (auto simp: ops_inv_def)

lemma op_phase_simps [simp]:
  "op_phase (set_phase p x) = p" "op_wallet (set_phase p x) = op_wallet x"
  "sy_id (op_progress (set_phase p x)) = sy_id (op_progress x)" "op_pending (set_phase p x) = op_pending x"
  "op_phase (x\<lparr>op_pending := v\<rparr>) = op_phase x" "op_wallet (x\<lparr>op_pending := v\<rparr>) = op_wallet x"
  "op_phase (x\<lparr>op_notified := b\<rparr>) = op_phase x" "op_wallet (x\<lparr>op_notified := b\<rparr>) = op_wallet x"
  by (simp_all add: op_phase_def op_wallet_def set_phase_def)

lemma op_progress_simps [simp]:
  "op_phase (x\<lparr>op_progress := (op_progress x)\<lparr>scanned_scripts := n\<rparr>\<rparr>) = op_phase x"
  "op_wallet (x\<lparr>op_progress := (op_progress x)\<lparr>scanned_scripts := n\<rparr>\<rparr>) = op_wallet x"
  "op_phase (x\<lparr>op_progress := (op_progress x)\<lparr>sy_error := e\<rparr>\<rparr>) = op_phase x"
  "op_wallet (x\<lparr>op_progress := (op_progress x)\<lparr>sy_error := e\<rparr>\<rparr>) = op_wallet x"
  by (simp_all add: op_phase_def op_wallet_def)

lemma live_simps [simp]:
  "live (set_phase p x) \<longleftrightarrow> \<not> terminal p" "live (x\<lparr>op_pending := v\<rparr>) = live x" "live (x\<lparr>op_notified := b\<rparr>) = live x"
  "live (x\<lparr>op_progress := (op_progress x)\<lparr>scanned_scripts := n\<rparr>\<rparr>) = live x"
  "live (x\<lparr>op_progress := (op_progress x)\<lparr>sy_error := e\<rparr>\<rparr>) = live x"
  by (simp_all add: live_def)

lemma entry_ok: "ops_inv s \<Longrightarrow> map_of (co_entries s) i = Some x \<Longrightarrow> op_ok i x (map_of (co_threads s) i)"
  by (simp add: ops_inv_def)


section \<open>Every step keeps the invariant\<close>

lemma terminal_simps [simp]:
  "terminal Complete" "terminal CancelledPhase" "terminal Failed" "\<not> terminal Prepared" "\<not> terminal Scanning"
  "\<not> terminal Applying"
  by (simp_all add: terminal_def)

lemma make_room_facts:
  assumes "ops_inv s"
  shows "ops_inv (s\<lparr>co_entries := make_room (co_entries s)\<rparr>)"
    and "map_of (make_room (co_entries s)) i = Some x \<Longrightarrow> map_of (co_entries s) i = Some x"
    and "map_of (co_entries s) i = Some x \<Longrightarrow> live x \<Longrightarrow> map_of (make_room (co_entries s)) i = Some x"
proof -
  have u: "distinct (map fst (co_entries s))" using assms by (simp add: ops_inv_def unique_keys_def)
  then have in_set: "map_of (co_entries s) i = Some x \<longleftrightarrow> (i, x) \<in> set (co_entries s)" for i x by simp
  have "distinct (map fst (make_room (co_entries s)))" using u by (simp add: make_room_def distinct_map_filter)
  then have in_room: "map_of (make_room (co_entries s)) i = Some x \<longleftrightarrow> (i, x) \<in> set (make_room (co_entries s))" for i x
    by simp
  show down: "map_of (make_room (co_entries s)) i = Some x \<Longrightarrow> map_of (co_entries s) i = Some x" for i x
    unfolding in_set in_room by (auto simp: make_room_def split: if_splits)
  show "map_of (co_entries s) i = Some x \<Longrightarrow> live x \<Longrightarrow> map_of (make_room (co_entries s)) i = Some x"
    unfolding in_set in_room by (auto simp: make_room_def)
  have "keys (make_room (co_entries s)) \<subseteq> keys (co_entries s)" by (auto simp: make_room_def keys_def)
  moreover have "one_live (make_room (co_entries s))"
    using assms down unfolding ops_inv_def one_live_def by blast
  moreover have "length (make_room (co_entries s)) \<le> length (co_entries s)" by (simp add: make_room_def)
  ultimately show "ops_inv (s\<lparr>co_entries := make_room (co_entries s)\<rparr>)"
    using assms down \<open>distinct (map fst (make_room _))\<close> unfolding ops_inv_def unique_keys_def by auto
qed

lemma ops_inv_register:
  assumes "ops_inv s" and "length (co_entries s) < MAX_OPERATIONS"
    and "\<And>i x. map_of (co_entries s) i = Some x \<Longrightarrow> op_wallet x = wid \<Longrightarrow> \<not> live x"
    and "register_operation wid snap (co_entries s) (co_next s) = Inr (p, t, n)"
  shows "ops_inv (s\<lparr>co_entries := t, co_next := n\<rparr>)"
proof -
  define new where "new = \<lparr>op_progress = p, op_pending = Some snap, op_notified = False\<rparr>"
  have p: "p = \<lparr>sy_id = co_next s + 1, sy_wallet_id = wid, sy_phase = Prepared, scanned_scripts = 0, sy_error = None\<rparr>"
    and n: "n = co_next s + 1" "n < u64_bound" and t: "t = tbl_upsert (co_next s + 1) new (co_entries s)"
    using assms(4) by (auto simp: register_operation_def Let_def new_def split: if_splits)
  have fresh: "co_next s + 1 \<notin> keys (co_entries s)" "co_next s + 1 \<notin> keys (co_threads s)"
  proof -
    have "\<forall>i \<in> keys (co_entries s) \<union> keys (co_threads s). i \<le> co_next s" using assms(1) by (simp add: ops_inv_def)
    then have "i \<noteq> co_next s + 1" if "i \<in> keys (co_entries s) \<union> keys (co_threads s)" for i
      using bspec [OF _ that, of "\<lambda>i. i \<le> co_next s"] \<open>\<forall>i \<in> _. _\<close> by linarith
    then show "co_next s + 1 \<notin> keys (co_entries s)" "co_next s + 1 \<notin> keys (co_threads s)" by blast+
  qed
  then have l: "length t \<le> MAX_OPERATIONS" using assms(2) by (simp add: t tbl_upsert_def has_key_iff)
  have "op_ok (co_next s + 1) new None"
    by (simp add: op_ok_def new_def p op_phase_def)
  then have ok: "op_ok j y (map_of (co_threads s) j)" if "map_of t j = Some y" for j y
    using that assms(1) fresh(2) map_of_None_iff [of "co_threads s" "co_next s + 1"]
    by (cases "j = co_next s + 1") (auto simp: t map_of_upsert ops_inv_def)
  have wid: "op_wallet new = wid" by (simp add: op_wallet_def new_def p)
  have "one_live t"
    unfolding one_live_def
  proof (intro allI impI)
    fix j k y z
    assume *: "map_of t j = Some y" "map_of t k = Some z" "live y" "live z" "op_wallet y = op_wallet z"
    have "one_live (co_entries s)" using assms(1) by (simp add: ops_inv_def)
    then show "j = k"
      using * assms(3) wid unfolding one_live_def t map_of_upsert
      by (cases "j = co_next s + 1"; cases "k = co_next s + 1") auto
  qed
  moreover have "1 \<le> i \<and> i \<le> n" if "i \<in> keys t \<union> keys (co_threads s)" for i
  proof (cases "i = co_next s + 1")
    case False
    then have "i \<in> keys (co_entries s) \<union> keys (co_threads s)" using that by (auto simp: t)
    then have "1 \<le> i \<and> i \<le> co_next s" using assms(1) unfolding ops_inv_def by blast
    then show ?thesis by (simp add: n)
  qed (simp add: n)
  ultimately show ?thesis using assms(1) l ok n(2) unfolding ops_inv_def by (simp add: t)
qed

lemma ops_inv_prepare:
  assumes "ops_inv s" and "prepare_sync W T N wid source consent s = (r, t)"
  shows "ops_inv t"
proof (cases "take_snapshot W T N wid source consent (co_db s)")
  case (Inl e)
  then show ?thesis using assms by (simp add: prepare_sync_def)
next
  case (Inr snap)
  let ?s = "s\<lparr>co_entries := make_room (co_entries s)\<rparr>"
  show ?thesis
  proof (cases "list_ex (\<lambda>(_, x). op_wallet x = wid \<and> live x) (co_entries s)")
    case True
    then show ?thesis using assms Inr by (simp add: prepare_sync_def)
  next
    case False
    have none: "\<not> live x" if "map_of (co_entries ?s) i = Some x" "op_wallet x = wid" for i x
      using False that make_room_facts(2) [OF assms(1), of i x] by (auto simp: list_ex_iff dest: map_of_SomeD)
    note room = make_room_facts(1) [OF assms(1)]
    show ?thesis
    proof (cases "MAX_OPERATIONS \<le> length (co_entries ?s)")
      case True
      then show ?thesis using assms(2) Inr False room by (simp add: prepare_sync_def)
    next
      case small: False
      show ?thesis
      proof (cases "register_operation wid snap (co_entries ?s) (co_next ?s)")
        case (Inl e)
        then show ?thesis using assms(2) Inr False small room by (simp add: prepare_sync_def)
      next
        case (Inr q)
        obtain p u n where q: "q = (p, u, n)" by (cases q)
        have "ops_inv (?s\<lparr>co_entries := u, co_next := n\<rparr>)"
          by (rule ops_inv_register [OF room _ none]) (use small Inr q in auto)
        then show ?thesis
          using assms(2) \<open>take_snapshot _ _ _ _ _ _ _ = _\<close> False small Inr q by (simp add: prepare_sync_def)
      qed
    qed
  qed
qed

text \<open>The other sections change one entry, and the thread of its number.\<close>

lemma ops_inv_entry_only:
  assumes "ops_inv s" and "map_of (co_entries s) i = Some x"
    and "op_wallet x' = op_wallet x" and "live x' \<Longrightarrow> live x" and "op_ok i x' (map_of (co_threads s) i)"
  shows "ops_inv (s\<lparr>co_entries := tbl_upsert i x' (co_entries s)\<rparr>)"
  using ops_inv_entry [OF assms, of "co_db s"] assms(1) by (auto simp: ops_inv_def)

lemma cancel_operation_facts:
  "op_wallet (cancel_operation x) = op_wallet x" "\<not> live (cancel_operation x)"
  "op_ok i x th \<Longrightarrow> op_ok i (cancel_operation x) th"
  by (auto simp: cancel_operation_def live_def op_ok_def)

lemma ops_inv_cancel: "ops_inv s \<Longrightarrow> cancel_sync i s = (p, t) \<Longrightarrow> ops_inv t"
  by (auto simp: cancel_sync_def cancel_operation_facts entry_ok intro!: ops_inv_entry_only split: option.splits)

lemma begin_run_cases:
  assumes "begin_run i s = (r, t)"
  shows "(\<exists>e. r = Inl e \<and> t = s) \<or> (\<exists>snap x. r = Inr snap \<and> map_of (co_entries s) i = Some x
     \<and> op_pending x = Some snap \<and> t = s\<lparr>co_entries := tbl_upsert i ((set_phase Scanning x)\<lparr>op_pending := None\<rparr>) (co_entries s)\<rparr>)"
  using assms by (auto simp: begin_run_def split: option.splits if_splits)

lemma ops_inv_run:
  assumes "ops_inv s" and "run_sync i spawned s = (u, t)"
  shows "ops_inv t"
proof (cases "begin_run i s")
  case (Pair r s1)
  show ?thesis
  proof (cases r)
    case (Inl e)
    then show ?thesis using begin_run_cases [OF Pair] assms Pair by (simp add: run_sync_def)
  next
    case (Inr snap)
    then obtain x where x: "map_of (co_entries s) i = Some x" "op_pending x = Some snap"
      and s1: "s1 = s\<lparr>co_entries := tbl_upsert i ((set_phase Scanning x)\<lparr>op_pending := None\<rparr>) (co_entries s)\<rparr>"
      using begin_run_cases [OF Pair] by auto
    have old: "op_phase x = Prepared" "map_of (co_threads s) i = None" "sy_id (op_progress x) = i"
      using entry_ok [OF assms(1) x(1)] x(2) by (auto simp: op_ok_def split: sync_phase.splits)
    then have none: "i \<notin> keys (co_threads s)" by (simp add: map_of_None_iff)
    have wallet: "live x" by (simp add: live_def old)
    have "ops_inv (s\<lparr>co_db := co_db s, co_entries := tbl_upsert i ((set_phase Scanning x)\<lparr>op_pending := None\<rparr>) (co_entries s),
        co_threads := co_threads s @ [(i, Running snap)]\<rparr>)"
      using assms(1) old none wallet
      by (intro ops_inv_entry [OF assms(1) x(1)])
        (auto simp: op_ok_def unique_insert ops_inv_def map_of_insert simp del: map_of_append)
    moreover have "ops_inv (s\<lparr>co_entries := tbl_upsert i
        (cancel_operation ((set_phase Scanning x)\<lparr>op_pending := None\<rparr>)) (co_entries s)\<rparr>)"
      using old wallet by (intro ops_inv_entry_only [OF assms(1) x(1)]) (auto simp: cancel_operation_def op_ok_def)
    ultimately show ?thesis
      using assms(2) Pair Inr s1 by (auto simp: run_sync_def cancel_sync_def map_of_upsert upsert_twice split: if_splits)
  qed
qed


lemma ops_inv_count: "ops_inv s \<Longrightarrow> count_script i s = (Inr (), t) \<Longrightarrow> ops_inv t"
  by (auto simp: count_script_def intro!: ops_inv_entry_only split: option.splits if_splits dest: entry_ok)
    (auto simp: op_ok_def dest: entry_ok)

text \<open>A running thread finds its operation scanning, cancelled or gone.\<close>

lemma running_phase:
  assumes "ops_inv s" and "(i, Running snap) \<in> set (co_threads s)" and "map_of (co_entries s) i = Some x"
  shows "op_phase x \<in> {Scanning, CancelledPhase}" and "op_pending x = None" and "sy_id (op_progress x) = i"
  using entry_ok [OF assms(1,3)] thread_lookup [OF assms(1,2)] by (auto simp: op_ok_def split: sync_phase.splits)

lemma reporting_phase:
  assumes "ops_inv s" and "(i, Reporting e) \<in> set (co_threads s)" and "map_of (co_entries s) i = Some x"
  shows "op_phase x \<in> {Scanning, Applying, CancelledPhase}" and "op_pending x = None" and "sy_id (op_progress x) = i"
  using entry_ok [OF assms(1,3)] thread_lookup [OF assms(1,2)] by (auto simp: op_ok_def split: sync_phase.splits)

lemma ops_inv_failed:
  assumes "ops_inv s" and "(i, Running snap) \<in> set (co_threads s)"
  shows "ops_inv (thread_failed i e s)"
proof -
  have th: "map_of (co_threads (thread_failed i e s)) i = Some (Reporting e)"
    using thread_lookup [OF assms] by (simp add: thread_failed_table map_of_update)
  have "op_ok i x (map_of (co_threads (thread_failed i e s)) i)" if "map_of (co_entries s) i = Some x" for x
    using running_phase [OF assms that] th by (auto simp: op_ok_def)
  then have "ops_inv (s\<lparr>co_threads := co_threads (thread_failed i e s)\<rparr>)"
    using thread_range [OF assms] assms(1)
    by (intro ops_inv_thread [OF assms(1), of i]) (auto simp: thread_failed_table map_of_update ops_inv_def)
  then show ?thesis by (simp add: thread_failed_def)
qed

lemma ops_inv_commit:
  assumes "ops_inv s" and "(i, Running snap) \<in> set (co_threads s)"
    and "commit_scan B W N i snap observed_at result s = (Inr (), t)"
  shows "ops_inv (thread_done i t)"
proof -
  obtain x db where x: "map_of (co_entries s) i = Some x" "op_phase x \<noteq> CancelledPhase"
    and t: "t = s\<lparr>co_db := db, co_entries := tbl_upsert i (set_phase Complete x) (co_entries s)\<rparr>"
    using assms(3) by (auto simp: commit_scan_def split: option.splits if_splits prod.splits sum.splits)
  note r = running_phase [OF assms(1,2) x(1)]
  have "ops_inv (s\<lparr>co_db := db, co_entries := tbl_upsert i (set_phase Complete x) (co_entries s),
      co_threads := tbl_delete (\<lambda>k. k = i) (co_threads s)\<rparr>)"
    using assms(1) r by (intro ops_inv_entry [OF assms(1) x(1)])
      (auto simp: op_ok_def map_of_delete ops_inv_def)
  then show ?thesis by (simp add: t thread_done_def tbl_delete_def)
qed

lemma ops_inv_refused:
  assumes "ops_inv s" and "(i, Running snap) \<in> set (co_threads s)"
    and "commit_scan B W N i snap observed_at result s = (Inl e, t)"
  shows "ops_inv (thread_failed i e t)"
proof -
  consider "t = s" | x where "map_of (co_entries s) i = Some x" "op_phase x \<noteq> CancelledPhase"
      "t = s\<lparr>co_entries := tbl_upsert i (set_phase Applying x) (co_entries s)\<rparr>"
    using assms(3) by (auto simp: commit_scan_def split: option.splits if_splits prod.splits sum.splits)
  then show ?thesis
  proof cases
    case 1
    then show ?thesis using ops_inv_failed [OF assms(1,2)] by simp
  next
    case 2
    note r = running_phase [OF assms(1,2) 2(1)]
    have "live x" using r 2(2) by (auto simp: live_def)
    have th: "map_of (tbl_update (\<lambda>k. k = i) (\<lambda>_. Reporting e) (co_threads s)) i = Some (Reporting e)"
      using thread_lookup [OF assms(1,2)] by (simp add: map_of_update)
    have "ops_inv (s\<lparr>co_db := co_db s, co_entries := tbl_upsert i (set_phase Applying x) (co_entries s),
        co_threads := tbl_update (\<lambda>k. k = i) (\<lambda>_. Reporting e) (co_threads s)\<rparr>)"
      using assms(1) r th \<open>live x\<close> by (intro ops_inv_entry [OF assms(1) 2(1)])
        (auto simp: op_ok_def map_of_update ops_inv_def)
    moreover have "map (\<lambda>t. if fst t = i then (i, Reporting e) else t) u = tbl_update (\<lambda>k. k = i) (\<lambda>_. Reporting e) u" for u :: "(nat \<times> ('a, 'b) thread) list"
      by (auto simp: tbl_update_def)
    ultimately show ?thesis by (simp add: 2(3) thread_failed_def)
  qed
qed

lemma report_error_cases:
  "report_error i e s = s \<or> (\<exists>x. map_of (co_entries s) i = Some x \<and> live x \<and> report_error i e s =
     s\<lparr>co_entries := tbl_upsert i ((set_phase (if e = Cancelled then CancelledPhase else Failed) x)
        \<lparr>op_progress := (op_progress (set_phase (if e = Cancelled then CancelledPhase else Failed) x))\<lparr>sy_error := Some e\<rparr>\<rparr>)
       (co_entries s)\<rparr>)"
  by (cases "map_of (co_entries s) i") (auto simp: report_error_def Let_def live_def)

lemma ops_inv_report:
  assumes "ops_inv s" and "(i, Reporting e) \<in> set (co_threads s)"
  shows "ops_inv (thread_done i (report_error i e s))"
proof (cases "map_of (co_entries s) i")
  case None
  then have "ops_inv (s\<lparr>co_threads := tbl_delete (\<lambda>k. k = i) (co_threads s)\<rparr>)"
    using thread_range [OF assms] assms(1)
    by (intro ops_inv_thread [OF assms(1), of i]) (auto simp: map_of_delete ops_inv_def)
  then show ?thesis using None by (simp add: report_error_def thread_done_def tbl_delete_def)
next
  case (Some x)
  define p where "p = (if e = Cancelled then CancelledPhase else Failed)"
  define y where "y = (if live x then (set_phase p x)\<lparr>op_progress := (op_progress (set_phase p x))\<lparr>sy_error := Some e\<rparr>\<rparr> else x)"
  note r = reporting_phase [OF assms Some]
  have "ops_inv (s\<lparr>co_db := co_db s, co_entries := tbl_upsert i y (co_entries s),
      co_threads := tbl_delete (\<lambda>k. k = i) (co_threads s)\<rparr>)"
    using assms(1) r by (intro ops_inv_entry [OF assms(1) Some])
      (auto simp: op_ok_def map_of_delete ops_inv_def y_def p_def live_def)
  moreover have "tbl_upsert i x (co_entries s) = co_entries s"
  proof -
    have u: "unique_keys (co_entries s)" using assms(1) by (simp add: ops_inv_def)
    have "(i, x) = r" if "r \<in> set (co_entries s)" "fst r = i" for r
      using unique_map_of [OF u, of "fst r" "snd r"] that Some by auto
    then show ?thesis using Some map_of_Some_key [OF Some] by (auto simp: tbl_upsert_def has_key_iff intro!: map_idI)
  qed
  ultimately show ?thesis
    using Some by (auto simp: report_error_def thread_done_def tbl_delete_def Let_def y_def p_def live_def)
qed

lemma ops_inv_step: "sync_step B W T N s t \<Longrightarrow> ops_inv s \<Longrightarrow> ops_inv t"
proof (induction rule: sync_step.induct)
  case (Other_Call s db)
  then show ?case by (simp add: ops_inv_def)
qed (blast intro: ops_inv_prepare ops_inv_cancel ops_inv_run ops_inv_count ops_inv_failed ops_inv_commit
    ops_inv_refused ops_inv_report)+

definition fresh_core :: "'cs db \<Rightarrow> ('w, 'cs) core" where
  "fresh_core db = \<lparr>co_db = db, co_entries = [], co_next = 0, co_threads = []\<rparr>"

lemma ops_inv_run_all: "sync_run B W T N s t \<Longrightarrow> ops_inv s \<Longrightarrow> ops_inv t"
  by (induction rule: sync_run.induct) (auto intro: ops_inv_step)

lemma ops_inv_reachable: "sync_run B W T N (fresh_core db) t \<Longrightarrow> ops_inv t"
  by (erule ops_inv_run_all) (simp add: ops_inv_def fresh_core_def u64_bound_def one_live_def)


section \<open>The claims\<close>

text \<open>
  C29. The table of synchronizations stays small and unambiguous under every interleaving of callers
  and threads: it has at most 32 entries, every entry is found under its own id, no id is given out
  twice, a wallet has at most one synchronization that is not over, a snapshot waits exactly while
  the operation is prepared, and exactly the operations that scan or apply are in the hands of a
  thread.
\<close>

theorem sync_operations_bounded:
  assumes "sync_run B W T N (fresh_core db) s"
  shows "length (co_entries s) \<le> 32 \<and> distinct (map fst (co_entries s)) \<and> distinct (map fst (co_threads s))
    \<and> (\<forall>(i, x) \<in> set (co_entries s). sy_id (op_progress x) = i \<and> i \<le> co_next s
         \<and> (op_pending x \<noteq> None \<longleftrightarrow> sy_phase (op_progress x) = Prepared)
         \<and> (sy_phase (op_progress x) \<in> {Scanning, Applying} \<longrightarrow> i \<in> fst ` set (co_threads s))
         \<and> (sy_phase (op_progress x) \<in> {Prepared, Complete, Failed} \<longrightarrow> i \<notin> fst ` set (co_threads s)))
    \<and> (\<forall>(i, x) \<in> set (co_entries s). \<forall>(j, y) \<in> set (co_entries s).
         \<not> terminal (sy_phase (op_progress x)) \<and> \<not> terminal (sy_phase (op_progress y))
         \<and> sy_wallet_id (op_progress x) = sy_wallet_id (op_progress y) \<longrightarrow> i = j)"
proof -
  have inv: "ops_inv s" by (rule ops_inv_reachable [OF assms])
  then have u: "unique_keys (co_entries s)" "length (co_entries s) \<le> 32" "unique_keys (co_threads s)"
    "one_live (co_entries s)" and below: "\<forall>i \<in> keys (co_entries s). i \<le> co_next s"
    by (auto simp: ops_inv_def MAX_OPERATIONS_def)
  have found: "map_of (co_entries s) i = Some x" if "(i, x) \<in> set (co_entries s)" for i x
    using that u(1) by (simp add: unique_map_of)
  have "sy_id (op_progress x) = i \<and> i \<le> co_next s \<and> (op_pending x \<noteq> None \<longleftrightarrow> sy_phase (op_progress x) = Prepared)
      \<and> (sy_phase (op_progress x) \<in> {Scanning, Applying} \<longrightarrow> i \<in> fst ` set (co_threads s))
      \<and> (sy_phase (op_progress x) \<in> {Prepared, Complete, Failed} \<longrightarrow> i \<notin> fst ` set (co_threads s))"
    if "(i, x) \<in> set (co_entries s)" for i x
    using entry_ok [OF inv found [OF that]] below map_of_Some_key [OF found [OF that]] map_of_None_iff [of "co_threads s" i]
    by (auto simp: op_ok_def op_phase_def keys_def)
  moreover have "i = j" if "(i, x) \<in> set (co_entries s)" "(j, y) \<in> set (co_entries s)"
      "live x" "live y" "op_wallet x = op_wallet y" for i j x y
    using u(4) found that unfolding one_live_def by metis
  ultimately show ?thesis
    using u(1-3) unfolding unique_keys_def live_def op_phase_def op_wallet_def by blast
qed

text \<open>
  What an operation is to its caller: a ticket that is not yet given out, waits to be run, is being
  worked on, is settled for good, or has been forgotten.
\<close>

datatype ticket = Unused | Waiting | Working | Settled sync_phase | Forgotten

inductive ticket_step :: "ticket \<Rightarrow> ticket \<Rightarrow> bool" where
  Give: "ticket_step Unused Waiting"
| Start: "ticket_step Waiting Working"
| Withdraw: "ticket_step Waiting (Settled CancelledPhase)"
| Settle: "terminal p \<Longrightarrow> ticket_step Working (Settled p)"
| Forget: "ticket_step (Settled p) Forgotten"

definition ticket_of :: "('w, 'cs) operation \<Rightarrow> ticket" where
  "ticket_of x = (case op_phase x of Prepared \<Rightarrow> Waiting | Scanning \<Rightarrow> Working | Applying \<Rightarrow> Working | p \<Rightarrow> Settled p)"

definition ticket :: "nat \<Rightarrow> ('w, 'cs) core \<Rightarrow> ticket" where
  "ticket i s = (if i = 0 \<or> co_next s < i then Unused
     else case map_of (co_entries s) i of None \<Rightarrow> Forgotten | Some x \<Rightarrow> ticket_of x)"

definition ticket_moves :: "ticket \<Rightarrow> ticket \<Rightarrow> bool" where
  "ticket_moves a b \<longleftrightarrow> a = b \<or> ticket_step a b"

lemma ticket_of_settled: "\<not> live x \<longleftrightarrow> (\<exists>p. ticket_of x = Settled p \<and> terminal p)"
  by (auto simp: live_def ticket_of_def terminal_def split: sync_phase.splits)

lemma ticket_entry:
  assumes "ops_inv s" and "map_of (co_entries s) i = Some x" and "ticket_moves (ticket_of x) (ticket_of x')"
    and "co_entries t = tbl_upsert i x' (co_entries s)" and "co_next t = co_next s"
  shows "ticket_moves (ticket j s) (ticket j t)"
proof -
  have "1 \<le> i \<and> i \<le> co_next s" using assms(1) map_of_Some_key [OF assms(2)] by (simp add: ops_inv_def)
  then show ?thesis using assms by (cases "j = i") (auto simp: ticket_def map_of_upsert ticket_moves_def)
qed

lemma ticket_stays: "co_entries t = co_entries s \<Longrightarrow> co_next t = co_next s \<Longrightarrow> ticket_moves (ticket j s) (ticket j t)"
  by (simp add: ticket_def ticket_moves_def)

lemma ticket_room:
  assumes "ops_inv s"
  shows "ticket_moves (ticket j s) (ticket j (s\<lparr>co_entries := make_room (co_entries s)\<rparr>))"
proof (cases "map_of (co_entries s) j")
  case None
  then have "map_of (make_room (co_entries s)) j = None"
    using make_room_facts(2) [OF assms, of j] by (cases "map_of (make_room (co_entries s)) j") auto
  then show ?thesis using None by (simp add: ticket_def ticket_moves_def)
next
  case (Some x)
  show ?thesis
  proof (cases "live x")
    case True
    then show ?thesis using make_room_facts(3) [OF assms Some] Some by (simp add: ticket_def ticket_moves_def)
  next
    case False
    then obtain p where p: "ticket_of x = Settled p" by (auto simp: ticket_of_settled)
    consider "map_of (make_room (co_entries s)) j = None" | "map_of (make_room (co_entries s)) j = Some x"
      using make_room_facts(2) [OF assms, of j] Some by (cases "map_of (make_room (co_entries s)) j") auto
    then show ?thesis
      by cases (use Some p in \<open>auto simp: ticket_def ticket_moves_def intro: ticket_step.intros\<close>)
  qed
qed

lemma ticket_register:
  assumes "register_operation wid snap (co_entries s) (co_next s) = Inr (p, u, n)"
  shows "ticket j (s\<lparr>co_entries := u, co_next := n\<rparr>) = (if j = co_next s + 1 then Waiting else ticket j s)"
proof -
  have "u = tbl_upsert (co_next s + 1) \<lparr>op_progress = p, op_pending = Some snap, op_notified = False\<rparr> (co_entries s)"
    and "n = co_next s + 1" and "sy_phase p = Prepared"
    using assms by (auto simp: register_operation_def Let_def split: if_splits)
  then show ?thesis by (auto simp: ticket_def map_of_upsert ticket_of_def op_phase_def)
qed

lemma prepare_sync_cases:
  assumes "prepare_sync W T N wid source consent s = (r, t)"
  shows "t = s \<or> t = s\<lparr>co_entries := make_room (co_entries s)\<rparr>
    \<or> (\<exists>snap p u n. register_operation wid snap (make_room (co_entries s)) (co_next s) = Inr (p, u, n)
         \<and> t = s\<lparr>co_entries := u, co_next := n\<rparr>)"
proof (cases "take_snapshot W T N wid source consent (co_db s)")
  case (Inr snap)
  show ?thesis
    using assms unfolding prepare_sync_def Inr Let_def
    by (cases "register_operation wid snap (make_room (co_entries s)) (co_next s)") (auto split: if_splits)
qed (use assms in \<open>simp add: prepare_sync_def\<close>)

lemma ticket_prepare:
  assumes "ops_inv s" and "prepare_sync W T N wid source consent s = (r, t)"
  shows "ticket_moves (ticket j s) (ticket j t)"
proof -
  let ?s = "s\<lparr>co_entries := make_room (co_entries s)\<rparr>"
  note room = ticket_room [OF assms(1), of j]
  consider "t = s" | "t = ?s"
    | snap p u n where "register_operation wid snap (co_entries ?s) (co_next ?s) = Inr (p, u, n)"
        "t = ?s\<lparr>co_entries := u, co_next := n\<rparr>"
    using prepare_sync_cases [OF assms(2)] by fastforce
  then show ?thesis
  proof cases
    case 3
    show ?thesis
    proof (cases "j = co_next s + 1")
      case True
      then have "ticket j s = Unused" "ticket j t = Waiting"
        using ticket_register [OF 3(1), of j] 3(2) by (simp_all add: ticket_def)
      then show ?thesis by (simp add: ticket_moves_def Give)
    next
      case False
      then show ?thesis using ticket_register [OF 3(1), of j] 3(2) room by simp
    qed
  qed (use room in \<open>auto simp: ticket_moves_def\<close>)
qed

lemma ticket_of_simps [simp]:
  "ticket_of (x\<lparr>op_pending := v\<rparr>) = ticket_of x" "ticket_of (x\<lparr>op_notified := b\<rparr>) = ticket_of x"
  "ticket_of (x\<lparr>op_progress := (op_progress x)\<lparr>scanned_scripts := n\<rparr>\<rparr>) = ticket_of x"
  "ticket_of (x\<lparr>op_progress := (op_progress x)\<lparr>sy_error := e\<rparr>\<rparr>) = ticket_of x"
  "terminal p \<Longrightarrow> ticket_of (set_phase p x) = Settled p" "ticket_of (set_phase Scanning x) = Working"
  "ticket_of (set_phase Applying x) = Working"
  by (auto simp: ticket_of_def terminal_def)

lemma ticket_cancel: "ticket_moves (ticket_of x) (ticket_of (cancel_operation x))"
  by (cases "op_phase x") (auto simp: cancel_operation_def ticket_moves_def ticket_of_def intro: ticket_step.intros)

lemma ticket_settle: "live x \<Longrightarrow> op_phase x \<noteq> Prepared \<Longrightarrow> terminal p \<Longrightarrow> ticket_moves (ticket_of x) (Settled p)"
  by (cases "op_phase x") (auto simp: live_def ticket_moves_def ticket_of_def intro: ticket_step.intros)

lemma ticket_step_refines:
  assumes "sync_step B W T N s t" and "ops_inv s"
  shows "ticket_moves (ticket j s) (ticket j t)"
  using assms
proof (induction rule: sync_step.induct)
  case (Prepare_Step wid source consent s r t)
  then show ?case by (rule_tac ticket_prepare)
next
  case (Cancel_Step i s p t)
  then show ?case
    by (auto simp: cancel_sync_def ticket_stays intro: ticket_entry [OF _ _ ticket_cancel] split: option.splits)
next
  case (Run_Step i spawned s u t)
  obtain r s1 where b: "begin_run i s = (r, s1)" by (cases "begin_run i s")
  from begin_run_cases [OF b] show ?case
  proof (elim disjE exE conjE)
    fix e assume "r = Inl e" "s1 = s"
    then show ?thesis using Run_Step.hyps b by (simp add: run_sync_def ticket_stays)
  next
    fix snap x
    assume x: "r = Inr snap" "map_of (co_entries s) i = Some x" "op_pending x = Some snap"
      "s1 = s\<lparr>co_entries := tbl_upsert i ((set_phase Scanning x)\<lparr>op_pending := None\<rparr>) (co_entries s)\<rparr>"
    then have waiting: "ticket_of x = Waiting"
      using entry_ok [OF Run_Step.prems x(2)] by (auto simp: op_ok_def ticket_of_def)
    let ?y = "(set_phase Scanning x)\<lparr>op_pending := None\<rparr>"
    have "ticket_of (cancel_operation ?y) = Settled CancelledPhase" by (simp add: cancel_operation_def)
    then have moves: "ticket_moves (ticket_of x) (ticket_of ?y)" "ticket_moves (ticket_of x) (ticket_of (cancel_operation ?y))"
      using waiting by (auto simp: ticket_moves_def intro: ticket_step.intros)
    have "co_next t = co_next s \<and> (co_entries t = tbl_upsert i ?y (co_entries s)
        \<or> co_entries t = tbl_upsert i (cancel_operation ?y) (co_entries s))"
      using Run_Step.hyps b x by (auto simp: run_sync_def cancel_sync_def map_of_upsert upsert_twice split: if_splits)
    then show ?thesis using ticket_entry [OF Run_Step.prems x(2)] moves by blast
  qed
next
  case (Scan_Step i snap s t)
  then obtain x where "map_of (co_entries s) i = Some x"
      "t = s\<lparr>co_entries := tbl_upsert i (x\<lparr>op_progress := (op_progress x)\<lparr>scanned_scripts := scanned_scripts (op_progress x) + 1\<rparr>\<rparr>) (co_entries s)\<rparr>"
    by (auto simp: count_script_def split: option.splits if_splits)
  then show ?case using Scan_Step.prems by (intro ticket_entry) (auto simp: ticket_moves_def)
next
  case (Scan_Error i snap s e)
  then show ?case by (simp add: ticket_stays thread_failed_def)
next
  case (Commit_Step i snap s observed_at result t)
  then obtain x db where x: "map_of (co_entries s) i = Some x" "op_phase x \<noteq> CancelledPhase"
    and t: "t = s\<lparr>co_db := db, co_entries := tbl_upsert i (set_phase Complete x) (co_entries s)\<rparr>"
    by (auto simp: commit_scan_def split: option.splits if_splits prod.splits sum.splits)
  then have "ticket_moves (ticket_of x) (ticket_of (set_phase Complete x))"
    using running_phase(1) [OF Commit_Step.prems Commit_Step.hyps(1) x(1)] by (auto intro: ticket_settle simp: live_def)
  then show ?case using x t by (intro ticket_entry [OF Commit_Step.prems x(1)]) (auto simp: thread_done_def)
next
  case (Refused_Commit i snap s observed_at result e t)
  then consider "t = s" | x where "map_of (co_entries s) i = Some x" "op_phase x \<noteq> CancelledPhase"
      "t = s\<lparr>co_entries := tbl_upsert i (set_phase Applying x) (co_entries s)\<rparr>"
    by (auto simp: commit_scan_def split: option.splits if_splits prod.splits sum.splits)
  then show ?case
  proof cases
    case 2
    then have "ticket_of x = Working"
      using running_phase(1) [OF Refused_Commit.prems Refused_Commit.hyps(1) 2(1)] by (auto simp: ticket_of_def)
    then show ?thesis
      using 2 by (intro ticket_entry [OF Refused_Commit.prems 2(1)]) (auto simp: thread_failed_def ticket_moves_def)
  qed (simp add: ticket_stays thread_failed_def)
next
  case (Report_Step i e s)
  from report_error_cases [of i e s] show ?case
  proof (elim disjE exE conjE)
    fix x
    assume x: "map_of (co_entries s) i = Some x" "live x"
      and r: "report_error i e s = s\<lparr>co_entries := tbl_upsert i ((set_phase (if e = Cancelled then CancelledPhase else Failed) x)
        \<lparr>op_progress := (op_progress (set_phase (if e = Cancelled then CancelledPhase else Failed) x))\<lparr>sy_error := Some e\<rparr>\<rparr>)
       (co_entries s)\<rparr>"
    have "op_phase x \<noteq> Prepared" using reporting_phase(1) [OF Report_Step.prems Report_Step.hyps x(1)] by auto
    then show ?thesis
      using r ticket_settle [OF x(2)]
      by (intro ticket_entry [OF Report_Step.prems x(1)]) (auto simp: thread_done_def)
  qed (simp add: ticket_stays thread_done_def)
next
  case (Other_Call s db)
  then show ?case by (simp add: ticket_stays)
qed


text \<open>
  C7. The table of operations, its lock and its threads implement tickets. In every reachable state
  every step of any caller or thread leaves every operation's ticket alone or moves it one step
  along: given out, started, withdrawn, settled or forgotten. A settled operation never changes its
  mind, whatever its thread is still doing, and an id is never used twice.
\<close>

theorem operations_refine_tickets:
  assumes "sync_run B W T N (fresh_core db) s" and "sync_step B W T N s t"
  shows "ticket i t = ticket i s \<or> ticket_step (ticket i s) (ticket i t)"
  using ticket_step_refines [OF assms(2) ops_inv_reachable [OF assms(1)], of i] by (auto simp: ticket_moves_def)

inductive_simps settled_step [simp]: "ticket_step (Settled p) u"
inductive_simps forgotten_step [simp]: "ticket_step Forgotten u"

lemma settled_forever:
  assumes "sync_run B W T N s t" and "ops_inv s" and "ticket i s = Settled p"
  shows "ticket i t = Settled p \<or> ticket i t = Forgotten"
  using assms
proof (induction rule: sync_run.induct)
  case (Run_Trans s t u)
  have "ops_inv t" by (rule ops_inv_run_all [OF Run_Trans.hyps(1) Run_Trans.prems(1)])
  from ticket_step_refines [OF Run_Trans.hyps(2) this, of i] Run_Trans.IH [OF Run_Trans.prems]
  show ?case by (auto simp: ticket_moves_def)
qed simp

text \<open>
  C20. Cancelling wins. Once a caller has been told that an operation is cancelled, then however the
  run goes on, the thread of that operation can neither count another script nor commit: whatever
  its scan brings, the call is refused and the state is left as it is.
\<close>

theorem cancelled_never_commits:
  assumes "sync_run B W T N (fresh_core db) s" and "cancel_sync i s = (Inr p, t)"
    and "sy_phase p = CancelledPhase" and "sync_run B W T N t u"
  shows "snd (commit_scan B W N i snap observed_at result u) = u
    \<and> fst (commit_scan B W N i snap observed_at result u) \<in> {Inl NotFound, Inl Cancelled}
    \<and> snd (count_script i u) = u \<and> fst (count_script i u) \<in> {Inl NotFound, Inl Cancelled}"
proof -
  have inv: "ops_inv s" by (rule ops_inv_reachable [OF assms(1)])
  note inv' = ops_inv_cancel [OF inv assms(2)]
  obtain x where "map_of (co_entries t) i = Some x" "op_phase x = CancelledPhase"
    using assms(2,3) by (auto simp: cancel_sync_def op_phase_def map_of_upsert split: option.splits)
  moreover from this have "1 \<le> i \<and> i \<le> co_next t"
    using inv' map_of_Some_key [of "co_entries t" i] by (simp add: ops_inv_def)
  ultimately have "ticket i t = Settled CancelledPhase" by (simp add: ticket_def ticket_of_def)
  from settled_forever [OF assms(4) inv' this]
  have "map_of (co_entries u) i = None \<or> (\<exists>x. map_of (co_entries u) i = Some x \<and> op_phase x = CancelledPhase)"
    by (auto simp: ticket_def ticket_of_def split: option.splits if_splits sync_phase.splits)
  then show ?thesis by (auto simp: commit_scan_def count_script_def)
qed

text \<open>How the thread of an operation ends: on a commit at once, after an error by reporting it.\<close>

definition finish_thread :: "nat \<Rightarrow> unit result \<times> ('w, 'cs) core \<Rightarrow> ('w, 'cs) core" where
  "finish_thread i = (\<lambda>(r, t). case r of
     Inl e \<Rightarrow> thread_done i (report_error i e (thread_failed i e t)) | Inr _ \<Rightarrow> thread_done i t)"

definition over :: "nat \<Rightarrow> ('w, 'cs) core \<Rightarrow> bool" where
  "over i s \<longleftrightarrow> (\<exists>y. map_of (co_entries s) i = Some y \<and> terminal (sy_phase (op_progress y))) \<and> \<not> has_key i (co_threads s)"

lemma over_reported:
  assumes "map_of (co_entries s) i = Some x"
  shows "over i (thread_done i (report_error i e s))"
  using assms
  by (auto simp: over_def thread_done_table has_key_iff)
    (auto simp: thread_done_def report_error_def Let_def map_of_upsert set_phase_def op_phase_def)

lemma finish_thread_step:
  assumes "ops_inv s" and "(i, Running snap) \<in> set (co_threads s)" and "map_of (co_entries s) i = Some x"
  shows "over i (finish_thread i (Inl e, s)) \<and> sync_run B W T N s (finish_thread i (Inl e, s))"
    and "over i (finish_thread i (commit_scan B W N i snap observed_at result s))
      \<and> sync_run B W T N s (finish_thread i (commit_scan B W N i snap observed_at result s))"
proof -
  have reported: "over i (finish_thread i (Inl e, t)) \<and> sync_run B W T N s (finish_thread i (Inl e, t))"
    if t: "sync_step B W T N s (thread_failed i e t)" "(i, Running snap) \<in> set (co_threads t)"
      "map_of (co_entries t) i = Some y" for t y e
  proof
    have "(i, Reporting e) \<in> set (co_threads (thread_failed i e t))" using t(2) by (force simp: thread_failed_def)
    from Run_Trans [OF Run_Trans [OF Run_Refl t(1)] Report_Step [OF this]]
    show "sync_run B W T N s (finish_thread i (Inl e, t))" by (simp add: finish_thread_def)
    show "over i (finish_thread i (Inl e, t))"
      using over_reported [of "thread_failed i e t" i y e] t(3) by (simp add: finish_thread_def thread_failed_def)
  qed
  show "over i (finish_thread i (Inl e, s)) \<and> sync_run B W T N s (finish_thread i (Inl e, s))"
    by (rule reported [OF Scan_Error [OF assms(2)] assms(2,3)])
  obtain r t where c: "commit_scan B W N i snap observed_at result s = (r, t)" by (cases "commit_scan B W N i snap observed_at result s")
  show "over i (finish_thread i (commit_scan B W N i snap observed_at result s))
      \<and> sync_run B W T N s (finish_thread i (commit_scan B W N i snap observed_at result s))"
  proof (cases r)
    case (Inl e)
    have "co_threads t = co_threads s" "\<exists>y. map_of (co_entries t) i = Some y"
      using c assms(3) by (auto simp: commit_scan_def map_of_upsert split: option.splits if_splits prod.splits sum.splits)
    then show ?thesis
      using reported [of e t] Refused_Commit [OF assms(2)] c assms(2) Inl by fastforce
  next
    case (Inr u)
    have "\<exists>y. map_of (co_entries t) i = Some y \<and> terminal (sy_phase (op_progress y))"
      using c assms(3) Inr by (auto simp: commit_scan_def map_of_upsert set_phase_def split: option.splits if_splits prod.splits sum.splits)
    then have "over i (thread_done i t)" by (auto simp: over_def thread_done_table has_key_iff) (simp add: thread_done_def)
    moreover have "sync_run B W T N s (thread_done i t)"
      using Commit_Step [OF assms(2)] c Inr by (auto intro: Run_Refl Run_Trans)
    ultimately show ?thesis using c Inr by (simp add: finish_thread_def)
  qed
qed

text \<open>
  C30. No synchronization hangs. In every reachable state an operation that scans or applies has a
  thread, and that thread settles it whatever it brings: an error it still has to report, any error
  of the scan, any result and any outcome of committing it. The operation then is over, its thread
  gone, and the run goes on from there.
\<close>

theorem working_operations_settle:
  assumes "sync_run B W T N (fresh_core db) s" and "map_of (co_entries s) i = Some x"
    and "sy_phase (op_progress x) \<in> {Scanning, Applying}"
  shows "(\<exists>e. (i, Reporting e) \<in> set (co_threads s) \<and> over i (thread_done i (report_error i e s))
       \<and> sync_run B W T N s (thread_done i (report_error i e s)))
    \<or> (\<exists>snap. (i, Running snap) \<in> set (co_threads s)
       \<and> (\<forall>e. over i (finish_thread i (Inl e, s)) \<and> sync_run B W T N s (finish_thread i (Inl e, s)))
       \<and> (\<forall>observed_at result. over i (finish_thread i (commit_scan B W N i snap observed_at result s))
            \<and> sync_run B W T N s (finish_thread i (commit_scan B W N i snap observed_at result s))))"
proof -
  have inv: "ops_inv s" by (rule ops_inv_reachable [OF assms(1)])
  have "map_of (co_threads s) i \<noteq> None"
    using entry_ok [OF inv assms(2)] assms(3) by (auto simp: op_ok_def op_phase_def)
  then obtain th where th: "(i, th) \<in> set (co_threads s)" by (auto dest: map_of_SomeD)
  show ?thesis
  proof (cases th)
    case (Reporting e)
    then have "sync_run B W T N s (thread_done i (report_error i e s))"
      using Report_Step [of i e s] th by (blast intro: Run_Refl Run_Trans)
    then show ?thesis using th Reporting over_reported [OF assms(2)] by blast
  next
    case (Running snap)
    then show ?thesis using finish_thread_step [OF inv _ assms(2)] th by blast
  qed
qed


section \<open>A sample run\<close>

text \<open>A synchronization of the sample wallet is prepared, then run by a thread.\<close>

definition sample_core ::
  "sync_phase \<Rightarrow> (nat, nat) snapshot option \<Rightarrow> (nat \<times> (nat, nat) thread) list \<Rightarrow> (nat, nat) core" where
  "sample_core p pending threads = \<lparr>co_db = sample_db,
     co_entries = [(1, \<lparr>op_progress = \<lparr>sy_id = 1, sy_wallet_id = ''w'', sy_phase = p, scanned_scripts = 0, sy_error = None\<rparr>,
       op_pending = pending, op_notified = False\<rparr>)], co_next = 1, co_threads = threads\<rparr>"

abbreviation "sample_prepared \<equiv> sample_core Prepared (Some sample_snapshot) []"
abbreviation "sample_scanning \<equiv> sample_core Scanning None [(1, Running sample_snapshot)]"
abbreviation "sample_run \<equiv> sync_run sample_bitcoin sample_bdk sample_web sample_chain (fresh_core sample_db)"

lemma sample_prepare: "sample_run sample_prepared"
proof -
  have "endpoint sample_web ''e'' Signet True = Inr ''e''"
    by (simp add: endpoint_def sample_web_def url_allowed_def trim_end_slashes_def has_control.simps)
  moreover have "ws_network (l_summary sample_loaded) = Signet" "revision sample_db ''w'' = 0"
    by (simp_all add: sample_loaded_def revision_def sample_db_def empty_db_def)
  ultimately have "take_snapshot sample_bdk sample_web sample_chain ''w'' ''e'' True sample_db = Inr sample_snapshot"
    by (simp add: take_snapshot_def sample_load sample_snapshot_def)
  then have "prepare_sync sample_bdk sample_web sample_chain ''w'' ''e'' True (fresh_core sample_db)
      = (Inr (op_progress (snd (hd (co_entries sample_prepared)))), sample_prepared)"
    by (simp add: prepare_sync_def fresh_core_def make_room_def MAX_OPERATIONS_def register_operation_def u64_bound_def
        sample_core_def tbl_upsert_def has_key_def Let_def)
  from Run_Trans [OF Run_Refl Prepare_Step [OF this]] show ?thesis .
qed

lemma sample_start:
  "sync_step sample_bitcoin sample_bdk sample_web sample_chain sample_prepared sample_scanning"
proof -
  have "run_sync 1 True sample_prepared = (Inr (), sample_scanning)"
    by (simp add: run_sync_def begin_run_def sample_core_def op_phase_def set_phase_def tbl_upsert_def has_key_def)
  then show ?thesis by (rule Run_Step)
qed

lemmas sample_run = Run_Trans [OF sample_prepare sample_start]

theorem sync_operations_bounded_witness:
  "distinct (map fst (co_entries sample_scanning)) \<and> (1 :: nat) \<in> fst ` set (co_threads sample_scanning)"
  using sync_operations_bounded [OF sample_run] by (simp add: sample_core_def)

theorem operations_refine_tickets_witness:
  "ticket_step (ticket 1 sample_prepared) (ticket 1 sample_scanning)"
proof -
  have "ticket 1 sample_prepared = Waiting" "ticket 1 sample_scanning = Working"
    by (simp_all add: ticket_def sample_core_def ticket_of_def op_phase_def)
  then show ?thesis using operations_refine_tickets [OF sample_prepare sample_start, of 1] by simp
qed

theorem cancelled_never_commits_witness:
  "\<exists>p t. cancel_sync 1 sample_scanning = (Inr p, t)
     \<and> fst (commit_scan sample_bitcoin sample_bdk sample_chain 1 sample_snapshot 9
          \<lparr>sr_blocks = [], sr_update = empty_update\<rparr> t) \<in> {Inl NotFound, Inl Cancelled}"
proof -
  obtain p t where c: "cancel_sync 1 sample_scanning = (Inr p, t)" and p: "sy_phase p = CancelledPhase"
    by (simp add: cancel_sync_def sample_core_def cancel_operation_def op_phase_def set_phase_def)
  from cancelled_never_commits [OF sample_run c p Run_Refl] c show ?thesis by blast
qed

theorem working_operations_settle_witness:
  "over 1 (finish_thread 1 (Inl SyncFailed, sample_scanning))"
proof -
  obtain x where x: "map_of (co_entries sample_scanning) 1 = Some x" "sy_phase (op_progress x) \<in> {Scanning, Applying}"
    by (simp add: sample_core_def)
  from working_operations_settle [OF sample_run x] show ?thesis by (auto simp: sample_core_def)
qed

end
