(* ===== verification/Qr.thy ===== *)
theory Qr
  imports Session Http
begin

text \<open>
  \<^verbatim>\<open>crates/tundra-core/src/qr.rs\<close>: the bounded reassembly of a QR sequence, and the frames a payload
  is shown as. The UR and BBQr codecs, CBOR, DEFLATE and the QR symbol itself are parameters; the
  limits, the identity of a stream, duplicate handling, and what a finished payload must be are
  the core's. A call reads the clock once (\<open>now\<close>, in nanoseconds).
\<close>

definition MAX_QR_PAYLOAD_BYTES :: nat where
  "MAX_QR_PAYLOAD_BYTES = 131072"

definition MAX_FRAME_CHARACTERS :: nat where
  "MAX_FRAME_CHARACTERS = 4296"

definition MAX_FRAGMENTS :: nat where
  "MAX_FRAGMENTS = 512"

definition MAX_FRAMES :: nat where
  "MAX_FRAMES = 4096"

definition MAX_SCANNED_BYTES :: nat where
  "MAX_SCANNED_BYTES = 8 * 1048576"

definition SESSION_LIFETIME :: nat where
  "SESSION_LIFETIME = 180000000000"

datatype qr_purpose = SignedPsbt | DescriptorFor network
datatype qr_format = UrFormat | BbqrFormat
datatype qr_phase = QrScanning | QrComplete | QrCancelled | QrFailed
datatype qr_encoding = HexEncoding | Base32Encoding | ZlibEncoding
datatype qr_file_type = PsbtFile | UnicodeTextFile | JsonFile | OtherFile string

record qr_progress =
  qp_phase :: qr_phase
  resolved_fragments :: nat
  total_fragments :: "nat option"

record bbqr_header =
  bh_encoding :: qr_encoding
  bh_file_type :: qr_file_type
  num_parts :: nat

record qr_matrix =
  side :: nat
  modules :: "nat list"

text \<open>
  A CBOR reader takes the bytes and a position and returns what it decoded with the position after
  it; \<open>'d\<close> is the state of the UR fountain decoder, \<open>'e\<close> of the encoder.
\<close>

record ('d, 'e) qr_codec =
  ur_decode :: "string \<Rightarrow> (bool \<times> byte list) option"
  cbor_array :: "byte list \<Rightarrow> nat \<Rightarrow> (nat option \<times> nat) option"
  cbor_u32 :: "byte list \<Rightarrow> nat \<Rightarrow> (nat \<times> nat) option"
  cbor_string :: "byte list \<Rightarrow> nat \<Rightarrow> (byte list \<times> nat) option"
  cbor_encode :: "byte list \<Rightarrow> byte list option"
  fountain_new :: 'd
  fountain_receive :: "'d \<Rightarrow> string \<Rightarrow> 'd option"
  fountain_count :: "'d \<Rightarrow> nat"
  fountain_resolved :: "'d \<Rightarrow> nat option"
  fountain_complete :: "'d \<Rightarrow> bool"
  fountain_message :: "'d \<Rightarrow> byte list option option"
  fragment_hash :: "byte list \<Rightarrow> byte list"
  bbqr_parse :: "string \<Rightarrow> bbqr_header option"
  hex_upper_decode :: "string \<Rightarrow> byte list option"
  base32_decode :: "string \<Rightarrow> byte list option"
  decompress :: "byte list \<Rightarrow> (byte list \<times> bool \<times> nat) option"
  ur_single :: "byte list \<Rightarrow> string \<Rightarrow> string option"
  encoder_new :: "byte list \<Rightarrow> nat \<Rightarrow> string \<Rightarrow> 'e option"
  encoder_count :: "'e \<Rightarrow> nat"
  encoder_next :: "'e \<Rightarrow> (string \<times> 'e) option"
  bbqr_split :: "byte list \<Rightarrow> qr_file_type \<Rightarrow> string list option"
  qr_symbol :: "byte list \<Rightarrow> (nat \<times> (nat \<Rightarrow> nat \<Rightarrow> bool)) option"

definition qr_invalid :: error where
  "qr_invalid = InvalidInput ''invalid, conflicting or unsupported QR payload''"

definition qr_limit :: error where
  "qr_limit = InvalidInput ''QR session exceeded a size, frame or time limit''"

section \<open>ASCII case\<close>

definition ascii_lower :: "string \<Rightarrow> string" where
  "ascii_lower s = map (\<lambda>c. if 65 \<le> code c \<and> code c \<le> 90 then char_of (code c + 32) else c) s"

definition ascii_upper :: "string \<Rightarrow> string" where
  "ascii_upper s = map (\<lambda>c. if 97 \<le> code c \<and> code c \<le> 122 then char_of (code c - 32) else c) s"

section \<open>Rendering a frame\<close>

text \<open>A quiet zone of four modules on every side.\<close>

definition matrix_of :: "nat \<Rightarrow> (nat \<Rightarrow> nat \<Rightarrow> bool) \<Rightarrow> qr_matrix" where
  "matrix_of width dark =
     \<lparr>side = width + 8,
      modules = concat (map (\<lambda>y. map (\<lambda>x.
        if 4 \<le> x \<and> x < width + 4 \<and> 4 \<le> y \<and> y < width + 4 \<and> dark (x - 4) (y - 4) then 1 else 0)
        [0..<width + 8]) [0..<width + 8])\<rparr>"

definition render_frame :: "('d, 'e) qr_codec \<Rightarrow> string \<Rightarrow> qr_matrix result" where
  "render_frame Q frame =
     (if frame = [] \<or> MAX_FRAME_CHARACTERS < length frame then Inl qr_limit
      else
        (let encoded = (if ascii_lower (take 3 frame) = ''ur:'' then ascii_upper frame else frame) in
         rbind (ok_or (qr_symbol Q (bytes_of encoded)) qr_invalid) (\<lambda>(width, dark).
         Inr (matrix_of width dark))))"

section \<open>The decoder's state\<close>

record ur_identity =
  ui_kind :: string
  ui_fragments :: nat
  ui_length :: nat
  ui_checksum :: nat
  ui_fragment_bytes :: nat

record 'd ur_stream =
  us_identity :: ur_identity
  us_decoder :: 'd
  us_seen :: "(nat, byte list) table"

record bbqr_stream =
  bs_header :: bbqr_header
  bs_parts :: "(nat, byte list) table"
  bs_bytes :: nat

datatype 'd qr_stream = EmptyStream | UrStream "'d ur_stream" | BbqrStream bbqr_stream | Payload "byte list"

record 'd qr_decoder =
  qd_purpose :: qr_purpose
  qd_started :: nat
  qd_frames :: nat
  qd_bytes :: nat
  qd_progress :: qr_progress
  qd_stream :: "'d qr_stream"

definition qr_new :: "qr_purpose \<Rightarrow> nat \<Rightarrow> 'd qr_decoder" where
  "qr_new purpose now =
     \<lparr>qd_purpose = purpose, qd_started = now, qd_frames = 0, qd_bytes = 0,
      qd_progress = \<lparr>qp_phase = QrScanning, resolved_fragments = 0, total_fragments = None\<rparr>,
      qd_stream = EmptyStream\<rparr>"

definition qd_phase :: "'d qr_decoder \<Rightarrow> qr_phase" where
  "qd_phase s = qp_phase (qd_progress s)"

definition end_phase :: "qr_phase \<Rightarrow> 'd qr_decoder \<Rightarrow> 'd qr_decoder" where
  "end_phase p s = s\<lparr>qd_stream := EmptyStream, qd_progress := (qd_progress s)\<lparr>qp_phase := p\<rparr>\<rparr>"

definition expired :: "nat \<Rightarrow> 'd qr_decoder \<Rightarrow> bool" where
  "expired now s = (SESSION_LIFETIME < now - qd_started s)"

definition qr_progress_of :: "nat \<Rightarrow> 'd qr_decoder \<Rightarrow> qr_progress \<times> 'd qr_decoder" where
  "qr_progress_of now s =
     (let s = (if qd_phase s = QrScanning \<and> expired now s then end_phase QrFailed s else s) in
      (qd_progress s, s))"

definition qr_cancel :: "nat \<Rightarrow> 'd qr_decoder \<Rightarrow> qr_progress \<times> 'd qr_decoder" where
  "qr_cancel now s = qr_progress_of now (end_phase QrCancelled s)"

definition qr_payload :: "'d qr_decoder \<Rightarrow> byte list result" where
  "qr_payload s =
     (if qd_phase s \<noteq> QrComplete then Inl (Unavailable ''complete QR payload'')
      else case qd_stream s of Payload bs \<Rightarrow> Inr bs | _ \<Rightarrow> Inl CorruptState)"

section \<open>A finished payload\<close>

definition is_signed :: "qr_purpose \<Rightarrow> bool" where
  "is_signed p = (case p of SignedPsbt \<Rightarrow> True | DescriptorFor _ \<Rightarrow> False)"

definition accept_payload ::
  "bitcoin \<Rightarrow> psbt_codec \<Rightarrow> miniscript \<Rightarrow> ('w, 'cs) bdk \<Rightarrow> (string \<Rightarrow> json option) \<Rightarrow> qr_purpose \<Rightarrow>
   byte list \<Rightarrow> bool \<Rightarrow> byte list result" where
  "accept_payload B C M W parse purpose bytes binary_psbt =
     (if MAX_QR_PAYLOAD_BYTES < length bytes then Inl qr_limit
      else case purpose of
        SignedPsbt \<Rightarrow>
          (if binary_psbt \<and> take 5 bytes \<noteq> psbt_magic then Inl qr_invalid
           else
             rbind (map_err (parse_response C bytes) qr_invalid) (\<lambda>p. Inr (psbt_bytes C p)))
      | DescriptorFor network \<Rightarrow>
          rbind (ok_or (utf8_text bytes) qr_invalid) (\<lambda>text.
          rbind (map_err (preview_import B M W parse text network) qr_invalid) (\<lambda>_.
          Inr bytes)))"

definition finish_payload :: "byte list \<Rightarrow> 'd qr_decoder \<Rightarrow> 'd qr_decoder" where
  "finish_payload bytes s =
     (let n = (case total_fragments (qd_progress s) of None \<Rightarrow> 1 | Some n \<Rightarrow> n) in
      s\<lparr>qd_stream := Payload bytes,
        qd_progress := \<lparr>qp_phase = QrComplete, resolved_fragments = n, total_fragments = Some n\<rparr>\<rparr>)"

definition finish ::
  "(qr_purpose \<Rightarrow> byte list \<Rightarrow> bool \<Rightarrow> byte list result) \<Rightarrow> byte list \<Rightarrow> bool \<Rightarrow> 'd qr_decoder \<Rightarrow>
   unit result \<times> 'd qr_decoder" where
  "finish accept bytes binary_psbt s =
     (case accept (qd_purpose s) bytes binary_psbt of
        Inl e \<Rightarrow> (Inl e, s)
      | Inr bytes \<Rightarrow> (Inr (), finish_payload bytes s))"

section \<open>UR frames\<close>

definition cbor_payload :: "('d, 'e) qr_codec \<Rightarrow> byte list \<Rightarrow> byte list result" where
  "cbor_payload Q bytes =
     rbind (ok_or (cbor_string Q bytes 0) qr_invalid) (\<lambda>(payload, at).
     if at \<noteq> length bytes \<or> MAX_QR_PAYLOAD_BYTES < length payload then Inl qr_invalid else Inr payload)"

definition ur_identity_of :: "('d, 'e) qr_codec \<Rightarrow> string \<Rightarrow> byte list \<Rightarrow> (ur_identity \<times> nat) result" where
  "ur_identity_of Q kind bytes =
     rbind (ok_or (cbor_array Q bytes 0) qr_invalid) (\<lambda>(n, at).
     if n \<noteq> Some 5 then Inl qr_invalid
     else
       rbind (ok_or (cbor_u32 Q bytes at) qr_invalid) (\<lambda>(sequence, at).
       rbind (ok_or (cbor_u32 Q bytes at) qr_invalid) (\<lambda>(fragments, at).
       rbind (ok_or (cbor_u32 Q bytes at) qr_invalid) (\<lambda>(len, at).
       rbind (ok_or (cbor_u32 Q bytes at) qr_invalid) (\<lambda>(checksum, at).
       rbind (ok_or (cbor_string Q bytes at) qr_invalid) (\<lambda>(fragment, at).
       if sequence = 0 \<or> at \<noteq> length bytes \<or> fragment = [] then Inl qr_invalid
       else if \<not> (1 \<le> fragments \<and> fragments \<le> MAX_FRAGMENTS) \<or> MAX_QR_PAYLOAD_BYTES + 5 < len
         then Inl qr_limit
       else if len \<le> (fragments - 1) * length fragment \<or> fragments * length fragment < len
         then Inl qr_invalid
       else Inr (\<lparr>ui_kind = kind, ui_fragments = fragments, ui_length = len, ui_checksum = checksum,
                  ui_fragment_bytes = length fragment\<rparr>, sequence)))))))"

definition ur_kind :: "string \<Rightarrow> string" where
  "ur_kind frame = takeWhile (\<lambda>c. c \<noteq> CHR ''/'') (drop 3 frame)"

definition ur_allowed :: "qr_purpose \<Rightarrow> string \<Rightarrow> bool" where
  "ur_allowed purpose kind =
     (if is_signed purpose then List.member [''crypto-psbt'', ''psbt'', ''bytes''] kind else kind = ''bytes'')"

definition open_ur ::
  "('d, 'e) qr_codec \<Rightarrow> ur_identity \<Rightarrow> 'd qr_stream \<Rightarrow> 'd ur_stream result" where
  "open_ur Q identity stream =
     (case stream of
        EmptyStream \<Rightarrow> Inr \<lparr>us_identity = identity, us_decoder = fountain_new Q, us_seen = []\<rparr>
      | UrStream u \<Rightarrow> (if us_identity u = identity then Inr u else Inl qr_invalid)
      | BbqrStream _ \<Rightarrow> Inl qr_invalid
      | Payload _ \<Rightarrow> Inl qr_invalid)"

text \<open>One fragment of a multi-part UR: the same sequence number must carry the same bytes.\<close>

definition receive_fragment ::
  "('d, 'e) qr_codec \<Rightarrow> (qr_purpose \<Rightarrow> byte list \<Rightarrow> bool \<Rightarrow> byte list result) \<Rightarrow> string \<Rightarrow> byte list \<Rightarrow> nat \<Rightarrow>
   'd ur_stream \<Rightarrow> 'd qr_decoder \<Rightarrow> unit result \<times> 'd qr_decoder" where
  "receive_fragment Q accept frame bytes sequence u s =
     (let hash = fragment_hash Q bytes in
      if (case map_of (us_seen u) sequence of None \<Rightarrow> False | Some old \<Rightarrow> old \<noteq> hash)
      then (Inl qr_invalid, s)
      else case fountain_receive Q (us_decoder u) frame of
        None \<Rightarrow> (Inl qr_invalid, s)
      | Some d \<Rightarrow>
          (let s = s\<lparr>qd_stream := UrStream (u\<lparr>us_decoder := d, us_seen := tbl_upsert sequence hash (us_seen u)\<rparr>),
                     qd_progress := (qd_progress s)
                       \<lparr>total_fragments := Some (fountain_count Q d),
                        resolved_fragments := (case fountain_resolved Q d of None \<Rightarrow> 0 | Some n \<Rightarrow> n)\<rparr>\<rparr> in
           if \<not> fountain_complete Q d then (Inr (), s)
           else case rbind (ok_or (fountain_message Q d) qr_invalid) (\<lambda>m.
                  rbind (ok_or m qr_invalid) (\<lambda>message. cbor_payload Q message)) of
             Inl e \<Rightarrow> (Inl e, s)
           | Inr payload \<Rightarrow> finish accept payload (is_signed (qd_purpose s)) s))"

definition receive_ur ::
  "('d, 'e) qr_codec \<Rightarrow> (qr_purpose \<Rightarrow> byte list \<Rightarrow> bool \<Rightarrow> byte list result) \<Rightarrow> string \<Rightarrow> 'd qr_decoder \<Rightarrow>
   unit result \<times> 'd qr_decoder" where
  "receive_ur Q accept frame s =
     (if \<not> ur_allowed (qd_purpose s) (ur_kind frame) then (Inl qr_invalid, s)
      else case ur_decode Q frame of
        None \<Rightarrow> (Inl qr_invalid, s)
      | Some (True, bytes) \<Rightarrow>
          (if qd_stream s \<noteq> EmptyStream then (Inl qr_invalid, s)
           else case cbor_payload Q bytes of
             Inl e \<Rightarrow> (Inl e, s)
           | Inr payload \<Rightarrow> finish accept payload (is_signed (qd_purpose s)) s)
      | Some (False, bytes) \<Rightarrow>
          (case rbind (ur_identity_of Q (ur_kind frame) bytes) (\<lambda>(identity, sequence).
                rbind (open_ur Q identity (qd_stream s)) (\<lambda>u. Inr (u, sequence))) of
             Inl e \<Rightarrow> (Inl e, s)
           | Inr (u, sequence) \<Rightarrow> receive_fragment Q accept frame bytes sequence u s))"

section \<open>BBQr frames\<close>

definition digit36 :: "char \<Rightarrow> nat option" where
  "digit36 c =
     (if is_digit c then Some (code c - 48)
      else if 65 \<le> code c \<and> code c \<le> 90 then Some (code c - 55)
      else if 97 \<le> code c \<and> code c \<le> 122 then Some (code c - 87)
      else None)"

text \<open>\<^verbatim>\<open>usize::from_str_radix(s, 36)\<close>, which allows a leading plus sign.\<close>

definition radix36 :: "string \<Rightarrow> nat option" where
  "radix36 s =
     (let d = (if 1 < length s \<and> hd s = CHR ''+'' then tl s else s) in
      if d = [] \<or> list_ex (\<lambda>c. digit36 c = None) d then None
      else Some (fold (\<lambda>c n. n * 36 + the (digit36 c)) d 0))"

definition bbqr_allowed :: "qr_purpose \<Rightarrow> qr_file_type \<Rightarrow> bool" where
  "bbqr_allowed purpose t =
     (if is_signed purpose then t = PsbtFile else t = UnicodeTextFile \<or> t = JsonFile)"

text \<open>A frame on its own: its header, the index of its part and the part's bytes.\<close>

definition bbqr_part ::
  "('d, 'e) qr_codec \<Rightarrow> qr_purpose \<Rightarrow> string \<Rightarrow> (bbqr_header \<times> nat \<times> byte list) result" where
  "bbqr_part Q purpose frame =
     (if \<not> is_ascii frame then Inl qr_invalid
      else
        rbind (ok_or (bbqr_parse Q frame) qr_invalid) (\<lambda>header.
        if \<not> (1 \<le> num_parts header \<and> num_parts header \<le> MAX_FRAGMENTS) then Inl qr_limit
        else if \<not> bbqr_allowed purpose (bh_file_type header) then Inl qr_invalid
        else
          rbind (ok_or (if length frame < 8 then None else radix36 (take 2 (drop 6 frame))) qr_invalid) (\<lambda>index.
          if num_parts header \<le> index then Inl qr_invalid
          else
            (let payload = drop 8 frame in
             if payload = [] then Inl qr_invalid
             else
               rbind (ok_or (case bh_encoding header of
                          HexEncoding \<Rightarrow> hex_upper_decode Q payload
                        | Base32Encoding \<Rightarrow> base32_decode Q payload
                        | ZlibEncoding \<Rightarrow> base32_decode Q payload) qr_invalid) (\<lambda>decoded.
               Inr (header, index, decoded))))))"

definition inflate :: "('d, 'e) qr_codec \<Rightarrow> byte list \<Rightarrow> byte list result" where
  "inflate Q bytes =
     rbind (ok_or (decompress Q bytes) qr_invalid) (\<lambda>(out, ended, consumed).
     if MAX_QR_PAYLOAD_BYTES < length out then Inl qr_limit
     else if \<not> ended \<or> consumed \<noteq> length bytes then Inl qr_invalid
     else Inr out)"

definition open_bbqr :: "bbqr_header \<Rightarrow> 'd qr_stream \<Rightarrow> bbqr_stream result" where
  "open_bbqr header stream =
     (case stream of
        EmptyStream \<Rightarrow> Inr \<lparr>bs_header = header, bs_parts = [], bs_bytes = 0\<rparr>
      | BbqrStream b \<Rightarrow> (if bs_header b = header then Inr b else Inl qr_invalid)
      | UrStream _ \<Rightarrow> Inl qr_invalid
      | Payload _ \<Rightarrow> Inl qr_invalid)"

text \<open>All parts in the order of their indices.\<close>

definition joined_parts :: "(nat, byte list) table \<Rightarrow> byte list" where
  "joined_parts parts = concat (map snd (sort_key fst parts))"

definition store_part ::
  "('d, 'e) qr_codec \<Rightarrow> (qr_purpose \<Rightarrow> byte list \<Rightarrow> bool \<Rightarrow> byte list result) \<Rightarrow> bbqr_header \<Rightarrow> nat \<Rightarrow> byte list \<Rightarrow>
   bbqr_stream \<Rightarrow> 'd qr_decoder \<Rightarrow> unit result \<times> 'd qr_decoder" where
  "store_part Q accept header index decoded b s =
     (case map_of (bs_parts b) index of
        Some existing \<Rightarrow>
          (if existing \<noteq> decoded then (Inl qr_invalid, s) else (Inr (), s\<lparr>qd_stream := BbqrStream b\<rparr>))
      | None \<Rightarrow>
          (if MAX_QR_PAYLOAD_BYTES < bs_bytes b + length decoded then (Inl qr_limit, s)
           else
             (let b = b\<lparr>bs_parts := tbl_upsert index decoded (bs_parts b), bs_bytes := bs_bytes b + length decoded\<rparr>;
                  s = s\<lparr>qd_stream := BbqrStream b,
                        qd_progress := (qd_progress s)
                          \<lparr>resolved_fragments := length (bs_parts b), total_fragments := Some (num_parts header)\<rparr>\<rparr> in
              if length (bs_parts b) \<noteq> num_parts header then (Inr (), s)
              else
                (let data = joined_parts (bs_parts b) in
                 case (if bh_encoding header = ZlibEncoding then inflate Q data else Inr data) of
                   Inl e \<Rightarrow> (Inl e, s)
                 | Inr data \<Rightarrow> finish accept data (is_signed (qd_purpose s)) s))))"

definition receive_bbqr ::
  "('d, 'e) qr_codec \<Rightarrow> (qr_purpose \<Rightarrow> byte list \<Rightarrow> bool \<Rightarrow> byte list result) \<Rightarrow> string \<Rightarrow> 'd qr_decoder \<Rightarrow>
   unit result \<times> 'd qr_decoder" where
  "receive_bbqr Q accept frame s =
     (case rbind (bbqr_part Q (qd_purpose s) frame) (\<lambda>(header, index, decoded).
           rbind (open_bbqr header (qd_stream s)) (\<lambda>b. Inr (header, index, decoded, b))) of
        Inl e \<Rightarrow> (Inl e, s)
      | Inr (header, index, decoded, b) \<Rightarrow> store_part Q accept header index decoded b s)"

section \<open>Receiving\<close>

definition receive_inner ::
  "('d, 'e) qr_codec \<Rightarrow> (qr_purpose \<Rightarrow> byte list \<Rightarrow> bool \<Rightarrow> byte list result) \<Rightarrow> nat \<Rightarrow> string \<Rightarrow> 'd qr_decoder \<Rightarrow>
   unit result \<times> 'd qr_decoder" where
  "receive_inner Q accept now frame s =
     (if expired now s \<or> MAX_FRAMES \<le> qd_frames s \<or> MAX_FRAME_CHARACTERS < length frame then (Inl qr_limit, s)
      else
        (let s = s\<lparr>qd_frames := qd_frames s + 1, qd_bytes := qd_bytes s + length frame\<rparr> in
         if MAX_SCANNED_BYTES < qd_bytes s then (Inl qr_limit, s)
         else if frame = [] then (Inl qr_invalid, s)
         else if starts_with ''ur:'' (ascii_lower frame) then receive_ur Q accept (ascii_lower frame) s
         else if starts_with ''B$'' frame then receive_bbqr Q accept frame s
         else if qd_stream s = EmptyStream then finish accept (bytes_of frame) False s
         else (Inl qr_invalid, s)))"

definition qr_receive ::
  "('d, 'e) qr_codec \<Rightarrow> (qr_purpose \<Rightarrow> byte list \<Rightarrow> bool \<Rightarrow> byte list result) \<Rightarrow> 'd qr_decoder \<Rightarrow>
   nat \<times> string \<Rightarrow> qr_progress result \<times> 'd qr_decoder" where
  "qr_receive Q accept s = (\<lambda>(now, frame).
     if qd_phase s \<noteq> QrScanning then (Inl (InvalidInput ''QR session is closed''), s)
     else case receive_inner Q accept now frame s of
       (Inl e, s) \<Rightarrow> (Inl e, end_phase QrFailed s)
     | (Inr _, s) \<Rightarrow> (let (p, s) = qr_progress_of now s in (Inr p, s)))"

section \<open>Encoding\<close>

fun next_parts :: "('d, 'e) qr_codec \<Rightarrow> nat \<Rightarrow> 'e \<Rightarrow> string list result" where
  "next_parts Q 0 encoder = Inr []"
| "next_parts Q (Suc n) encoder =
     rbind (ok_or (encoder_next Q encoder) qr_invalid) (\<lambda>(part, encoder).
     rbind (next_parts Q n encoder) (\<lambda>ps. Inr (part # ps)))"

definition ur_frames :: "('d, 'e) qr_codec \<Rightarrow> byte list \<Rightarrow> string \<Rightarrow> string list result" where
  "ur_frames Q payload kind =
     rbind (ok_or (cbor_encode Q payload) qr_invalid) (\<lambda>cbor.
     if length cbor \<le> 250 then rbind (ok_or (ur_single Q cbor kind) qr_invalid) (\<lambda>f. Inr [f])
     else
       rbind (ok_or (encoder_new Q cbor (max 250 (div_ceil (length cbor) MAX_FRAGMENTS)) kind) qr_invalid) (\<lambda>encoder.
       if MAX_FRAGMENTS < encoder_count Q encoder then Inl qr_limit
       else next_parts Q (encoder_count Q encoder * 2) encoder))"

definition encode_payload ::
  "('d, 'e) qr_codec \<Rightarrow> byte list \<Rightarrow> qr_format \<Rightarrow> qr_file_type \<Rightarrow> string \<Rightarrow> string list result" where
  "encode_payload Q payload format file_type kind =
     (if payload = [] \<or> MAX_QR_PAYLOAD_BYTES < length payload then Inl qr_limit
      else
        rbind (case format of
                 UrFormat \<Rightarrow> ur_frames Q payload kind
               | BbqrFormat \<Rightarrow> ok_or (bbqr_split Q payload file_type) qr_invalid) (\<lambda>frames.
        if list_ex (\<lambda>f. MAX_FRAME_CHARACTERS < length f) frames then Inl qr_limit else Inr frames))"

definition encode_psbt ::
  "psbt_codec \<Rightarrow> ('d, 'e) qr_codec \<Rightarrow> byte list \<Rightarrow> qr_format \<Rightarrow> string list result" where
  "encode_psbt C Q payload format =
     rbind (parse_response C payload) (\<lambda>p.
     if MAX_QR_PAYLOAD_BYTES < length (psbt_bytes C p) then Inl qr_limit
     else encode_payload Q (psbt_bytes C p) format PsbtFile ''crypto-psbt'')"

definition encode_descriptor ::
  "bitcoin \<Rightarrow> miniscript \<Rightarrow> ('w, 'cs) bdk \<Rightarrow> (string \<Rightarrow> json option) \<Rightarrow> ('d, 'e) qr_codec \<Rightarrow> string \<Rightarrow> network \<Rightarrow>
   qr_format \<Rightarrow> string list result" where
  "encode_descriptor B M W parse Q payload network format =
     rbind (preview_import B M W parse payload network) (\<lambda>_.
     encode_payload Q (bytes_of payload) format UnicodeTextFile ''bytes'')"

end
