(* ===== verification/Qr_Facts.thy ===== *)
theory Qr_Facts
  imports Qr
begin

text \<open>
  The QR decoder of \<^verbatim>\<open>crates/tundra-core/src/qr.rs\<close> over whole sessions: the bounds every reachable
  decoder keeps, that a payload is only what was accepted, and that a BBQr sequence is reassembled
  whatever the order and the repetitions in which the camera sees its parts.
\<close>

section \<open>A closed decoder stays closed\<close>

lemma end_phase_simps [simp]:
  "qd_phase (end_phase p s) = p" "qd_stream (end_phase p s) = EmptyStream" "qd_purpose (end_phase p s) = qd_purpose s"
  "qd_frames (end_phase p s) = qd_frames s" "qd_bytes (end_phase p s) = qd_bytes s" "qd_started (end_phase p s) = qd_started s"
  by (simp_all add: end_phase_def qd_phase_def)

lemma qr_closed_rejects:
  "qd_phase s \<noteq> QrScanning \<Longrightarrow> \<not> is_ok (fst (qr_receive Q accept s i)) \<and> qd_phase (snd (qr_receive Q accept s i)) \<noteq> QrScanning"
  by (cases i) (simp add: qr_receive_def)

lemma qr_error_closes:
  "\<not> is_ok (fst (qr_receive Q accept s i)) \<Longrightarrow> qd_phase (snd (qr_receive Q accept s i)) \<noteq> QrScanning"
  by (cases i) (auto simp: qr_receive_def Let_def split: if_splits prod.splits sum.splits)

interpretation decoder: closing_machine "qr_receive Q accept" "\<lambda>s. qd_phase s \<noteq> QrScanning"
  by unfold_locales (rule qr_closed_rejects qr_error_closes; assumption)+

section \<open>The bounds of a session\<close>

text \<open>What a stream may hold while it is being received.\<close>

fun stream_bounded :: "'d qr_stream \<Rightarrow> bool" where
  "stream_bounded EmptyStream = True"
| "stream_bounded (UrStream u) \<longleftrightarrow> 1 \<le> ui_fragments (us_identity u) \<and> ui_fragments (us_identity u) \<le> 512
     \<and> ui_length (us_identity u) \<le> 131077 \<and> distinct (map fst (us_seen u))"
| "stream_bounded (BbqrStream b) \<longleftrightarrow> num_parts (bs_header b) \<le> 512 \<and> distinct (map fst (bs_parts b))
     \<and> (\<forall>(i, d) \<in> set (bs_parts b). i < num_parts (bs_header b))
     \<and> bs_bytes b = sum_list (map (length \<circ> snd) (bs_parts b)) \<and> bs_bytes b \<le> 131072"
| "stream_bounded (Payload bs) = True"

definition received_ok :: "(qr_purpose \<Rightarrow> byte list \<Rightarrow> bool \<Rightarrow> byte list result) \<Rightarrow> 'd qr_decoder \<Rightarrow> bool" where
  "received_ok accept s \<longleftrightarrow> stream_bounded (qd_stream s) \<and>
     (case qd_stream s of
        Payload p \<Rightarrow> qd_phase s = QrComplete \<and> (\<exists>bytes b. accept (qd_purpose s) bytes b = Inr p)
      | _ \<Rightarrow> qd_phase s \<noteq> QrComplete)"

definition decoder_ok ::
  "(qr_purpose \<Rightarrow> byte list \<Rightarrow> bool \<Rightarrow> byte list result) \<Rightarrow> qr_purpose \<Rightarrow> 'd qr_decoder \<Rightarrow> bool" where
  "decoder_ok accept purpose s \<longleftrightarrow> received_ok accept s \<and> qd_purpose s = purpose \<and> qd_frames s \<le> MAX_FRAMES
     \<and> (qd_phase s = QrScanning \<longrightarrow> qd_bytes s \<le> MAX_SCANNED_BYTES)"

text \<open>What receiving a frame leaves when it succeeds.\<close>

definition next_ok ::
  "(qr_purpose \<Rightarrow> byte list \<Rightarrow> bool \<Rightarrow> byte list result) \<Rightarrow> 'd qr_decoder \<Rightarrow> 'd qr_decoder \<Rightarrow> bool" where
  "next_ok accept s t \<longleftrightarrow> received_ok accept t \<and> qd_purpose t = qd_purpose s \<and> qd_frames t = qd_frames s
     \<and> qd_bytes t = qd_bytes s"

lemma finish_ok:
  assumes "finish accept bytes b s = (Inr u, t)" and "qd_purpose s = qd_purpose s0" and "qd_frames s = qd_frames s0"
    and "qd_bytes s = qd_bytes s0"
  shows "next_ok accept s0 t"
  using assms
  by (auto simp: finish_def finish_payload_def Let_def received_ok_def qd_phase_def next_ok_def split: sum.splits) blast+

lemma stream_kept_ok:
  assumes "stream_bounded st" and "\<And>p. st \<noteq> Payload p" and "qp_phase p \<noteq> QrComplete"
  shows "next_ok accept s (s\<lparr>qd_stream := st, qd_progress := p\<rparr>)"
  using assms by (cases st) (auto simp: next_ok_def received_ok_def qd_phase_def)

text \<open>A fragment that was taken, and what happens when it was the last one missing.\<close>

definition fragment_state ::
  "('d, 'e) qr_codec \<Rightarrow> byte list \<Rightarrow> nat \<Rightarrow> 'd ur_stream \<Rightarrow> 'd \<Rightarrow> 'd qr_decoder \<Rightarrow> 'd qr_decoder" where
  "fragment_state Q bytes sequence u d s =
     s\<lparr>qd_stream := UrStream (u\<lparr>us_decoder := d, us_seen := tbl_upsert sequence (fragment_hash Q bytes) (us_seen u)\<rparr>),
       qd_progress := (qd_progress s)\<lparr>total_fragments := Some (fountain_count Q d),
         resolved_fragments := (case fountain_resolved Q d of None \<Rightarrow> 0 | Some n \<Rightarrow> n)\<rparr>\<rparr>"

definition fragment_message :: "('d, 'e) qr_codec \<Rightarrow> 'd \<Rightarrow> byte list result" where
  "fragment_message Q d = rbind (ok_or (fountain_message Q d) qr_invalid) (\<lambda>m.
     rbind (ok_or m qr_invalid) (\<lambda>message. cbor_payload Q message))"

lemma receive_fragment_taken:
  assumes "\<not> (case map_of (us_seen u) sequence of None \<Rightarrow> False | Some old \<Rightarrow> old \<noteq> fragment_hash Q bytes)"
    and "fountain_receive Q (us_decoder u) frame = Some d"
  shows "receive_fragment Q accept frame bytes sequence u s =
    (if \<not> fountain_complete Q d then (Inr (), fragment_state Q bytes sequence u d s)
     else case fragment_message Q d of
       Inl e \<Rightarrow> (Inl e, fragment_state Q bytes sequence u d s)
     | Inr payload \<Rightarrow> finish accept payload (is_signed (qd_purpose s)) (fragment_state Q bytes sequence u d s))"
  using assms by (simp add: receive_fragment_def fragment_state_def fragment_message_def Let_def cong: if_cong sum.case_cong)

lemma receive_fragment_ok:
  assumes r: "receive_fragment Q accept frame bytes sequence u s = (Inr v, t)" and u: "stream_bounded (UrStream u)"
    and p: "qd_phase s = QrScanning"
  shows "next_ok accept s t"
proof -
  have same: "\<not> (case map_of (us_seen u) sequence of None \<Rightarrow> False | Some old \<Rightarrow> old \<noteq> fragment_hash Q bytes)"
    using r unfolding receive_fragment_def Let_def by (metis Inl_Inr_False fst_conv)
  then obtain d where d: "fountain_receive Q (us_decoder u) frame = Some d"
    using r unfolding receive_fragment_def Let_def by (cases "fountain_receive Q (us_decoder u) frame") auto
  let ?s = "fragment_state Q bytes sequence u d s"
  have "distinct (map fst (tbl_upsert sequence (fragment_hash Q bytes) (us_seen u)))"
    using u unique_upsert [of "us_seen u" sequence "fragment_hash Q bytes"] by (simp add: unique_keys_def)
  then have kept: "next_ok accept s ?s"
    unfolding fragment_state_def using u p by (intro stream_kept_ok) (simp_all add: qd_phase_def)
  consider "t = ?s" | payload b where "finish accept payload b ?s = (Inr v, t)"
    using r unfolding receive_fragment_taken [OF same d]
    by (cases "fountain_complete Q d"; cases "fragment_message Q d") auto
  then show ?thesis
  proof cases
    case 2
    then show ?thesis by (rule finish_ok) (simp_all add: fragment_state_def)
  qed (simp add: kept)
qed

lemma ur_identity_of_Inr:
  "ur_identity_of Q kind bytes = Inr (identity, sequence) \<Longrightarrow>
     1 \<le> ui_fragments identity \<and> ui_fragments identity \<le> 512 \<and> ui_length identity \<le> 131077"
  by (auto simp: ur_identity_of_def result_simps MAX_FRAGMENTS_def MAX_QR_PAYLOAD_BYTES_def split: if_splits prod.splits)

lemma receive_ur_ok:
  assumes r: "receive_ur Q accept frame s = (Inr v, t)" and "received_ok accept s" and "qd_phase s = QrScanning"
  shows "next_ok accept s t"
proof -
  consider payload b where "finish accept payload b s = (Inr v, t)"
    | bytes identity sequence u where "ur_identity_of Q (ur_kind frame) bytes = Inr (identity, sequence)"
        "open_ur Q identity (qd_stream s) = Inr u" "receive_fragment Q accept frame bytes sequence u s = (Inr v, t)"
    using r by (auto simp: receive_ur_def result_simps rbind_def split: if_splits option.splits prod.splits bool.splits sum.splits)
  then show ?thesis
  proof cases
    case 1
    then show ?thesis by (rule finish_ok) simp_all
  next
    case 2
    have "stream_bounded (UrStream u)"
      using 2(2) ur_identity_of_Inr [OF 2(1)] assms(2)
      by (auto simp: open_ur_def received_ok_def split: qr_stream.splits if_splits)
    then show ?thesis using receive_fragment_ok [OF 2(3)] assms(3) by blast
  qed
qed

section \<open>The parts of a BBQr sequence\<close>

lemma bbqr_part_Inr:
  "bbqr_part Q purpose frame = Inr (header, index, decoded) \<Longrightarrow>
     index < num_parts header \<and> 1 \<le> num_parts header \<and> num_parts header \<le> 512"
  by (auto simp: bbqr_part_def result_simps MAX_FRAGMENTS_def Let_def split: if_splits)

lemma open_bbqr_ok:
  assumes "open_bbqr header st = Inr b" and "stream_bounded st" and "num_parts header \<le> 512"
  shows "stream_bounded (BbqrStream b) \<and> bs_header b = header"
  using assms by (auto simp: open_bbqr_def split: qr_stream.splits if_splits)

lemma add_part_ok:
  assumes "stream_bounded (BbqrStream b)" and "map_of (bs_parts b) i = None" and "i < num_parts (bs_header b)"
    and "bs_bytes b + length d \<le> MAX_QR_PAYLOAD_BYTES"
  shows "stream_bounded (BbqrStream (b\<lparr>bs_parts := tbl_upsert i d (bs_parts b), bs_bytes := bs_bytes b + length d\<rparr>))"
    and "tbl_upsert i d (bs_parts b) = bs_parts b @ [(i, d)]"
proof -
  have "i \<notin> keys (bs_parts b)" using assms(2) by (simp add: map_of_None_iff)
  then show new: "tbl_upsert i d (bs_parts b) = bs_parts b @ [(i, d)]" by (simp add: tbl_upsert_def has_key_iff)
  show "stream_bounded (BbqrStream (b\<lparr>bs_parts := tbl_upsert i d (bs_parts b), bs_bytes := bs_bytes b + length d\<rparr>))"
    using assms \<open>i \<notin> keys (bs_parts b)\<close> by (auto simp: new MAX_QR_PAYLOAD_BYTES_def keys_def)
qed

text \<open>The two ways a part is taken: it was there already, or it is new.\<close>

definition stored :: "bbqr_header \<Rightarrow> bbqr_stream \<Rightarrow> 'd qr_decoder \<Rightarrow> 'd qr_decoder" where
  "stored header b s = s\<lparr>qd_stream := BbqrStream b, qd_progress := (qd_progress s)
     \<lparr>resolved_fragments := length (bs_parts b), total_fragments := Some (num_parts header)\<rparr>\<rparr>"

lemma store_part_new:
  assumes "map_of (bs_parts b) i = None" and "bs_bytes b + length d \<le> MAX_QR_PAYLOAD_BYTES"
    and "b' = b\<lparr>bs_parts := tbl_upsert i d (bs_parts b), bs_bytes := bs_bytes b + length d\<rparr>"
  shows "store_part Q accept header i d b s =
    (if length (bs_parts b') \<noteq> num_parts header then (Inr (), stored header b' s)
     else case (if bh_encoding header = ZlibEncoding then inflate Q (joined_parts (bs_parts b')) else Inr (joined_parts (bs_parts b'))) of
       Inl e \<Rightarrow> (Inl e, stored header b' s)
     | Inr full \<Rightarrow> finish accept full (is_signed (qd_purpose s)) (stored header b' s))"
  using assms by (auto simp: store_part_def Let_def stored_def split: sum.splits)

lemma store_part_ok:
  assumes "store_part Q accept header i d b s = (Inr v, t)" and "stream_bounded (BbqrStream b)" and "bs_header b = header"
    and "i < num_parts header" and "qd_phase s = QrScanning"
  shows "next_ok accept s t"
proof (cases "map_of (bs_parts b) i")
  case (Some existing)
  then have "t = s\<lparr>qd_stream := BbqrStream b, qd_progress := qd_progress s\<rparr>"
    using assms(1) by (auto simp: store_part_def split: if_splits)
  moreover have "next_ok accept s (s\<lparr>qd_stream := BbqrStream b, qd_progress := qd_progress s\<rparr>)"
    using assms(2,5) by (intro stream_kept_ok) (auto simp: qd_phase_def)
  ultimately show ?thesis by simp
next
  case None
  define b' where "b' = b\<lparr>bs_parts := tbl_upsert i d (bs_parts b), bs_bytes := bs_bytes b + length d\<rparr>"
  have room: "bs_bytes b + length d \<le> MAX_QR_PAYLOAD_BYTES"
    using assms(1) None by (auto simp: store_part_def split: if_splits)
  have "stream_bounded (BbqrStream b')" unfolding b'_def using add_part_ok(1) [OF assms(2) None _ room] assms(3,4) by simp
  then have kept: "next_ok accept s (stored header b' s)"
    unfolding stored_def using assms(5) by (intro stream_kept_ok) (auto simp: qd_phase_def)
  consider "t = stored header b' s" | full bin where "finish accept full bin (stored header b' s) = (Inr v, t)"
    using assms(1) unfolding store_part_new [OF None room b'_def]
    by (cases "length (bs_parts b') \<noteq> num_parts header";
        cases "if bh_encoding header = ZlibEncoding then inflate Q (joined_parts (bs_parts b')) else Inr (joined_parts (bs_parts b'))")
      auto
  then show ?thesis
  proof cases
    case 2
    then show ?thesis by (rule finish_ok) (simp_all add: stored_def)
  qed (simp add: kept)
qed

lemma receive_bbqr_ok:
  assumes "receive_bbqr Q accept frame s = (Inr v, t)" and "received_ok accept s" and "qd_phase s = QrScanning"
  shows "next_ok accept s t"
proof -
  obtain header i d b where p: "bbqr_part Q (qd_purpose s) frame = Inr (header, i, d)"
    and o: "open_bbqr header (qd_stream s) = Inr b" and st: "store_part Q accept header i d b s = (Inr v, t)"
    using assms(1) by (auto simp: receive_bbqr_def rbind_def split: sum.splits)
  have "stream_bounded (BbqrStream b) \<and> bs_header b = header"
    using open_bbqr_ok [OF o] assms(2) bbqr_part_Inr [OF p] by (auto simp: received_ok_def)
  then show ?thesis using store_part_ok [OF st] bbqr_part_Inr [OF p] assms(3) by blast
qed


section \<open>Every reachable decoder\<close>

lemma receive_inner_ok:
  assumes r: "receive_inner Q accept now frame s = (Inr v, t)" and ok: "decoder_ok accept purpose s"
    and p: "qd_phase s = QrScanning"
  shows "decoder_ok accept purpose t"
proof -
  define s1 where "s1 = s\<lparr>qd_frames := qd_frames s + 1, qd_bytes := qd_bytes s + length frame\<rparr>"
  have limits: "qd_frames s < MAX_FRAMES" "qd_bytes s1 \<le> MAX_SCANNED_BYTES"
    using r by (auto simp: receive_inner_def Let_def s1_def split: if_splits)
  have s1: "received_ok accept s1" "qd_phase s1 = QrScanning" "qd_purpose s1 = purpose"
    using ok p by (simp_all add: s1_def decoder_ok_def received_ok_def qd_phase_def cong: qr_stream.case_cong)
  consider f where "receive_ur Q accept f s1 = (Inr v, t)" | "receive_bbqr Q accept frame s1 = (Inr v, t)"
    | bytes where "finish accept bytes False s1 = (Inr v, t)"
    using r by (auto simp: receive_inner_def Let_def s1_def split: if_splits)
  then have "next_ok accept s1 t"
  proof cases
    case 1
    then show ?thesis using s1 by (rule_tac receive_ur_ok)
  next
    case 2
    then show ?thesis using s1 by (rule_tac receive_bbqr_ok)
  next
    case 3
    then show ?thesis by (rule finish_ok) simp_all
  qed
  then show ?thesis using limits s1(3) by (auto simp: next_ok_def decoder_ok_def s1_def)
qed

text \<open>The calls of a session: a scanned frame, a question about the progress, a cancellation.\<close>

datatype qr_input = Scan nat string | Ask nat | Cancel nat

fun qr_call :: "('d, 'e) qr_codec \<Rightarrow> (qr_purpose \<Rightarrow> byte list \<Rightarrow> bool \<Rightarrow> byte list result) \<Rightarrow> qr_input \<Rightarrow> 'd qr_decoder \<Rightarrow> 'd qr_decoder" where
  "qr_call Q accept (Scan now frame) s = snd (qr_receive Q accept s (now, frame))"
| "qr_call Q accept (Ask now) s = snd (qr_progress_of now s)"
| "qr_call Q accept (Cancel now) s = snd (qr_cancel now s)"

lemma ended_ok: "decoder_ok accept purpose s \<Longrightarrow> p \<noteq> QrComplete \<Longrightarrow> p \<noteq> QrScanning \<Longrightarrow> decoder_ok accept purpose (end_phase p s)"
  by (simp add: decoder_ok_def received_ok_def)

lemma progress_ok: "decoder_ok accept purpose s \<Longrightarrow> decoder_ok accept purpose (snd (qr_progress_of now s))"
  by (simp add: qr_progress_of_def Let_def ended_ok)

text \<open>A failed frame may leave a decoder out of bounds; it is then emptied.\<close>

lemma receive_inner_frame:
  assumes "receive_inner Q accept now frame s = (r, t)"
  shows "qd_purpose t = qd_purpose s \<and> (qd_frames s \<le> MAX_FRAMES \<longrightarrow> qd_frames t \<le> MAX_FRAMES)"
proof -
  have finish: "qd_purpose u = qd_purpose v \<and> qd_frames u = qd_frames v" if "finish accept bytes b v = (q, u)" for bytes b u v q
    using that by (auto simp: finish_def finish_payload_def Let_def split: sum.splits)
  have fragment: "qd_purpose u = qd_purpose v \<and> qd_frames u = qd_frames v"
    if body: "receive_fragment Q accept f bytes n x v = (q, u)" for f bytes n x u v q
  proof -
    let ?c = "case map_of (us_seen x) n of None \<Rightarrow> False | Some old \<Rightarrow> old \<noteq> fragment_hash Q bytes"
    consider "?c" | "\<not> ?c" "fountain_receive Q (us_decoder x) f = None" | d where "\<not> ?c" "fountain_receive Q (us_decoder x) f = Some d"
      by (cases "fountain_receive Q (us_decoder x) f") auto
    then show ?thesis
    proof cases
      case 3
      let ?s = "fragment_state Q bytes n x d v"
      consider "u = ?s" | payload b where "finish accept payload b ?s = (q, u)"
        using body unfolding receive_fragment_taken [OF 3]
        by (cases "fountain_complete Q d"; cases "fragment_message Q d") auto
      then show ?thesis using finish by cases (fastforce simp: fragment_state_def)+
    qed (use that in \<open>auto simp: receive_fragment_def\<close>)
  qed
  have ur: "qd_purpose u = qd_purpose v \<and> qd_frames u = qd_frames v" if "receive_ur Q accept f v = (q, u)" for f u v q
    using that finish fragment
    by (fastforce simp: receive_ur_def split: if_splits option.splits prod.splits bool.splits sum.splits)
  have store: "qd_purpose u = qd_purpose v \<and> qd_frames u = qd_frames v"
    if body: "store_part Q accept h i d b v = (q, u)" for h i d b u v q
  proof (cases "map_of (bs_parts b) i")
    case (Some e)
    then show ?thesis using that by (auto simp: store_part_def split: if_splits)
  next
    case None
    show ?thesis
    proof (cases "bs_bytes b + length d \<le> MAX_QR_PAYLOAD_BYTES")
      case False
      then show ?thesis using that None by (simp add: store_part_def)
    next
      case True
      let ?b = "b\<lparr>bs_parts := tbl_upsert i d (bs_parts b), bs_bytes := bs_bytes b + length d\<rparr>"
      consider "u = stored h ?b v" | full bin where "finish accept full bin (stored h ?b v) = (q, u)"
        using body unfolding store_part_new [OF None True refl]
        by (cases "length (bs_parts ?b) \<noteq> num_parts h";
            cases "if bh_encoding h = ZlibEncoding then inflate Q (joined_parts (bs_parts ?b)) else Inr (joined_parts (bs_parts ?b))")
          auto
      then show ?thesis using finish by cases (fastforce simp: stored_def)+
    qed
  qed
  have bbqr: "qd_purpose u = qd_purpose v \<and> qd_frames u = qd_frames v" if "receive_bbqr Q accept f v = (q, u)" for f u v q
    using that store by (fastforce simp: receive_bbqr_def split: sum.splits prod.splits)
  define s1 where "s1 = s\<lparr>qd_frames := qd_frames s + 1, qd_bytes := qd_bytes s + length frame\<rparr>"
  consider "t = s" | "qd_frames s < MAX_FRAMES" "t = s1" | f where "qd_frames s < MAX_FRAMES" "receive_ur Q accept f s1 = (r, t)"
    | "qd_frames s < MAX_FRAMES" "receive_bbqr Q accept frame s1 = (r, t)"
    | bytes where "qd_frames s < MAX_FRAMES" "finish accept bytes False s1 = (r, t)"
    using assms unfolding receive_inner_def Let_def s1_def [symmetric] by (auto split: if_splits)
  then have "t = s \<or> qd_frames s < MAX_FRAMES \<and> qd_purpose t = qd_purpose s1 \<and> qd_frames t = qd_frames s1"
    using ur bbqr finish by cases blast+
  then show ?thesis by (auto simp: s1_def)
qed


lemma qr_receive_ok:
  assumes "decoder_ok accept purpose s"
  shows "decoder_ok accept purpose (snd (qr_receive Q accept s (now, frame)))"
proof (cases "qd_phase s = QrScanning")
  case False
  then show ?thesis using assms by (simp add: qr_receive_def)
next
  case True
  obtain r t where r: "receive_inner Q accept now frame s = (r, t)" by (cases "receive_inner Q accept now frame s")
  show ?thesis
  proof (cases r)
    case (Inl e)
    have "decoder_ok accept purpose (end_phase QrFailed t)"
      using receive_inner_frame [OF r] assms by (auto simp: decoder_ok_def received_ok_def)
    then show ?thesis using True r Inl by (simp add: qr_receive_def)
  next
    case (Inr u)
    note progress_ok [OF receive_inner_ok [OF r [unfolded Inr] assms True], of now]
    then show ?thesis using True r Inr by (simp add: qr_receive_def Let_def split_def)
  qed
qed

lemma decoder_run_ok:
  "decoder_ok accept purpose s \<Longrightarrow> decoder_ok accept purpose (fold (qr_call Q accept) cs s)"
proof (induction cs arbitrary: s)
  case (Cons c cs)
  have "decoder_ok accept purpose (qr_call Q accept c s)"
    using Cons.prems by (cases c) (simp_all add: qr_receive_ok progress_ok qr_cancel_def ended_ok)
  then show ?case using Cons.IH by simp
qed simp

lemma decoder_new_ok: "decoder_ok accept purpose (qr_new purpose t0)"
  by (simp add: decoder_ok_def received_ok_def qr_new_def qd_phase_def MAX_FRAMES_def MAX_SCANNED_BYTES_def)

text \<open>
  C28. A QR session is bounded however it is driven. After any calls (frames, questions, cancellation)
  the decoder has counted at most 4096 frames and, while it scans, 8 MiB of text; a BBQr stream
  holds at most 512 parts of at most 131072 bytes together, each index once and within the
  announced number, and its byte count is exact; a UR stream is of 1 to 512 fragments of a bounded
  message. The decoder is complete exactly when it has a payload to give, and that payload is one
  that was accepted for the purpose the session was opened for.
\<close>

theorem qr_session_bounded:
  assumes "s = fold (qr_call Q accept) calls (qr_new purpose t0)"
  shows "qd_frames s \<le> 4096 \<and> (qd_phase s = QrScanning \<longrightarrow> qd_bytes s \<le> 8388608)
    \<and> (\<forall>b. qd_stream s = BbqrStream b \<longrightarrow> distinct (map fst (bs_parts b)) \<and> length (bs_parts b) \<le> 512
         \<and> (\<forall>(i, d) \<in> set (bs_parts b). i < num_parts (bs_header b))
         \<and> bs_bytes b = length (joined_parts (bs_parts b)) \<and> bs_bytes b \<le> 131072)
    \<and> (\<forall>u. qd_stream s = UrStream u \<longrightarrow> 1 \<le> ui_fragments (us_identity u) \<and> ui_fragments (us_identity u) \<le> 512
         \<and> ui_length (us_identity u) \<le> 131077)
    \<and> (qd_phase s = QrComplete \<longleftrightarrow> (\<exists>p. qr_payload s = Inr p))
    \<and> (\<forall>p. qr_payload s = Inr p \<longrightarrow> (\<exists>bytes b. accept purpose bytes b = Inr p))"
proof -
  have ok: "decoder_ok accept purpose s" unfolding assms by (rule decoder_run_ok [OF decoder_new_ok])
  have parts: "length (bs_parts b) \<le> 512 \<and> bs_bytes b = length (joined_parts (bs_parts b))"
    if b: "stream_bounded (BbqrStream b)" for b
  proof
    have "set (map fst (bs_parts b)) \<subseteq> {..<num_parts (bs_header b)}" using b by auto
    then have "card (set (map fst (bs_parts b))) \<le> num_parts (bs_header b)" using card_mono [of "{..<num_parts (bs_header b)}"] by fastforce
    then show "length (bs_parts b) \<le> 512" using b by (simp add: distinct_card [of "map fst (bs_parts b)", simplified])
    have "mset (map (length \<circ> snd) (sort_key fst (bs_parts b))) = mset (map (length \<circ> snd) (bs_parts b))" by simp
    then have "sum_list (map (length \<circ> snd) (sort_key fst (bs_parts b))) = sum_list (map (length \<circ> snd) (bs_parts b))"
      by (metis sum_mset_sum_list)
    then show "bs_bytes b = length (joined_parts (bs_parts b))" using b by (simp add: joined_parts_def length_concat comp_def)
  qed
  have "qd_phase s = QrComplete \<longleftrightarrow> (\<exists>p. qd_stream s = Payload p)"
    using ok by (cases "qd_stream s") (auto simp: decoder_ok_def received_ok_def)
  then show ?thesis
    using ok parts by (auto simp: decoder_ok_def received_ok_def MAX_FRAMES_def MAX_SCANNED_BYTES_def qr_payload_def
        split: qr_stream.splits)
qed


section \<open>Reassembling a BBQr sequence\<close>

text \<open>The parts of a payload, and a decoder that has seen some of them.\<close>

definition collected :: "bbqr_header \<Rightarrow> (nat \<Rightarrow> byte list) \<Rightarrow> nat set \<Rightarrow> bbqr_stream \<Rightarrow> bool" where
  "collected h D S b \<longleftrightarrow> bs_header b = h \<and> distinct (map fst (bs_parts b)) \<and> fst ` set (bs_parts b) = S
     \<and> (\<forall>(i, d) \<in> set (bs_parts b). d = D i) \<and> bs_bytes b = (\<Sum>i\<in>S. length (D i))"

definition gathering :: "bbqr_header \<Rightarrow> (nat \<Rightarrow> byte list) \<Rightarrow> nat set \<Rightarrow> 'd qr_stream \<Rightarrow> bool" where
  "gathering h D S st \<longleftrightarrow> st = EmptyStream \<and> S = {} \<or> (\<exists>b. st = BbqrStream b \<and> collected h D S b)"

lemma gathering_open:
  assumes "gathering h D S st"
  shows "\<exists>b. open_bbqr h st = Inr b \<and> collected h D S b"
  using assms by (auto simp: gathering_def open_bbqr_def collected_def)

lemma collected_lookup:
  assumes "collected h D S b"
  shows "map_of (bs_parts b) i = (if i \<in> S then Some (D i) else None)"
proof (cases "i \<in> S")
  case True
  then obtain d where "(i, d) \<in> set (bs_parts b)" using assms by (auto simp: collected_def)
  then show ?thesis using assms True by (auto simp: collected_def)
next
  case False
  then show ?thesis using assms by (auto simp: collected_def map_of_eq_None_iff)
qed

lemma collected_finite: "collected h D S b \<Longrightarrow> finite S"
  by (auto simp: collected_def)

lemma collected_length: "collected h D S b \<Longrightarrow> length (bs_parts b) = card S"
  using distinct_card [of "map fst (bs_parts b)"] by (auto simp: collected_def)

lemma collected_add:
  assumes "collected h D S b" and "i \<notin> S"
    and "b' = b\<lparr>bs_parts := tbl_upsert i (D i) (bs_parts b), bs_bytes := bs_bytes b + length (D i)\<rparr>"
  shows "collected h D (insert i S) b'"
proof -
  have "tbl_upsert i (D i) (bs_parts b) = bs_parts b @ [(i, D i)]"
    using assms(1,2) by (auto simp: tbl_upsert_def has_key_iff keys_def collected_def)
  then show ?thesis using assms collected_finite [OF assms(1)] by (auto simp: collected_def)
qed

text \<open>Once all indices are there the parts are joined in their order.\<close>

lemma collected_joined:
  assumes "collected h D {..<n} b"
  shows "joined_parts (bs_parts b) = concat (map D [0..<n])"
proof -
  let ?ps = "sort_key fst (bs_parts b)"
  have d: "distinct (map fst (bs_parts b))" "fst ` set (bs_parts b) = {..<n}" and v: "\<forall>(i, d) \<in> set (bs_parts b). d = D i"
    using assms by (simp_all add: collected_def)
  have "map fst ?ps = [0..<n]"
  proof (rule sorted_distinct_set_unique)
    show "distinct (map fst ?ps)" using d(1) by (simp add: distinct_map)
    show "set (map fst ?ps) = set [0..<n]" using d(2) by auto
  qed simp_all
  moreover have "map snd ?ps = map D (map fst ?ps)" using v by auto
  ultimately show ?thesis by (simp add: joined_parts_def)
qed

lemma bbqr_not_ur: "starts_with ''B$'' f \<Longrightarrow> \<not> starts_with ''ur:'' (ascii_lower f)"
  by (auto simp: starts_with_iff ascii_lower_def)


text \<open>A sequence of frames: the frame of every index carries its part, under the common header.\<close>

definition sequence_of ::
  "('d, 'e) qr_codec \<Rightarrow> qr_purpose \<Rightarrow> bbqr_header \<Rightarrow> (nat \<Rightarrow> byte list) \<Rightarrow> (nat \<Rightarrow> string) \<Rightarrow> bool" where
  "sequence_of Q purpose h D F \<longleftrightarrow> (\<forall>i < num_parts h. bbqr_part Q purpose (F i) = Inr (h, i, D i)
       \<and> starts_with ''B$'' (F i) \<and> length (F i) \<le> 4296)
     \<and> (\<Sum>i<num_parts h. length (D i)) \<le> 131072"

definition full_payload :: "('d, 'e) qr_codec \<Rightarrow> bbqr_header \<Rightarrow> (nat \<Rightarrow> byte list) \<Rightarrow> byte list result" where
  "full_payload Q h D = (let all = concat (map D [0..<num_parts h]) in
     if bh_encoding h = ZlibEncoding then inflate Q all else Inr all)"

text \<open>A decoder that scans, with room for \<open>k\<close> more frames of \<open>m\<close> characters, and has seen \<open>S\<close>.\<close>

definition seen_parts ::
  "qr_purpose \<Rightarrow> nat \<Rightarrow> nat \<Rightarrow> nat \<Rightarrow> bbqr_header \<Rightarrow> (nat \<Rightarrow> byte list) \<Rightarrow> nat set \<Rightarrow> 'd qr_decoder \<Rightarrow> bool" where
  "seen_parts purpose t0 k m h D S s \<longleftrightarrow> qd_phase s = QrScanning \<and> qd_purpose s = purpose \<and> qd_started s = t0
     \<and> qd_frames s + k \<le> 4096 \<and> qd_bytes s + m \<le> 8388608 \<and> gathering h D S (qd_stream s)"

lemma part_arrives:
  assumes q: "sequence_of Q purpose h D F" and i: "i < num_parts h" and s: "seen_parts purpose t0 (Suc k) (length (F i) + m) h D S s"
    and now: "now \<le> t0 + SESSION_LIFETIME"
  obtains b where "collected h D S b"
    and "receive_inner Q accept now (F i) s = store_part Q accept h i (D i) b
      (s\<lparr>qd_frames := qd_frames s + 1, qd_bytes := qd_bytes s + length (F i)\<rparr>)"
proof -
  let ?s = "s\<lparr>qd_frames := qd_frames s + 1, qd_bytes := qd_bytes s + length (F i)\<rparr>"
  have f: "bbqr_part Q purpose (F i) = Inr (h, i, D i)" "starts_with ''B$'' (F i)" "length (F i) \<le> 4296"
    using q i by (auto simp: sequence_of_def)
  then have "F i \<noteq> []" "\<not> starts_with ''ur:'' (ascii_lower (F i))" using bbqr_not_ur by (auto simp: starts_with_iff)
  moreover have "\<not> expired now s" using s now by (auto simp: expired_def seen_parts_def)
  ultimately have inner: "receive_inner Q accept now (F i) s = receive_bbqr Q accept (F i) ?s"
    using s f(2,3) by (simp add: receive_inner_def MAX_FRAMES_def MAX_FRAME_CHARACTERS_def
        MAX_SCANNED_BYTES_def seen_parts_def)
  have "gathering h D S (qd_stream ?s)" using s by (simp add: seen_parts_def)
  then obtain b where b: "open_bbqr h (qd_stream ?s) = Inr b" "collected h D S b" using gathering_open by blast
  have "qd_purpose ?s = purpose" using s by (simp add: seen_parts_def)
  then have "receive_bbqr Q accept (F i) ?s = store_part Q accept h i (D i) b ?s"
    using f(1) b(1) by (simp add: receive_bbqr_def)
  then show thesis using that [OF b(2)] inner by simp
qed

lemma part_room:
  assumes "sequence_of Q purpose h D F" and "i < num_parts h" and "collected h D S b" and "S \<subseteq> {..<num_parts h}" and "i \<notin> S"
  shows "bs_bytes b + length (D i) \<le> MAX_QR_PAYLOAD_BYTES"
proof -
  have "(\<Sum>j\<in>insert i S. length (D j)) \<le> (\<Sum>j<num_parts h. length (D j))"
    using assms(2,4) by (intro sum_mono2) auto
  then show ?thesis
    using assms(1,3,5) collected_finite [OF assms(3)] by (simp add: collected_def sequence_of_def MAX_QR_PAYLOAD_BYTES_def)
qed

lemma scan_part:
  assumes q: "sequence_of Q purpose h D F" and i: "i < num_parts h" and s: "seen_parts purpose t0 (Suc k) (length (F i) + m) h D S s"
    and now: "now \<le> t0 + SESSION_LIFETIME" and S: "S \<subseteq> {..<num_parts h}" and more: "insert i S \<noteq> {..<num_parts h}"
  shows "\<exists>p t. qr_receive Q accept s (now, F i) = (Inr p, t) \<and> seen_parts purpose t0 k m h D (insert i S) t"
proof -
  let ?s = "s\<lparr>qd_frames := qd_frames s + 1, qd_bytes := qd_bytes s + length (F i)\<rparr>"
  obtain b where b: "collected h D S b" and inner: "receive_inner Q accept now (F i) s = store_part Q accept h i (D i) b ?s"
    by (rule part_arrives [OF q i s now])
  have phase: "qd_phase s = QrScanning" and start: "qd_started s = t0" using s by (simp_all add: seen_parts_def)
  have "\<exists>st p. store_part Q accept h i (D i) b ?s = (Inr (), ?s\<lparr>qd_stream := BbqrStream st, qd_progress := p\<rparr>)
      \<and> qp_phase p = QrScanning \<and> collected h D (insert i S) st"
  proof (cases "i \<in> S")
    case True
    then have "store_part Q accept h i (D i) b ?s = (Inr (), ?s\<lparr>qd_stream := BbqrStream b, qd_progress := qd_progress s\<rparr>)"
      by (simp add: store_part_def collected_lookup [OF b])
    moreover have "collected h D (insert i S) b" using True b by (simp add: insert_absorb)
    ultimately show ?thesis using phase unfolding qd_phase_def by blast
  next
    case False
    let ?b = "b\<lparr>bs_parts := tbl_upsert i (D i) (bs_parts b), bs_bytes := bs_bytes b + length (D i)\<rparr>"
    have none: "map_of (bs_parts b) i = None" using False by (simp add: collected_lookup [OF b])
    have c: "collected h D (insert i S) ?b" by (rule collected_add [OF b False refl])
    have "card (insert i S) \<noteq> num_parts h"
      using more S i card_subset_eq [of "{..<num_parts h}" "insert i S"] by auto
    then have "length (bs_parts ?b) \<noteq> num_parts h" using collected_length [OF c] by simp
    then have "store_part Q accept h i (D i) b ?s = (Inr (), stored h ?b ?s)"
      unfolding store_part_new [OF none part_room [OF q i b S False] refl] by simp
    then have "store_part Q accept h i (D i) b ?s = (Inr (), ?s\<lparr>qd_stream := BbqrStream ?b,
        qd_progress := (qd_progress s)\<lparr>resolved_fragments := length (bs_parts ?b), total_fragments := Some (num_parts h)\<rparr>\<rparr>)"
      by (simp add: stored_def)
    moreover have "qp_phase ((qd_progress s)\<lparr>resolved_fragments := length (bs_parts ?b), total_fragments := Some (num_parts h)\<rparr>) = QrScanning"
      using phase by (simp add: qd_phase_def)
    ultimately show ?thesis using c by blast
  qed
  then obtain st p where r: "store_part Q accept h i (D i) b ?s = (Inr (), ?s\<lparr>qd_stream := BbqrStream st, qd_progress := p\<rparr>)"
    "qp_phase p = QrScanning" "collected h D (insert i S) st" by blast
  let ?t = "?s\<lparr>qd_stream := BbqrStream st, qd_progress := p\<rparr>"
  have "\<not> expired now ?t" using start now by (auto simp: expired_def)
  then have "qr_progress_of now ?t = (p, ?t)" by (simp add: qr_progress_of_def)
  then have "qr_receive Q accept s (now, F i) = (Inr p, ?t)" using inner r(1) phase by (simp add: qr_receive_def)
  moreover have "seen_parts purpose t0 k m h D (insert i S) ?t"
    using s r(2,3) by (simp add: seen_parts_def gathering_def qd_phase_def)
  ultimately show ?thesis by blast
qed

lemma scan_last_part:
  assumes q: "sequence_of Q purpose h D F" and i: "i < num_parts h" and s: "seen_parts purpose t0 (Suc k) (length (F i) + m) h D S s"
    and now: "now \<le> t0 + SESSION_LIFETIME" and new: "i \<notin> S" and all: "insert i S = {..<num_parts h}"
    and full: "full_payload Q h D = Inr full" and taken: "accept purpose full (is_signed purpose) = Inr payload"
  shows "\<exists>p t. qr_receive Q accept s (now, F i) = (Inr p, t) \<and> qr_payload t = Inr payload"
proof -
  let ?s = "s\<lparr>qd_frames := qd_frames s + 1, qd_bytes := qd_bytes s + length (F i)\<rparr>"
  obtain b where b: "collected h D S b" and inner: "receive_inner Q accept now (F i) s = store_part Q accept h i (D i) b ?s"
    by (rule part_arrives [OF q i s now])
  let ?b = "b\<lparr>bs_parts := tbl_upsert i (D i) (bs_parts b), bs_bytes := bs_bytes b + length (D i)\<rparr>"
  have none: "map_of (bs_parts b) i = None" using new by (simp add: collected_lookup [OF b])
  have "collected h D (insert i S) ?b" by (rule collected_add [OF b new refl])
  then have c: "collected h D {..<num_parts h} ?b" unfolding all .
  have l: "length (bs_parts ?b) = num_parts h" using collected_length [OF c] by simp
  have e: "(if bh_encoding h = ZlibEncoding then inflate Q (joined_parts (bs_parts ?b)) else Inr (joined_parts (bs_parts ?b))) = Inr full"
    using full unfolding collected_joined [OF c] full_payload_def Let_def .
  have "S \<subseteq> {..<num_parts h}" using all by blast
  note room = part_room [OF q i b this new]
  have "store_part Q accept h i (D i) b ?s = finish accept full (is_signed (qd_purpose ?s)) (stored h ?b ?s)"
    unfolding store_part_new [OF none room refl] e by (simp only: l refl simp_thms if_False sum.case)
  moreover have "qd_purpose s = purpose" "qd_phase s = QrScanning" using s by (simp_all add: seen_parts_def)
  ultimately have "receive_inner Q accept now (F i) s = (Inr (), finish_payload payload (stored h ?b ?s))"
    using inner taken by (simp add: finish_def stored_def)
  then show ?thesis using \<open>qd_phase s = QrScanning\<close>
    by (simp add: qr_receive_def qr_progress_of_def finish_payload_def Let_def qr_payload_def qd_phase_def)
qed


lemma sequence_scanned:
  assumes "sequence_of Q purpose h D F" and "full_payload Q h D = Inr full" and "accept purpose full (is_signed purpose) = Inr payload"
    and "seen_parts purpose t0 (length scans) (sum_list (map (\<lambda>(now, i). length (F i)) scans)) h D S s" and "S \<subseteq> {..<num_parts h}"
    and "\<forall>(now, i) \<in> set scans. i < num_parts h \<and> now \<le> t0 + SESSION_LIFETIME"
    and "scans \<noteq> []" and "S \<union> snd ` set scans = {..<num_parts h}" and "snd (last scans) \<notin> S \<union> snd ` set (butlast scans)"
  shows "\<exists>rs t. run_machine (qr_receive Q accept) s (map (\<lambda>(now, i). (now, F i)) scans) = (rs, t) \<and> list_all is_ok rs
    \<and> qr_payload t = Inr payload"
  using assms(4-)
proof (induction scans arbitrary: s S)
  case (Cons scan scans)
  obtain now i where scan: "scan = (now, i)" by (cases scan)
  have i: "i < num_parts h" "now \<le> t0 + SESSION_LIFETIME" using Cons.prems(3) scan by auto
  have s: "seen_parts purpose t0 (Suc (length scans)) (length (F i) + sum_list (map (\<lambda>(now, i). length (F i)) scans)) h D S s"
    using Cons.prems(1) scan by simp
  show ?case
  proof (cases "scans = []")
    case True
    then have "i \<notin> S" "insert i S = {..<num_parts h}" using Cons.prems(5,6) scan by auto
    from scan_last_part [where accept = accept, OF assms(1) i(1) s i(2) this assms(2,3)]
    show ?thesis using True scan by auto
  next
    case False
    have l: "snd (last scans) \<notin> insert i S \<union> snd ` set (butlast scans)" using Cons.prems(6) False scan by auto
    have "last scans \<in> set (scan # scans)" using last_in_set [OF False] by simp
    then have "snd (last scans) < num_parts h" using Cons.prems(3) by (auto simp: split_def)
    then have "insert i S \<noteq> {..<num_parts h}" using l by blast
    from scan_part [OF assms(1) i(1) s i(2) Cons.prems(2) this, of accept]
    obtain p t where t: "qr_receive Q accept s (now, F i) = (Inr p, t)"
      "seen_parts purpose t0 (length scans) (sum_list (map (\<lambda>(now, i). length (F i)) scans)) h D (insert i S) t" by blast
    have "\<exists>rs u. run_machine (qr_receive Q accept) t (map (\<lambda>(now, i). (now, F i)) scans) = (rs, u) \<and> list_all is_ok rs
        \<and> qr_payload u = Inr payload"
      by (rule Cons.IH [OF t(2) _ _ False _ l]) (use Cons.prems(2,3,5) i(1) scan in auto)
    then show ?thesis using t(1) scan by auto
  qed
qed simp

text \<open>
  C14. A BBQr sequence is reassembled whatever way the camera sees it. Let the frame of every index
  carry its part under one common header, 131072 bytes together. If frames of the sequence are
  scanned in any order and with any repetitions, within three minutes, 4096 frames and 8 MiB, so
  that the last one is the first to complete the set, then every scan is answered without an error
  and the decoder ends with the payload accepted for the parts joined in their order (and inflated,
  when the header says so).
\<close>

theorem bbqr_any_order:
  assumes "sequence_of Q purpose h D F"
    and "full_payload Q h D = Inr full" and "accept purpose full (is_signed purpose) = Inr payload"
    and "\<forall>(now, i) \<in> set scans. i < num_parts h \<and> now \<le> t0 + SESSION_LIFETIME"
    and "scans \<noteq> []" and "snd ` set scans = {..<num_parts h}" and "snd (last scans) \<notin> snd ` set (butlast scans)"
    and "length scans \<le> 4096" and "sum_list (map (\<lambda>(now, i). length (F i)) scans) \<le> 8388608"
  shows "\<exists>rs t. run_machine (qr_receive Q accept) (qr_new purpose t0) (map (\<lambda>(now, i). (now, F i)) scans) = (rs, t)
    \<and> list_all is_ok rs \<and> qr_payload t = Inr payload"
proof (rule sequence_scanned [where accept = accept and S = "{}", OF assms(1,2,3)])
  show "seen_parts purpose t0 (length scans) (sum_list (map (\<lambda>(now, i). length (F i)) scans)) h D {} (qr_new purpose t0)"
    using assms(8,9) by (simp add: seen_parts_def qr_new_def qd_phase_def gathering_def)
qed (use assms(4-7) in auto)

section \<open>A sample sequence\<close>

text \<open>Two parts in base 32, read as their text.\<close>

definition sample_header :: bbqr_header where
  "sample_header = \<lparr>bh_encoding = Base32Encoding, bh_file_type = PsbtFile, num_parts = 2\<rparr>"

definition sample_qr :: "(unit, unit) qr_codec" where
  "sample_qr = \<lparr>ur_decode = (\<lambda>_. None), cbor_array = (\<lambda>_ _. None), cbor_u32 = (\<lambda>_ _. None), cbor_string = (\<lambda>_ _. None),
     cbor_encode = (\<lambda>_. None), fountain_new = (), fountain_receive = (\<lambda>_ _. None), fountain_count = (\<lambda>_. 0),
     fountain_resolved = (\<lambda>_. None), fountain_complete = (\<lambda>_. False), fountain_message = (\<lambda>_. None),
     fragment_hash = (\<lambda>bs. bs), bbqr_parse = (\<lambda>_. Some sample_header), hex_upper_decode = (\<lambda>_. None),
     base32_decode = (\<lambda>s. Some (bytes_of s)), decompress = (\<lambda>_. None), ur_single = (\<lambda>_ _. None),
     encoder_new = (\<lambda>_ _ _. None), encoder_count = (\<lambda>_. 0), encoder_next = (\<lambda>_. None), bbqr_split = (\<lambda>_ _. None),
     qr_symbol = (\<lambda>_. None)\<rparr>"

definition sample_frame :: "nat \<Rightarrow> string" where
  "sample_frame i = (if i = 0 then ''B$2P0200AB'' else ''B$2P0201CD'')"

definition sample_part :: "nat \<Rightarrow> byte list" where
  "sample_part i = (if i = 0 then bytes_of ''AB'' else bytes_of ''CD'')"

lemma sample_sequence: "sequence_of sample_qr SignedPsbt sample_header sample_part sample_frame"
proof -
  have i: "i = 0 \<or> i = 1" if "i < 2" for i :: nat using that by auto
  have "is_ascii (sample_frame 0)" "is_ascii (sample_frame 1)" by (simp_all add: is_ascii_def sample_frame_def)
  moreover have "radix36 ''00'' = Some 0" "radix36 ''01'' = Some 1"
    by (simp_all add: radix36_def digit36_def is_digit_def)
  ultimately have "bbqr_part sample_qr SignedPsbt (sample_frame i) = Inr (sample_header, i, sample_part i)" if "i < 2" for i
    using i [OF that] by (auto simp: bbqr_part_def sample_qr_def sample_header_def MAX_FRAGMENTS_def bbqr_allowed_def is_signed_def
        sample_frame_def sample_part_def Let_def)
  then show ?thesis
    by (auto simp: sequence_of_def sample_header_def sample_frame_def sample_part_def starts_with_iff bytes_of_def
        lessThan_nat_numeral)
qed


theorem bbqr_any_order_witness:
  "\<exists>rs t. run_machine (qr_receive sample_qr (\<lambda>_ bs _. Inr bs)) (qr_new SignedPsbt 0)
       [(1, ''B$2P0201CD''), (2, ''B$2P0201CD''), (3, ''B$2P0200AB'')] = (rs, t)
     \<and> list_all is_ok rs \<and> qr_payload t = Inr (bytes_of ''ABCD'')"
proof -
  have "full_payload sample_qr sample_header sample_part = Inr (bytes_of ''ABCD'')"
    by (simp add: full_payload_def sample_header_def sample_part_def numeral_2_eq_2 bytes_of_def)
  moreover have "num_parts sample_header = 2" "{0, Suc 0} = {..<2}" "insert (Suc 0) {..<2} = {..<2}" by (auto simp: sample_header_def)
  ultimately show ?thesis
    using bbqr_any_order [OF sample_sequence, where accept = "\<lambda>_ bs _. Inr bs" and scans = "[(1, 1), (2, 1), (3, 0)]" and ?t0.0 = 0]
    by (simp add: sample_frame_def SESSION_LIFETIME_def insert_commute)
qed

theorem qr_session_bounded_witness:
  "qd_frames (fold (qr_call sample_qr (\<lambda>_ bs _. Inr bs)) [Scan 5 ''B$2P0201CD'', Ask 6] (qr_new SignedPsbt 0)) \<le> 4096"
  using qr_session_bounded [OF refl, of sample_qr "\<lambda>_ bs _. Inr bs" "[Scan 5 ''B$2P0201CD'', Ask 6]" SignedPsbt 0] by blast

end
