(* ===== verification/Usb_Facts.thy ===== *)
theory Usb_Facts
  imports Usb
begin

text \<open>
  The restricted Ledger session of \<^verbatim>\<open>crates/tundra-core/src/usb\<close>: which commands it can issue at
  all, what an outcome proves, how long it may run, and what completing it stores.
\<close>

section \<open>A closed session stays closed\<close>

lemma close_simps [simp]:
  "se_state (close st s) = st" "se_context (close st s) = se_context s" "se_phase (close st s) = se_phase s"
  "se_account (close st s) = se_account s" "se_outcome (close st s) = None" "se_intent (close st s) = None"
  "uu_step (se_update (close st s)) = uu_step (se_update s)"
  "uu_fingerprint (se_update (close st s)) = uu_fingerprint (se_update s)"
  by (simp_all add: close_def se_state_def)

lemma session_closed_rejects:
  "se_state s \<noteq> Waiting \<Longrightarrow> \<not> is_ok (fst (session_receive L s i)) \<and> se_state (snd (session_receive L s i)) \<noteq> Waiting"
  by (cases i) (simp add: session_receive_def session_receive_inner_def usb_progress_def)

lemma session_error_closes:
  "\<not> is_ok (fst (session_receive L s i)) \<Longrightarrow> se_state (snd (session_receive L s i)) \<noteq> Waiting"
  by (cases i) (auto simp: session_receive_def split: prod.splits sum.splits)

interpretation session: closing_machine "session_receive L" "\<lambda>s. se_state s \<noteq> Waiting"
  by unfold_locales (rule session_closed_rejects session_error_closes; assumption)+

section \<open>What a session keeps\<close>

text \<open>The outcome an intent may have.\<close>

fun fits :: "intent \<Rightarrow> outcome \<Rightarrow> bool" where
  "fits Inspect out = (out = Inspected)"
| "fits Register out = (\<exists>hmac. out = Registered hmac)"
| "fits (Address i a) out = (out = AddressMatches)"
| "fits (Sign p) out = (\<exists>q. out = Signed q)"

text \<open>The connected device has named a fingerprint of the wallet, and the account is the one of it.\<close>

definition recognised :: "hw_context \<Rightarrow> 'i usb_session \<Rightarrow> bool" where
  "recognised c s \<longleftrightarrow> (\<exists>a \<in> set (hc_accounts c). se_account s = Some a
     \<and> uu_fingerprint (se_update s) = Some (ac_fingerprint a))"

definition session_ok :: "hw_context \<Rightarrow> intent \<Rightarrow> 'i usb_session \<Rightarrow> bool" where
  "session_ok c it s \<longleftrightarrow>
     (se_state s = Waiting \<or> se_state s = UsbComplete \<longrightarrow> se_context s = c \<and> uu_step (se_update s) \<le> MAX_EXCHANGES
        \<and> (se_phase s = AccountPhase \<or> se_phase s = ActionPhase \<longrightarrow> recognised c s))
     \<and> (if se_state s = Waiting then se_intent s = Some it \<and> se_outcome s = None else se_intent s = None)
     \<and> (\<forall>out. se_outcome s = Some out \<longrightarrow> se_state s = UsbComplete \<and> se_phase s = ActionPhase \<and> fits it out)"

lemma session_ok_close: "st = UsbFailed \<or> st = UsbCancelled \<Longrightarrow> session_ok c it (close st s)"
  by (auto simp: session_ok_def)

lemma session_ok_cong:
  assumes "session_ok c it s" and "se_context t = se_context s" and "uu_step (se_update t) = uu_step (se_update s)"
    and "se_phase t = se_phase s" and "se_account t = se_account s"
    and "uu_fingerprint (se_update t) = uu_fingerprint (se_update s)" and "uu_state (se_update t) = uu_state (se_update s)"
    and "se_intent t = se_intent s" and "se_outcome t = se_outcome s"
  shows "session_ok c it t"
  using assms by (simp add: session_ok_def recognised_def se_state_def)

lemma transmit_Inr:
  assumes "transmit_to t s = (Inr u, s')"
  shows "se_context s' = se_context s \<and> se_phase s' = se_phase s \<and> se_account s' = se_account s \<and> se_intent s' = se_intent s
    \<and> se_outcome s' = se_outcome s \<and> uu_fingerprint (se_update s') = uu_fingerprint (se_update s)
    \<and> uu_state (se_update s') = uu_state (se_update s) \<and> uu_step (se_update s') \<le> MAX_EXCHANGES"
  using assms by (auto simp: transmit_to_def MAX_EXCHANGES_def split: if_splits sum.splits)

lemma send_Inr:
  assumes "send_command L k s = (Inr u, s')"
  shows "se_context s' = se_context s \<and> se_phase s' = se_phase s \<and> se_account s' = se_account s \<and> se_intent s' = se_intent s
    \<and> se_outcome s' = se_outcome s \<and> uu_fingerprint (se_update s') = uu_fingerprint (se_update s)
    \<and> uu_state (se_update s') = uu_state (se_update s) \<and> uu_step (se_update s') \<le> MAX_EXCHANGES"
  using assms by (auto simp: send_command_def dest: transmit_Inr split: sum.splits prod.splits)

lemma session_ok_sent:
  assumes "send_command L k s = (Inr u, s')" and "session_ok c it s"
  shows "session_ok c it s'"
  using send_Inr [OF assms(1)] assms(2) by (simp add: session_ok_def recognised_def se_state_def)

lemma session_ok_finish:
  assumes "session_ok c it s" and "se_state s = Waiting" and "se_phase s = ActionPhase" and "fits it out"
  shows "session_ok c it (finish_session out s)"
  using assms by (auto simp: session_ok_def recognised_def finish_session_def se_state_def)

lemma act_ok:
  assumes "act L s = (Inr u, t)" and "session_ok c it s" and "se_state s = Waiting" and "se_phase s = ActionPhase" and "se_intent s = Some it"
  shows "session_ok c it t"
proof (cases it)
  case Inspect
  then have "t = finish_session Inspected s" using assms(1,5) by (simp add: act_def)
  then show ?thesis using session_ok_finish [OF assms(2,3,4)] Inspect by simp
next
  case Register
  then have "\<exists>k. send_command L k s = (Inr u, t)" using assms(1,5) by (auto simp: act_def Let_def)
  then show ?thesis using session_ok_sent assms(2) by blast
next
  case (Address i a)
  then have "\<exists>k. send_command L k s = (Inr u, t)" using assms(1,5) by (auto simp: act_def Let_def split: sum.splits)
  then show ?thesis using session_ok_sent assms(2) by blast
next
  case (Sign p)
  then have "\<exists>k. send_command L k s = (Inr u, t)" using assms(1,5) by (auto simp: act_def Let_def split: sum.splits)
  then show ?thesis using session_ok_sent assms(2) by blast
qed

lemma find_member: "find P xs = Some x \<Longrightarrow> x \<in> set xs \<and> P x"
  by (induction xs) (auto split: if_splits)

lemma answer_ok:
  assumes r: "answer L r s = (Inr u, t)" and ok: "session_ok c it s" and w: "se_state s = Waiting"
  shows "session_ok c it t"
proof -
  have intent: "se_intent s = Some it" using ok w by (simp add: session_ok_def)
  show ?thesis
  proof (cases "se_phase s")
    case InfoPhase
    then obtain k v where "send_command L k (s\<lparr>se_update := (se_update s)\<lparr>app_version := v\<rparr>, se_phase := FingerprintPhase\<rparr>) = (Inr u, t)"
      using r by (auto simp: answer_def answer_info_def split: response.splits if_splits option.splits)
    moreover have "session_ok c it (s\<lparr>se_update := (se_update s)\<lparr>app_version := v\<rparr>, se_phase := FingerprintPhase\<rparr>)"
      using ok w by (auto simp: session_ok_def se_state_def)
    ultimately show ?thesis by (rule session_ok_sent)
  next
    case FingerprintPhase
    then obtain f a k where a: "find (\<lambda>a. ac_fingerprint a = f) (hc_accounts (se_context s)) = Some a"
      and send: "send_command L k (s\<lparr>se_update := (se_update s)\<lparr>uu_fingerprint := Some f\<rparr>, se_phase := AccountPhase, se_account := Some a\<rparr>) = (Inr u, t)"
      using r by (auto simp: answer_def answer_fingerprint_def split: response.splits option.splits)
    have "session_ok c it (s\<lparr>se_update := (se_update s)\<lparr>uu_fingerprint := Some f\<rparr>, se_phase := AccountPhase, se_account := Some a\<rparr>)"
      using ok w find_member [OF a] by (auto simp: session_ok_def se_state_def recognised_def)
    with send show ?thesis by (rule session_ok_sent)
  next
    case AccountPhase
    then have "act L (s\<lparr>se_phase := ActionPhase\<rparr>) = (Inr u, t)"
      using r by (auto simp: answer_def answer_xpub_def split: response.splits if_splits)
    moreover have "session_ok c it (s\<lparr>se_phase := ActionPhase\<rparr>)"
      using ok w AccountPhase by (auto simp: session_ok_def se_state_def recognised_def)
    ultimately show ?thesis by (rule act_ok) (use intent w in \<open>simp_all add: se_state_def\<close>)
  next
    case ActionPhase
    then obtain out where "t = finish_session out s" "fits it out"
      using r intent by (auto simp: answer_def answer_action_def split: response.splits if_splits option.splits intent.splits)
    then show ?thesis using session_ok_finish [OF ok w ActionPhase] by simp
  qed
qed


lemma interpret_ok:
  assumes r: "interpret_response L response s = (Inr u, t)" and ok: "session_ok c it s" and w: "se_state s = Waiting"
  shows "session_ok c it t"
proof -
  have set: "session_ok c it (s\<lparr>se_interpreter := i\<rparr>)" for i
    by (rule session_ok_cong [OF ok]) simp_all
  consider tr i where "transmit_to tr (s\<lparr>se_interpreter := Some i\<rparr>) = (Inr u, t)"
    | x where "answer L x (s\<lparr>se_interpreter := None\<rparr>) = (Inr u, t)"
    using r by (auto simp: interpret_response_def split: sum.splits option.splits prod.splits)
  then show ?thesis
  proof cases
    case 1
    then show ?thesis using transmit_Inr [OF 1] set by (auto simp: session_ok_def recognised_def se_state_def)
  next
    case 2
    then show ?thesis by (rule answer_ok) (use set w in \<open>simp_all add: se_state_def\<close>)
  qed
qed

lemma usb_progress_ok: "session_ok c it s \<Longrightarrow> session_ok c it (snd (usb_progress now s))"
  by (simp add: usb_progress_def Let_def session_ok_close)

lemma receive_inner_session:
  assumes r: "session_receive_inner L now step report s = (Inr u, t)" and ok: "session_ok c it s"
  shows "session_ok c it t"
proof -
  define s1 where "s1 = snd (usb_progress now s)"
  define s2 where "s2 = s1\<lparr>se_bytes := se_bytes s1 + length report, se_update := (se_update s1)\<lparr>packets := []\<rparr>\<rparr>"
  have ok1: "session_ok c it s1" unfolding s1_def by (rule usb_progress_ok [OF ok])
  have w: "se_state s1 = Waiting" using r by (auto simp: session_receive_inner_def Let_def s1_def split: if_splits)
  have set: "session_ok c it (s2\<lparr>se_reader := x\<rparr>)" for x
    unfolding s2_def by (rule session_ok_cong [OF ok1]) simp_all
  have w2: "se_state (s2\<lparr>se_reader := x\<rparr>) = Waiting" for x using w by (simp add: s2_def se_state_def)
  consider x where "t = s2\<lparr>se_reader := x\<rparr>" | x response where "interpret_response L response (s2\<lparr>se_reader := x\<rparr>) = (Inr u, t)"
    using r unfolding session_receive_inner_def Let_def s1_def [symmetric] s2_def
    by (auto split: if_splits prod.splits sum.splits option.splits)
  then show ?thesis
  proof cases
    case 2
    then show ?thesis using set w2 by (rule interpret_ok)
  qed (simp add: set)
qed

lemma session_receive_ok:
  assumes "session_ok c it s"
  shows "session_ok c it (snd (session_receive L s x))"
proof -
  obtain now step report where x: "x = (now, step, report)" by (cases x)
  obtain r t where r: "session_receive_inner L now step report s = (r, t)"
    by (cases "session_receive_inner L now step report s")
  show ?thesis
    using receive_inner_session [of L now step report s _ t c it] r assms
    by (cases r) (auto simp: session_receive_def x session_ok_close)
qed

lemma session_start_ok:
  assumes "session_start L now c it = Inr s"
  shows "session_ok c it s"
proof -
  obtain s0 u where "send_command L GetVersion s0 = (Inr u, s)" and s0: "session_ok c it s0"
  proof (rule that)
    let ?s0 = "\<lparr>se_context = c, se_intent = Some it, se_interpreter = None, se_reader = reader_default,
            se_phase = InfoPhase, se_account = None, se_started = now, se_bytes = 0,
            se_update = \<lparr>uu_state = Waiting, uu_step = 0, packets = [], app_version = None, uu_fingerprint = None\<rparr>,
            se_outcome = None\<rparr>"
    show "send_command L GetVersion ?s0 = (Inr (), s)"
      using assms by (auto simp: session_start_def split: if_splits prod.splits sum.splits)
    show "session_ok c it ?s0" by (simp add: session_ok_def se_state_def)
  qed
  then show ?thesis by (rule session_ok_sent)
qed

text \<open>The calls of a session.\<close>

datatype usb_input = Report nat nat "byte list" | Progress nat | Withdraw

fun usb_call :: "'i ledger \<Rightarrow> usb_input \<Rightarrow> 'i usb_session \<Rightarrow> 'i usb_session" where
  "usb_call L (Report now step report) s = snd (session_receive L s (now, step, report))"
| "usb_call L (Progress now) s = snd (usb_progress now s)"
| "usb_call L Withdraw s = snd (usb_cancel s)"

lemma usb_call_ok: "session_ok c it s \<Longrightarrow> session_ok c it (usb_call L x s)"
  by (cases x) (simp_all add: session_receive_ok usb_progress_ok usb_cancel_def Let_def session_ok_close)

lemma usb_calls_ok: "session_ok c it s \<Longrightarrow> session_ok c it (fold (usb_call L) xs s)"
  by (induction xs arbitrary: s) (simp_all add: usb_call_ok)

text \<open>
  C27. The outcome of a Ledger session is earned. However the device answers and the calls come, a
  session that holds an outcome is complete, the outcome is of the kind its single intent asked for,
  the device has named the fingerprint of one of the wallet's own accounts and has passed the phase
  in which its account key was compared; and the session has exchanged at most 4096 commands.
\<close>

theorem usb_outcome_earned:
  assumes "session_start L t0 c it = Inr s0" and "s = fold (usb_call L) calls s0" and "take_outcome s = (Inr out, s')"
  shows "fits it out \<and> se_phase s = ActionPhase \<and> uu_step (se_update s) \<le> 4096 \<and> se_context s = c
    \<and> (\<exists>a \<in> set (hc_accounts c). se_account s = Some a \<and> uu_fingerprint (se_update s) = Some (ac_fingerprint a))
    \<and> \<not> is_ok (fst (take_outcome s'))"
proof -
  have ok: "session_ok c it s" unfolding assms(2) by (rule usb_calls_ok [OF session_start_ok [OF assms(1)]])
  have out: "se_state s = UsbComplete" "se_outcome s = Some out" "s' = s\<lparr>se_outcome := None\<rparr>"
    using assms(3) by (auto simp: take_outcome_def ok_or_Inr_iff split: if_splits)
  then show ?thesis
    using ok by (auto simp: session_ok_def recognised_def MAX_EXCHANGES_def take_outcome_def se_state_def)
qed

section \<open>The commands a session can issue\<close>

text \<open>
  Everything a session may ask of the device: its application, its master fingerprint, the account
  keys of the wallet (without showing them), and the one thing it was started for.
\<close>

fun intent_commands :: "hw_context \<Rightarrow> intent \<Rightarrow> command set" where
  "intent_commands c Inspect = {}"
| "intent_commands c Register = {RegisterWallet (lp_name (hc_policy c)) (hc_policy c)}"
| "intent_commands c (Address i a) =
     {DisplayAddress i False True (lp_name (hc_policy c)) (hc_policy c) hmac |hmac. hmac \<in> snd ` set (hc_registrations c)}"
| "intent_commands c (Sign p) = {SignTx p (hc_policy c) hmac |hmac. hmac \<in> snd ` set (hc_registrations c)}"

definition allowed_commands :: "hw_context \<Rightarrow> intent \<Rightarrow> command set" where
  "allowed_commands c it = {GetVersion, GetMasterFingerprint} \<union> {GetXpub (ac_path a) False |a. a \<in> set (hc_accounts c)}
     \<union> intent_commands c it"

text \<open>Two devices that differ only in how they take the other commands.\<close>

definition same_allowed :: "hw_context \<Rightarrow> intent \<Rightarrow> 'i ledger \<Rightarrow> 'i ledger \<Rightarrow> bool" where
  "same_allowed c it L M \<longleftrightarrow> M = L\<lparr>start_command := start_command M\<rparr>
     \<and> (\<forall>k \<in> allowed_commands c it. start_command M k = start_command L k)"


lemma same_device:
  assumes "same_allowed c it L M"
  shows "exchange_step M = exchange_step L" "end_command M = end_command L" "policy_id M = policy_id L"
proof -
  have M: "M = L\<lparr>start_command := start_command M\<rparr>" using assms by (simp add: same_allowed_def)
  show "exchange_step M = exchange_step L" "end_command M = end_command L" "policy_id M = policy_id L"
    by (subst M, simp)+
qed

lemma same_send:
  assumes "same_allowed c it L M" and "k \<in> allowed_commands c it"
  shows "send_command M k s = send_command L k s"
  using assms by (simp add: same_allowed_def send_command_def)

lemma same_act:
  assumes "same_allowed c it L M" and "se_context s = c" and "se_intent s = Some it"
  shows "act M s = act L s"
proof (cases it)
  case Inspect
  then show ?thesis using assms(3) by (simp add: act_def)
next
  case Register
  then have "RegisterWallet (lp_name (hc_policy c)) (hc_policy c) \<in> allowed_commands c it" by (simp add: allowed_commands_def)
  from same_send [OF assms(1) this] show ?thesis using assms(2,3) Register by (simp add: act_def)
next
  case (Address i a)
  have "DisplayAddress i False True (lp_name (hc_policy c)) (hc_policy c) hmac \<in> allowed_commands c it"
    if "registration s = Inr hmac" for hmac
    using that assms(2) Address by (auto simp: allowed_commands_def registration_def result_simps dest!: map_of_SomeD intro: rev_image_eqI)
  from same_send [OF assms(1) this] show ?thesis using assms(2,3) Address by (simp add: act_def Let_def split: sum.split)
next
  case (Sign p)
  have "SignTx p (hc_policy c) hmac \<in> allowed_commands c it" if "registration s = Inr hmac" for hmac
    using that assms(2) Sign by (auto simp: allowed_commands_def registration_def result_simps dest!: map_of_SomeD intro: rev_image_eqI)
  from same_send [OF assms(1) this] show ?thesis using assms(2,3) Sign by (simp add: act_def Let_def split: sum.split)
qed

lemma same_answer:
  assumes "same_allowed c it L M" and "session_ok c it s" and "se_state s = Waiting"
  shows "answer M r s = answer L r s"
proof -
  have c: "se_context s = c" "se_intent s = Some it" using assms(2,3) by (simp_all add: session_ok_def)
  have "answer_info M f v s = answer_info L f v s" for f v
    by (simp add: answer_info_def same_send [OF assms(1)] allowed_commands_def)
  moreover have "answer_fingerprint M f s = answer_fingerprint L f s" for f
  proof (cases "find (\<lambda>a. ac_fingerprint a = f) (hc_accounts c)")
    case (Some a)
    then have "GetXpub (ac_path a) False \<in> allowed_commands c it" using find_member [OF Some] by (auto simp: allowed_commands_def)
    then show ?thesis by (simp add: answer_fingerprint_def c(1) Some same_send [OF assms(1)])
  qed (simp add: answer_fingerprint_def c(1))
  moreover have "answer_xpub M x s = answer_xpub L x s" for x
    using same_act [OF assms(1)] c by (simp add: answer_xpub_def)
  ultimately show ?thesis by (simp add: answer_def split: usb_phase.split response.split)
qed

lemma same_receive:
  assumes "same_allowed c it L M" and "session_ok c it s"
  shows "session_receive M s x = session_receive L s x"
proof -
  obtain now step report where x: "x = (now, step, report)" by (cases x)
  define s1 where "s1 = snd (usb_progress now s)"
  define s2 where "s2 = s1\<lparr>se_bytes := se_bytes s1 + length report, se_update := (se_update s1)\<lparr>packets := []\<rparr>\<rparr>"
  have ok: "session_ok c it (s2\<lparr>se_reader := y, se_interpreter := i\<rparr>)" for y i
    unfolding s2_def s1_def by (rule session_ok_cong [OF usb_progress_ok [OF assms(2)]]) simp_all
  have "interpret_response M response (s2\<lparr>se_reader := y\<rparr>) = interpret_response L response (s2\<lparr>se_reader := y\<rparr>)"
    if "se_state s1 = Waiting" for response y
  proof -
    have "answer M r (s2\<lparr>se_reader := y, se_interpreter := i\<rparr>) = answer L r (s2\<lparr>se_reader := y, se_interpreter := i\<rparr>)" for r i
      using that by (intro same_answer [OF assms(1) ok]) (simp add: s2_def se_state_def)
    moreover have "device_preflight M = device_preflight L"
      unfolding fun_eq_iff device_preflight_def same_device(3) [OF assms(1)] by simp
    ultimately show ?thesis
      by (simp add: interpret_response_def same_device [OF assms(1)] split: sum.split option.split)
  qed
  then have "session_receive_inner M now step report s = session_receive_inner L now step report s"
    unfolding session_receive_inner_def Let_def s1_def [symmetric] by (simp add: s2_def split: prod.split sum.split option.split)
  then show ?thesis by (simp add: session_receive_def x)
qed

text \<open>
  C13. A Ledger session can ask the device only for its version, its fingerprint, account keys of the
  wallet without display, and the one command of its intent with the wallet's own policy and one of
  its stored registrations. A device that answers every other command in any way at all is
  indistinguishable: starting the session and any calls on it give the same result.
\<close>

theorem usb_issues_only:
  assumes "same_allowed c it L M"
  shows "map_sum id (fold (usb_call M) calls) (session_start M t0 c it)
    = map_sum id (fold (usb_call L) calls) (session_start L t0 c it)"
proof -
  have "GetVersion \<in> allowed_commands c it" by (simp add: allowed_commands_def)
  then have start: "session_start M t0 c it = session_start L t0 c it"
    by (simp add: session_start_def same_send [OF assms])
  have calls: "fold (usb_call M) xs s = fold (usb_call L) xs s" if "session_ok c it s" for s xs
    using that
  proof (induction xs arbitrary: s)
    case (Cons x xs)
    have "usb_call M x s = usb_call L x s" by (cases x) (simp_all add: same_receive [OF assms Cons.prems])
    then show ?case using Cons.IH [OF usb_call_ok [OF Cons.prems]] by simp
  qed simp
  show ?thesis
  proof (cases "session_start L t0 c it")
    case (Inr s)
    then show ?thesis using calls [OF session_start_ok [OF Inr]] by (simp add: start)
  qed (simp add: start)
qed


section \<open>A sample session\<close>

text \<open>A device that knows one wallet with one account, and answers each command in one report.\<close>

definition sample_ledger :: "command ledger" where
  "sample_ledger = \<lparr>start_command = (\<lambda>k. Inr (\<lparr>to_device = True, encrypted = False, tr_payload = [225, 0, 0, 0, 0]\<rparr>, k)),
     exchange_step = (\<lambda>k _. Inr (None, k)),
     end_command = (\<lambda>k. Inr (case k of GetVersion \<Rightarrow> Info (Some ''Bitcoin Test'') ''1''
       | GetMasterFingerprint \<Rightarrow> MasterFingerprint ''f'' | GetXpub _ _ \<Rightarrow> XpubResponse ''x'' | _ \<Rightarrow> OtherResponse)),
     policy_id = (\<lambda>_. Some []), parse_key = Some, new_policy = (\<lambda>_ _. None)\<rparr>"

definition sample_context :: hw_context where
  "sample_context = \<lparr>hc_policy = \<lparr>lp_name = ''n'', lp_version2 = True, lp_template = [], lp_keys = []\<rparr>,
     hc_accounts = [\<lparr>ac_fingerprint = ''f'', ac_path = [], ac_xpub = ''x''\<rparr>], hc_registrations = []\<rparr>"

definition one_report :: "byte list \<Rightarrow> byte list" where
  "one_report r = make_report 0 (be16 (length r) @ r)"

lemma one_report_read:
  assumes "2 \<le> length r" and "length r \<le> 57"
  shows "reader_receive reader_default (one_report r) = (Inr (Some r), \<lparr>next_seq = 1, expected = Some (length r), data = [], closed = True\<rparr>)"
proof -
  have "from_be16 (one_report r ! 5) (one_report r ! 6) = length r"
    using assms from_be16_be16 [of "length r"] by (simp add: one_report_def make_report_def CHANNEL_def be16_def)
  moreover have "from_be16 (one_report r ! 3) (one_report r ! 4) = 0" "one_report r ! 2 = TAG" "take 2 (one_report r) = CHANNEL"
    "length (one_report r) = 64" "drop 7 (one_report r) = r @ replicate (57 - length r) 0"
    using assms by (simp_all add: one_report_def make_report_def CHANNEL_def be16_def from_be16_def REPORT_BYTES_def)
  ultimately show ?thesis
    using assms by (simp add: reader_receive_def reader_receive_inner_def reader_default_def REPORT_BYTES_def
        MAX_RESPONSE_BYTES_def checked_sub_def Let_def)
qed

lemma sample_transmit:
  assumes "uu_step (se_update s) < 4096"
  shows "\<exists>ps. send_command sample_ledger k s = (Inr (), s\<lparr>se_update := (se_update s)\<lparr>packets := ps,
     uu_step := uu_step (se_update s) + 1\<rparr>, se_reader := reader_default, se_interpreter := Some k\<rparr>)"
  using assms by (intro exI [of _ "map (\<lambda>(x, y). make_report x y) (enumerate 0 (chunks (REPORT_BYTES - 5) (be16 (length [225, 0, 0, 0, 0 :: byte]) @ [225, 0, 0, 0, 0])))"])
    (simp add: send_command_def sample_ledger_def transmit_to_def MAX_EXCHANGES_def command_reports_def)

text \<open>A session as far as the sample drives it.\<close>

definition at_step :: "nat \<Rightarrow> usb_phase \<Rightarrow> command \<Rightarrow> command usb_session \<Rightarrow> bool" where
  "at_step n ph k s \<longleftrightarrow> se_context s = sample_context \<and> se_intent s = Some Inspect \<and> se_phase s = ph
     \<and> se_state s = Waiting \<and> se_started s = 0 \<and> se_bytes s \<le> 64 * n \<and> uu_step (se_update s) = n
     \<and> se_reader s = reader_default \<and> se_interpreter s = Some k"

lemma sample_answer:
  assumes "at_step n ph k s" and "n \<le> 3" and "2 \<le> length r" and "length r \<le> 57"
    and "\<And>t. se_phase t = ph \<Longrightarrow> device_preflight sample_ledger t r = Inr ()" and "end_command sample_ledger k = Inr x"
  shows "\<exists>t. session_receive sample_ledger s (0, n, one_report r)
      = (case answer sample_ledger x t of (Inl e, u) \<Rightarrow> (Inl e, close UsbFailed u) | (Inr _, u) \<Rightarrow> (Inr (se_update u), u))
    \<and> se_context t = sample_context \<and> se_intent t = Some Inspect \<and> se_phase t = ph \<and> se_state t = Waiting
    \<and> se_started t = 0 \<and> se_bytes t \<le> 64 * (n + 1) \<and> uu_step (se_update t) = n \<and> se_account t = se_account s"
proof -
  let ?t = "s\<lparr>se_bytes := se_bytes s + 64, se_update := (se_update s)\<lparr>packets := []\<rparr>,
    se_reader := \<lparr>next_seq = 1, expected = Some (length r), data = [], closed = True\<rparr>, se_interpreter := None\<rparr>"
  have "length (one_report r) = 64"
    using assms(3,4) by (simp add: one_report_def make_report_def CHANNEL_def be16_def REPORT_BYTES_def)
  then have "session_receive_inner sample_ledger 0 n (one_report r) s = answer sample_ledger x ?t"
    using assms one_report_read [OF assms(3,4)]
    by (simp add: session_receive_inner_def usb_progress_def at_step_def MAX_RECEIVED_BYTES_def se_state_def
        interpret_response_def) (simp add: sample_ledger_def)
  then show ?thesis using assms(1) by (intro exI [of _ ?t]) (simp add: session_receive_def at_step_def se_state_def)
qed


definition sample_replies :: "usb_input list" where
  "sample_replies = [Report 0 1 (one_report ([1, 12] @ bytes_of ''Bitcoin Test'' @ [1, 49, 0, 144, 0])),
     Report 0 2 (one_report [1, 2, 3, 4, 144, 0]), Report 0 3 (one_report [144, 0])]"

lemma sample_info: "check_info ([1, 12] @ bytes_of ''Bitcoin Test'' @ [1, 49, 0]) = Inr ()"
  by (simp add: check_info_def info_field_def expected_app_def version_byte_def bytes_of_def)

text \<open>One exchange: the device answers, and the session sends its next command.\<close>

lemma sample_next:
  assumes "at_step n ph k s" and "n \<le> 3" and "2 \<le> length r" and "length r \<le> 57"
    and "\<And>t. se_phase t = ph \<Longrightarrow> device_preflight sample_ledger t r = Inr ()" and "end_command sample_ledger k = Inr x"
    and "\<And>t. se_context t = sample_context \<Longrightarrow> se_phase t = ph \<Longrightarrow> \<exists>v. answer sample_ledger x t = send_command sample_ledger k' v
      \<and> se_phase v = ph' \<and> Q (se_account v)
      \<and> se_context v = sample_context \<and> se_intent v = se_intent t \<and> se_state v = se_state t \<and> se_started v = se_started t
      \<and> se_bytes v = se_bytes t \<and> uu_step (se_update v) = uu_step (se_update t)"
  shows "at_step (n + 1) ph' k' (usb_call sample_ledger (Report 0 n (one_report r)) s)
    \<and> Q (se_account (usb_call sample_ledger (Report 0 n (one_report r)) s))"
proof -
  obtain t where t: "session_receive sample_ledger s (0, n, one_report r)
      = (case answer sample_ledger x t of (Inl e, u) \<Rightarrow> (Inl e, close UsbFailed u) | (Inr _, u) \<Rightarrow> (Inr (se_update u), u))"
    "se_context t = sample_context" "se_intent t = Some Inspect" "se_phase t = ph" "se_state t = Waiting"
    "se_started t = 0" "se_bytes t \<le> 64 * (n + 1)" "uu_step (se_update t) = n"
    using sample_answer [OF assms(1-6)] by blast
  obtain v where v: "answer sample_ledger x t = send_command sample_ledger k' v" "se_phase v = ph'" "Q (se_account v)"
    "se_context v = sample_context" "se_intent v = Some Inspect" "se_state v = Waiting" "se_started v = 0"
    "se_bytes v \<le> 64 * (n + 1)" "uu_step (se_update v) = n"
    using assms(7) [OF t(2,4)] t by auto
  obtain ps where "send_command sample_ledger k' v = (Inr (), v\<lparr>se_update := (se_update v)\<lparr>packets := ps, uu_step := n + 1\<rparr>,
      se_reader := reader_default, se_interpreter := Some k'\<rparr>)"
    using sample_transmit [of v k'] v(9) assms(2) by auto
  then show ?thesis using t(1) v by (simp add: at_step_def se_state_def)
qed

lemma sample_context_simps:
  "hc_accounts sample_context = [\<lparr>ac_fingerprint = ''f'', ac_path = [], ac_xpub = ''x''\<rparr>]" "lp_version2 (hc_policy sample_context)"
  by (simp_all add: sample_context_def)

lemma sample_usb_start:
  obtains s0 where "session_start sample_ledger 0 sample_context Inspect = Inr s0" and "at_step 1 InfoPhase GetVersion s0"
proof -
  let ?s = "\<lparr>se_context = sample_context, se_intent = Some Inspect, se_interpreter = None, se_reader = reader_default,
          se_phase = InfoPhase, se_account = None, se_started = 0, se_bytes = 0,
          se_update = \<lparr>uu_state = Waiting, uu_step = 0, packets = [], app_version = None, uu_fingerprint = None\<rparr>,
          se_outcome = None\<rparr> :: command usb_session"
  obtain ps where ps: "send_command sample_ledger GetVersion ?s = (Inr (), ?s\<lparr>se_update := (se_update ?s)\<lparr>packets := ps, uu_step := 1\<rparr>,
      se_reader := reader_default, se_interpreter := Some GetVersion\<rparr>)" (is "_ = (_, ?t)")
    using sample_transmit [of ?s GetVersion] by auto
  then have "session_start sample_ledger 0 sample_context Inspect = Inr ?t"
    by (simp add: session_start_def sample_context_simps)
  moreover have "at_step 1 InfoPhase GetVersion ?t" by (simp add: at_step_def se_state_def)
  ultimately show thesis by (rule that)
qed

lemma sample_session:
  obtains s0 where "session_start sample_ledger 0 sample_context Inspect = Inr s0"
    and "se_state (fold (usb_call sample_ledger) sample_replies s0) = UsbComplete"
    and "se_outcome (fold (usb_call sample_ledger) sample_replies s0) = Some Inspected"
proof -
  obtain s0 where s0: "session_start sample_ledger 0 sample_context Inspect = Inr s0" "at_step 1 InfoPhase GetVersion s0"
    by (rule sample_usb_start)
  let ?a = "\<lparr>ac_fingerprint = ''f'', ac_path = [], ac_xpub = ''x''\<rparr>"
  let ?r0 = "[1, 12] @ bytes_of ''Bitcoin Test'' @ [1, 49, 0, 144, 0] :: byte list"
  define s1 where "s1 = usb_call sample_ledger (Report 0 1 (one_report ?r0)) s0"
  define s2 where "s2 = usb_call sample_ledger (Report 0 2 (one_report [1, 2, 3, 4, 144, 0])) s1"
  have ends: "end_command sample_ledger GetVersion = Inr (Info (Some ''Bitcoin Test'') ''1'')"
    "end_command sample_ledger GetMasterFingerprint = Inr (MasterFingerprint ''f'')"
    "end_command sample_ledger (GetXpub [] False) = Inr (XpubResponse ''x'')"
    by (simp_all add: sample_ledger_def)
  have pre: "device_preflight sample_ledger t ?r0 = Inr ()" if "se_phase t = InfoPhase" for t
    using that sample_info by (simp add: device_preflight_def success_status_def bytes_of_def)
  have ans: "\<exists>v. answer sample_ledger (Info (Some ''Bitcoin Test'') ''1'') t = send_command sample_ledger GetMasterFingerprint v
      \<and> se_phase v = FingerprintPhase \<and> True
      \<and> se_context v = sample_context \<and> se_intent v = se_intent t \<and> se_state v = se_state t \<and> se_started v = se_started t
      \<and> se_bytes v = se_bytes t \<and> uu_step (se_update v) = uu_step (se_update t)"
    if "se_context t = sample_context" "se_phase t = InfoPhase" for t
    using that by (intro exI [of _ "t\<lparr>se_update := (se_update t)\<lparr>app_version := Some ''1''\<rparr>, se_phase := FingerprintPhase\<rparr>"])
      (simp add: answer_def answer_info_def se_state_def)
  have "at_step (1 + 1) FingerprintPhase GetMasterFingerprint s1 \<and> True"
    unfolding s1_def by (rule sample_next [where Q = "\<lambda>_. True", OF s0(2)])
      (simp, simp add: bytes_of_def, simp add: bytes_of_def, erule pre, rule ends, erule ans, assumption)
  then have s1: "at_step 2 FingerprintPhase GetMasterFingerprint s1" by (simp add: numeral_2_eq_2)
  have pre: "device_preflight sample_ledger t [1, 2, 3, 4, 144, 0] = Inr ()" if "se_phase t = FingerprintPhase" for t
    using that by (simp add: device_preflight_def success_status_def)
  have ans: "\<exists>v. answer sample_ledger (MasterFingerprint ''f'') t = send_command sample_ledger (GetXpub [] False) v
      \<and> se_phase v = AccountPhase \<and> se_account v = Some ?a
      \<and> se_context v = sample_context \<and> se_intent v = se_intent t \<and> se_state v = se_state t \<and> se_started v = se_started t
      \<and> se_bytes v = se_bytes t \<and> uu_step (se_update v) = uu_step (se_update t)"
    if "se_context t = sample_context" "se_phase t = FingerprintPhase" for t
    using that by (intro exI [of _ "t\<lparr>se_update := (se_update t)\<lparr>uu_fingerprint := Some ''f''\<rparr>, se_phase := AccountPhase, se_account := Some ?a\<rparr>"])
      (simp add: answer_def answer_fingerprint_def sample_context_simps se_state_def)
  have "at_step (2 + 1) AccountPhase (GetXpub [] False) s2 \<and> se_account s2 = Some ?a"
    unfolding s2_def by (rule sample_next [where Q = "\<lambda>x. x = Some ?a", OF s1])
      (simp, simp, simp, erule pre, rule ends, erule ans, assumption)
  then have s2: "at_step 3 AccountPhase (GetXpub [] False) s2" "se_account s2 = Some ?a" by simp_all
  have pre: "device_preflight sample_ledger t [144, 0] = Inr ()" if "se_phase t = AccountPhase" for t
    using that by (simp add: device_preflight_def success_status_def)
  obtain t where t: "session_receive sample_ledger s2 (0, 3, one_report [144, 0])
      = (case answer sample_ledger (XpubResponse ''x'') t of (Inl e, u) \<Rightarrow> (Inl e, close UsbFailed u) | (Inr _, u) \<Rightarrow> (Inr (se_update u), u))"
    "se_intent t = Some Inspect" "se_phase t = AccountPhase" "se_account t = Some ?a"
    using sample_answer [OF s2(1) _ _ _ pre ends(3)] s2(2) by auto
  then have "snd (session_receive sample_ledger s2 (0, 3, one_report [144, 0])) = finish_session Inspected (t\<lparr>se_phase := ActionPhase\<rparr>)"
    by (simp add: answer_def answer_xpub_def act_def Let_def)
  then have "fold (usb_call sample_ledger) sample_replies s0 = finish_session Inspected (t\<lparr>se_phase := ActionPhase\<rparr>)"
    by (simp add: sample_replies_def s2_def s1_def)
  then show thesis using that [OF s0(1)] by (simp add: finish_session_def se_state_def)
qed

theorem usb_outcome_earned_witness:
  "\<exists>s0 s s'. session_start sample_ledger 0 sample_context Inspect = Inr s0
     \<and> s = fold (usb_call sample_ledger) sample_replies s0 \<and> take_outcome s = (Inr Inspected, s')
     \<and> fits Inspect Inspected \<and> se_phase s = ActionPhase"
proof -
  obtain s0 where s0: "session_start sample_ledger 0 sample_context Inspect = Inr s0"
    "se_state (fold (usb_call sample_ledger) sample_replies s0) = UsbComplete"
    "se_outcome (fold (usb_call sample_ledger) sample_replies s0) = Some Inspected"
    by (rule sample_session)
  let ?s = "fold (usb_call sample_ledger) sample_replies s0"
  have "take_outcome ?s = (Inr Inspected, ?s\<lparr>se_outcome := None\<rparr>)" using s0(2,3) by (simp add: take_outcome_def)
  from usb_outcome_earned [OF s0(1) refl this] s0(1) this show ?thesis by blast
qed

text \<open>A device that would do anything else when asked to sign or to show an address.\<close>

theorem usb_issues_only_witness:
  "\<exists>L :: command ledger. start_command L (DisplayAddress 0 True True [] (hc_policy sample_context) []) = Inl OtherHardware
     \<and> map_sum id (fold (usb_call L) sample_replies) (session_start L 0 sample_context Inspect)
       = map_sum id (fold (usb_call sample_ledger) sample_replies) (session_start sample_ledger 0 sample_context Inspect)"
proof -
  let ?L = "sample_ledger\<lparr>start_command := \<lambda>k. case k of SignTx _ _ _ \<Rightarrow> Inl OtherHardware
     | DisplayAddress _ _ _ _ _ _ \<Rightarrow> Inl OtherHardware | _ \<Rightarrow> start_command sample_ledger k\<rparr>"
  have "same_allowed sample_context Inspect sample_ledger ?L"
    by (auto simp: same_allowed_def allowed_commands_def)
  from usb_issues_only [OF this, of sample_replies 0] show ?thesis by (intro exI [of _ ?L]) simp
qed

end
