(* ===== verification/Files.thy ===== *)
theory Files
  imports Prelude
begin

text \<open>
  The file system the store modules work on, as far as they use it: \<^verbatim>\<open>std::fs\<close>,
  \<^verbatim>\<open>tempfile\<close>, \<^verbatim>\<open>std::path::Path\<close> and advisory locks.

  \<^item> A \<open>path\<close> is the list of its \<^verbatim>\<open>std::path::Component\<close>s; an absolute one begins with the root
    component, so comparing lists is \<^verbatim>\<open>Path ==\<close>.
  \<^item> A \<open>disk\<close> keeps what running processes see (\<open>live\<close>) and, for every directory entry, what else
    a loss of power may leave there (\<open>remnants\<close>): an entry changed since its directory was
    last synchronized may still be any of its earlier ones, and a regular file that was not
    flushed since it was written may hold any bytes.
  \<^item> An \<open>io\<close> computation meets one \<open>fate\<close> per system call: the call is carried out, fails, or the
    process is killed there. A call with a failing fate leaves what a partial write leaves.
    Every theorem quantifies over all fates, so over every place to fail or to be killed.
\<close>

section \<open>Paths and nodes\<close>

type_synonym path = "string list"

definition root_component :: string where
  "root_component = ''/''"

definition parent_of :: "path \<Rightarrow> path option" where
  "parent_of p = (if p = [] \<or> p = [root_component] then None else Some (butlast p))"

definition file_name :: "path \<Rightarrow> string option" where
  "file_name p =
     (if p = [] \<or> last p = root_component \<or> last p = ''..'' \<or> last p = ''.'' then None
      else Some (last p))"

datatype node = Regular string | Directory | Symlink path | Special

datatype remnant = Absent | Kept node | Torn

record disk =
  live :: "path \<Rightarrow> node option"
  remnants :: "path \<Rightarrow> remnant list"
  flushed :: "path \<Rightarrow> bool"

text \<open>Links are followed at most \<open>MAX_LINKS\<close> times, as the kernels do.\<close>

definition MAX_LINKS :: nat where
  "MAX_LINKS = 40"

function resolve :: "(path \<Rightarrow> node option) \<Rightarrow> nat \<Rightarrow> path \<Rightarrow> path \<Rightarrow> path option" where
  "resolve nodes links at [] = Some at"
| "resolve nodes links at (c # rest) =
     (if c = root_component then resolve nodes links [root_component] rest
      else if c = ''.'' then resolve nodes links at rest
      else if c = ''..'' then resolve nodes links (if length at \<le> 1 then at else butlast at) rest
      else
        case nodes (at @ [c]) of
          None \<Rightarrow> None
        | Some Directory \<Rightarrow> resolve nodes links (at @ [c]) rest
        | Some (Symlink target) \<Rightarrow>
            (if links = 0 then None else resolve nodes (links - 1) at (target @ rest))
        | Some _ \<Rightarrow> (if rest = [] then Some (at @ [c]) else None))"
  by pat_completeness auto
termination
  by (relation "measures [\<lambda>(_, links, _, _). links, \<lambda>(_, _, _, rest). length rest]") auto

section \<open>What a loss of power leaves\<close>

fun admits :: "remnant \<Rightarrow> node option \<Rightarrow> bool" where
  "admits Absent v = (v = None)"
| "admits (Kept n) v = (v = Some n)"
| "admits Torn v = (\<exists>b. v = Some (Regular b))"

definition standing :: "disk \<Rightarrow> path \<Rightarrow> remnant" where
  "standing d p =
     (case live d p of
        None \<Rightarrow> Absent
      | Some (Regular b) \<Rightarrow> (if flushed d p then Kept (Regular b) else Torn)
      | Some n \<Rightarrow> Kept n)"

definition survivors :: "disk \<Rightarrow> path \<Rightarrow> remnant list" where
  "survivors d p = standing d p # remnants d p"

definition power_loss :: "disk \<Rightarrow> disk \<Rightarrow> bool" where
  "power_loss d d' \<longleftrightarrow>
     (\<forall>p. \<exists>r \<in> set (survivors d p). admits r (live d' p))
     \<and> remnants d' = (\<lambda>_. []) \<and> flushed d' = (\<lambda>_. True)"

text \<open>Nothing about the entry is pending.\<close>

definition quiet :: "disk \<Rightarrow> path \<Rightarrow> bool" where
  "quiet d p \<longleftrightarrow> remnants d p = [] \<and> (flushed d p \<or> (\<forall>b. live d p \<noteq> Some (Regular b)))"

definition set_entry :: "path \<Rightarrow> node option \<Rightarrow> bool \<Rightarrow> disk \<Rightarrow> disk" where
  "set_entry p v f d =
     d\<lparr>live := (live d)(p := v), remnants := (remnants d)(p := survivors d p),
       flushed := (flushed d)(p := f)\<rparr>"

definition write_entry :: "path \<Rightarrow> string \<Rightarrow> disk \<Rightarrow> disk" where
  "write_entry p bytes d =
     d\<lparr>live := (live d)(p := Some (Regular bytes)), remnants := (remnants d)(p := Torn # remnants d p),
       flushed := (flushed d)(p := False)\<rparr>"

definition flush_entry :: "path \<Rightarrow> disk \<Rightarrow> disk" where
  "flush_entry p d = d\<lparr>flushed := (flushed d)(p := True)\<rparr>"

definition settle_directory :: "path \<Rightarrow> disk \<Rightarrow> disk" where
  "settle_directory dir d =
     d\<lparr>remnants := (\<lambda>p. if p \<noteq> [] \<and> butlast p = dir then [] else remnants d p)\<rparr>"

definition move_entry :: "path \<Rightarrow> path \<Rightarrow> disk \<Rightarrow> disk" where
  "move_entry p q d = set_entry p None True (set_entry q (live d p) (flushed d p) d)"

section \<open>Computations\<close>

datatype io_error = Not_Found | Exists | Would_Block | Other_Error

datatype fate = Runs | Breaks nat | Dies nat

datatype lock = Free | Shared nat | Exclusive

record world =
  files :: disk
  locks :: "path \<Rightarrow> lock"
  fates :: "fate list"
  suffixes :: "string list"
  cwd :: path

datatype ('e, 'a) ending = Returned 'a | Failed 'e | Killed

type_synonym ('e, 'a) io = "world \<Rightarrow> ('e, 'a) ending \<times> world"

definition io_return :: "'a \<Rightarrow> ('e, 'a) io" where
  "io_return a w = (Returned a, w)"

definition io_fail :: "'e \<Rightarrow> ('e, 'a) io" where
  "io_fail e w = (Failed e, w)"

definition io_bind :: "('e, 'a) io \<Rightarrow> ('a \<Rightarrow> ('e, 'b) io) \<Rightarrow> ('e, 'b) io" where
  "io_bind m f w =
     (case m w of
        (Returned a, w') \<Rightarrow> f a w'
      | (Failed e, w') \<Rightarrow> (Failed e, w')
      | (Killed, w') \<Rightarrow> (Killed, w'))"

definition io_map_err :: "('e \<Rightarrow> 'f) \<Rightarrow> ('e, 'a) io \<Rightarrow> ('f, 'a) io" where
  "io_map_err g m w =
     (case m w of
        (Returned a, w') \<Rightarrow> (Returned a, w')
      | (Failed e, w') \<Rightarrow> (Failed (g e), w')
      | (Killed, w') \<Rightarrow> (Killed, w'))"

text \<open>The error as a value, for code that matches on it.\<close>

definition io_try :: "('e, 'a) io \<Rightarrow> ('f, 'e + 'a) io" where
  "io_try m w =
     (case m w of
        (Returned a, w') \<Rightarrow> (Returned (Inr a), w')
      | (Failed e, w') \<Rightarrow> (Returned (Inl e), w')
      | (Killed, w') \<Rightarrow> (Killed, w'))"

definition io_result :: "'a result \<Rightarrow> (error, 'a) io" where
  "io_result r = (case r of Inl e \<Rightarrow> io_fail e | Inr a \<Rightarrow> io_return a)"

text \<open>A destructor: run on every way out except being killed; its own failure is ignored.\<close>

definition io_finally :: "('e, 'a) io \<Rightarrow> ('f, unit) io \<Rightarrow> ('e, 'a) io" where
  "io_finally m c w =
     (case m w of
        (Killed, w') \<Rightarrow> (Killed, w')
      | (r, w') \<Rightarrow> (case c w' of (Killed, w'') \<Rightarrow> (Killed, w'') | (_, w'') \<Rightarrow> (r, w'')))"

definition system_call ::
  "(nat \<Rightarrow> disk \<Rightarrow> disk) \<Rightarrow> (world \<Rightarrow> (io_error + 'a) \<times> world) \<Rightarrow> (io_error, 'a) io" where
  "system_call partial act w =
     (let w' = w\<lparr>fates := tl (fates w)\<rparr> in
      case (if fates w = [] then Runs else hd (fates w)) of
        Runs \<Rightarrow> (case act w' of (Inl e, v) \<Rightarrow> (Failed e, v) | (Inr a, v) \<Rightarrow> (Returned a, v))
      | Breaks n \<Rightarrow> (Failed Other_Error, w'\<lparr>files := partial n (files w')\<rparr>)
      | Dies n \<Rightarrow> (Killed, w'\<lparr>files := partial n (files w')\<rparr>))"

text \<open>An atomic call: cut short, it has done nothing.\<close>

definition atomic :: "(disk \<Rightarrow> (io_error + 'a) \<times> disk) \<Rightarrow> (io_error, 'a) io" where
  "atomic act = system_call (\<lambda>_ d. d) (\<lambda>w. (fst (act (files w)), w\<lparr>files := snd (act (files w))\<rparr>))"

section \<open>System calls\<close>

text \<open>\<^verbatim>\<open>symlink_metadata\<close> does not follow a link at the end of the path.\<close>

definition stat :: "path \<Rightarrow> (io_error, node) io" where
  "stat p = atomic (\<lambda>d. (case live d p of None \<Rightarrow> Inl Not_Found | Some n \<Rightarrow> Inr n, d))"

definition canonicalize :: "path \<Rightarrow> (io_error, path) io" where
  "canonicalize p = system_call (\<lambda>_ d. d) (\<lambda>w.
     (case resolve (live (files w)) MAX_LINKS (cwd w) p of None \<Rightarrow> Inl Not_Found | Some q \<Rightarrow> Inr q, w))"

definition read_bytes :: "path \<Rightarrow> (io_error, string) io" where
  "read_bytes p = atomic (\<lambda>d.
     (case live d p of
        Some (Regular b) \<Rightarrow> Inr b
      | None \<Rightarrow> Inl Not_Found
      | Some _ \<Rightarrow> Inl Other_Error, d))"

definition create_new :: "path \<Rightarrow> node \<Rightarrow> (io_error, unit) io" where
  "create_new p n = atomic (\<lambda>d.
     if live d (butlast p) \<noteq> Some Directory then (Inl Not_Found, d)
     else if live d p \<noteq> None then (Inl Exists, d)
     else (Inr (), set_entry p (Some n) False d))"

text \<open>Opened with \<^verbatim>\<open>create(true).truncate(false)\<close>: an existing file is left as it is.\<close>

definition open_or_create :: "path \<Rightarrow> (io_error, unit) io" where
  "open_or_create p = atomic (\<lambda>d.
     case live d p of
       Some (Regular _) \<Rightarrow> (Inr (), d)
     | None \<Rightarrow>
         (if live d (butlast p) \<noteq> Some Directory then (Inl Not_Found, d)
          else (Inr (), set_entry p (Some (Regular '''')) False d))
     | Some _ \<Rightarrow> (Inl Other_Error, d))"

definition write_bytes :: "path \<Rightarrow> string \<Rightarrow> (io_error, unit) io" where
  "write_bytes p bytes =
     system_call (\<lambda>n. write_entry p (take n bytes)) (\<lambda>w. (Inr (), w\<lparr>files := write_entry p bytes (files w)\<rparr>))"

definition sync_file :: "path \<Rightarrow> (io_error, unit) io" where
  "sync_file p = atomic (\<lambda>d. (Inr (), flush_entry p d))"

definition sync_dir :: "path \<Rightarrow> (io_error, unit) io" where
  "sync_dir dir = atomic (\<lambda>d.
     if live d dir = None then (Inl Not_Found, d) else (Inr (), settle_directory dir d))"

definition rename_over :: "path \<Rightarrow> path \<Rightarrow> (io_error, unit) io" where
  "rename_over p q = atomic (\<lambda>d.
     if live d p = None then (Inl Not_Found, d)
     else if live d q = Some Directory then (Inl Other_Error, d)
     else (Inr (), move_entry p q d))"

definition rename_new :: "path \<Rightarrow> path \<Rightarrow> (io_error, unit) io" where
  "rename_new p q = atomic (\<lambda>d.
     if live d p = None then (Inl Not_Found, d)
     else if live d q \<noteq> None then (Inl Exists, d)
     else (Inr (), move_entry p q d))"

definition unlink :: "path \<Rightarrow> (io_error, unit) io" where
  "unlink p = atomic (\<lambda>d.
     case live d p of
       Some Directory \<Rightarrow> (Inl Other_Error, d)
     | None \<Rightarrow> (Inl Not_Found, d)
     | Some _ \<Rightarrow> (Inr (), set_entry p None True d))"

section \<open>Temporary files\<close>

text \<open>
  The name is the prefix and a random suffix; a name that is taken is tried again with another
  one. The suffixes are those of the world, whatever the generator yields.
\<close>

definition free_suffixes :: "disk \<Rightarrow> path \<Rightarrow> string \<Rightarrow> string list \<Rightarrow> string list" where
  "free_suffixes d dir prefix = dropWhile (\<lambda>s. live d (dir @ [prefix @ s]) \<noteq> None)"

definition create_temporary :: "path \<Rightarrow> string \<Rightarrow> node \<Rightarrow> (io_error, path) io" where
  "create_temporary dir prefix n = system_call (\<lambda>_ d. d) (\<lambda>w.
     if live (files w) dir \<noteq> Some Directory then (Inl Not_Found, w)
     else
       case free_suffixes (files w) dir prefix (suffixes w) of
         [] \<Rightarrow> (Inl Exists, w\<lparr>suffixes := []\<rparr>)
       | s # rest \<Rightarrow>
           (Inr (dir @ [prefix @ s]),
            w\<lparr>suffixes := rest, files := set_entry (dir @ [prefix @ s]) (Some n) False (files w)\<rparr>))"

text \<open>Dropping a \<^verbatim>\<open>NamedTempFile\<close> removes it, unless it was moved to its destination.\<close>

definition discard_temporary :: "path \<Rightarrow> (io_error, unit) io" where
  "discard_temporary p w = (if live (files w) p = None then (Returned (), w) else unlink p w)"

definition with_temporary ::
  "path \<Rightarrow> string \<Rightarrow> (path \<Rightarrow> (error, 'a) io) \<Rightarrow> (error, 'a) io" where
  "with_temporary dir prefix body =
     io_bind (io_map_err (\<lambda>_. Storage) (create_temporary dir prefix (Regular ''''))) (\<lambda>p.
     io_finally (body p) (discard_temporary p))"

section \<open>Advisory locks\<close>

definition take_lock :: "path \<Rightarrow> bool \<Rightarrow> (io_error, unit) io" where
  "take_lock p exclusive = system_call (\<lambda>_ d. d) (\<lambda>w.
     case locks w p of
       Free \<Rightarrow> (Inr (), w\<lparr>locks := (locks w)(p := (if exclusive then Exclusive else Shared 1))\<rparr>)
     | Shared n \<Rightarrow>
         (if exclusive then (Inl Would_Block, w)
          else (Inr (), w\<lparr>locks := (locks w)(p := Shared (Suc n))\<rparr>))
     | Exclusive \<Rightarrow> (Inl Would_Block, w))"

definition drop_lock :: "path \<Rightarrow> (io_error, unit) io" where
  "drop_lock p w =
     (Returned (), w\<lparr>locks := (locks w)(p :=
        (case locks w p of
           Shared (Suc (Suc n)) \<Rightarrow> Shared (Suc n)
         | _ \<Rightarrow> Free))\<rparr>)"

end
