(* ===== verification/Disk_Logic.thy ===== *)
theory Disk_Logic
  imports Files
begin

text \<open>
  Reasoning about computations that may fail or be killed at every system call.

  \<^item> \<open>choices d p V\<close>: after a loss of power the entry \<open>p\<close> is one of \<open>V\<close>; the lemmas of the first
    section say what every change of a disk does to it.
  \<^item> \<open>wp m Q E K d\<close>: started on \<open>d\<close>, \<open>m\<close> returns in \<open>Q\<close>, fails in \<open>E\<close> or is killed in \<open>K\<close>, whatever
    the fates; the rules in \<open>wp_rules\<close> execute a computation symbolically.
  \<^item> \<open>untouched S d d'\<close>: outside \<open>S\<close> the disk is as it was.
\<close>

section \<open>What an entry may become\<close>

definition choices :: "disk \<Rightarrow> path \<Rightarrow> node option set \<Rightarrow> bool" where
  "choices d p V \<longleftrightarrow> (\<forall>r \<in> set (survivors d p). \<forall>x. admits r x \<longrightarrow> x \<in> V)"

definition stable_node :: "node option \<Rightarrow> bool \<Rightarrow> bool" where
  "stable_node v f \<longleftrightarrow> f \<or> (\<forall>b. v \<noteq> Some (Regular b))"

named_theorems disk_simps \<open>what a change of the disk does to its entries\<close>

lemma admits_standing: "admits (standing d p) (live d p)"
  by (simp add: standing_def split: option.splits node.splits)

lemma admits_standing_iff:
  "stable_node (live d p) (flushed d p) \<Longrightarrow> admits (standing d p) x \<longleftrightarrow> x = live d p"
  by (auto simp: standing_def stable_node_def split: option.splits node.splits)

lemma choices_live: "choices d p V \<Longrightarrow> live d p \<in> V"
  using admits_standing [of d p] by (auto simp: choices_def survivors_def)

lemma choices_power_loss: "choices d p V \<Longrightarrow> power_loss d d' \<Longrightarrow> live d' p \<in> V"
  by (force simp: choices_def power_loss_def)

lemma choices_mono: "choices d p V \<Longrightarrow> V \<subseteq> W \<Longrightarrow> choices d p W"
  by (auto simp: choices_def)

lemma choices_quiet: "quiet d p \<Longrightarrow> choices d p V \<longleftrightarrow> live d p \<in> V"
  using admits_standing [of d p]
  by (auto simp: choices_def survivors_def quiet_def stable_node_def
      admits_standing_iff [unfolded stable_node_def])

lemma choices_power_loss_settled:
  "power_loss d d' \<Longrightarrow> choices d' p V \<longleftrightarrow> live d' p \<in> V"
  by (rule choices_quiet) (simp add: quiet_def power_loss_def)

lemma live_changes [disk_simps]:
  "live (set_entry p v f d) q = (if q = p then v else live d q)"
  "live (write_entry p b d) q = (if q = p then Some (Regular b) else live d q)"
  "live (flush_entry p d) q = live d q"
  "live (settle_directory dir d) q = live d q"
  "live (move_entry p r d) q = (if q = p then None else if q = r then live d p else live d q)"
  by (simp_all add: set_entry_def write_entry_def flush_entry_def settle_directory_def move_entry_def)

lemma flushed_changes [disk_simps]:
  "flushed (set_entry p v f d) q = (if q = p then f else flushed d q)"
  "flushed (write_entry p b d) q = (if q = p then False else flushed d q)"
  "flushed (flush_entry p d) q = (if q = p then True else flushed d q)"
  "flushed (settle_directory dir d) q = flushed d q"
  by (simp_all add: set_entry_def write_entry_def flush_entry_def settle_directory_def)

lemma remnants_other [disk_simps]:
  "q \<noteq> p \<Longrightarrow> remnants (set_entry p v f d) q = remnants d q"
  by (simp add: set_entry_def)

lemma survivors_other [disk_simps]:
  "q \<noteq> p \<Longrightarrow> survivors (set_entry p v f d) q = survivors d q"
  "q \<noteq> p \<Longrightarrow> survivors (write_entry p b d) q = survivors d q"
  "q \<noteq> p \<Longrightarrow> survivors (flush_entry p d) q = survivors d q"
  "q \<noteq> p \<Longrightarrow> q \<noteq> r \<Longrightarrow> survivors (move_entry p r d) q = survivors d q"
  by (simp_all add: survivors_def standing_def set_entry_def write_entry_def flush_entry_def
      move_entry_def cong: option.case_cong node.case_cong)

lemma choices_other [disk_simps]:
  "q \<noteq> p \<Longrightarrow> choices (set_entry p v f d) q V = choices d q V"
  "q \<noteq> p \<Longrightarrow> choices (write_entry p b d) q V = choices d q V"
  "q \<noteq> p \<Longrightarrow> q \<noteq> r \<Longrightarrow> choices (move_entry p r d) q V = choices d q V"
  by (simp_all add: choices_def disk_simps)

lemma choices_set_entry:
  assumes "choices d p V" and "v \<in> V" and "stable_node v f"
  shows "choices (set_entry p v f d) p V"
proof -
  let ?d = "set_entry p v f d"
  have "stable_node (live ?d p) (flushed ?d p)" using assms by (simp add: disk_simps)
  hence "admits (standing ?d p) x \<longleftrightarrow> x = v" for x
    by (simp add: admits_standing_iff disk_simps)
  moreover have "remnants ?d p = survivors d p" by (simp add: set_entry_def)
  ultimately show ?thesis using assms by (auto simp: choices_def survivors_def)
qed

lemma choices_move:
  assumes old: "choices d q V" and new: "live d p \<in> V" and other: "p \<noteq> q"
    and kept: "stable_node (live d p) (flushed d p)"
  shows "choices (move_entry p q d) q V"
  unfolding move_entry_def using other choices_set_entry [OF old new kept] by (simp add: disk_simps)

lemma choices_flush: "choices d q V \<Longrightarrow> choices (flush_entry p d) q V"
proof (cases "q = p")
  case True
  assume V: "choices d q V"
  have "stable_node (live (flush_entry p d) p) (flushed (flush_entry p d) p)"
    by (simp add: disk_simps stable_node_def)
  hence "admits (standing (flush_entry p d) p) x \<longleftrightarrow> x = live d p" for x
    by (simp add: admits_standing_iff disk_simps)
  moreover have "remnants (flush_entry p d) = remnants d" by (simp add: flush_entry_def)
  ultimately show ?thesis using V choices_live [OF V] True by (auto simp: choices_def survivors_def)
qed (simp add: choices_def disk_simps)

lemma standing_settle [disk_simps]: "standing (settle_directory dir d) q = standing d q"
  by (simp add: standing_def settle_directory_def cong: option.case_cong node.case_cong)

lemma survivors_settle [disk_simps]:
  "survivors (settle_directory dir d) p =
     standing d p # (if p \<noteq> [] \<and> butlast p = dir then [] else remnants d p)"
  unfolding survivors_def standing_settle by (simp add: settle_directory_def)

lemma choices_settle: "choices d q V \<Longrightarrow> choices (settle_directory dir d) q V"
  by (auto simp: choices_def disk_simps) (auto simp: survivors_def)

text \<open>Synchronizing its directory leaves an entry no choice.\<close>

lemma choices_settled:
  assumes "p \<noteq> []" and "butlast p = dir" and "stable_node (live d p) (flushed d p)"
  shows "choices (settle_directory dir d) p {live d p}"
  using assms by (auto simp: choices_def disk_simps admits_standing_iff)

lemma choices_settled_to:
  "p \<noteq> [] \<Longrightarrow> butlast p = dir \<Longrightarrow> live d p = v \<Longrightarrow> stable_node v (flushed d p) \<Longrightarrow>
   choices (settle_directory dir d) p {v}"
  using choices_settled [of p dir d] by simp

lemma choices_settleI:
  assumes "p \<noteq> [] \<Longrightarrow> butlast p = dir \<Longrightarrow> stable_node (live d p) (flushed d p) \<Longrightarrow> live d p \<in> V"
    and "\<not> (p \<noteq> [] \<and> butlast p = dir \<and> stable_node (live d p) (flushed d p)) \<Longrightarrow> choices d p V"
  shows "choices (settle_directory dir d) p V"
proof (cases "p \<noteq> [] \<and> butlast p = dir \<and> stable_node (live d p) (flushed d p)")
  case True
  thus ?thesis using choices_settled [of p dir d] assms(1) by (auto elim: choices_mono)
next
  case False
  thus ?thesis using choices_settle [OF assms(2)] by blast
qed

text \<open>Everything live reaching the medium is one of the outcomes.\<close>

definition all_flushed :: "disk \<Rightarrow> disk" where
  "all_flushed d = d\<lparr>remnants := (\<lambda>_. []), flushed := (\<lambda>_. True)\<rparr>"

lemma power_loss_all_flushed: "power_loss d (all_flushed d)"
  using admits_standing by (fastforce simp: power_loss_def all_flushed_def survivors_def)

section \<open>Frames\<close>

definition untouched :: "path set \<Rightarrow> disk \<Rightarrow> disk \<Rightarrow> bool" where
  "untouched S d d' \<longleftrightarrow>
     (\<forall>p. p \<notin> S \<longrightarrow> live d' p = live d p \<and> flushed d' p = flushed d p
        \<and> set (survivors d' p) \<subseteq> set (survivors d p))"

lemma untouched_refl [simp]: "untouched S d d"
  by (simp add: untouched_def)

lemma untouched_trans: "untouched S d d' \<Longrightarrow> untouched S d' d'' \<Longrightarrow> untouched S d d''"
  unfolding untouched_def by (metis order_trans)

lemma untouched_mono: "untouched S d d' \<Longrightarrow> S \<subseteq> T \<Longrightarrow> untouched T d d'"
  by (auto simp: untouched_def)

lemma untouched_choices: "untouched S d d' \<Longrightarrow> p \<notin> S \<Longrightarrow> choices d p V \<Longrightarrow> choices d' p V"
  by (auto simp: untouched_def choices_def)

lemma untouched_live: "untouched S d d' \<Longrightarrow> p \<notin> S \<Longrightarrow> live d' p = live d p"
  by (simp add: untouched_def)

lemma untouched_changes:
  "p \<in> S \<Longrightarrow> untouched S d (set_entry p v f d)"
  "p \<in> S \<Longrightarrow> untouched S d (write_entry p b d)"
  "p \<in> S \<Longrightarrow> untouched S d (flush_entry p d)"
  "p \<in> S \<Longrightarrow> q \<in> S \<Longrightarrow> untouched S d (move_entry p q d)"
  "untouched S d (settle_directory dir d)"
proof -
  show "p \<in> S \<Longrightarrow> q \<in> S \<Longrightarrow> untouched S d (move_entry p q d)"
    by (auto simp: untouched_def disk_simps move_entry_def)
  show "untouched S d (settle_directory dir d)"
    by (auto simp: untouched_def disk_simps) (auto simp: survivors_def)
qed (auto simp: untouched_def disk_simps)

section \<open>Weakest preconditions\<close>

definition wp ::
  "('e, 'a) io \<Rightarrow> ('a \<Rightarrow> disk \<Rightarrow> bool) \<Rightarrow> ('e \<Rightarrow> disk \<Rightarrow> bool) \<Rightarrow> (disk \<Rightarrow> bool) \<Rightarrow> disk \<Rightarrow> bool" where
  "wp m Q E K d \<longleftrightarrow>
     (\<forall>w. files w = d \<longrightarrow>
        (case m w of
           (Returned a, w') \<Rightarrow> Q a (files w')
         | (Failed e, w') \<Rightarrow> E e (files w')
         | (Killed, w') \<Rightarrow> K (files w')))"

named_theorems wp_rules \<open>weakest preconditions, to be applied backwards\<close>

lemma wpD:
  assumes "wp m Q E K (files w)"
  shows "m w = (Returned a, w') \<Longrightarrow> Q a (files w')"
    and "m w = (Failed e, w') \<Longrightarrow> E e (files w')"
    and "m w = (Killed, w') \<Longrightarrow> K (files w')"
  using assms by (fastforce simp: wp_def)+

text \<open>Whatever the way out, one condition.\<close>

lemma wp_always: "wp m (\<lambda>_. R) (\<lambda>_. R) R (files w) \<Longrightarrow> m w = (r, w') \<Longrightarrow> R (files w')"
  unfolding wp_def by (cases r) fastforce+

lemma wp_conseq:
  assumes "wp m Q E K d" and "\<And>a x. Q a x \<Longrightarrow> Q' a x" and "\<And>e x. E e x \<Longrightarrow> E' e x"
    and "\<And>x. K x \<Longrightarrow> K' x"
  shows "wp m Q' E' K' d"
  using assms unfolding wp_def by (fastforce split: ending.splits prod.splits)

lemma wp_conj:
  assumes "wp m Q E K d" and "wp m Q' E' K' d"
  shows "wp m (\<lambda>a x. Q a x \<and> Q' a x) (\<lambda>e x. E e x \<and> E' e x) (\<lambda>x. K x \<and> K' x) d"
  using assms unfolding wp_def by (fastforce split: ending.splits prod.splits)

lemma wp_return [wp_rules]: "Q a d \<Longrightarrow> wp (io_return a) Q E K d"
  by (simp add: wp_def io_return_def)

lemma wp_fail [wp_rules]: "E e d \<Longrightarrow> wp (io_fail e) Q E K d"
  by (simp add: wp_def io_fail_def)

lemma wp_bind [wp_rules]:
  "wp m (\<lambda>a x. wp (f a) Q E K x) E K d \<Longrightarrow> wp (io_bind m f) Q E K d"
  unfolding wp_def io_bind_def by (fastforce split: ending.splits prod.splits)

lemma wp_map_err [wp_rules]: "wp m Q (\<lambda>e. E (g e)) K d \<Longrightarrow> wp (io_map_err g m) Q E K d"
  unfolding wp_def io_map_err_def by (fastforce split: ending.splits prod.splits)

lemma wp_try [wp_rules]: "wp m (\<lambda>a. Q (Inr a)) (\<lambda>e. Q (Inl e)) K d \<Longrightarrow> wp (io_try m) Q E K d"
  unfolding wp_def io_try_def by (fastforce split: ending.splits prod.splits)

lemma wp_result [wp_rules]:
  "(\<And>a. r = Inr a \<Longrightarrow> Q a d) \<Longrightarrow> (\<And>e. r = Inl e \<Longrightarrow> E e d) \<Longrightarrow> wp (io_result r) Q E K d"
  by (cases r) (auto simp: io_result_def intro: wp_return wp_fail)

lemma wp_if [wp_rules]:
  "(b \<Longrightarrow> wp m Q E K d) \<Longrightarrow> (\<not> b \<Longrightarrow> wp n Q E K d) \<Longrightarrow> wp (if b then m else n) Q E K d"
  by simp

lemma wp_finally [wp_rules]:
  "wp m (\<lambda>a x. wp c (\<lambda>_. Q a) (\<lambda>_. Q a) K x) (\<lambda>e x. wp c (\<lambda>_. E e) (\<lambda>_. E e) K x) K d \<Longrightarrow>
   wp (io_finally m c) Q E K d"
  unfolding wp_def io_finally_def by (fastforce split: ending.splits prod.splits)

lemma wp_system_call:
  assumes "\<And>n. E Other_Error (partial n d) \<and> K (partial n d)"
    and "\<And>w a v. files w = d \<Longrightarrow> act w = (Inr a, v) \<Longrightarrow> Q a (files v)"
    and "\<And>w e v. files w = d \<Longrightarrow> act w = (Inl e, v) \<Longrightarrow> E e (files v)"
  shows "wp (system_call partial act) Q E K d"
proof (unfold wp_def, intro allI impI)
  fix w :: world
  assume d: "files w = d"
  let ?w = "w\<lparr>fates := tl (fates w)\<rparr>"
  have d': "files ?w = d" using d by simp
  obtain r v where act: "act ?w = (r, v)" by fastforce
  show "case system_call partial act w of
      (Returned a, w') \<Rightarrow> Q a (files w') | (Failed e, w') \<Rightarrow> E e (files w') | (Killed, w') \<Rightarrow> K (files w')"
    using assms(1) assms(2) [OF d'] assms(3) [OF d'] act d
    by (cases r; cases "if fates w = [] then Runs else hd (fates w)")
      (auto simp: system_call_def Let_def)
qed

lemma wp_atomic:
  assumes "E Other_Error d" and "K d"
    and "\<And>a. fst (act d) = Inr a \<Longrightarrow> Q a (snd (act d))"
    and "\<And>e. fst (act d) = Inl e \<Longrightarrow> E e (snd (act d))"
  shows "wp (atomic act) Q E K d"
  unfolding atomic_def using assms by (intro wp_system_call) auto

section \<open>System calls\<close>

lemma wp_stat [wp_rules]:
  assumes "E Other_Error d" and "K d"
    and "\<And>n. live d p = Some n \<Longrightarrow> Q n d" and "live d p = None \<Longrightarrow> E Not_Found d"
  shows "wp (stat p) Q E K d"
  unfolding stat_def using assms by (intro wp_atomic) (auto split: option.splits)

lemma wp_canonicalize:
  assumes "\<And>e. E e d" and "K d" and "\<And>at q. resolve (live d) MAX_LINKS at p = Some q \<Longrightarrow> Q q d"
  shows "wp (canonicalize p) Q E K d"
  unfolding canonicalize_def using assms by (intro wp_system_call) (auto split: option.splits)

lemma wp_read_bytes [wp_rules]:
  assumes "\<And>e. E e d" and "K d" and "\<And>b. live d p = Some (Regular b) \<Longrightarrow> Q b d"
  shows "wp (read_bytes p) Q E K d"
  unfolding read_bytes_def using assms by (intro wp_atomic) (auto split: option.splits node.splits)

lemma wp_create_new [wp_rules]:
  assumes "\<And>e. E e d" and "K d"
    and "live d p = None \<Longrightarrow> live d (butlast p) = Some Directory \<Longrightarrow> Q () (set_entry p (Some n) False d)"
  shows "wp (create_new p n) Q E K d"
  unfolding create_new_def using assms by (intro wp_atomic) (auto split: if_splits)

lemma wp_open_or_create [wp_rules]:
  assumes "\<And>e. E e d" and "K d" and "\<And>b. live d p = Some (Regular b) \<Longrightarrow> Q () d"
    and "live d p = None \<Longrightarrow> live d (butlast p) = Some Directory \<Longrightarrow>
           Q () (set_entry p (Some (Regular [])) False d)"
  shows "wp (open_or_create p) Q E K d"
  unfolding open_or_create_def using assms
  by (intro wp_atomic) (auto split: option.splits node.splits if_splits)

lemma wp_write_bytes [wp_rules]:
  assumes "\<And>n. E Other_Error (write_entry p (take n bytes) d)" and "\<And>n. K (write_entry p (take n bytes) d)"
    and "Q () (write_entry p bytes d)"
  shows "wp (write_bytes p bytes) Q E K d"
  unfolding write_bytes_def using assms by (intro wp_system_call) auto

lemma wp_sync_file [wp_rules]:
  assumes "\<And>e. E e d" and "K d" and "Q () (flush_entry p d)"
  shows "wp (sync_file p) Q E K d"
  unfolding sync_file_def using assms by (intro wp_atomic) auto

lemma wp_sync_dir [wp_rules]:
  assumes "\<And>e. E e d" and "K d" and "Q () (settle_directory dir d)"
  shows "wp (sync_dir dir) Q E K d"
  unfolding sync_dir_def using assms by (intro wp_atomic) (auto split: if_splits)

lemma wp_rename_over [wp_rules]:
  assumes "\<And>e. E e d" and "K d"
    and "\<And>n. live d p = Some n \<Longrightarrow> live d q \<noteq> Some Directory \<Longrightarrow> Q () (move_entry p q d)"
  shows "wp (rename_over p q) Q E K d"
  unfolding rename_over_def using assms by (intro wp_atomic) (auto split: if_splits)

lemma wp_rename_new [wp_rules]:
  assumes "\<And>e. e \<noteq> Exists \<Longrightarrow> E e d" and "K d" and "live d q \<noteq> None \<Longrightarrow> E Exists d"
    and "\<And>n. live d p = Some n \<Longrightarrow> live d q = None \<Longrightarrow> Q () (move_entry p q d)"
  shows "wp (rename_new p q) Q E K d"
  unfolding rename_new_def using assms by (intro wp_atomic) (auto split: if_splits)

lemma wp_unlink [wp_rules]:
  assumes "\<And>e. E e d" and "K d"
    and "\<And>n. live d p = Some n \<Longrightarrow> n \<noteq> Directory \<Longrightarrow> Q () (set_entry p None True d)"
  shows "wp (unlink p) Q E K d"
  unfolding unlink_def using assms by (intro wp_atomic) (auto split: option.splits node.splits)

lemma free_suffix:
  "free_suffixes d dir prefix ss = s # rest \<Longrightarrow> live d (dir @ [prefix @ s]) = None"
  unfolding free_suffixes_def by (induction ss) (auto split: if_splits)

lemma wp_create_temporary [wp_rules]:
  assumes "\<And>e. E e d" and "K d"
    and "\<And>s. live d dir = Some Directory \<Longrightarrow> live d (dir @ [prefix @ s]) = None \<Longrightarrow>
           Q (dir @ [prefix @ s]) (set_entry (dir @ [prefix @ s]) (Some n) False d)"
  shows "wp (create_temporary dir prefix n) Q E K d"
  unfolding create_temporary_def using assms
  by (intro wp_system_call) (auto split: if_splits list.splits dest: free_suffix)

lemma wp_discard_file:
  assumes "Q d" and "K d" and "live d p \<noteq> Some Directory \<Longrightarrow> Q (set_entry p None True d)"
  shows "wp (discard_temporary p) (\<lambda>_. Q) (\<lambda>_. Q) K d"
proof (unfold wp_def, intro allI impI)
  fix w :: world
  assume d: "files w = d"
  have "wp (unlink p) (\<lambda>_. Q) (\<lambda>_. Q) K d" using assms by (intro wp_unlink) auto
  thus "case discard_temporary p w of
      (Returned a, w') \<Rightarrow> Q (files w') | (Failed e, w') \<Rightarrow> Q (files w') | (Killed, w') \<Rightarrow> K (files w')"
    using d assms(1) unfolding wp_def discard_temporary_def by auto
qed

lemma wp_discard_temporary [wp_rules]:
  "Q d \<Longrightarrow> K d \<Longrightarrow> Q (set_entry p None True d) \<Longrightarrow> wp (discard_temporary p) (\<lambda>_. Q) (\<lambda>_. Q) K d"
  by (rule wp_discard_file)

text \<open>The name of a temporary file is opaque but for its prefix.\<close>

lemma wp_with_temporary_file:
  assumes "\<And>e. E e d" and "K d"
    and "\<And>t. \<exists>s. t = prefix @ s \<Longrightarrow> live d dir = Some Directory \<Longrightarrow> live d (dir @ [t]) = None \<Longrightarrow>
       wp (body (dir @ [t]))
         (\<lambda>a x. Q a x \<and> K x \<and> (live x (dir @ [t]) \<noteq> Some Directory \<longrightarrow> Q a (set_entry (dir @ [t]) None True x)))
         (\<lambda>e x. E e x \<and> K x \<and> (live x (dir @ [t]) \<noteq> Some Directory \<longrightarrow> E e (set_entry (dir @ [t]) None True x))) K
         (set_entry (dir @ [t]) (Some (Regular [])) False d)"
  shows "wp (with_temporary dir prefix body) Q E K d"
  unfolding with_temporary_def
  by (intro wp_bind wp_map_err wp_create_temporary wp_finally)
    (use assms(1,2) in \<open>auto intro!: wp_conseq [OF assms(3)] wp_discard_file\<close>)
lemma wp_with_temporary:
  assumes "\<And>e. E e d" and "K d"
    and "\<And>t. \<exists>s. t = prefix @ s \<Longrightarrow> live d dir = Some Directory \<Longrightarrow> live d (dir @ [t]) = None \<Longrightarrow>
       wp (body (dir @ [t]))
         (\<lambda>a x. Q a x \<and> K x \<and> Q a (set_entry (dir @ [t]) None True x))
         (\<lambda>e x. E e x \<and> K x \<and> E e (set_entry (dir @ [t]) None True x)) K
         (set_entry (dir @ [t]) (Some (Regular [])) False d)"
  shows "wp (with_temporary dir prefix body) Q E K d"
  using assms(1,2) by (intro wp_with_temporary_file wp_conseq [OF assms(3)]) auto

lemma wp_take_lock [wp_rules]: "(\<And>e. E e d) \<Longrightarrow> K d \<Longrightarrow> Q () d \<Longrightarrow> wp (take_lock p x) Q E K d"
  unfolding take_lock_def by (rule wp_system_call) (auto split: lock.splits if_splits)

lemma wp_drop_lock [wp_rules]: "Q () d \<Longrightarrow> wp (drop_lock p) Q E K d"
  by (simp add: wp_def drop_lock_def)

section \<open>Runs without failures\<close>

named_theorems calm \<open>system calls without failures\<close>

lemma calm_call: "fates v = [] \<Longrightarrow> system_call partial f v = (case f v of (Inl e, u) \<Rightarrow> (Failed e, u) | (Inr a, u) \<Rightarrow> (Returned a, u))"
proof -
  assume none: "fates v = []"
  have same: "v\<lparr>fates := []\<rparr> = v" using none by (cases v) simp
  show ?thesis unfolding system_call_def none list.sel if_True Let_def same by simp
qed

lemma calm_io [calm]:
  "io_return a v = (Returned a, v)" "io_fail e v = (Failed e, v)"
  "m v = (Returned a, u) \<Longrightarrow> io_bind m f v = f a u"
  "m v = (Returned a, u) \<Longrightarrow> io_map_err g m v = (Returned a, u)"
  "m v = (Failed e, u) \<Longrightarrow> io_map_err g m v = (Failed (g e), u)"
  "m v = (Returned a, u) \<Longrightarrow> io_try m v = (Returned (Inr a), u)"
  "m v = (Failed e, u) \<Longrightarrow> io_try m v = (Returned (Inl e), u)"
  "m v = (Returned a, u) \<Longrightarrow> c u = (Returned b, u') \<Longrightarrow> io_finally m c v = (Returned a, u')"
  "r = Inr x \<Longrightarrow> io_result r v = (Returned x, v)"
  by (simp_all add: io_return_def io_fail_def io_bind_def io_map_err_def io_try_def io_finally_def io_result_def)

lemma calm_calls [calm]:
  "fates v = [] \<Longrightarrow> live (files v) p = Some n \<Longrightarrow> stat p v = (Returned n, v)"
  "fates v = [] \<Longrightarrow> live (files v) p = None \<Longrightarrow> stat p v = (Failed Not_Found, v)"
  "fates v = [] \<Longrightarrow> resolve (live (files v)) MAX_LINKS (cwd v) p = Some q \<Longrightarrow> canonicalize p v = (Returned q, v)"
  "fates v = [] \<Longrightarrow> live (files v) p = Some (Regular b) \<Longrightarrow> read_bytes p v = (Returned b, v)"
  "fates v = [] \<Longrightarrow> live (files v) p = Some (Regular b) \<Longrightarrow> open_or_create p v = (Returned (), v)"
  "fates v = [] \<Longrightarrow> live (files v) p = None \<Longrightarrow> live (files v) (butlast p) = Some Directory \<Longrightarrow>
     open_or_create p v = (Returned (), v\<lparr>files := set_entry p (Some (Regular [])) False (files v)\<rparr>)"
  "fates v = [] \<Longrightarrow> write_bytes p b v = (Returned (), v\<lparr>files := write_entry p b (files v)\<rparr>)"
  "fates v = [] \<Longrightarrow> sync_file p v = (Returned (), v\<lparr>files := flush_entry p (files v)\<rparr>)"
  "fates v = [] \<Longrightarrow> live (files v) p = Some n \<Longrightarrow> sync_dir p v = (Returned (), v\<lparr>files := settle_directory p (files v)\<rparr>)"
  "fates v = [] \<Longrightarrow> live (files v) p = Some n \<Longrightarrow> live (files v) q \<noteq> Some Directory \<Longrightarrow>
     rename_over p q v = (Returned (), v\<lparr>files := move_entry p q (files v)\<rparr>)"
  "fates v = [] \<Longrightarrow> live (files v) p = Some n \<Longrightarrow> live (files v) q = None \<Longrightarrow>
     rename_new p q v = (Returned (), v\<lparr>files := move_entry p q (files v)\<rparr>)"
  "fates v = [] \<Longrightarrow> live (files v) p = None \<Longrightarrow> live (files v) (butlast p) = Some Directory \<Longrightarrow>
     create_new p n v = (Returned (), v\<lparr>files := set_entry p (Some n) False (files v)\<rparr>)"
  "fates v = [] \<Longrightarrow> live (files v) p = None \<Longrightarrow> discard_temporary p v = (Returned (), v)"
  "fates v = [] \<Longrightarrow> live (files v) p = Some (Regular b) \<Longrightarrow>
     discard_temporary p v = (Returned (), v\<lparr>files := set_entry p None True (files v)\<rparr>)"
  "fates v = [] \<Longrightarrow> locks v p = Free \<Longrightarrow> take_lock p True v = (Returned (), v\<lparr>locks := (locks v)(p := Exclusive)\<rparr>)"
  "fates v = [] \<Longrightarrow> live (files v) dir = Some Directory \<Longrightarrow> suffixes v = s # rest \<Longrightarrow>
     live (files v) (dir @ [prefix @ s]) = None \<Longrightarrow>
     create_temporary dir prefix n v = (Returned (dir @ [prefix @ s]),
       v\<lparr>suffixes := rest, files := set_entry (dir @ [prefix @ s]) (Some n) False (files v)\<rparr>)"
  by (simp_all add: stat_def canonicalize_def read_bytes_def open_or_create_def write_bytes_def sync_file_def
      sync_dir_def rename_over_def rename_new_def create_new_def discard_temporary_def unlink_def take_lock_def
      create_temporary_def free_suffixes_def atomic_def calm_call)

section \<open>Directories that need no resolving\<close>

definition plain_name :: "string \<Rightarrow> bool" where
  "plain_name c \<longleftrightarrow> c \<noteq> root_component \<and> c \<noteq> ''.'' \<and> c \<noteq> ''..''"

definition real_dir :: "disk \<Rightarrow> path \<Rightarrow> bool" where
  "real_dir d p \<longleftrightarrow>
     p \<noteq> [] \<and> hd p = root_component \<and> (\<forall>c \<in> set (tl p). plain_name c)
     \<and> (\<forall>n. 0 < n \<and> n \<le> length p \<longrightarrow> live d (take n p) = Some Directory)"

lemma real_dir_live: "real_dir d p \<Longrightarrow> live d p = Some Directory"
  unfolding real_dir_def by (metis length_greater_0_conv order_refl take_all_iff)

lemma real_dir_snoc:
  "real_dir d p \<Longrightarrow> plain_name c \<Longrightarrow> live d (p @ [c]) = Some Directory \<Longrightarrow> real_dir d (p @ [c])"
  unfolding real_dir_def
  by (auto simp: le_Suc_eq take_Cons')

lemma resolve_prefix:
  assumes "\<And>c. c \<in> set rest \<Longrightarrow> plain_name c"
    and "\<And>n. 0 < n \<Longrightarrow> n \<le> length rest \<Longrightarrow> nodes (at @ take n rest) = Some Directory"
  shows "resolve nodes links at rest = Some (at @ rest)"
  using assms
proof (induction rest arbitrary: at)
  case (Cons c rest)
  have "nodes (at @ [c]) = Some Directory" using Cons.prems(2) [of 1] by simp
  moreover have "resolve nodes links (at @ [c]) rest = Some ((at @ [c]) @ rest)"
  proof (rule Cons.IH)
    fix n assume "0 < n" "n \<le> length rest"
    thus "nodes ((at @ [c]) @ take n rest) = Some Directory" using Cons.prems(2) [of "Suc n"] by simp
  qed (use Cons.prems(1) in simp)
  moreover have "plain_name c" using Cons.prems(1) by simp
  ultimately show ?case by (simp add: plain_name_def)
qed simp

lemma resolve_real_dir: "real_dir d p \<Longrightarrow> resolve (live d) links at p = Some p"
proof (cases p)
  case (Cons c rest)
  assume real: "real_dir d p"
  have "resolve (live d) links [root_component] rest = Some ([root_component] @ rest)"
  proof (rule resolve_prefix)
    fix n assume "0 < n" "n \<le> length rest"
    thus "live d ([root_component] @ take n rest) = Some Directory"
      using real Cons unfolding real_dir_def by (auto dest: spec [of _ "Suc n"])
  qed (use real Cons in \<open>simp add: real_dir_def\<close>)
  thus ?thesis using real Cons by (simp add: real_dir_def)
qed (simp add: real_dir_def)

text \<open>A change of other entries keeps a directory in its place.\<close>

lemma real_dir_cong:
  assumes "real_dir d p" and "\<And>q. live d q = Some Directory \<Longrightarrow> live d' q = Some Directory"
  shows "real_dir d' p"
  using assms by (auto simp: real_dir_def)

lemma real_dir_changes:
  assumes "real_dir d p"
  shows "live d q \<noteq> Some Directory \<Longrightarrow> real_dir (set_entry q v f d) p"
    and "live d q \<noteq> Some Directory \<Longrightarrow> real_dir (write_entry q b d) p"
    and "real_dir (flush_entry q d) p"
    and "real_dir (settle_directory r d) p"
    and "live d q \<noteq> Some Directory \<Longrightarrow> live d r \<noteq> Some Directory \<Longrightarrow> real_dir (move_entry q r d) p"
  using assms by (auto elim!: real_dir_cong simp: disk_simps)

end
