(* ===== verification/Protected_Storage.thy ===== *)
theory Protected_Storage
  imports Disk_Logic Store Rust_Text
begin

text \<open>
  \<^verbatim>\<open>crates/tundra-core/src/storage.rs\<close> and the opening of a \<^verbatim>\<open>Core\<close> in \<^verbatim>\<open>engine.rs\<close>: key and
  path checks, the advisory lock of a database, the format hint, opening plain and protected
  databases and the crash-safe migration of a plain database to a protected one.

  SQLCipher is the parameter \<open>'cs sqlcipher\<close>: \<open>decode key bytes\<close> is the database that the file's
  bytes (with the committed frames of its journal) hold under the key, \<open>encode\<close> writes one. A
  transaction on an open database is atomic and durable once it returned, as SQLite documents for
  \<^verbatim>\<open>synchronous=FULL\<close>; a file written by \<^verbatim>\<open>sqlcipher_export\<close> is not assumed durable before it is
  synchronized by the code.
\<close>

section \<open>The linked database library\<close>

type_synonym schema_row = "string \<times> string \<times> string \<times> string option"

text \<open>
  A wallet's state column before it is decoded: its length in bytes and, if it is JSON at all, the
  strings at \<^verbatim>\<open>descriptor\<close> and \<^verbatim>\<open>change_descriptor\<close>.
\<close>

record raw_wallet =
  raw_length :: nat
  raw_value :: "(string option \<times> string option) option"

record 'cs image =
  im_application :: int
  im_version :: int
  im_schema :: "schema_row list"
  im_manifest :: "(nat \<times> nat \<times> nat) list"
  im_db :: "'cs db"
  im_raw :: "string \<Rightarrow> raw_wallet"
  im_cipher_faults :: bool
  im_integrity :: string
  im_foreign_faults :: bool

record 'cs sqlcipher =
  cipher_version :: string
  sqlite_version :: string
  decode :: "string option \<Rightarrow> string \<Rightarrow> 'cs image option"
  encode :: "string option \<Rightarrow> 'cs image \<Rightarrow> string"
  empty_image :: "'cs image"
  app_schema :: "nat \<Rightarrow> schema_row list"
  wal_held :: "path \<Rightarrow> bool"

definition VERSION :: string where
  "VERSION = ''4.19.0 community''"

definition SQLITE_VERSION :: string where
  "SQLITE_VERSION = ''3.53.4''"

definition backend :: "'cs sqlcipher \<Rightarrow> unit result" where
  "backend S =
     (if cipher_version S \<noteq> VERSION \<or> sqlite_version S \<noteq> SQLITE_VERSION then Inl Storage else Inr ())"

text \<open>The first read of the schema: it decides whether the key opens the file.\<close>

definition probe :: "error \<Rightarrow> 'cs sqlcipher \<Rightarrow> string option \<Rightarrow> path \<Rightarrow> (error, 'cs image) io" where
  "probe e S key p =
     io_bind (io_map_err (\<lambda>_. e) (read_bytes p)) (\<lambda>bytes. io_result (ok_or (decode S key bytes) e))"

definition commit_entry :: "path \<Rightarrow> string \<Rightarrow> disk \<Rightarrow> disk" where
  "commit_entry p bytes d =
     d\<lparr>live := (live d)(p := Some (Regular bytes)), flushed := (flushed d)(p := True)\<rparr>"

definition commit_database ::
  "'cs sqlcipher \<Rightarrow> string option \<Rightarrow> path \<Rightarrow> 'cs image \<Rightarrow> (error, unit) io" where
  "commit_database S key p i =
     io_map_err (\<lambda>_. Storage) (atomic (\<lambda>d. (Inr (), commit_entry p (encode S key i) d)))"

section \<open>Paths and keys\<close>

definition memory_path :: path where
  "memory_path = ['':memory:'']"

definition validate_key_path :: "path \<Rightarrow> byte list \<Rightarrow> unit result" where
  "validate_key_path p key =
     (if length key \<noteq> 32 \<or> p = [] \<or> p = memory_path then Inl (InvalidInput ''protected storage'') else Inr ())"

definition hex_byte :: "byte \<Rightarrow> string" where
  "hex_byte b = [hex_digit (unat b div 16), hex_digit (unat b mod 16)]"

definition raw_key :: "byte list \<Rightarrow> string" where
  "raw_key key = ''x'' @ [CHR 0x27] @ concat (map hex_byte key) @ [CHR 0x27]"

definition canonical_path :: "path \<Rightarrow> (error, path) io" where
  "canonical_path p =
     (let parent = (case parent_of p of Some (c # cs) \<Rightarrow> c # cs | _ \<Rightarrow> [''.'']) in
      io_bind (io_result (ok_or (file_name p) (InvalidInput ''storage path''))) (\<lambda>name.
      io_bind (io_map_err (\<lambda>_. Storage) (canonicalize parent)) (\<lambda>dir.
      io_return (dir @ [name]))))"

section \<open>Locks\<close>

fun is_file :: "node \<Rightarrow> bool" where
  "is_file (Regular _) = True"
| "is_file _ = False"

fun is_dir :: "node \<Rightarrow> bool" where
  "is_dir Directory = True"
| "is_dir _ = False"

definition lock_name :: "path \<Rightarrow> path" where
  "lock_name p = butlast p @ [last p @ ''.tundra-lock'']"

definition lock_file :: "path \<Rightarrow> (error, path) io" where
  "lock_file path =
     io_bind (canonical_path path) (\<lambda>p.
     let name = lock_name p in
     io_bind (io_try (stat name)) (\<lambda>found.
     io_bind
       (case found of
          Inr n \<Rightarrow> (if is_file n then io_return () else io_fail Storage)
        | Inl Not_Found \<Rightarrow> io_return ()
        | Inl _ \<Rightarrow> io_fail Storage) (\<lambda>_.
     io_bind (io_map_err (\<lambda>_. Storage) (open_or_create name)) (\<lambda>_.
     io_return name))))"

definition acquire :: "path \<Rightarrow> bool \<Rightarrow> (error, unit) io" where
  "acquire file exclusive =
     io_map_err (\<lambda>e. if e = Would_Block then StorageBusy else Storage) (take_lock file exclusive)"

definition shared_lock :: "path \<Rightarrow> (error, path option) io" where
  "shared_lock path =
     (if path = memory_path then io_return None
      else
        io_bind (lock_file path) (\<lambda>file.
        io_bind (acquire file False) (\<lambda>_.
        io_return (Some file))))"

definition exclusive_lock :: "path \<Rightarrow> (error, path) io" where
  "exclusive_lock path =
     io_bind (lock_file path) (\<lambda>file.
     io_bind (acquire file True) (\<lambda>_.
     io_return file))"

text \<open>A held lock is released when the computation that owns it ends, or only if it fails.\<close>

definition release :: "path option \<Rightarrow> (io_error, unit) io" where
  "release l = (case l of None \<Rightarrow> io_return () | Some file \<Rightarrow> drop_lock file)"

definition io_on_error :: "('e, 'a) io \<Rightarrow> (io_error, unit) io \<Rightarrow> ('e, 'a) io" where
  "io_on_error m c w =
     (case m w of
        (Failed e, w') \<Rightarrow> (case c w' of (Killed, w'') \<Rightarrow> (Killed, w'') | (_, w'') \<Rightarrow> (Failed e, w''))
      | r \<Rightarrow> r)"

section \<open>Opening\<close>

definition open_plain :: "'cs sqlcipher \<Rightarrow> path \<Rightarrow> (error, path option \<times> 'cs image) io" where
  "open_plain S path =
     (if path = memory_path
      then io_bind (io_result (backend S)) (\<lambda>_. io_return (None, empty_image S))
      else
        io_bind (canonical_path path) (\<lambda>p.
        io_bind (io_map_err (\<lambda>_. Storage) (open_or_create p)) (\<lambda>_.
        io_bind (io_result (backend S)) (\<lambda>_.
        io_bind (probe Storage S None p) (\<lambda>i.
        io_return (Some p, i))))))"

definition open_protected :: "'cs sqlcipher \<Rightarrow> path \<Rightarrow> byte list \<Rightarrow> (error, path \<times> 'cs image) io" where
  "open_protected S path key =
     io_bind (io_result (validate_key_path path key)) (\<lambda>_.
     io_bind (canonical_path path) (\<lambda>p.
     io_bind (io_try (stat p)) (\<lambda>found.
     io_bind
       (case found of
          Inr (Regular b) \<Rightarrow> (if length b < 16 then io_fail StorageLocked else io_return ())
        | Inr _ \<Rightarrow> io_fail StorageLocked
        | Inl Not_Found \<Rightarrow> io_return ()
        | Inl _ \<Rightarrow> io_fail Storage) (\<lambda>_.
     io_bind (io_map_err (\<lambda>_. Storage) (open_or_create p)) (\<lambda>_.
     io_bind (io_result (backend S)) (\<lambda>_.
     io_bind (probe StorageLocked S (Some (raw_key key)) p) (\<lambda>i.
     io_return (p, i))))))))"

datatype stored_format = Missing | Plaintext | ProtectedOrUnknown

definition sqlite_header :: string where
  "sqlite_header = ''SQLite format 3'' @ [CHR 0x00]"

definition format_of :: "string \<Rightarrow> stored_format" where
  "format_of header = (if header = sqlite_header then Plaintext else ProtectedOrUnknown)"

definition storage_format :: "path \<Rightarrow> (error, stored_format) io" where
  "storage_format path =
     (if path = [] \<or> path = memory_path then io_fail (InvalidInput ''protected storage'')
      else
        io_bind (canonical_path path) (\<lambda>p.
        io_bind (io_try (stat p)) (\<lambda>found.
        case found of
          Inr (Regular b) \<Rightarrow>
            (if length b < 16 then io_return ProtectedOrUnknown
             else
               io_bind (io_map_err (\<lambda>_. Storage) (read_bytes p)) (\<lambda>bytes.
               if length bytes < 16 then io_fail Storage
               else io_return (format_of (take 16 bytes))))
        | Inr _ \<Rightarrow> io_fail Storage
        | Inl Not_Found \<Rightarrow> io_return Missing
        | Inl _ \<Rightarrow> io_fail Storage)))"

definition integrity :: "'cs image \<Rightarrow> unit result" where
  "integrity i =
     (if im_cipher_faults i then Inl CorruptState
      else if im_integrity i \<noteq> ''ok'' then Inl CorruptState
      else if im_foreign_faults i then Inl CorruptState
      else Inr ())"

text \<open>\<^verbatim>\<open>schema.sql\<close> creates the tables that are missing and sets the version.\<close>

definition schema_names :: "schema_row list \<Rightarrow> string list" where
  "schema_names = map (\<lambda>(_, name, _, _). name)"

definition apply_schema :: "'cs sqlcipher \<Rightarrow> 'cs image \<Rightarrow> 'cs image" where
  "apply_schema S i =
     i\<lparr>im_schema := im_schema i
          @ filter (\<lambda>(_, name, _, _). name \<notin> set (schema_names (im_schema i))) (app_schema S 8),
       im_version := 8\<rparr>"

text \<open>An open \<^verbatim>\<open>Core\<close>: the file of its database, the database and the lock it holds.\<close>

record 'cs open_core =
  oc_path :: "path option"
  oc_key :: "string option"
  oc_image :: "'cs image"
  oc_lock :: "path option"

definition from_connection ::
  "'cs sqlcipher \<Rightarrow> string option \<Rightarrow> path option \<times> 'cs image \<Rightarrow> path option \<Rightarrow> (error, 'cs open_core) io" where
  "from_connection S key conn lock =
     (case conn of (p, i) \<Rightarrow>
        if 8 < im_version i then io_fail CorruptState
        else
          io_bind (case p of
                     None \<Rightarrow> io_return ()
                   | Some file \<Rightarrow> commit_database S key file (apply_schema S i)) (\<lambda>_.
          io_return \<lparr>oc_path = p, oc_key = key, oc_image = apply_schema S i, oc_lock = lock\<rparr>))"

definition core_open :: "'cs sqlcipher \<Rightarrow> path \<Rightarrow> (error, 'cs open_core) io" where
  "core_open S path =
     io_bind (shared_lock path) (\<lambda>lock.
     io_on_error
       (io_bind (open_plain S path) (\<lambda>conn. from_connection S None conn lock))
       (release lock))"

definition core_open_protected :: "'cs sqlcipher \<Rightarrow> path \<Rightarrow> byte list \<Rightarrow> (error, 'cs open_core) io" where
  "core_open_protected S path key =
     io_bind (io_result (validate_key_path path key)) (\<lambda>_.
     io_bind (shared_lock path) (\<lambda>lock.
     io_on_error
       (io_bind (open_protected S path key) (\<lambda>(p, i).
        from_connection S (Some (raw_key key)) (Some p, i) lock))
       (release lock)))"

section \<open>Migrating a plain database\<close>

datatype migration_step = Exported | Verified | Replaced

text \<open>What \<^verbatim>\<open>sqlcipher_export\<close> and the explicit version leave in the copy.\<close>

definition exported_copy :: "'cs image \<Rightarrow> 'cs image" where
  "exported_copy i = i\<lparr>im_application := 0\<rparr>"

definition migrate_body ::
  "'cs sqlcipher \<Rightarrow> (migration_step \<Rightarrow> unit result) \<Rightarrow> path \<Rightarrow> byte list \<Rightarrow> path \<Rightarrow> (error, unit) io" where
  "migrate_body S boundary path key output =
     (let parent = butlast path in
      io_bind (io_map_err (\<lambda>_. Storage) (read_bytes path)) (\<lambda>_.
      io_bind (io_result (backend S)) (\<lambda>_.
      io_bind (probe Storage S None path) (\<lambda>source.
      if wal_held S path then io_fail StorageBusy
      else
        let version = im_version source in
        if \<not> (1 \<le> version \<and> version \<le> 8) then io_fail CorruptState
        else
          io_bind (io_result (boundary Exported)) (\<lambda>_.
          io_bind (io_map_err (\<lambda>_. Storage)
                     (write_bytes output (encode S (Some (raw_key key)) (exported_copy source)))) (\<lambda>_.
          io_bind (open_protected S output key) (\<lambda>(_, verified).
          io_bind (io_result (integrity verified)) (\<lambda>_.
          if im_version verified \<noteq> version then io_fail CorruptState
          else
            io_bind (io_map_err (\<lambda>_. Storage) (sync_file output)) (\<lambda>_.
            io_bind (io_result (boundary Verified)) (\<lambda>_.
            io_bind (io_map_err (\<lambda>_. Storage) (rename_over output path)) (\<lambda>_.
            io_bind (io_map_err (\<lambda>_. Storage) (sync_file path)) (\<lambda>_.
            io_bind (io_result (boundary Replaced)) (\<lambda>_.
            io_map_err (\<lambda>_. Storage) (sync_dir parent))))))))))))))"

definition migrate ::
  "'cs sqlcipher \<Rightarrow> (migration_step \<Rightarrow> unit result) \<Rightarrow> path \<Rightarrow> byte list \<Rightarrow> (error, unit) io" where
  "migrate S boundary path key =
     io_bind (io_result (validate_key_path path key)) (\<lambda>_.
     io_bind (canonical_path path) (\<lambda>path.
     io_bind (lock_file path) (\<lambda>file.
     io_bind (acquire file True) (\<lambda>_.
     io_finally
       (io_bind (storage_format path) (\<lambda>format.
        case format of
          Missing \<Rightarrow> io_fail NotFound
        | ProtectedOrUnknown \<Rightarrow> io_bind (open_protected S path key) (\<lambda>_. io_return ())
        | Plaintext \<Rightarrow> with_temporary (butlast path) ''.tundra-protect-'' (migrate_body S boundary path key)))
       (drop_lock file)))))"

definition migrate_plaintext_storage :: "'cs sqlcipher \<Rightarrow> path \<Rightarrow> byte list \<Rightarrow> (error, unit) io" where
  "migrate_plaintext_storage S path key = migrate S (\<lambda>_. Inr ()) path key"

end
