(* ===== verification/Backup.thy ===== *)
theory Backup
  imports Protected_Storage Recovery
begin

text \<open>
  \<^verbatim>\<open>crates/tundra-core/src/backup.rs\<close>: portable encrypted snapshots. A snapshot is validated
  against the bounded schema before its wallets are looked at, restored only to a path that does
  not exist, and exported only to one.
\<close>

definition MAX_BYTES :: nat where
  "MAX_BYTES = 256 * 1024 * 1024"

definition MAX_STATE_BYTES :: nat where
  "MAX_STATE_BYTES = 16 * 1024 * 1024"

definition APPLICATION_ID :: int where
  "APPLICATION_ID = 0x54444231"

definition SCHEMA_VERSION :: int where
  "SCHEMA_VERSION = 8"

text \<open>The row of \<^verbatim>\<open>sqlite_master\<close> that the manifest's \<^verbatim>\<open>CREATE TABLE\<close> makes.\<close>

definition MANIFEST :: schema_row where
  "MANIFEST = (''table'', ''backup_manifest'', ''backup_manifest'',
     Some (''CREATE TABLE backup_manifest (id INTEGER PRIMARY KEY CHECK(id=1), version INTEGER NOT NULL CHECK(version=1), ''
           @ ''created_at INTEGER NOT NULL CHECK(created_at>=0))''))"

text \<open>The libraries the module calls through its own functions, and SQLCipher.\<close>

record ('w, 'cs) environment =
  en_bitcoin :: bitcoin
  en_codec :: psbt_codec
  en_miniscript :: miniscript
  en_bdk :: "('w, 'cs) bdk"
  en_parse :: "string \<Rightarrow> json option"
  en_print :: "json \<Rightarrow> string"
  en_review_len :: "draft_row \<Rightarrow> nat"
  en_sqlcipher :: "'cs sqlcipher"

record backup_summary =
  bs_created_at :: nat
  bs_wallets :: "wallet_summary list"
  bs_drafts :: nat
  bs_submissions :: nat

section \<open>Passwords and files\<close>

definition password_prefix :: string where
  "password_prefix = ''Tundra backup v1:''"

definition password_key :: "string \<Rightarrow> string result" where
  "password_key password =
     (if char_count password < 16 \<or> 1024 < length password \<or> has_control password
      then Inl (InvalidInput (''backup password must contain at least 16 characters and at most 1024 ''
                  @ ''UTF-8 bytes, without control characters''))
      else Inr (password_prefix @ password))"

definition sidecars :: "string list" where
  "sidecars = [''-wal'', ''-shm'', ''-journal'']"

definition sidecar :: "path \<Rightarrow> string \<Rightarrow> path" where
  "sidecar p suffix = butlast p @ [last p @ suffix]"

fun no_sidecar :: "path \<Rightarrow> string list \<Rightarrow> (error, unit) io" where
  "no_sidecar p [] = io_return ()"
| "no_sidecar p (suffix # rest) =
     io_bind (io_try (stat (sidecar p suffix))) (\<lambda>found.
     if found = Inl Not_Found then no_sidecar p rest else io_fail StorageLocked)"

definition standalone_bytes :: "string \<Rightarrow> bool" where
  "standalone_bytes b \<longleftrightarrow> 4096 \<le> length b \<and> length b \<le> MAX_BYTES \<and> length b mod 4096 = 0"

definition standalone_file :: "path \<Rightarrow> (error, unit) io" where
  "standalone_file p =
     io_bind (io_map_err (\<lambda>_. StorageLocked) (stat p)) (\<lambda>n.
     case n of
       Regular b \<Rightarrow> (if standalone_bytes b then no_sidecar p sidecars else io_fail StorageLocked)
     | _ \<Rightarrow> io_fail StorageLocked)"

definition open_snapshot :: "'cs sqlcipher \<Rightarrow> path \<Rightarrow> string \<Rightarrow> (error, 'cs image) io" where
  "open_snapshot S p key =
     io_bind (standalone_file p) (\<lambda>_.
     io_bind (io_map_err (\<lambda>_. Storage) (read_bytes p)) (\<lambda>_.
     io_bind (io_result (backend S)) (\<lambda>_.
     probe StorageLocked S (Some key) p)))"

section \<open>Validating a snapshot\<close>

definition schema_rows :: "schema_row list \<Rightarrow> schema_row list result" where
  "schema_rows rows =
     (if 128 < length rows
         \<or> list_ex (\<lambda>(_, name, tbl_name, sql). (case sql of None \<Rightarrow> False | Some t \<Rightarrow> 65536 < char_count t)
              \<or> 128 < char_count name \<or> 128 < char_count tbl_name) rows
      then Inl CorruptState
      else Inr (sort_key (\<lambda>(_, name, _, _). name) rows))"

text \<open>The descriptors as the JSON document an import reads.\<close>

definition public_pair :: "string \<Rightarrow> string \<Rightarrow> json" where
  "public_pair external internal =
     JObject [(''descriptors'', JArray
       [JObject [(''desc'', JString external), (''internal'', JBool False)],
        JObject [(''desc'', JString internal), (''internal'', JBool True)]])]"

definition snapshot_wallet :: "('w, 'cs) environment \<Rightarrow> 'cs image \<Rightarrow> string \<Rightarrow> wallet_summary result" where
  "snapshot_wallet E i wid =
     rbind (ok_or (map_of (wallets (im_db i)) wid) Storage) (\<lambda>row.
     rbind (ok_or (raw_value (im_raw i wid)) CorruptState) (\<lambda>(descriptor, change).
     rbind (ok_or descriptor CorruptState) (\<lambda>external.
     rbind (ok_or change CorruptState) (\<lambda>internal.
     if 16384 < length external \<or> 16384 < length internal then Inl CorruptState
     else
       rbind (network_parse (w_network row)) (\<lambda>network.
       rbind (preview_import (en_bitcoin E) (en_miniscript E) (en_bdk E) (en_parse E)
                (en_print E (public_pair external internal)) network) (\<lambda>preview.
       rbind (load (en_bdk E) (im_db i) wid) (\<lambda>loaded.
       if trim (ws_name (l_summary loaded)) = [] \<or> has_control (ws_name (l_summary loaded))
       then Inl CorruptState
       else if ip_policy preview \<noteq> ws_policy (l_summary loaded) then Inl CorruptState
       else Inr ((l_summary loaded)\<lparr>ws_synced_at := None\<rparr>))))))))"

definition excessive_attempts :: "'cs db \<Rightarrow> bool" where
  "excessive_attempts db =
     list_ex (\<lambda>r. 64 < length (attempts_of db (a_wallet (snd r)) (a_draft (snd r)))) (broadcast_attempts db)"

definition validate :: "('w, 'cs) environment \<Rightarrow> 'cs image \<Rightarrow> backup_summary result" where
  "validate E i =
     (if im_application i < 0 \<or> im_version i < 0 then Inl Storage
      else if im_application i \<noteq> APPLICATION_ID \<or> \<not> (7 \<le> im_version i \<and> im_version i \<le> SCHEMA_VERSION)
        then Inl CorruptState
      else
        rbind (backend (en_sqlcipher E)) (\<lambda>_.
        rbind (schema_rows (im_schema i)) (\<lambda>found.
        rbind (schema_rows (app_schema (en_sqlcipher E) (nat (im_version i)) @ [MANIFEST])) (\<lambda>expected.
        if found \<noteq> expected then Inl CorruptState
        else
          rbind (integrity i) (\<lambda>_.
          rbind (ok_or (find (\<lambda>(row, version, _). row = 1 \<and> version = 1) (im_manifest i)) Storage)
            (\<lambda>(_, _, created_at).
          if 1000 < length (wallets (im_db i)) then Inl CorruptState
          else if 10000 < length (drafts (im_db i)) \<or> excessive_attempts (im_db i) then Inl CorruptState
          else if list_ex (\<lambda>(wid, _). MAX_STATE_BYTES < raw_length (im_raw i wid)) (wallets (im_db i))
            then Inl CorruptState
          else
            rbind (rmap (snapshot_wallet E i)
                     (map fst (sort_key (\<lambda>(wid, row). (w_created_at row, wid)) (wallets (im_db i))))) (\<lambda>ws.
            Inr \<lparr>bs_created_at = created_at, bs_wallets = ws, bs_drafts = length (drafts (im_db i)),
                 bs_submissions = length (broadcast_attempts (im_db i))\<rparr>)))))))"

definition inspect_backup ::
  "('w, 'cs) environment \<Rightarrow> path \<Rightarrow> string \<Rightarrow> (error, backup_summary) io" where
  "inspect_backup E path password =
     io_bind (io_result (password_key password)) (\<lambda>key.
     io_bind (canonical_path path) (\<lambda>p.
     io_bind (open_snapshot (en_sqlcipher E) p key) (\<lambda>i.
     io_result (validate E i))))"

section \<open>Restoring\<close>

text \<open>\<^verbatim>\<open>RestoreStep\<close> and \<^verbatim>\<open>ExportStep\<close> have the same three cases.\<close>

datatype snapshot_step = Copied | Verified | Installed

definition restored_image :: "'cs sqlcipher \<Rightarrow> 'cs image \<Rightarrow> 'cs db \<Rightarrow> 'cs image" where
  "restored_image S i db =
     (apply_schema S (i\<lparr>im_schema := filter (\<lambda>(_, name, _, _). name \<noteq> ''backup_manifest'') (im_schema i),
                       im_manifest := [], im_application := 0\<rparr>))\<lparr>im_db := db\<rparr>"

definition copy_source :: "path \<Rightarrow> path \<Rightarrow> (error, unit) io" where
  "copy_source source input =
     io_bind (io_map_err (\<lambda>_. Storage) (stat source)) (\<lambda>n.
     case n of
       Symlink _ \<Rightarrow> io_fail Storage
     | Regular _ \<Rightarrow>
         io_bind (io_map_err (\<lambda>_. Storage) (read_bytes source)) (\<lambda>bytes.
         io_bind (io_map_err (\<lambda>_. Storage) (write_bytes input (take (MAX_BYTES + 1) bytes))) (\<lambda>_.
         if MAX_BYTES < length bytes then io_fail StorageLocked else io_return ()))
     | _ \<Rightarrow> io_fail StorageLocked)"

text \<open>A database written in one transaction to a new file of bounded size.\<close>

definition write_database ::
  "'cs sqlcipher \<Rightarrow> string \<Rightarrow> path \<Rightarrow> 'cs image \<Rightarrow> (error, unit) io" where
  "write_database S key p i =
     (if MAX_BYTES < length (encode S (Some key) i) then io_fail Storage
      else io_map_err (\<lambda>_. Storage) (write_bytes p (encode S (Some key) i)))"

definition install :: "path \<Rightarrow> path \<Rightarrow> (error, unit) io" where
  "install temporary p =
     io_map_err (\<lambda>e. if e = Exists then AlreadyExists else Storage) (rename_new temporary p)"

definition restore_output ::
  "('w, 'cs) environment \<Rightarrow> (snapshot_step \<Rightarrow> unit result) \<Rightarrow> path \<Rightarrow> byte list \<Rightarrow> 'cs image \<Rightarrow>
   backup_summary \<Rightarrow> path \<Rightarrow> (error, backup_summary) io" where
  "restore_output E boundary destination key i report output =
     (let S = en_sqlcipher E in
      io_bind (io_result (backend S)) (\<lambda>_.
      io_bind (io_result (suspend (en_bitcoin E) (en_codec E) (en_bdk E) (en_review_len E) (im_db i))) (\<lambda>db.
      io_bind (io_result (boundary Copied)) (\<lambda>_.
      io_bind (write_database S (raw_key key) output (restored_image S i db)) (\<lambda>_.
      io_bind (open_protected S output key) (\<lambda>(_, verified).
      io_bind (io_result (integrity verified)) (\<lambda>_.
      if list_ex (\<lambda>(_, row). w_synced_at row \<noteq> None) (wallets (im_db verified)) then io_fail CorruptState
      else
        io_bind (io_result (rfold (\<lambda>ws _. rbind (load (en_bdk E) (im_db verified) (ws_id ws)) (\<lambda>_. Inr ()))
                              (bs_wallets report) ())) (\<lambda>_.
        io_bind (io_map_err (\<lambda>_. Storage) (sync_file output)) (\<lambda>_.
        io_bind (io_result (boundary Verified)) (\<lambda>_.
        io_bind (install output destination) (\<lambda>_.
        io_bind (io_map_err (\<lambda>_. Storage) (sync_file destination)) (\<lambda>_.
        io_bind (io_result (boundary Installed)) (\<lambda>_.
        io_bind (io_map_err (\<lambda>_. Storage) (sync_dir (butlast destination))) (\<lambda>_.
        io_return report))))))))))))))"

definition restore_input ::
  "('w, 'cs) environment \<Rightarrow> (snapshot_step \<Rightarrow> unit result) \<Rightarrow> path \<Rightarrow> path \<Rightarrow> string \<Rightarrow> byte list \<Rightarrow>
   path \<Rightarrow> (error, backup_summary) io" where
  "restore_input E boundary source destination secret key input =
     io_bind (copy_source source input) (\<lambda>_.
     io_bind (open_snapshot (en_sqlcipher E) input secret) (\<lambda>i.
     io_bind (io_result (validate E i)) (\<lambda>report.
     with_temporary (butlast destination) ''.tundra-restore-output-''
       (restore_output E boundary destination key i report))))"

definition restore_snapshot ::
  "('w, 'cs) environment \<Rightarrow> (snapshot_step \<Rightarrow> unit result) \<Rightarrow> path \<Rightarrow> path \<Rightarrow> string \<Rightarrow> byte list \<Rightarrow>
   (error, backup_summary) io" where
  "restore_snapshot E boundary source destination password key =
     io_bind (io_result (validate_key_path destination key)) (\<lambda>_.
     io_bind (io_result (password_key password)) (\<lambda>secret.
     io_bind (canonical_path source) (\<lambda>source.
     io_bind (canonical_path destination) (\<lambda>destination.
     io_bind (exclusive_lock destination) (\<lambda>lock.
     io_finally
       (io_bind (io_try (stat destination)) (\<lambda>found.
        if found \<noteq> Inl Not_Found then io_fail AlreadyExists
        else
          io_bind (standalone_file source) (\<lambda>_.
          with_temporary (butlast destination) ''.tundra-restore-input-''
            (restore_input E boundary source destination secret key))))
       (drop_lock lock))))))"

definition restore_backup ::
  "('w, 'cs) environment \<Rightarrow> path \<Rightarrow> path \<Rightarrow> string \<Rightarrow> byte list \<Rightarrow> (error, backup_summary) io" where
  "restore_backup E = restore_snapshot E (\<lambda>_. Inr ())"

section \<open>Exporting\<close>

definition exported_image :: "'cs image \<Rightarrow> nat \<Rightarrow> 'cs image" where
  "exported_image i now =
     i\<lparr>im_schema := im_schema i @ [MANIFEST], im_manifest := [(1, 1, now)], im_version := SCHEMA_VERSION,
       im_application := APPLICATION_ID\<rparr>"

definition export_output ::
  "('w, 'cs) environment \<Rightarrow> (snapshot_step \<Rightarrow> unit result) \<Rightarrow> nat result \<Rightarrow> 'cs image \<Rightarrow> path \<Rightarrow> string \<Rightarrow>
   path \<Rightarrow> (error, backup_summary) io" where
  "export_output E boundary at_time i path key output =
     (let S = en_sqlcipher E in
      if im_version i \<noteq> SCHEMA_VERSION then io_fail CorruptState
      else
        io_bind (io_result at_time) (\<lambda>now.
        io_bind (io_result (boundary Copied)) (\<lambda>_.
        io_bind (write_database S key output (exported_image i now)) (\<lambda>_.
        io_bind (open_snapshot S output key) (\<lambda>verified.
        io_bind (io_result (validate E verified)) (\<lambda>report.
        io_bind (io_map_err (\<lambda>_. Storage) (sync_file output)) (\<lambda>_.
        io_bind (io_result (boundary Verified)) (\<lambda>_.
        io_bind (install output path) (\<lambda>_.
        io_bind (io_map_err (\<lambda>_. Storage) (sync_file path)) (\<lambda>_.
        io_bind (io_result (boundary Installed)) (\<lambda>_.
        io_bind (io_map_err (\<lambda>_. Storage) (sync_dir (butlast path))) (\<lambda>_.
        io_return report))))))))))))"

definition export_snapshot ::
  "('w, 'cs) environment \<Rightarrow> (snapshot_step \<Rightarrow> unit result) \<Rightarrow> nat result \<Rightarrow> 'cs open_core \<Rightarrow> path \<Rightarrow> string \<Rightarrow>
   (error, backup_summary) io" where
  "export_snapshot E boundary at_time core path password =
     io_bind (io_result (password_key password)) (\<lambda>key.
     io_bind (canonical_path path) (\<lambda>p.
     io_bind (io_try (stat p)) (\<lambda>found.
     if found \<noteq> Inl Not_Found then io_fail AlreadyExists
     else
       with_temporary (butlast p) ''.tundra-backup-'' (export_output E boundary at_time (oc_image core) p key))))"

definition export_backup ::
  "('w, 'cs) environment \<Rightarrow> nat result \<Rightarrow> 'cs open_core \<Rightarrow> path \<Rightarrow> string \<Rightarrow> (error, backup_summary) io" where
  "export_backup E = export_snapshot E (\<lambda>_. Inr ())"

end
