(* ===== verification/Store_Selection.thy ===== *)
theory Store_Selection
  imports Backup
begin

text \<open>
  \<^verbatim>\<open>crates/tundra-core/src/store_selection.rs\<close>: which directory holds the wallet's store, and a
  recovery into a new one. The selector is a small file replaced atomically; a recovery creates a
  candidate directory, restores a backup into it and only then selects it, under an exclusive lock
  from its beginning to its end.
\<close>

definition SELECTOR :: string where
  "SELECTOR = ''active-store.v1''"

definition STORES :: string where
  "STORES = ''restored-stores''"

definition HEADER :: string where
  "HEADER = ''Tundra store v1'' @ [CHR 0x0A]"

record storage_location =
  sl_generation :: string
  sl_directory :: path
  sl_require_existing :: bool

section \<open>Reading the selection\<close>

text \<open>Present and of the right kind, or absent; anything else is an error.\<close>

definition kind_of :: "(node \<Rightarrow> bool) \<Rightarrow> path \<Rightarrow> (error, bool) io" where
  "kind_of kind p =
     io_bind (io_try (stat p)) (\<lambda>found.
     case found of
       Inr n \<Rightarrow> (if kind n then io_return True else io_fail Storage)
     | Inl Not_Found \<Rightarrow> io_return False
     | Inl _ \<Rightarrow> io_fail Storage)"

definition regular :: "path \<Rightarrow> (error, bool) io" where
  "regular = kind_of is_file"

definition directory :: "path \<Rightarrow> (error, bool) io" where
  "directory = kind_of is_dir"

definition store_root :: "path \<Rightarrow> (error, path) io" where
  "store_root path =
     io_bind (io_map_err (\<lambda>_. Storage) (canonicalize path)) (\<lambda>canonical.
     io_bind (io_map_err (\<lambda>_. Storage) (stat canonical)) (\<lambda>n.
     if is_dir n then io_return canonical else io_fail Storage))"

definition is_alphanumeric :: "char \<Rightarrow> bool" where
  "is_alphanumeric c =
     ((CHR ''0'' \<le> c \<and> c \<le> CHR ''9'') \<or> (CHR ''A'' \<le> c \<and> c \<le> CHR ''Z'') \<or> (CHR ''a'' \<le> c \<and> c \<le> CHR ''z''))"

definition valid_generation :: "string \<Rightarrow> bool" where
  "valid_generation v =
     (length v = 22 \<and> starts_with ''store-'' v \<and> list_all is_alphanumeric (drop 6 v))"

text \<open>
  The generation a selector names. Bytes that are not UTF-8 fail the same tests: a generation is
  \<^verbatim>\<open>default\<close> or ASCII.
\<close>

definition selector_generation :: "string \<Rightarrow> string option" where
  "selector_generation bytes =
     Option.bind (strip_prefix HEADER (take 65 bytes)) (strip_suffix [CHR 0x0A])"

definition read_selection :: "path \<Rightarrow> (error, storage_location) io" where
  "read_selection root =
     io_bind (regular (root @ [SELECTOR])) (\<lambda>present.
     if \<not> present
     then
       io_bind (directory (root @ [STORES])) (\<lambda>stores.
       if stores then io_fail StorageLocked
       else io_return \<lparr>sl_generation = ''default'', sl_directory = root, sl_require_existing = False\<rparr>)
     else
       io_bind (io_map_err (\<lambda>_. Storage) (read_bytes (root @ [SELECTOR]))) (\<lambda>bytes.
       io_bind (io_result (ok_or (selector_generation bytes) StorageLocked)) (\<lambda>generation.
       io_bind
         (if generation = ''default'' then io_return root
          else if valid_generation generation
            then
              io_bind (directory (root @ [STORES])) (\<lambda>stores.
              if stores then io_return (root @ [STORES, generation]) else io_fail StorageLocked)
          else io_fail StorageLocked) (\<lambda>location.
       io_bind (directory location) (\<lambda>found.
       if \<not> found then io_fail StorageLocked
       else io_return \<lparr>sl_generation = generation, sl_directory = location, sl_require_existing = True\<rparr>)))))"

definition selected_storage :: "path \<Rightarrow> (error, storage_location) io" where
  "selected_storage path =
     io_bind (store_root path) (\<lambda>root.
     io_bind (shared_lock (root @ [SELECTOR])) (\<lambda>lock.
     io_finally (read_selection root) (release lock)))"

section \<open>Writing the selection\<close>

definition sync_directory :: "path \<Rightarrow> (error, unit) io" where
  "sync_directory p = io_map_err (\<lambda>_. Storage) (sync_dir p)"

definition selector_text :: "string \<Rightarrow> string" where
  "selector_text generation = HEADER @ generation @ [CHR 0x0A]"

definition write_selection :: "path \<Rightarrow> string \<Rightarrow> (error, unit) io" where
  "write_selection root generation =
     io_bind (regular (root @ [SELECTOR])) (\<lambda>_.
     with_temporary root ''.active-store-'' (\<lambda>temp.
       io_bind (io_map_err (\<lambda>_. Storage) (write_bytes temp (selector_text generation))) (\<lambda>_.
       io_bind (io_map_err (\<lambda>_. Storage) (sync_file temp)) (\<lambda>_.
       io_bind (io_map_err (\<lambda>_. Storage) (rename_over temp (root @ [SELECTOR]))) (\<lambda>_.
       sync_directory root)))))"

section \<open>A recovery\<close>

datatype boundary = Anchored | Allocated | Candidate_Verified | Selected

record storage_restore =
  sr_root :: path
  sr_location :: storage_location
  sr_database :: string
  sr_key :: "byte list option"
  sr_activated :: bool
  sr_lock :: path

definition name_char :: "char \<Rightarrow> bool" where
  "name_char c = (is_alphanumeric c \<or> c = CHR ''.'' \<or> c = CHR ''_'' \<or> c = CHR ''-'')"

definition valid_database_name :: "string \<Rightarrow> bool" where
  "valid_database_name name =
     (\<not> (name = [] \<or> 64 < length name \<or> name = ''.'' \<or> name = ''..'' \<or> \<not> list_all name_char name))"

definition allocate_candidate ::
  "(boundary \<Rightarrow> unit result) \<Rightarrow> path \<Rightarrow> string \<Rightarrow> path \<Rightarrow> bool \<Rightarrow> (error, storage_restore) io" where
  "allocate_candidate step root name lock stores_exist =
     (let stores = root @ [STORES] in
      io_bind
        (if \<not> stores_exist
         then io_bind (io_map_err (\<lambda>_. Storage) (create_new stores Directory)) (\<lambda>_. sync_directory root)
         else io_return ()) (\<lambda>_.
      io_bind (io_map_err (\<lambda>_. Storage) (create_temporary stores ''store-'' Directory)) (\<lambda>candidate.
      io_bind (sync_directory stores) (\<lambda>_.
      io_bind (io_result (step Allocated)) (\<lambda>_.
      if \<not> valid_generation (last candidate) then io_fail Storage
      else
        io_return
          \<lparr>sr_root = root,
           sr_location = \<lparr>sl_generation = last candidate, sl_directory = candidate, sl_require_existing = True\<rparr>,
           sr_database = name, sr_key = None, sr_activated = False, sr_lock = lock\<rparr>)))))"

definition begin_locked ::
  "(boundary \<Rightarrow> unit result) \<Rightarrow> path \<Rightarrow> string \<Rightarrow> path \<Rightarrow> (error, storage_restore) io" where
  "begin_locked step root name lock =
     io_bind (directory (root @ [STORES])) (\<lambda>stores_exist.
     io_bind (regular (root @ [SELECTOR])) (\<lambda>present.
     io_bind (if \<not> present \<and> \<not> stores_exist then write_selection root ''default'' else io_return ()) (\<lambda>_.
     io_bind (io_result (step Anchored)) (\<lambda>_.
     allocate_candidate step root name lock stores_exist))))"

definition begin_at ::
  "(boundary \<Rightarrow> unit result) \<Rightarrow> path \<Rightarrow> string \<Rightarrow> (error, storage_restore) io" where
  "begin_at step path name =
     (if \<not> valid_database_name name then io_fail (InvalidInput ''storage name'')
      else
        io_bind (store_root path) (\<lambda>root.
        io_bind (exclusive_lock (root @ [SELECTOR])) (\<lambda>lock.
        io_on_error (begin_locked step root name lock) (drop_lock lock))))"

definition begin_restore :: "path \<Rightarrow> string \<Rightarrow> (error, storage_restore) io" where
  "begin_restore = begin_at (\<lambda>_. Inr ())"

definition database_path :: "storage_restore \<Rightarrow> path" where
  "database_path s = sl_directory (sr_location s) @ [sr_database s]"

text \<open>
  A method on \<^verbatim>\<open>&mut self\<close> returns its result beside the state it leaves; it never fails in
  another way.
\<close>

definition restore_store ::
  "('w, 'cs) environment \<Rightarrow> path \<Rightarrow> string \<Rightarrow> byte list \<Rightarrow> storage_restore \<Rightarrow>
   (error, backup_summary result \<times> storage_restore) io" where
  "restore_store E source password key s =
     (if sr_key s \<noteq> None \<or> sr_activated s then io_return (Inl Storage, s)
      else
        io_bind (io_try (restore_backup E source (database_path s) password key)) (\<lambda>r.
        case r of
          Inl e \<Rightarrow> io_return (Inl e, s)
        | Inr report \<Rightarrow> io_return (Inr report, s\<lparr>sr_key := Some key\<rparr>)))"

definition verify_candidate :: "('w, 'cs) environment \<Rightarrow> storage_restore \<Rightarrow> byte list \<Rightarrow> (error, unit) io" where
  "verify_candidate E s key =
     io_bind (directory (sl_directory (sr_location s))) (\<lambda>found.
     io_bind (if found then storage_format (database_path s) else io_return Missing) (\<lambda>format.
     if \<not> found \<or> format \<noteq> ProtectedOrUnknown then io_fail StorageLocked
     else
       io_bind (core_open_protected (en_sqlcipher E) (database_path s) key) (\<lambda>core.
       io_finally
         (io_bind (io_result (wallet_list (en_bitcoin E) (en_bdk E) (im_db (oc_image core)))) (\<lambda>_. io_return ()))
         (release (oc_lock core)))))"

definition switch_store ::
  "('w, 'cs) environment \<Rightarrow> (boundary \<Rightarrow> unit result) \<Rightarrow> storage_restore \<Rightarrow> (error, unit) io" where
  "switch_store E step s =
     (if sr_activated s then io_fail Storage
      else
        io_bind (io_result (ok_or (sr_key s) Storage)) (\<lambda>key.
        io_bind (verify_candidate E s key) (\<lambda>_.
        io_bind (sync_directory (sl_directory (sr_location s))) (\<lambda>_.
        io_bind (io_result (step Candidate_Verified)) (\<lambda>_.
        write_selection (sr_root s) (sl_generation (sr_location s)))))))"

definition activate_at ::
  "('w, 'cs) environment \<Rightarrow> (boundary \<Rightarrow> unit result) \<Rightarrow> storage_restore \<Rightarrow>
   (error, unit result \<times> storage_restore) io" where
  "activate_at E step s =
     io_bind (io_try (switch_store E step s)) (\<lambda>r.
     case r of
       Inl e \<Rightarrow> io_return (Inl e, s)
     | Inr _ \<Rightarrow> io_return (step Selected, s\<lparr>sr_activated := True, sr_key := None\<rparr>))"

definition activate ::
  "('w, 'cs) environment \<Rightarrow> storage_restore \<Rightarrow> (error, unit result \<times> storage_restore) io" where
  "activate E = activate_at E (\<lambda>_. Inr ())"

definition drop_restore :: "storage_restore \<Rightarrow> (io_error, unit) io" where
  "drop_restore s = drop_lock (sr_lock s)"

end
