(* ===== verification/Storage_Facts.thy ===== *)
theory Storage_Facts
  imports Protected_Storage
begin

text \<open>
  What the storage layer guarantees whatever call fails and wherever the process is killed: a
  migration leaves the plain database or its complete protected copy, opening with a wrong key
  leaves the file as it was, and a raw key determines the key it was written from.
\<close>

section \<open>Rules of the building blocks\<close>

lemma file_name_snoc [simp]: "plain_name n \<Longrightarrow> file_name (dir @ [n]) = Some n"
  by (simp add: file_name_def plain_name_def)

lemma parent_of_snoc [simp]: "dir \<noteq> [] \<Longrightarrow> parent_of (dir @ [n]) = Some dir"
  by (simp add: parent_of_def)

lemma wp_canonical_path [wp_rules]:
  assumes "real_dir d dir" and "plain_name n" and "\<And>e. E e d" and "K d" and "Q (dir @ [n]) d"
  shows "wp (canonical_path (dir @ [n])) Q E K d"
proof (cases dir)
  case Nil thus ?thesis using assms(1) by (simp add: real_dir_def)
next
  case (Cons c cs)
  have resolved: "resolve (live d) MAX_LINKS at (c # cs) = Some q \<Longrightarrow> Q (q @ [n]) d" for at q
    using resolve_real_dir [OF assms(1)] assms(5) Cons by fastforce
  have "parent_of (dir @ [n]) = Some (c # cs)" using Cons by (simp add: parent_of_def)
  moreover have "file_name (dir @ [n]) = Some n" using assms(2) by simp
  ultimately show ?thesis
    unfolding canonical_path_def Let_def
    using assms(3,4) by (auto intro!: wp_rules wp_canonicalize resolved)
qed

lemma lock_name_snoc [simp]: "lock_name (dir @ [n]) = dir @ [n @ ''.tundra-lock'']"
  by (simp add: lock_name_def)

text \<open>Opening the lock file touches only the lock file.\<close>

lemma wp_lock_file [wp_rules]:
  assumes "real_dir d dir" and "plain_name n" and "\<And>e. E e d" and "K d"
    and "Q (dir @ [n @ ''.tundra-lock'']) d"
    and "live d (dir @ [n @ ''.tundra-lock'']) = None \<Longrightarrow>
         Q (dir @ [n @ ''.tundra-lock'']) (set_entry (dir @ [n @ ''.tundra-lock'']) (Some (Regular [])) False d)"
  shows "wp (lock_file (dir @ [n])) Q E K d"
  unfolding lock_file_def Let_def
  by (intro wp_bind wp_canonical_path [OF assms(1,2)])
    (use assms(3-) in \<open>auto intro!: wp_rules split: sum.split io_error.split\<close>)

lemma wp_acquire [wp_rules]:
  "(\<And>e. E e d) \<Longrightarrow> K d \<Longrightarrow> Q () d \<Longrightarrow> wp (acquire f x) Q E K d"
  unfolding acquire_def by (auto intro!: wp_rules)

text \<open>A protected database is opened in place and its bytes are what the key decodes.\<close>

lemma wp_probe [wp_rules]:
  assumes "\<And>e. E e d" and "K d"
    and "\<And>b i. live d p = Some (Regular b) \<Longrightarrow> decode S key b = Some i \<Longrightarrow> Q i d"
  shows "wp (probe x S key p) Q E K d"
  unfolding probe_def using assms by (auto intro!: wp_rules simp: ok_or_def split: option.splits)

lemma wp_open_protected [wp_rules]:
  assumes "real_dir d dir" and "plain_name n" and "live d (dir @ [n]) = Some (Regular b)"
    and "\<And>e. E e d" and "K d"
    and "\<And>i. decode S (Some (raw_key key)) b = Some i \<Longrightarrow> Q (dir @ [n], i) d"
  shows "wp (open_protected S (dir @ [n]) key) Q E K d"
  unfolding open_protected_def
  by (intro wp_bind wp_result wp_canonical_path [OF assms(1,2)])
    (use assms(3-) in \<open>auto intro!: wp_rules split: sum.split io_error.split node.split\<close>)

lemma wp_storage_format [wp_rules]:
  assumes "real_dir d dir" and "plain_name n" and "\<And>e. E e d" and "K d"
    and "live d (dir @ [n]) = None \<Longrightarrow> Q Missing d"
    and "\<And>b. live d (dir @ [n]) = Some (Regular b) \<Longrightarrow>
           Q (if length b < 16 then ProtectedOrUnknown else format_of (take 16 b)) d"
  shows "wp (storage_format (dir @ [n])) Q E K d"
  unfolding storage_format_def
  by (intro wp_bind wp_if wp_fail wp_canonical_path [OF assms(1,2)])
    (use assms(3-) in \<open>auto intro!: wp_rules split: sum.split io_error.split node.split\<close>)

section \<open>Migrating\<close>

text \<open>The plain database, or its complete copy under the key.\<close>

definition migrated :: "'cs sqlcipher \<Rightarrow> byte list \<Rightarrow> string \<Rightarrow> 'cs image \<Rightarrow> node option set" where
  "migrated S key b i =
     {Some (Regular b), Some (Regular (encode S (Some (raw_key key)) (exported_copy i)))}"

definition migrating :: "'cs sqlcipher \<Rightarrow> byte list \<Rightarrow> path \<Rightarrow> string \<Rightarrow> string \<Rightarrow> 'cs image \<Rightarrow> disk \<Rightarrow> bool" where
  "migrating S key dir n b i d \<longleftrightarrow> real_dir d dir \<and> choices d (dir @ [n]) (migrated S key b i)"

lemma wp_migrate_body:
  assumes plain: "choices d (dir @ [n]) {Some (Regular b)}" and real: "real_dir d dir"
    and names: "plain_name n" "plain_name t" "t \<noteq> n"
    and fresh: "live d (dir @ [t]) = Some (Regular [])" and source: "decode S None b = Some i"
  shows "wp (migrate_body S boundary (dir @ [n]) key (dir @ [t]))
           (\<lambda>_ x. real_dir x dir \<and> live x (dir @ [t]) = None \<and>
              choices x (dir @ [n]) {Some (Regular (encode S (Some (raw_key key)) (exported_copy i)))})
           (\<lambda>_ x. real_dir x dir \<and> choices x (dir @ [n]) (migrated S key b i))
           (\<lambda>x. choices x (dir @ [n]) (migrated S key b i)) d"
proof -
  let ?p = "dir @ [n]" and ?t = "dir @ [t]" and ?c = "encode S (Some (raw_key key)) (exported_copy i)"
  have here: "live d ?p = Some (Regular b)" using choices_live [OF plain] by simp
  have old: "choices d ?p (migrated S key b i)"
    by (rule choices_mono [OF plain]) (simp add: migrated_def)
  have new: "Some (Regular ?c) \<in> migrated S key b i" by (simp add: migrated_def)
  show ?thesis
    unfolding migrate_body_def Let_def
    using real names fresh here old new source
    by (auto intro!: wp_rules real_dir_changes choices_flush choices_move choices_settled_to
        simp: disk_simps stable_node_def)
qed

text \<open>
  With the temporary file around the body and the lock around it all, only the file itself is at
  stake.
\<close>

lemma plain_temporary: "\<exists>s. t = ''.tundra-protect-'' @ s \<Longrightarrow> plain_name t"
  by (auto simp: plain_name_def root_component_def)

lemma wp_migrate_plain:
  assumes plain: "choices d (dir @ [n]) {Some (Regular b)}" and real: "real_dir d dir"
    and n: "plain_name n" and source: "decode S None b = Some i"
  shows "wp (with_temporary dir ''.tundra-protect-'' (migrate_body S boundary (dir @ [n]) key))
           (\<lambda>_ x. choices x (dir @ [n]) {Some (Regular (encode S (Some (raw_key key)) (exported_copy i)))})
           (\<lambda>_ x. choices x (dir @ [n]) (migrated S key b i))
           (\<lambda>x. choices x (dir @ [n]) (migrated S key b i)) d"
proof -
  have old: "choices d (dir @ [n]) (migrated S key b i)"
    by (rule choices_mono [OF plain]) (simp add: migrated_def)
  have new: "choices x p {Some (Regular (encode S (Some (raw_key key)) (exported_copy i)))} \<Longrightarrow>
      choices x p (migrated S key b i)" for x p
    by (erule choices_mono) (simp add: migrated_def)
  have here: "live d (dir @ [n]) = Some (Regular b)" using choices_live [OF plain] by simp
  show ?thesis
  proof (rule wp_with_temporary)
    fix t
    assume "\<exists>s. t = ''.tundra-protect-'' @ s" and free: "live d (dir @ [t]) = None"
    hence t: "plain_name t" "t \<noteq> n" using plain_temporary here by auto
    show "wp (migrate_body S boundary (dir @ [n]) key (dir @ [t]))
       (\<lambda>a x. choices x (dir @ [n]) {Some (Regular (encode S (Some (raw_key key)) (exported_copy i)))} \<and>
          choices x (dir @ [n]) (migrated S key b i) \<and>
          choices (set_entry (dir @ [t]) None True x) (dir @ [n])
            {Some (Regular (encode S (Some (raw_key key)) (exported_copy i)))})
       (\<lambda>e x. choices x (dir @ [n]) (migrated S key b i) \<and> choices x (dir @ [n]) (migrated S key b i) \<and>
          choices (set_entry (dir @ [t]) None True x) (dir @ [n]) (migrated S key b i))
       (\<lambda>x. choices x (dir @ [n]) (migrated S key b i))
       (set_entry (dir @ [t]) (Some (Regular [])) False d)"
      by (rule wp_conseq [OF wp_migrate_body [OF _ _ n t _ source]])
        (use t free plain new in \<open>auto intro: real_dir_changes [OF real] simp: disk_simps\<close>)
  qed (rule old)+
qed

lemma wp_migrate:
  assumes plain: "choices d (dir @ [n]) {Some (Regular b)}" and real: "real_dir d dir"
    and n: "plain_name n" and size: "16 \<le> length b" "take 16 b = sqlite_header"
    and source: "decode S None b = Some i"
  shows "wp (migrate S boundary (dir @ [n]) key)
           (\<lambda>_ x. choices x (dir @ [n]) {Some (Regular (encode S (Some (raw_key key)) (exported_copy i)))})
           (\<lambda>_ x. choices x (dir @ [n]) (migrated S key b i))
           (\<lambda>x. choices x (dir @ [n]) (migrated S key b i)) d"
proof -
  have old: "choices d (dir @ [n]) (migrated S key b i)"
    by (rule choices_mono [OF plain]) (simp add: migrated_def)
  have here: "live d (dir @ [n]) = Some (Regular b)" using choices_live [OF plain] by simp
  have format: "(if length b < 16 then ProtectedOrUnknown else format_of (take 16 b)) = Plaintext"
    using size by (simp add: format_of_def)
  have locked: "wp (with_temporary dir ''.tundra-protect-'' (migrate_body S boundary (dir @ [n]) key))
           (\<lambda>a. wp (drop_lock f)
              (\<lambda>_ x. choices x (dir @ [n]) {Some (Regular (encode S (Some (raw_key key)) (exported_copy i)))})
              (\<lambda>_ x. choices x (dir @ [n]) {Some (Regular (encode S (Some (raw_key key)) (exported_copy i)))})
              (\<lambda>x. choices x (dir @ [n]) (migrated S key b i)))
           (\<lambda>e. wp (drop_lock f) (\<lambda>_ x. choices x (dir @ [n]) (migrated S key b i))
              (\<lambda>_ x. choices x (dir @ [n]) (migrated S key b i))
              (\<lambda>x. choices x (dir @ [n]) (migrated S key b i)))
           (\<lambda>x. choices x (dir @ [n]) (migrated S key b i)) x"
    if "choices x (dir @ [n]) {Some (Regular b)}" "real_dir x dir" for x f
    by (rule wp_conseq [OF wp_migrate_plain [OF that n source]]) (auto intro: wp_drop_lock)
  show ?thesis
    unfolding migrate_def butlast_snoc
    using n old here format real plain
    by (auto intro!: wp_rules locked real_dir_changes simp: disk_simps)
qed

text \<open>
  C17. Whatever call of a migration fails and wherever the process is killed, after a loss of power
  the file is the plain database as it was, or the complete protected copy of it; once
  \<^verbatim>\<open>migrate_plaintext_storage\<close> has returned it is the protected copy.
\<close>

theorem migration_keeps_database:
  assumes "real_dir (files w) dir" and "plain_name n" and "quiet (files w) (dir @ [n])"
    and "live (files w) (dir @ [n]) = Some (Regular b)" and "16 \<le> length b" and "take 16 b = sqlite_header"
    and "decode S None b = Some i"
    and codec: "decode S (Some (raw_key key)) (encode S (Some (raw_key key)) (exported_copy i)) = Some (exported_copy i)"
    and "migrate S boundary (dir @ [n]) key w = (r, w')" and "power_loss (files w') d'"
  shows "\<exists>c. live d' (dir @ [n]) = Some (Regular c)
           \<and> (decode S (Some (raw_key key)) c = Some (exported_copy i) \<or> (c = b \<and> r \<noteq> Returned ()))"
proof -
  let ?p = "dir @ [n]" and ?c = "encode S (Some (raw_key key)) (exported_copy i)"
  have "choices (files w) ?p {Some (Regular b)}" using assms(3,4) by (simp add: choices_quiet)
  note run = wpD [OF wp_migrate [where boundary = boundary and key = key, OF this assms(1,2,5,6,7)]]
  show ?thesis
  proof (cases r)
    case (Returned u)
    hence "live d' ?p \<in> {Some (Regular ?c)}"
      using assms(9) by (intro choices_power_loss [OF run(1) assms(10)]) simp
    thus ?thesis using codec by simp
  next
    case (Failed e)
    hence "live d' ?p \<in> migrated S key b i"
      using assms(9) by (intro choices_power_loss [OF run(2) assms(10)]) simp
    thus ?thesis using codec Failed by (auto simp: migrated_def)
  next
    case Killed
    hence "live d' ?p \<in> migrated S key b i"
      using assms(9) by (intro choices_power_loss [OF run(3) assms(10)]) simp
    thus ?thesis using codec Killed by (auto simp: migrated_def)
  qed
qed

section \<open>Opening a protected database\<close>

lemma wp_on_error [wp_rules]:
  "wp m Q (\<lambda>e x. wp c (\<lambda>_. E e) (\<lambda>_. E e) K x) K d \<Longrightarrow> wp (io_on_error m c) Q E K d"
  unfolding wp_def io_on_error_def by (fastforce split: ending.splits prod.splits)

lemma wp_release [wp_rules]: "Q () d \<Longrightarrow> wp (release l) Q E K d"
  by (cases l) (simp_all add: release_def wp_return wp_drop_lock)

lemma wp_commit_database [wp_rules]:
  assumes "E Storage d" and "K d" and "Q () (commit_entry p (encode S key i) d)"
  shows "wp (commit_database S key p i) Q E K d"
  unfolding commit_database_def using assms by (intro wp_map_err wp_atomic) auto

lemma choices_commit: "remnants d p = [] \<Longrightarrow> choices (commit_entry p b d) p {Some (Regular b)}"
  by (simp add: choices_def survivors_def standing_def commit_entry_def)

text \<open>What a path's outcome tells of the run that opened it.\<close>

definition opened :: "'cs sqlcipher \<Rightarrow> byte list \<Rightarrow> path \<Rightarrow> string \<Rightarrow> 'cs open_core \<Rightarrow> disk \<Rightarrow> bool" where
  "opened S key p b core d \<longleftrightarrow>
     (\<exists>i. decode S (Some (raw_key key)) b = Some i \<and> im_version i \<le> 8 \<and> oc_image core = apply_schema S i
        \<and> oc_path core = Some p
        \<and> choices d p {Some (Regular (encode S (Some (raw_key key)) (apply_schema S i)))})"

lemma wp_from_connection:
  assumes "choices d p {Some (Regular b)}" and "remnants d p = []" and "decode S (Some (raw_key key)) b = Some i"
  shows "wp (from_connection S (Some (raw_key key)) (Some p, i) lock)
           (opened S key p b) (\<lambda>_ x. choices x p {Some (Regular b)}) (\<lambda>x. choices x p {Some (Regular b)}) d"
  unfolding from_connection_def using assms
  by (auto intro!: wp_rules choices_commit simp: opened_def)

lemma real_not_memory [simp]: "real_dir d dir \<Longrightarrow> dir @ [n] \<noteq> memory_path"
  by (auto simp: real_dir_def memory_path_def)

lemma wp_shared_lock [wp_rules]:
  assumes "real_dir d dir" and "plain_name n" and "\<And>e. E e d" and "K d"
    and "\<And>l. Q l d" and "\<And>l e. live d (dir @ [n @ ''.tundra-lock'']) = None \<Longrightarrow>
      Q l (set_entry (dir @ [n @ ''.tundra-lock'']) (Some (Regular [])) False d)
      \<and> E e (set_entry (dir @ [n @ ''.tundra-lock'']) (Some (Regular [])) False d)
      \<and> K (set_entry (dir @ [n @ ''.tundra-lock'']) (Some (Regular [])) False d)"
  shows "wp (shared_lock (dir @ [n])) Q E K d"
  unfolding shared_lock_def using assms by (auto intro!: wp_rules)

lemma wp_core_open_protected:
  assumes plain: "choices d (dir @ [n]) {Some (Regular b)}" and quiet: "remnants d (dir @ [n]) = []"
    and real: "real_dir d dir" and n: "plain_name n"
  shows "wp (core_open_protected S (dir @ [n]) key) (opened S key (dir @ [n]) b)
           (\<lambda>_ x. choices x (dir @ [n]) {Some (Regular b)}) (\<lambda>x. choices x (dir @ [n]) {Some (Regular b)}) d"
proof -
  have here: "live d (dir @ [n]) = Some (Regular b)" using choices_live [OF plain] by simp
  have core: "wp (io_on_error (io_bind (open_protected S (dir @ [n]) key) (\<lambda>(p, i).
                    from_connection S (Some (raw_key key)) (Some p, i) lock)) (release lock))
           (opened S key (dir @ [n]) b)
           (\<lambda>_ x. choices x (dir @ [n]) {Some (Regular b)}) (\<lambda>x. choices x (dir @ [n]) {Some (Regular b)}) x"
    if "choices x (dir @ [n]) {Some (Regular b)}" "remnants x (dir @ [n]) = []" "real_dir x dir" for x lock
    using that choices_live [OF that(1)]
    by (auto intro!: wp_on_error wp_bind wp_release wp_open_protected [OF _ n] wp_conseq [OF wp_from_connection])
  show ?thesis
    unfolding core_open_protected_def
    by (intro wp_bind wp_result wp_shared_lock [OF real n] core)
      (use plain quiet real here in \<open>auto intro!: core real_dir_changes simp: disk_simps\<close>)
qed

text \<open>
  C22. Opening a protected database never resets one: unless the key decodes the file's bytes as a
  database of at most version 8, opening fails and after any loss of power the file is as it was;
  when it returns, the file holds that database with the current schema.
\<close>

theorem opening_keeps_database:
  assumes "real_dir (files w) dir" and "plain_name n" and "quiet (files w) (dir @ [n])"
    and "live (files w) (dir @ [n]) = Some (Regular b)"
    and "core_open_protected S (dir @ [n]) key w = (r, w')" and "power_loss (files w') d'"
  shows "case r of
      Returned core \<Rightarrow>
        (\<exists>i. decode S (Some (raw_key key)) b = Some i \<and> im_version i \<le> 8 \<and> oc_image core = apply_schema S i
           \<and> live d' (dir @ [n]) = Some (Regular (encode S (Some (raw_key key)) (apply_schema S i))))
    | _ \<Rightarrow> live d' (dir @ [n]) = Some (Regular b)"
proof -
  have "choices (files w) (dir @ [n]) {Some (Regular b)}" "remnants (files w) (dir @ [n]) = []"
    using assms(3,4) by (simp_all add: choices_quiet quiet_def)
  note run = wpD [OF wp_core_open_protected [where S = S and key = key, OF this assms(1,2)]]
  show ?thesis
    using assms(5) choices_power_loss [OF run(2) assms(6)] choices_power_loss [OF run(3) assms(6)] run(1)
      choices_power_loss [OF _ assms(6)]
    by (cases r) (fastforce simp: opened_def)+
qed

section \<open>A concrete migration and a concrete opening\<close>

definition sample_path :: path where
  "sample_path = [root_component, ''w'']"

definition sample_ciphertext :: string where
  "sample_ciphertext = ''protected page 1''"

definition sample_image :: "nat image" where
  "sample_image = \<lparr>im_application = 0, im_version = 8, im_schema = [], im_manifest = [], im_db = empty_db,
     im_raw = (\<lambda>_. \<lparr>raw_length = 0, raw_value = None\<rparr>), im_cipher_faults = False, im_integrity = ''ok'', im_foreign_faults = False\<rparr>"

definition sample_sqlcipher :: "nat sqlcipher" where
  "sample_sqlcipher = \<lparr>cipher_version = VERSION, sqlite_version = SQLITE_VERSION,
     decode = (\<lambda>key b. if key = None \<and> b = sqlite_header \<or> key \<noteq> None \<and> b = sample_ciphertext
                        then Some sample_image else None),
     encode = (\<lambda>key i. if key = None then sqlite_header else sample_ciphertext),
     empty_image = sample_image, app_schema = (\<lambda>_. []), wal_held = (\<lambda>_. False)\<rparr>"

definition sample_world :: "string \<Rightarrow> world" where
  "sample_world bytes =
     \<lparr>files = \<lparr>live = [[root_component] \<mapsto> Directory, sample_path \<mapsto> Regular bytes],
               remnants = (\<lambda>_. []), flushed = (\<lambda>_. True)\<rparr>,
      locks = (\<lambda>_. Free), fates = [], suffixes = [''a'', ''b''], cwd = [root_component]\<rparr>"

definition sample_storage_key :: "byte list" where
  "sample_storage_key = replicate 32 0"

lemma sample_world_dir: "real_dir (files (sample_world b)) [root_component]"
  by (auto simp: real_dir_def sample_world_def sample_path_def le_Suc_eq)

lemma sample_world_file:
  "quiet (files (sample_world b)) ([root_component] @ [''w''])"
  "live (files (sample_world b)) ([root_component] @ [''w'']) = Some (Regular b)"
  "plain_name ''w''"
  by (simp_all add: quiet_def sample_world_def sample_path_def plain_name_def root_component_def)

lemma sample_codec:
  "decode sample_sqlcipher None sqlite_header = Some sample_image"
  "decode sample_sqlcipher (Some k) (encode sample_sqlcipher (Some k) i) = Some sample_image"
  "exported_copy sample_image = sample_image"
  by (simp_all add: sample_sqlcipher_def exported_copy_def sample_image_def)

definition returned :: "('e, 'a) ending \<Rightarrow> bool" where
  "returned r = (case r of Returned _ \<Rightarrow> True | _ \<Rightarrow> False)"

lemma sample_runs:
  "fst (migrate sample_sqlcipher (\<lambda>_. Inr ()) ([root_component] @ [''w'']) sample_storage_key
     (sample_world sqlite_header)) = Returned ()"
  "returned (fst (core_open_protected sample_sqlcipher ([root_component] @ [''w'']) sample_storage_key
     (sample_world sample_ciphertext)))"
  by code_simp+

theorem migration_keeps_database_witness:
  "\<exists>w' c. migrate sample_sqlcipher (\<lambda>_. Inr ()) ([root_component] @ [''w'']) sample_storage_key
            (sample_world sqlite_header) = (Returned (), w')
      \<and> live (all_flushed (files w')) ([root_component] @ [''w'']) = Some (Regular c)
      \<and> decode sample_sqlcipher (Some (raw_key sample_storage_key)) c = Some sample_image"
proof -
  obtain w' where run: "migrate sample_sqlcipher (\<lambda>_. Inr ()) ([root_component] @ [''w'']) sample_storage_key
      (sample_world sqlite_header) = (Returned (), w')"
    using sample_runs(1) by (metis prod.collapse)
  have size: "16 \<le> length sqlite_header" "take 16 sqlite_header = sqlite_header"
    by (simp_all add: sqlite_header_def)
  from migration_keeps_database [OF sample_world_dir sample_world_file(3,1,2) size sample_codec(1) _ run
      power_loss_all_flushed] run
  show ?thesis by (auto simp: sample_codec)
qed

theorem opening_keeps_database_witness:
  "\<exists>core w'. core_open_protected sample_sqlcipher ([root_component] @ [''w'']) sample_storage_key
            (sample_world sample_ciphertext) = (Returned core, w')
      \<and> oc_image core = apply_schema sample_sqlcipher sample_image
      \<and> live (all_flushed (files w')) ([root_component] @ [''w'']) = Some (Regular sample_ciphertext)"
proof -
  obtain core w' where run: "core_open_protected sample_sqlcipher ([root_component] @ [''w'']) sample_storage_key
      (sample_world sample_ciphertext) = (Returned core, w')"
    using sample_runs(2) unfolding returned_def by (auto split: ending.splits) (metis prod.collapse)
  from opening_keeps_database [OF sample_world_dir sample_world_file(3,1,2) run power_loss_all_flushed] run
  show ?thesis by (auto simp: sample_sqlcipher_def split: if_splits)
qed

section \<open>Raw keys\<close>

lemma hex_digit_inj: "a < 16 \<Longrightarrow> b < 16 \<Longrightarrow> hex_digit a = hex_digit b \<Longrightarrow> a = b"
proof -
  assume small: "a < 16" "b < 16" and same: "hex_digit a = hex_digit b"
  have code: "(of_char (hex_digit n) :: nat) = (if n < 10 then 48 + n else 87 + n)" if "n < 16" for n
    using that by (simp add: hex_digit_def take_bit_eq_mod)
  have "(if a < 10 then 48 + a else 87 + a) = (if b < 10 then 48 + b else 87 + b)"
    using code [OF small(1)] code [OF small(2)] same by simp
  thus "a = b" using small by (simp split: if_splits)
qed

lemma hex_byte_inj: "hex_byte a = hex_byte b \<Longrightarrow> a = b"
proof -
  assume "hex_byte a = hex_byte b"
  moreover have "unat x div 16 < 16" "unat x mod 16 < 16" for x :: byte
    using unsigned_less [of x, where 'a = nat] by auto
  ultimately have "unat a div 16 = unat b div 16" "unat a mod 16 = unat b mod 16"
    using hex_digit_inj [of "unat a div 16" "unat b div 16"] hex_digit_inj [of "unat a mod 16" "unat b mod 16"]
    by (simp_all add: hex_byte_def)
  hence "unat a = unat b" by (metis div_mult_mod_eq)
  thus "a = b" by (rule unsigned_word_eqI)
qed

lemma length_raw_key: "length (raw_key key) = 2 * length key + 3"
proof -
  have "length (concat (map hex_byte key)) = 2 * length key"
    by (induction key) (simp_all add: hex_byte_def)
  thus ?thesis by (simp add: raw_key_def)
qed

lemma raw_key_inj: "length key = length key' \<Longrightarrow> raw_key key = raw_key key' \<Longrightarrow> key = key'"
proof -
  assume len: "length key = length key'" and "raw_key key = raw_key key'"
  hence "concat (map hex_byte key) = concat (map hex_byte key')" by (simp add: raw_key_def)
  with len show ?thesis
    by (induction key key' rule: list_induct2) (auto simp: hex_byte_def intro: hex_byte_inj)
qed

end
