(* ===== verification/Backup_Facts.thy ===== *)
theory Backup_Facts
  imports Backup Storage_Facts
begin

text \<open>
  What a restore and an export leave behind whatever call fails and wherever the process is
  killed, and what an export and a restore compose to.
\<close>

section \<open>Rules of the building blocks\<close>

lemma wp_no_sidecar [wp_rules]:
  "(\<And>e. E e d) \<Longrightarrow> K d \<Longrightarrow> Q () d \<Longrightarrow> wp (no_sidecar p ss) Q E K d"
proof (induction ss)
  case (Cons s rest)
  thus ?case by (auto intro!: wp_rules)
qed (auto intro!: wp_rules)

lemma wp_standalone_file [wp_rules]:
  assumes "\<And>e. E e d" and "K d"
    and "\<And>b. live d p = Some (Regular b) \<Longrightarrow> standalone_bytes b \<Longrightarrow> Q () d"
  shows "wp (standalone_file p) Q E K d"
  unfolding standalone_file_def using assms by (auto intro!: wp_rules split: node.split)

lemma wp_open_snapshot [wp_rules]:
  assumes "\<And>e. E e d" and "K d"
    and "\<And>b i. live d p = Some (Regular b) \<Longrightarrow> standalone_bytes b \<Longrightarrow> decode S (Some key) b = Some i \<Longrightarrow> Q i d"
  shows "wp (open_snapshot S p key) Q E K d"
  unfolding open_snapshot_def using assms by (auto intro!: wp_rules)

lemma wp_write_database [wp_rules]:
  assumes "\<And>e. E e d" and "\<And>b. E Storage (write_entry p b d)" and "\<And>b. K (write_entry p b d)"
    and "Q () (write_entry p (encode S (Some key) i) d)"
  shows "wp (write_database S key p i) Q E K d"
  unfolding write_database_def using assms by (auto intro!: wp_rules)

lemma wp_install [wp_rules]:
  assumes "\<And>e. E e d" and "K d"
    and "\<And>n. live d t = Some n \<Longrightarrow> live d p = None \<Longrightarrow> Q () (move_entry t p d)"
  shows "wp (install t p) Q E K d"
  unfolding install_def using assms by (auto intro!: wp_rules)

lemma wp_copy_source [wp_rules]:
  assumes "\<And>e. E e d" and "K d" and "\<And>b e. E e (write_entry input b d)" and "\<And>b. K (write_entry input b d)"
    and "\<And>b. live d source = Some (Regular b) \<Longrightarrow> length b \<le> MAX_BYTES \<Longrightarrow> Q () (write_entry input b d)"
  shows "wp (copy_source source input) Q E K d"
  unfolding copy_source_def using assms by (auto intro!: wp_rules split: node.split)

lemma wp_exclusive_lock [wp_rules]:
  assumes "real_dir d dir" and "plain_name n" and "\<And>e. E e d" and "K d"
    and "\<And>l. Q l d" and "\<And>l e. live d (dir @ [n @ ''.tundra-lock'']) = None \<Longrightarrow>
      Q l (set_entry (dir @ [n @ ''.tundra-lock'']) (Some (Regular [])) False d)
      \<and> E e (set_entry (dir @ [n @ ''.tundra-lock'']) (Some (Regular [])) False d)
      \<and> K (set_entry (dir @ [n @ ''.tundra-lock'']) (Some (Regular [])) False d)"
  shows "wp (exclusive_lock (dir @ [n])) Q E K d"
  unfolding exclusive_lock_def using assms by (auto intro!: wp_rules)

section \<open>Restoring\<close>

definition suspended :: "('w, 'cs) environment \<Rightarrow> 'cs image \<Rightarrow> 'cs db result" where
  "suspended E i = suspend (en_bitcoin E) (en_codec E) (en_bdk E) (en_review_len E) (im_db i)"

definition restored_bytes :: "('w, 'cs) environment \<Rightarrow> byte list \<Rightarrow> 'cs image \<Rightarrow> 'cs db \<Rightarrow> string" where
  "restored_bytes E key i db =
     encode (en_sqlcipher E) (Some (raw_key key)) (restored_image (en_sqlcipher E) i db)"

text \<open>A complete restoration of a validated snapshot, and what the destination may be meanwhile.\<close>

definition restorations ::
  "('w, 'cs) environment \<Rightarrow> string \<Rightarrow> string \<Rightarrow> byte list \<Rightarrow> backup_summary \<Rightarrow> node option set" where
  "restorations E secret b key report =
     {v. \<exists>i db. decode (en_sqlcipher E) (Some secret) b = Some i \<and> validate E i = Inr report
           \<and> suspended E i = Inr db \<and> v = Some (Regular (restored_bytes E key i db))}"

definition restoring :: "('w, 'cs) environment \<Rightarrow> string \<Rightarrow> string \<Rightarrow> byte list \<Rightarrow> node option set" where
  "restoring E secret b key = insert None (\<Union>report. restorations E secret b key report)"

lemma wp_restore_output:
  assumes absent: "choices d (dir @ [n]) {None}" and real: "real_dir d dir"
    and names: "plain_name n" "plain_name t" "t \<noteq> n" and fresh: "live d (dir @ [t]) = Some (Regular [])"
    and source: "choices d source U" "source \<noteq> dir @ [n]" "source \<noteq> dir @ [t]"
    and snapshot: "decode (en_sqlcipher E) (Some secret) b = Some i" "validate E i = Inr report"
  shows "wp (restore_output E boundary (dir @ [n]) key i report (dir @ [t]))
           (\<lambda>a x. a = report \<and> choices x source U \<and> choices x (dir @ [n]) (restorations E secret b key report)
              \<and> choices x (dir @ [n]) (restoring E secret b key))
           (\<lambda>_ x. choices x source U \<and> choices x (dir @ [n]) (restoring E secret b key))
           (\<lambda>x. choices x source U \<and> choices x (dir @ [n]) (restoring E secret b key)) d"
proof -
  let ?p = "dir @ [n]" and ?t = "dir @ [t]"
  have here: "live d ?p = None" using choices_live [OF absent] by simp
  have old: "choices d ?p (restoring E secret b key)"
    by (rule choices_mono [OF absent]) (simp add: restoring_def)
  have new: "Some (Regular (encode (en_sqlcipher E) (Some (raw_key key)) (restored_image (en_sqlcipher E) i db)))
      \<in> restorations E secret b key report" if "suspended E i = Inr db" for db
    using snapshot that by (auto simp: restorations_def restored_bytes_def)
  hence mid: "Some (Regular (encode (en_sqlcipher E) (Some (raw_key key)) (restored_image (en_sqlcipher E) i db)))
      \<in> restoring E secret b key" if "suspended E i = Inr db" for db
    using that by (auto simp: restoring_def)
  show ?thesis
    unfolding restore_output_def Let_def suspended_def [symmetric]
    using real names fresh here old source new mid choices_live [OF source(1)]
    by (auto intro!: wp_rules real_dir_changes choices_flush choices_move choices_settleI
        simp: disk_simps stable_node_def)
qed

text \<open>A name that no temporary file can have.\<close>

definition ordinary_name :: "string \<Rightarrow> bool" where
  "ordinary_name n \<longleftrightarrow> plain_name n \<and> take 8 n \<noteq> ''.tundra-''"

lemma temporary_names:
  "\<exists>s. t = ''.tundra-restore-output-'' @ s \<Longrightarrow> plain_name t \<and> (ordinary_name n \<longrightarrow> t \<noteq> n)"
  "\<exists>s. t = ''.tundra-restore-input-'' @ s \<Longrightarrow> plain_name t \<and> (ordinary_name n \<longrightarrow> t \<noteq> n)"
  "\<exists>s. t = ''.tundra-backup-'' @ s \<Longrightarrow> plain_name t \<and> (ordinary_name n \<longrightarrow> t \<noteq> n)"
  by (auto simp: plain_name_def root_component_def ordinary_name_def)

lemma ordinary_plain: "ordinary_name n \<Longrightarrow> plain_name n"
  by (simp add: ordinary_name_def)

lemma wp_restore_checked:
  assumes absent: "choices d (dir @ [n]) {None}" and real: "real_dir d dir" and n: "ordinary_name n"
    and source: "choices d source {Some v}" "source \<noteq> dir @ [n]"
    and snapshot: "decode (en_sqlcipher E) (Some secret) b = Some i" "validate E i = Inr report"
  shows "wp (with_temporary dir ''.tundra-restore-output-'' (restore_output E boundary (dir @ [n]) key i report))
           (\<lambda>a x. choices x source {Some v} \<and> choices x (dir @ [n]) (restorations E secret b key a)
              \<and> choices x (dir @ [n]) (restoring E secret b key))
           (\<lambda>_ x. choices x source {Some v} \<and> choices x (dir @ [n]) (restoring E secret b key))
           (\<lambda>x. choices x source {Some v} \<and> choices x (dir @ [n]) (restoring E secret b key)) d"
    (is "wp ?m ?Q ?E ?K d")
proof -
  have old: "choices d (dir @ [n]) (restoring E secret b key)"
    by (rule choices_mono [OF absent]) (simp add: restoring_def)
  show ?thesis
  proof (rule wp_with_temporary)
    fix t
    assume "\<exists>s. t = ''.tundra-restore-output-'' @ s" and free: "live d (dir @ [t]) = None"
    hence t: "plain_name t" "t \<noteq> n" using temporary_names(1) [of t n] n by auto
    have apart: "source \<noteq> dir @ [t]" using choices_live [OF source(1)] free by auto
    show "wp (restore_output E boundary (dir @ [n]) key i report (dir @ [t]))
       (\<lambda>a x. ?Q a x \<and> ?K x \<and> ?Q a (set_entry (dir @ [t]) None True x))
       (\<lambda>e x. ?E e x \<and> ?K x \<and> ?E e (set_entry (dir @ [t]) None True x)) ?K
       (set_entry (dir @ [t]) (Some (Regular [])) False d)"
      by (rule wp_conseq [OF wp_restore_output [OF _ _ ordinary_plain [OF n] t, where source = source
              and U = "{Some v}" and E = E and secret = secret and b = b]])
        (use t apart source absent snapshot free in
          \<open>auto intro: real_dir_changes [OF real] simp: disk_simps\<close>)
  qed (use old source in auto)
qed

lemma wp_restore_copied:
  assumes absent: "choices d (dir @ [n]) {None}" and real: "real_dir d dir" and n: "ordinary_name n"
    and source: "choices d source {Some (Regular b)}" "source \<noteq> dir @ [n]"
  shows "wp (with_temporary dir ''.tundra-restore-input-'' (restore_input E boundary source (dir @ [n]) secret key))
           (\<lambda>a x. choices x source {Some (Regular b)} \<and> choices x (dir @ [n]) (restorations E secret b key a)
              \<and> choices x (dir @ [n]) (restoring E secret b key))
           (\<lambda>_ x. choices x source {Some (Regular b)} \<and> choices x (dir @ [n]) (restoring E secret b key))
           (\<lambda>x. choices x source {Some (Regular b)} \<and> choices x (dir @ [n]) (restoring E secret b key)) d"
    (is "wp ?m ?Q ?E ?K d")
proof -
  have old: "choices d (dir @ [n]) (restoring E secret b key)"
    by (rule choices_mono [OF absent]) (simp add: restoring_def)
  show ?thesis
  proof (rule wp_with_temporary)
    fix t
    assume "\<exists>s. t = ''.tundra-restore-input-'' @ s" and free: "live d (dir @ [t]) = None"
    hence t: "plain_name t" "t \<noteq> n" using temporary_names(2) [of t n] n by auto
    have apart: "source \<noteq> dir @ [t]" using choices_live [OF source(1)] free by auto
    have inner: "wp (with_temporary dir ''.tundra-restore-output-'' (restore_output E boundary (dir @ [n]) key i report))
        ?Q ?E ?K (write_entry (dir @ [t]) b (set_entry (dir @ [t]) (Some (Regular [])) False d))"
      if "decode (en_sqlcipher E) (Some secret) b = Some i" "validate E i = Inr report" for i report
      using t apart source absent that free
      by (intro wp_restore_checked [OF _ _ n]) (auto intro!: real_dir_changes real simp: disk_simps)
    show "wp (restore_input E boundary source (dir @ [n]) secret key (dir @ [t]))
       (\<lambda>a x. ?Q a x \<and> ?K x \<and> ?Q a (set_entry (dir @ [t]) None True x))
       (\<lambda>e x. ?E e x \<and> ?K x \<and> ?E e (set_entry (dir @ [t]) None True x)) ?K
       (set_entry (dir @ [t]) (Some (Regular [])) False d)"
      unfolding restore_input_def butlast_snoc
      using t apart source(2) source old choices_live [OF source(1)]
      by (intro wp_bind wp_copy_source wp_open_snapshot wp_result)
        (auto intro!: wp_conseq [OF inner] simp: disk_simps)
  qed (use old source in auto)
qed

lemma wp_restore_snapshot:
  assumes absent: "choices d (dir @ [n]) {None}" and real: "real_dir d dir" "real_dir d sdir"
    and n: "ordinary_name n" "plain_name sn"
    and source: "choices d (sdir @ [sn]) {Some (Regular b)}" and secret: "password_key password = Inr secret"
  shows "wp (restore_snapshot E boundary (sdir @ [sn]) (dir @ [n]) password key)
           (\<lambda>a x. choices x (sdir @ [sn]) {Some (Regular b)} \<and>
              choices x (dir @ [n]) (restorations E secret b key a))
           (\<lambda>_ x. choices x (sdir @ [sn]) {Some (Regular b)} \<and> choices x (dir @ [n]) (restoring E secret b key))
           (\<lambda>x. choices x (sdir @ [sn]) {Some (Regular b)} \<and> choices x (dir @ [n]) (restoring E secret b key)) d"
    (is "wp ?m ?Q ?E ?K d")
proof -
  have apart: "sdir @ [sn] \<noteq> dir @ [n]" using choices_live [OF absent] choices_live [OF source] by auto
  have here: "live d (dir @ [n]) = None" "live d (sdir @ [sn]) = Some (Regular b)"
    using choices_live [OF absent] choices_live [OF source] by simp_all
  have unlocked: "live d p = None \<Longrightarrow> choices (set_entry p v f d) (sdir @ [sn]) {Some (Regular b)}" for p v f
    using source here by (cases "p = sdir @ [sn]") (simp_all add: disk_simps)
  have old: "choices x (dir @ [n]) {None} \<Longrightarrow> choices x (dir @ [n]) (restoring E secret b key)" for x
    by (erule choices_mono) (simp add: restoring_def)
  have inner: "wp (with_temporary dir ''.tundra-restore-input-''
            (restore_input E boundary (sdir @ [sn]) (dir @ [n]) secret key))
          (\<lambda>a. wp (drop_lock l) (\<lambda>_. ?Q a) (\<lambda>_. ?Q a) ?K) (\<lambda>e. wp (drop_lock l) (\<lambda>_. ?E e) (\<lambda>_. ?E e) ?K) ?K x"
    if "choices x (dir @ [n]) {None}" "real_dir x dir" "choices x (sdir @ [sn]) {Some (Regular b)}" for x l
    by (rule wp_conseq [OF wp_restore_copied [OF that(1,2) n(1) that(3) apart]]) (auto intro!: wp_drop_lock)
  show ?thesis
    unfolding restore_snapshot_def butlast_snoc secret
    using absent real here n(2) ordinary_plain [OF n(1)] source apart old [OF absent]
    by (auto intro!: wp_bind wp_result wp_canonical_path wp_exclusive_lock wp_finally wp_if wp_fail wp_try wp_stat
        wp_standalone_file wp_drop_lock inner old real_dir_changes unlocked simp: disk_simps butlast_snoc)
qed

lemma wp_restore_refused:
  assumes "password_key password = Inl e"
  shows "wp (restore_snapshot E boundary source dest password key) (\<lambda>_ _. False) (\<lambda>_ x. x = d) (\<lambda>x. x = d) d"
  unfolding restore_snapshot_def by (auto intro!: wp_bind wp_result simp: assms)

lemma restore_outcome:
  assumes "real_dir (files w) dir" and "real_dir (files w) sdir" and "ordinary_name n" and "plain_name sn"
    and "quiet (files w) (dir @ [n])" and "live (files w) (dir @ [n]) = None"
    and "quiet (files w) (sdir @ [sn])" and "live (files w) (sdir @ [sn]) = Some (Regular b)"
    and "restore_snapshot E boundary (sdir @ [sn]) (dir @ [n]) password key w = (r, w')"
    and "power_loss (files w') d'"
  shows "live d' (sdir @ [sn]) = Some (Regular b)
    \<and> (case r of
         Returned report \<Rightarrow>
           \<exists>secret. password_key password = Inr secret \<and> live d' (dir @ [n]) \<in> restorations E secret b key report
       | _ \<Rightarrow>
           live d' (dir @ [n]) = None
           \<or> (\<exists>secret report. password_key password = Inr secret
                \<and> live d' (dir @ [n]) \<in> restorations E secret b key report))"
proof (cases "password_key password")
  case (Inl e)
  note run = wpD [OF wp_restore_refused [OF Inl, where d = "files w" and E = E]]
  have "files w' = files w \<and> (\<forall>a. r \<noteq> Returned a)"
    using run assms(9) by (cases r) blast+
  thus ?thesis
    using assms(5-8,10) choices_power_loss [of "files w" "sdir @ [sn]" "{Some (Regular b)}" d']
      choices_power_loss [of "files w" "dir @ [n]" "{None}" d']
    by (auto simp: choices_quiet split: ending.split)
next
  case (Inr secret)
  have start: "choices (files w) (dir @ [n]) {None}" "choices (files w) (sdir @ [sn]) {Some (Regular b)}"
    using assms(5-8) by (simp_all add: choices_quiet)
  note run = wpD [OF wp_restore_snapshot [OF start(1) assms(1-4) start(2) Inr,
        where E = E and boundary = boundary and key = key]]
  have live: "choices (files w') p V \<Longrightarrow> live d' p \<in> V" for p V
    using assms(10) by (rule choices_power_loss [rotated])
  show ?thesis
  proof (cases r)
    case (Returned report)
    from run(1) [OF assms(9) [unfolded Returned]] show ?thesis
      using Inr Returned live by fastforce
  next
    case (Failed e)
    from run(2) [OF assms(9) [unfolded Failed]] show ?thesis
      using Inr Failed live unfolding restoring_def by fastforce
  next
    case Killed
    from run(3) [OF assms(9) [unfolded Killed]] show ?thesis
      using Inr Killed live unfolding restoring_def by fastforce
  qed
qed

text \<open>
  C12. A restore never leaves a partial wallet database: whatever call fails and wherever the
  process is killed, after a loss of power the destination, which did not exist, still does not
  exist or holds the complete database of a snapshot that the password opens and that was
  validated, with every reservation suspended; it holds it once the restore has returned. The
  backup file is never changed.
\<close>

theorem restore_is_complete_or_absent:
  assumes "real_dir (files w) dir" and "real_dir (files w) sdir" and "ordinary_name n" and "plain_name sn"
    and "quiet (files w) (dir @ [n])" and "live (files w) (dir @ [n]) = None"
    and "quiet (files w) (sdir @ [sn])" and "live (files w) (sdir @ [sn]) = Some (Regular b)"
    and "restore_snapshot E boundary (sdir @ [sn]) (dir @ [n]) password key w = (r, w')"
    and "power_loss (files w') d'"
  shows "live d' (sdir @ [sn]) = Some (Regular b)
    \<and> (case r of
         Returned report \<Rightarrow>
           \<exists>secret. password_key password = Inr secret \<and> live d' (dir @ [n]) \<in> restorations E secret b key report
       | _ \<Rightarrow>
           live d' (dir @ [n]) = None
           \<or> (\<exists>secret report. password_key password = Inr secret
                \<and> live d' (dir @ [n]) \<in> restorations E secret b key report))"
  using assms by (rule restore_outcome)

section \<open>Exporting\<close>

text \<open>The complete files an export may leave, with the summary each validates to.\<close>

definition exports ::
  "('w, 'cs) environment \<Rightarrow> nat result \<Rightarrow> 'cs image \<Rightarrow> string \<Rightarrow> backup_summary \<Rightarrow> node option set" where
  "exports E at_time i secret report =
     {v. \<exists>now c j. at_time = Inr now \<and> c = encode (en_sqlcipher E) (Some secret) (exported_image i now)
           \<and> standalone_bytes c \<and> decode (en_sqlcipher E) (Some secret) c = Some j
           \<and> validate E j = Inr report \<and> v = Some (Regular c)}"

definition exporting :: "('w, 'cs) environment \<Rightarrow> nat result \<Rightarrow> 'cs image \<Rightarrow> string \<Rightarrow> node option set" where
  "exporting E at_time i secret = insert None (\<Union>report. exports E at_time i secret report)"

lemma wp_export_output:
  assumes absent: "choices d (dir @ [n]) {None}" and names: "plain_name n" "plain_name t" "t \<noteq> n"
    and fresh: "live d (dir @ [t]) = Some (Regular [])"
  shows "wp (export_output E boundary at_time i (dir @ [n]) secret (dir @ [t]))
           (\<lambda>a x. choices x (dir @ [n]) (exports E at_time i secret a) \<and> choices x (dir @ [n]) (exporting E at_time i secret))
           (\<lambda>_ x. choices x (dir @ [n]) (exporting E at_time i secret))
           (\<lambda>x. choices x (dir @ [n]) (exporting E at_time i secret)) d"
proof -
  let ?p = "dir @ [n]" and ?t = "dir @ [t]"
  have here: "live d ?p = None" using choices_live [OF absent] by simp
  have old: "choices d ?p (exporting E at_time i secret)"
    by (rule choices_mono [OF absent]) (simp add: exporting_def)
  have new: "Some (Regular (encode (en_sqlcipher E) (Some secret) (exported_image i now))) \<in> exports E at_time i secret a"
    if "at_time = Inr now" "standalone_bytes (encode (en_sqlcipher E) (Some secret) (exported_image i now))"
      "decode (en_sqlcipher E) (Some secret) (encode (en_sqlcipher E) (Some secret) (exported_image i now)) = Some j"
      "validate E j = Inr a" for now j a
    using that by (auto simp: exports_def)
  hence mid: "Some (Regular (encode (en_sqlcipher E) (Some secret) (exported_image i now))) \<in> exporting E at_time i secret"
    if "at_time = Inr now" "standalone_bytes (encode (en_sqlcipher E) (Some secret) (exported_image i now))"
      "decode (en_sqlcipher E) (Some secret) (encode (en_sqlcipher E) (Some secret) (exported_image i now)) = Some j"
      "validate E j = Inr a" for now j a
    using that by (auto simp: exporting_def)
  show ?thesis
    unfolding export_output_def Let_def butlast_snoc
    using names fresh here old new mid
    by (auto intro!: wp_rules choices_flush choices_move choices_settleI simp: disk_simps stable_node_def)
qed

lemma wp_export_snapshot:
  assumes absent: "choices d (dir @ [n]) {None}" and real: "real_dir d dir" and n: "ordinary_name n"
    and secret: "password_key password = Inr secret"
  shows "wp (export_snapshot E boundary at_time core (dir @ [n]) password)
           (\<lambda>a x. choices x (dir @ [n]) (exports E at_time (oc_image core) secret a))
           (\<lambda>_ x. choices x (dir @ [n]) (exporting E at_time (oc_image core) secret))
           (\<lambda>x. choices x (dir @ [n]) (exporting E at_time (oc_image core) secret)) d"
    (is "wp ?m ?Q ?E ?K d")
proof -
  have here: "live d (dir @ [n]) = None" using choices_live [OF absent] by simp
  have old: "?K d" by (rule choices_mono [OF absent]) (simp add: exporting_def)
  have inner: "wp (with_temporary dir ''.tundra-backup-'' (export_output E boundary at_time (oc_image core) (dir @ [n]) secret))
      ?Q ?E ?K d"
  proof (rule wp_with_temporary)
    fix t
    assume "\<exists>s. t = ''.tundra-backup-'' @ s" and free: "live d (dir @ [t]) = None"
    hence t: "plain_name t" "t \<noteq> n" using temporary_names(3) [of t n] n by auto
    show "wp (export_output E boundary at_time (oc_image core) (dir @ [n]) secret (dir @ [t]))
       (\<lambda>a x. ?Q a x \<and> ?K x \<and> ?Q a (set_entry (dir @ [t]) None True x))
       (\<lambda>e x. ?E e x \<and> ?K x \<and> ?E e (set_entry (dir @ [t]) None True x)) ?K
       (set_entry (dir @ [t]) (Some (Regular [])) False d)"
      by (rule wp_conseq [OF wp_export_output [OF _ ordinary_plain [OF n] t]])
        (use t absent in \<open>auto simp: disk_simps\<close>)
  qed (use old in auto)
  show ?thesis
    unfolding export_snapshot_def secret
    using real ordinary_plain [OF n] here old
    by (auto intro!: wp_bind wp_result wp_canonical_path wp_if wp_fail wp_try wp_stat inner simp: butlast_snoc)
qed

lemma export_outcome:
  assumes "real_dir (files w) dir" and "ordinary_name n" and "quiet (files w) (dir @ [n])"
    and "live (files w) (dir @ [n]) = None" and secret: "password_key password = Inr secret"
    and "export_snapshot E boundary at_time core (dir @ [n]) password w = (r, w')" and "power_loss (files w') d'"
  shows "case r of
      Returned report \<Rightarrow> live d' (dir @ [n]) \<in> exports E at_time (oc_image core) secret report
    | _ \<Rightarrow> live d' (dir @ [n]) = None \<or> (\<exists>report. live d' (dir @ [n]) \<in> exports E at_time (oc_image core) secret report)"
proof -
  have "choices (files w) (dir @ [n]) {None}" using assms(3,4) by (simp add: choices_quiet)
  note run = wpD [OF wp_export_snapshot [OF this assms(1,2) secret,
        where E = E and boundary = boundary and at_time = at_time and core = core]]
  have live: "choices (files w') p V \<Longrightarrow> live d' p \<in> V" for p V
    using assms(7) by (rule choices_power_loss [rotated])
  show ?thesis
    using assms(6) run live unfolding exporting_def by (cases r) fastforce+
qed

text \<open>
  C23. An export never leaves a partial backup: whatever call fails and wherever the process is
  killed, after a loss of power the path, which did not exist, still does not exist or holds the
  complete encrypted snapshot, of a size a restore accepts and validated under the password; it
  holds it once the export has returned the summary.
\<close>

theorem export_is_complete_or_absent:
  assumes "real_dir (files w) dir" and "ordinary_name n" and "quiet (files w) (dir @ [n])"
    and "live (files w) (dir @ [n]) = None" and "password_key password = Inr secret"
    and "export_snapshot E boundary at_time core (dir @ [n]) password w = (r, w')" and "power_loss (files w') d'"
  shows "case r of
      Returned report \<Rightarrow> live d' (dir @ [n]) \<in> exports E at_time (oc_image core) secret report
    | _ \<Rightarrow> live d' (dir @ [n]) = None \<or> (\<exists>report. live d' (dir @ [n]) \<in> exports E at_time (oc_image core) secret report)"
  using assms by (rule export_outcome)

section \<open>There and back\<close>

lemma suspended_exported [simp]: "suspended E (exported_image i now) = suspended E i"
  by (simp add: suspended_def exported_image_def)

lemma restored_image_simps [simp]:
  "im_db (restored_image S i db) = db" "im_version (restored_image S i db) = 8"
  "im_application (restored_image S i db) = 0" "im_manifest (restored_image S i db) = []"
  by (simp_all add: restored_image_def apply_schema_def)

text \<open>
  C16. What an export wrote, a restore brings back suspended: if both returned, with any loss of
  power after each, the summaries agree, the backup file is unchanged and the new database, under
  its own key, is the exported one with \<^verbatim>\<open>recovery::suspend\<close> applied, at the current version and
  with no trace of the backup's manifest.
\<close>

theorem export_then_restore:
  assumes "real_dir (files w) dir" and "ordinary_name n" and "quiet (files w) (dir @ [n])"
    and "live (files w) (dir @ [n]) = None"
    and exported: "export_snapshot E boundary at_time core (dir @ [n]) password w = (Returned report, w1)"
    and "power_loss (files w1) (files v)"
    and "real_dir (files v) dir" and "real_dir (files v) dir'" and "ordinary_name m"
    and "live (files v) (dir' @ [m]) = None"
    and restored: "restore_snapshot E boundary' (dir @ [n]) (dir' @ [m]) password key v = (Returned report', v1)"
    and "power_loss (files v1) d"
    and codec: "\<And>secret now. password_key password = Inr secret \<Longrightarrow> at_time = Inr now \<Longrightarrow>
        decode (en_sqlcipher E) (Some secret) (encode (en_sqlcipher E) (Some secret) (exported_image (oc_image core) now))
          = Some (exported_image (oc_image core) now)"
    and codec': "\<And>now db. at_time = Inr now \<Longrightarrow> suspended E (oc_image core) = Inr db \<Longrightarrow>
        decode (en_sqlcipher E) (Some (raw_key key)) (restored_bytes E key (exported_image (oc_image core) now) db)
          = Some (restored_image (en_sqlcipher E) (exported_image (oc_image core) now) db)"
  shows "report' = report \<and> live d (dir @ [n]) = live (files v) (dir @ [n])
    \<and> (\<exists>db b j. suspended E (oc_image core) = Inr db \<and> live d (dir' @ [m]) = Some (Regular b)
         \<and> decode (en_sqlcipher E) (Some (raw_key key)) b = Some j
         \<and> im_db j = db \<and> im_version j = 8 \<and> im_application j = 0 \<and> im_manifest j = [])"
proof (cases "password_key password")
  case (Inl e)
  note run = wpD [OF wp_restore_refused [OF Inl, where d = "files v" and E = E]]
  show ?thesis using run(1) restored by blast
next
  case (Inr secret)
  let ?S = "en_sqlcipher E" and ?i = "oc_image core"
  from export_outcome [OF assms(1-4) Inr exported assms(6)]
  obtain now c where c: "at_time = Inr now" "live (files v) (dir @ [n]) = Some (Regular c)"
      "decode ?S (Some secret) c = Some (exported_image ?i now)" "validate E (exported_image ?i now) = Inr report"
    using codec [OF Inr] by (auto simp: exports_def)
  have quiet: "quiet (files v) p" for p using assms(6) by (simp add: quiet_def power_loss_def)
  from restore_outcome [OF assms(8,7,9) ordinary_plain [OF assms(2)] quiet assms(10) quiet c(2) restored assms(12)] Inr
  have kept: "live d (dir @ [n]) = Some (Regular c)" and "live d (dir' @ [m]) \<in> restorations E secret c key report'"
    by auto
  then obtain db where db: "validate E (exported_image ?i now) = Inr report'" "suspended E ?i = Inr db"
      "live d (dir' @ [m]) = Some (Regular (restored_bytes E key (exported_image ?i now) db))"
    using c(3) by (auto simp: restorations_def)
  show ?thesis
    using db c kept codec' [OF c(1) db(2)] by auto
qed

section \<open>Passwords\<close>

text \<open>
  A backup's key is never a raw key: a password of acceptable length gives a key that
  determines it, that no other password gives, and that no storage key is written as.
\<close>

theorem password_keys_are_apart:
  "(\<forall>k. password_key p = Inr k \<longrightarrow>
      16 \<le> char_count p \<and> length p \<le> 1024 \<and> \<not> has_control p
      \<and> (\<forall>q. password_key q = Inr k \<longrightarrow> q = p) \<and> (\<forall>key. raw_key key \<noteq> k))
   \<and> (is_ok (password_key p) \<longleftrightarrow> 16 \<le> char_count p \<and> length p \<le> 1024 \<and> \<not> has_control p)"
  by (auto simp: password_key_def password_prefix_def raw_key_def is_ok_def not_less split: if_splits)

section \<open>A concrete backup\<close>

definition sample_password :: string where
  "sample_password = ''sixteen letters!''"

definition sample_secret :: string where
  "sample_secret = password_prefix @ sample_password"

definition sample_backup :: string where
  "sample_backup = replicate 4096 (CHR ''S'')"

definition backup_snapshot :: "nat image" where
  "backup_snapshot = exported_image sample_image 5"

definition sample_restored :: "nat image" where
  "sample_restored = restored_image sample_sqlcipher backup_snapshot empty_db"

definition backup_sqlcipher :: "nat sqlcipher" where
  "backup_sqlcipher = sample_sqlcipher
     \<lparr>decode := (\<lambda>key b. if b = sample_backup \<and> key = Some sample_secret then Some backup_snapshot
                        else if b = sample_ciphertext then Some sample_restored else None),
      encode := (\<lambda>key i. if key = Some sample_secret then sample_backup else sample_ciphertext)\<rparr>"

definition sample_environment :: "(nat, nat) environment" where
  "sample_environment = \<lparr>en_bitcoin = sample_bitcoin, en_codec = sample_codec, en_miniscript = sample_miniscript,
     en_bdk = sample_bdk, en_parse = (\<lambda>_. None), en_print = (\<lambda>_. []), en_review_len = (\<lambda>_. 0),
     en_sqlcipher = backup_sqlcipher\<rparr>"

definition backup_world :: world where
  "backup_world =
     \<lparr>files = \<lparr>live = [[root_component] \<mapsto> Directory, [root_component, ''b''] \<mapsto> Regular sample_backup],
               remnants = (\<lambda>_. []), flushed = (\<lambda>_. True)\<rparr>,
      locks = (\<lambda>_. Free), fates = [], suffixes = [''x'', ''y''], cwd = [root_component]\<rparr>"

definition sample_report :: backup_summary where
  "sample_report = \<lparr>bs_created_at = 5, bs_wallets = [], bs_drafts = 0, bs_submissions = 0\<rparr>"

lemma sample_backup_size:
  "length sample_backup = 4096" "sample_backup \<noteq> sample_ciphertext" "standalone_bytes sample_backup"
  "length sample_backup \<le> MAX_BYTES"
proof -
  show len: "length sample_backup = 4096" by (simp add: sample_backup_def)
  show "sample_backup \<noteq> sample_ciphertext"
  proof
    assume "sample_backup = sample_ciphertext"
    hence "length sample_backup = length sample_ciphertext" by (rule arg_cong)
    with len show False by (simp add: sample_ciphertext_def)
  qed
  show "standalone_bytes sample_backup" "length sample_backup \<le> MAX_BYTES"
    using len by (simp_all add: standalone_bytes_def MAX_BYTES_def)
qed

lemma sample_validate: "validate sample_environment backup_snapshot = Inr sample_report"
  by (simp add: validate_def sample_environment_def backup_snapshot_def exported_image_def sample_image_def
      backup_sqlcipher_def sample_sqlcipher_def backend_def APPLICATION_ID_def SCHEMA_VERSION_def schema_rows_def
      MANIFEST_def char_count_def integrity_def empty_db_def excessive_attempts_def sample_report_def)

lemma sample_suspended: "suspended sample_environment backup_snapshot = Inr empty_db"
  by (simp add: suspended_def suspend_def backup_snapshot_def exported_image_def sample_image_def empty_db_def
      oversized_def sql_clear_recovery_def sql_unsync_all_def tbl_update_def)

lemma sample_password_key: "password_key sample_password = Inr sample_secret"
  by (simp add: password_key_def sample_secret_def sample_password_def char_count_def)

lemma sample_names [simp]:
  "plain_name n \<Longrightarrow> file_name [root_component, n] = Some n" "parent_of [root_component, n] = Some [root_component]"
  "plain_name ''b''" "plain_name ''w''" "plain_name (CHR ''.'' # CHR ''t'' # s)"
  "resolve nodes links at [root_component] = Some [root_component]"
  by (simp_all add: file_name_def parent_of_def plain_name_def root_component_def)

lemma backup_codec:
  "decode backup_sqlcipher (Some sample_secret) sample_backup = Some backup_snapshot"
  "decode backup_sqlcipher (Some (raw_key k)) sample_ciphertext = Some sample_restored"
  "encode backup_sqlcipher (Some sample_secret) i = sample_backup"
  "encode backup_sqlcipher (Some (raw_key k)) i = sample_ciphertext"
  "backend backup_sqlcipher = Inr ()"
  "en_sqlcipher sample_environment = backup_sqlcipher"
  using sample_backup_size(2)
  by (auto simp: backup_sqlcipher_def sample_environment_def sample_sqlcipher_def backend_def sample_secret_def
      password_prefix_def raw_key_def)

lemma sample_ciphertext_size:
  "length sample_ciphertext = 16" "\<not> MAX_BYTES < 16" "\<not> MAX_BYTES < 4096"
  "take (MAX_BYTES + 1) sample_backup = sample_backup" "take (Suc MAX_BYTES) sample_backup = sample_backup"
  by (simp_all add: sample_ciphertext_def MAX_BYTES_def sample_backup_size)

lemma sample_restored_image: "restored_image backup_sqlcipher backup_snapshot empty_db = sample_restored"
  by (simp add: sample_restored_def restored_image_def apply_schema_def backup_sqlcipher_def)

lemma sample_image_version: "im_version sample_image = SCHEMA_VERSION"
  by (simp add: sample_image_def SCHEMA_VERSION_def)

lemma sample_restored_simps:
  "wallets (im_db sample_restored) = []" "integrity sample_restored = Inr ()"
  by (simp_all add: sample_restored_def restored_image_def apply_schema_def empty_db_def integrity_def backup_snapshot_def
      exported_image_def sample_image_def)

lemmas backup_runs = restore_snapshot_def calm_calls io_bind_def io_map_err_def io_try_def io_finally_def
  io_return_def io_fail_def io_result_def validate_key_path_def sample_storage_key_def memory_path_def
  sample_password_key canonical_path_def exclusive_lock_def lock_file_def acquire_def backup_world_def Let_def
  lock_name_def disk_simps standalone_file_def sidecars_def sidecar_def with_temporary_def
  restore_input_def copy_source_def sample_backup_size sample_ciphertext_size open_snapshot_def probe_def backup_codec sample_validate
  restore_output_def suspended_def [symmetric] sample_suspended write_database_def open_protected_def
  sample_restored_simps sample_report_def install_def drop_lock_def

lemma sample_restore_returns:
  "\<exists>w'. restore_snapshot sample_environment (\<lambda>_. Inr ()) ([root_component] @ [''b'']) ([root_component] @ [''w''])
     sample_password sample_storage_key backup_world = (Returned sample_report, w')"
  by (simp add: backup_runs)

definition sample_core :: "nat open_core" where
  "sample_core = \<lparr>oc_path = None, oc_key = None, oc_image = sample_image, oc_lock = None\<rparr>"

definition export_world :: world where
  "export_world =
     \<lparr>files = \<lparr>live = [[root_component] \<mapsto> Directory], remnants = (\<lambda>_. []), flushed = (\<lambda>_. True)\<rparr>,
      locks = (\<lambda>_. Free), fates = [], suffixes = [''x'', ''y''], cwd = [root_component]\<rparr>"

lemma sample_export_returns:
  "\<exists>w'. export_snapshot sample_environment (\<lambda>_. Inr ()) (Inr 5) sample_core ([root_component] @ [''b''])
     sample_password export_world = (Returned sample_report, w') \<and> live (files w') = live (files backup_world)"
  by (simp add: backup_runs export_snapshot_def export_output_def export_world_def sample_core_def
      sample_image_version backup_snapshot_def [symmetric]) (auto simp: fun_eq_iff root_component_def
      set_entry_def write_entry_def flush_entry_def settle_directory_def move_entry_def)

lemma backup_places:
  "real_dir (files backup_world) [root_component]" "real_dir (files export_world) [root_component]"
  "quiet (files backup_world) p" "quiet (files export_world) p"
  "live (files backup_world) ([root_component] @ [''b'']) = Some (Regular sample_backup)"
  "live (files backup_world) ([root_component] @ [''w'']) = None"
  "live (files export_world) ([root_component] @ [''b'']) = None"
  "ordinary_name ''b''" "ordinary_name ''w''"
  by (auto simp: real_dir_def backup_world_def export_world_def quiet_def ordinary_name_def plain_name_def
      root_component_def le_Suc_eq)

theorem restore_is_complete_or_absent_witness:
  "\<exists>w'. restore_snapshot sample_environment (\<lambda>_. Inr ()) ([root_component] @ [''b'']) ([root_component] @ [''w''])
      sample_password sample_storage_key backup_world = (Returned sample_report, w')
    \<and> live (all_flushed (files w')) ([root_component] @ [''b'']) = Some (Regular sample_backup)
    \<and> live (all_flushed (files w')) ([root_component] @ [''w'']) = Some (Regular sample_ciphertext)"
proof -
  obtain w' where run: "restore_snapshot sample_environment (\<lambda>_. Inr ()) ([root_component] @ [''b''])
      ([root_component] @ [''w'']) sample_password sample_storage_key backup_world = (Returned sample_report, w')"
    using sample_restore_returns by blast
  from restore_is_complete_or_absent [OF backup_places(1,1,9) ordinary_plain [OF backup_places(8)] backup_places(3,6,3,5)
      run power_loss_all_flushed] run
  show ?thesis by (auto simp: restorations_def restored_bytes_def backup_codec)
qed

theorem export_is_complete_or_absent_witness:
  "\<exists>w'. export_snapshot sample_environment (\<lambda>_. Inr ()) (Inr 5) sample_core ([root_component] @ [''b''])
      sample_password export_world = (Returned sample_report, w')
    \<and> live (all_flushed (files w')) ([root_component] @ [''b'']) = Some (Regular sample_backup)"
proof -
  obtain w' where run: "export_snapshot sample_environment (\<lambda>_. Inr ()) (Inr 5) sample_core ([root_component] @ [''b''])
      sample_password export_world = (Returned sample_report, w')"
    using sample_export_returns by blast
  from export_is_complete_or_absent [OF backup_places(2,8,4,7) sample_password_key run power_loss_all_flushed] run
  show ?thesis by (auto simp: exports_def backup_codec)
qed

lemma sample_suspended_image: "suspended sample_environment sample_image = Inr empty_db"
  using sample_suspended by (simp add: backup_snapshot_def)

theorem export_then_restore_witness:
  "\<exists>w1 v1. export_snapshot sample_environment (\<lambda>_. Inr ()) (Inr 5) sample_core ([root_component] @ [''b''])
      sample_password export_world = (Returned sample_report, w1)
    \<and> all_flushed (files w1) = files backup_world
    \<and> restore_snapshot sample_environment (\<lambda>_. Inr ()) ([root_component] @ [''b'']) ([root_component] @ [''w''])
        sample_password sample_storage_key backup_world = (Returned sample_report, v1)
    \<and> (\<exists>b j. live (all_flushed (files v1)) ([root_component] @ [''w'']) = Some (Regular b)
         \<and> decode backup_sqlcipher (Some (raw_key sample_storage_key)) b = Some j \<and> im_db j = empty_db)"
proof -
  obtain w1 where exported: "export_snapshot sample_environment (\<lambda>_. Inr ()) (Inr 5) sample_core
      ([root_component] @ [''b'']) sample_password export_world = (Returned sample_report, w1)"
      "live (files w1) = live (files backup_world)"
    using sample_export_returns by blast
  obtain v1 where restored: "restore_snapshot sample_environment (\<lambda>_. Inr ()) ([root_component] @ [''b''])
      ([root_component] @ [''w'']) sample_password sample_storage_key backup_world = (Returned sample_report, v1)"
    using sample_restore_returns by blast
  have same: "all_flushed (files w1) = files backup_world"
    using exported(2) by (simp add: all_flushed_def backup_world_def)
  have loss: "power_loss (files w1) (files backup_world)"
    using power_loss_all_flushed [of "files w1"] by (simp add: same)
  have export_codec: "decode (en_sqlcipher sample_environment) (Some secret)
      (encode (en_sqlcipher sample_environment) (Some secret) (exported_image (oc_image sample_core) now))
        = Some (exported_image (oc_image sample_core) now)"
    if "password_key sample_password = Inr secret" "Inr 5 = Inr now" for secret now
    using that by (simp add: sample_password_key sample_core_def backup_snapshot_def [symmetric] backup_codec)
  have restore_codec: "decode (en_sqlcipher sample_environment) (Some (raw_key sample_storage_key))
      (restored_bytes sample_environment sample_storage_key (exported_image (oc_image sample_core) now) db)
        = Some (restored_image (en_sqlcipher sample_environment) (exported_image (oc_image sample_core) now) db)"
    if "Inr 5 = Inr now" "suspended sample_environment (oc_image sample_core) = Inr db" for now db
    using that sample_suspended_image
    by (auto simp: sample_core_def restored_bytes_def backup_snapshot_def [symmetric] backup_codec sample_restored_image)
  from export_then_restore [OF backup_places(2,8,4,7) exported(1) loss backup_places(1,1,9,6) restored
      power_loss_all_flushed export_codec restore_codec] exported(1) same restored
  show ?thesis by (auto simp: sample_core_def sample_suspended_image backup_codec)
qed

theorem password_keys_are_apart_witness:
  "password_key sample_password = Inr sample_secret
    \<and> (\<forall>q. password_key q = Inr sample_secret \<longrightarrow> q = sample_password) \<and> (\<forall>key. raw_key key \<noteq> sample_secret)"
  using password_keys_are_apart [of sample_password] sample_password_key by simp

end
