(* ===== verification/Selection_Facts.thy ===== *)
theory Selection_Facts
  imports Store_Selection Backup_Facts
begin

text \<open>
  What a recovery leaves selected whatever call fails, wherever the process is killed and in
  whatever order its methods are called: the store that was selected or the verified candidate,
  and nothing that existed before is changed but the selector.
\<close>

section \<open>The selection as a function of the disk\<close>

definition selection_at :: "(path \<Rightarrow> node option) \<Rightarrow> path \<Rightarrow> storage_location result" where
  "selection_at nodes root =
     (case nodes (root @ [SELECTOR]) of
        None \<Rightarrow>
          (case nodes (root @ [STORES]) of
             None \<Rightarrow> Inr \<lparr>sl_generation = ''default'', sl_directory = root, sl_require_existing = False\<rparr>
           | Some n \<Rightarrow> Inl (if is_dir n then StorageLocked else Storage))
      | Some (Regular bytes) \<Rightarrow>
          rbind (ok_or (selector_generation bytes) StorageLocked) (\<lambda>g.
          rbind
            (if g = ''default'' then Inr root
             else if valid_generation g
               then (case nodes (root @ [STORES]) of
                       None \<Rightarrow> Inl StorageLocked
                     | Some n \<Rightarrow> (if is_dir n then Inr (root @ [STORES, g]) else Inl Storage))
             else Inl StorageLocked) (\<lambda>location.
          case nodes location of
            None \<Rightarrow> Inl StorageLocked
          | Some n \<Rightarrow>
              (if is_dir n
               then Inr \<lparr>sl_generation = g, sl_directory = location, sl_require_existing = True\<rparr>
               else Inl Storage)))
      | Some _ \<Rightarrow> Inl Storage)"

lemma wp_kind_of [wp_rules]:
  assumes "\<And>e. E e d" and "K d" and "\<And>n. live d p = Some n \<Longrightarrow> kind n \<Longrightarrow> Q True d"
    and "live d p = None \<Longrightarrow> Q False d"
  shows "wp (kind_of kind p) Q E K d"
  unfolding kind_of_def using assms by (auto intro!: wp_rules split: sum.split io_error.split)

lemma is_file_iff: "is_file n \<longleftrightarrow> (\<exists>b. n = Regular b)"
  by (cases n) auto

lemma is_dir_iff: "is_dir n \<longleftrightarrow> n = Directory"
  by (cases n) auto

text \<open>Reading it never changes the disk, and what is read is the function's value.\<close>

lemma read_selection_refines:
  "wp (read_selection root) (\<lambda>l x. x = d \<and> selection_at (live d) root = Inr l) (\<lambda>_ x. x = d) (\<lambda>x. x = d) d"
  unfolding read_selection_def regular_def directory_def
  by (auto intro!: wp_rules simp: selection_at_def is_file_iff is_dir_iff ok_or_def split: option.splits)

definition kind_result :: "(node \<Rightarrow> bool) \<Rightarrow> node option \<Rightarrow> bool result" where
  "kind_result kind v =
     (case v of None \<Rightarrow> Inr False | Some n \<Rightarrow> (if kind n then Inr True else Inl Storage))"

definition ended :: "'a result \<Rightarrow> (error, 'a) ending" where
  "ended r = (case r of Inl e \<Rightarrow> Failed e | Inr a \<Rightarrow> Returned a)"

lemma calm_kind: "fates v = [] \<Longrightarrow> kind_of kind p v = (ended (kind_result kind (live (files v) p)), v)"
  by (simp add: kind_of_def io_bind_def io_try_def stat_def atomic_def calm_call io_return_def io_fail_def
      ended_def kind_result_def split: option.split)

lemma calm_read:
  "fates v = [] \<Longrightarrow> read_bytes p v =
     (case live (files v) p of Some (Regular b) \<Rightarrow> Returned b | None \<Rightarrow> Failed Not_Found | _ \<Rightarrow> Failed Other_Error, v)"
  by (simp add: read_bytes_def atomic_def calm_call split: option.split node.split)

lemma io_bind_returned: "m v = (Returned a, u) \<Longrightarrow> io_bind m f v = f a u"
  by (simp add: io_bind_def)

lemma io_bind_failed: "m v = (Failed e, u) \<Longrightarrow> io_bind m f v = (Failed e, u)"
  by (simp add: io_bind_def)

text \<open>Without failures it reads exactly that.\<close>

lemma read_selection_calm:
  "fates v = [] \<Longrightarrow> read_selection root v = (ended (selection_at (live (files v)) root), v)"
  by (simp add: read_selection_def regular_def directory_def io_bind_def calm_kind calm_read selection_at_def
      kind_result_def ended_def io_return_def io_fail_def io_map_err_def io_result_def ok_or_def is_file_iff
      split: option.split node.split if_split)

section \<open>What a recovery keeps\<close>

text \<open>
  Everything that existed on \<open>d0\<close>, but the selector, is as it was. Entries below a directory that
  did not exist did not exist either (\<open>tree\<close>).
\<close>

definition tree :: "disk \<Rightarrow> bool" where
  "tree d \<longleftrightarrow> (\<forall>p. live d p \<noteq> None \<and> 1 < length p \<longrightarrow> live d (butlast p) = Some Directory)"

definition newcomers :: "path \<Rightarrow> disk \<Rightarrow> path set" where
  "newcomers root d0 = {p. live d0 p = None \<or> p = root @ [SELECTOR]}"

definition since :: "path \<Rightarrow> disk \<Rightarrow> disk \<Rightarrow> bool" where
  "since root d0 d \<longleftrightarrow> untouched (newcomers root d0) d0 d"

lemma since_refl: "since root d d"
  by (simp add: since_def)

lemma new_entry: "since root d0 d \<Longrightarrow> live d p = None \<Longrightarrow> p \<in> newcomers root d0"
  by (metis (mono_tags, lifting) mem_Collect_eq newcomers_def since_def untouched_live)

lemma since_set_entry: "since root d0 d \<Longrightarrow> p \<in> newcomers root d0 \<Longrightarrow> since root d0 (set_entry p v f d)"
  unfolding since_def by (erule untouched_trans) (rule untouched_changes)

lemma since_new_entry: "since root d0 d \<Longrightarrow> live d p = None \<Longrightarrow> since root d0 (set_entry p v f d)"
  by (blast intro: since_set_entry new_entry)

lemma since_changes:
  assumes "since root d0 d"
  shows "p \<in> newcomers root d0 \<Longrightarrow> since root d0 (write_entry p b d)"
    and "p \<in> newcomers root d0 \<Longrightarrow> since root d0 (flush_entry p d)"
    and "p \<in> newcomers root d0 \<Longrightarrow> q \<in> newcomers root d0 \<Longrightarrow> since root d0 (move_entry p q d)"
    and "p \<in> newcomers root d0 \<Longrightarrow> since root d0 (commit_entry p b d)"
    and "since root d0 (settle_directory dir d)"
proof -
  show "p \<in> newcomers root d0 \<Longrightarrow> since root d0 (commit_entry p b d)"
    using assms unfolding since_def
    by (erule_tac untouched_trans)
      (auto simp: untouched_def commit_entry_def survivors_def standing_def cong: option.case_cong node.case_cong)
qed (use assms in \<open>auto simp: since_def intro: untouched_trans untouched_changes\<close>)

lemma since_keeps:
  assumes "since root d0 d" and "live d0 p \<noteq> None" and "p \<noteq> root @ [SELECTOR]"
  shows "choices d0 p V \<Longrightarrow> choices d p V"
  using assms by (auto simp: since_def newcomers_def intro: untouched_choices)

section \<open>Switching the selector\<close>

lemma selector_not_temporary: "\<exists>s. t = ''.active-store-'' @ s \<Longrightarrow> t \<noteq> SELECTOR \<and> plain_name t"
  by (auto simp: SELECTOR_def plain_name_def root_component_def)

text \<open>
  Where a recovery stands: nothing older than it is touched, the directories of \<open>D\<close> are on the
  medium and so is one of the selectors of \<open>V\<close>.
\<close>

definition switching :: "path \<Rightarrow> disk \<Rightarrow> path set \<Rightarrow> node option set \<Rightarrow> disk \<Rightarrow> bool" where
  "switching root d0 D V d \<longleftrightarrow>
     since root d0 d \<and> real_dir d root \<and> choices d (root @ [SELECTOR]) V
     \<and> (\<forall>p \<in> D. choices d p {Some Directory})"

lemma switching_dir: "switching root d0 D V d \<Longrightarrow> p \<in> D \<Longrightarrow> live d p = Some Directory"
  using choices_live [of d p "{Some Directory}"] by (auto simp: switching_def)

lemma switching_mono: "switching root d0 D V d \<Longrightarrow> V \<subseteq> V' \<Longrightarrow> switching root d0 D V' d"
  by (auto simp: switching_def elim: choices_mono)

lemma switching_other:
  assumes on: "switching root d0 D V d" and q: "q \<in> newcomers root d0" "q \<noteq> root @ [SELECTOR]"
    and nd: "live d q \<noteq> Some Directory"
  shows "switching root d0 D V (set_entry q v f d)" and "switching root d0 D V (write_entry q b d)"
    and "switching root d0 D V (flush_entry q d)" and "switching root d0 D V (commit_entry q b d)"
proof -
  have D: "p \<noteq> q" if "p \<in> D" for p using switching_dir [OF on that] nd by auto
  show "switching root d0 D V (set_entry q v f d)" "switching root d0 D V (write_entry q b d)"
    "switching root d0 D V (flush_entry q d)"
    using on q nd D unfolding switching_def
    by (auto intro: since_set_entry since_changes real_dir_changes choices_flush simp: choices_other D)
  have "choices (commit_entry q b d) p W" if "choices d p W" "p \<noteq> q" for p W
    using that by (simp add: choices_def survivors_def standing_def commit_entry_def
        cong: option.case_cong node.case_cong)
  moreover have "real_dir (commit_entry q b d) root"
    using on nd by (auto simp: switching_def commit_entry_def elim!: real_dir_cong)
  ultimately show "switching root d0 D V (commit_entry q b d)"
    using on q D unfolding switching_def by (auto intro: since_changes)
qed

lemma switching_new:
  "switching root d0 D V d \<Longrightarrow> live d q = None \<Longrightarrow> q \<noteq> root @ [SELECTOR] \<Longrightarrow>
   switching root d0 D V (set_entry q v f d)"
  by (rule switching_other(1)) (auto simp: switching_def intro: new_entry)

lemma switching_settle: "switching root d0 D V d \<Longrightarrow> switching root d0 D V (settle_directory dir d)"
  by (auto simp: switching_def intro: since_changes real_dir_changes choices_settle)

text \<open>The rename that switches, and the synchronization that makes it last.\<close>

lemma switching_move:
  assumes on: "switching root d0 D V d" and t: "live d t = Some (Regular b)" "flushed d t" "t \<in> newcomers root d0"
      "t \<noteq> root @ [SELECTOR]"
    and sel: "live d (root @ [SELECTOR]) \<noteq> Some Directory" and new: "Some (Regular b) \<in> V"
  shows "switching root d0 D V (move_entry t (root @ [SELECTOR]) d)"
    and "switching root d0 D {Some (Regular b)} (settle_directory root (move_entry t (root @ [SELECTOR]) d))"
proof -
  have apart: "p \<noteq> t" "p \<noteq> root @ [SELECTOR]" if "p \<in> D" for p
    using switching_dir [OF on that] t sel by auto
  show moved: "switching root d0 D V (move_entry t (root @ [SELECTOR]) d)"
    using on t sel new unfolding switching_def
    by (auto intro!: since_changes real_dir_changes choices_move simp: choices_other stable_node_def newcomers_def apart)
  have "choices (settle_directory root (move_entry t (root @ [SELECTOR]) d)) (root @ [SELECTOR]) {Some (Regular b)}"
    using t by (intro choices_settled_to) (simp_all add: disk_simps stable_node_def move_entry_def)
  with switching_settle [OF moved, of root]
  show "switching root d0 D {Some (Regular b)} (settle_directory root (move_entry t (root @ [SELECTOR]) d))"
    by (simp add: switching_def)
qed

lemma wp_write_selection:
  assumes start: "switching root d0 D V d" and new: "Some (Regular (selector_text g)) \<in> V"
  shows "wp (write_selection root g)
           (\<lambda>_. switching root d0 D {Some (Regular (selector_text g))})
           (\<lambda>_. switching root d0 D V) (switching root d0 D V) d"
proof -
  have into: "switching root d0 D {Some (Regular (selector_text g))} x \<Longrightarrow> switching root d0 D V x" for x
    using new by (auto elim: switching_mono)
  have body: "wp (with_temporary root ''.active-store-'' (\<lambda>temp.
       io_bind (io_map_err (\<lambda>_. Storage) (write_bytes temp (selector_text g))) (\<lambda>_.
       io_bind (io_map_err (\<lambda>_. Storage) (sync_file temp)) (\<lambda>_.
       io_bind (io_map_err (\<lambda>_. Storage) (rename_over temp (root @ [SELECTOR]))) (\<lambda>_.
       sync_directory root)))))
     (\<lambda>_. switching root d0 D {Some (Regular (selector_text g))}) (\<lambda>_. switching root d0 D V)
     (switching root d0 D V) d"
  proof (rule wp_with_temporary)
    fix t
    assume "\<exists>s. t = ''.active-store-'' @ s" and free: "live d (root @ [t]) = None"
    hence t: "root @ [t] \<noteq> root @ [SELECTOR]" "root @ [t] \<in> newcomers root d0"
      using selector_not_temporary start by (auto simp: switching_def dest: new_entry)
    let ?t = "root @ [t]"
    let ?made = "set_entry ?t (Some (Regular [])) False d"
    let ?written = "\<lambda>b. write_entry ?t b ?made"
    have on: "switching root d0 D V ?made" using switching_new [OF start free t(1)] .
    have wr: "switching root d0 D V (?written b)" for b
      by (rule switching_other(2) [OF on t(2,1)]) (simp add: disk_simps)
    have fl: "switching root d0 D V (flush_entry ?t (?written b))" for b
      by (rule switching_other(3) [OF wr t(2,1)]) (simp add: disk_simps)
    have dropped: "switching root d0 D W x \<Longrightarrow> live x ?t \<noteq> Some Directory \<Longrightarrow>
        switching root d0 D W (set_entry ?t None True x)" for x W
      using t by (intro switching_other(1))
    let ?moved = "move_entry ?t (root @ [SELECTOR]) (flush_entry ?t (?written (selector_text g)))"
    have mv: "switching root d0 D V ?moved"
        "switching root d0 D {Some (Regular (selector_text g))} (settle_directory root ?moved)"
        "switching root d0 D V (settle_directory root ?moved)"
      if "live d (root @ [SELECTOR]) \<noteq> Some Directory"
      using switching_move [OF fl _ _ t(2,1) _ new] t that into by (simp_all add: disk_simps)
    show "wp (io_bind (io_map_err (\<lambda>_. Storage) (write_bytes ?t (selector_text g))) (\<lambda>_.
       io_bind (io_map_err (\<lambda>_. Storage) (sync_file ?t)) (\<lambda>_.
       io_bind (io_map_err (\<lambda>_. Storage) (rename_over ?t (root @ [SELECTOR]))) (\<lambda>_.
       sync_directory root))))
       (\<lambda>a x. switching root d0 D {Some (Regular (selector_text g))} x \<and> switching root d0 D V x \<and>
          switching root d0 D {Some (Regular (selector_text g))} (set_entry ?t None True x))
       (\<lambda>e x. switching root d0 D V x \<and> switching root d0 D V x \<and> switching root d0 D V (set_entry ?t None True x))
       (switching root d0 D V) ?made"
      unfolding sync_directory_def
      using on wr fl t
      by (auto intro!: wp_bind wp_map_err wp_write_bytes wp_sync_file wp_rename_over wp_sync_dir
          dropped mv simp: disk_simps)
  qed (use start in auto)
  show ?thesis
    unfolding write_selection_def regular_def using start
    by (intro wp_bind wp_kind_of body)
qed

section \<open>Beginning a recovery\<close>

text \<open>A selector that names a location, and the directories its selection needs.\<close>

definition names :: "path \<Rightarrow> storage_location \<Rightarrow> string \<Rightarrow> bool" where
  "names root loc b \<longleftrightarrow>
     selector_generation b = Some (sl_generation loc)
     \<and> (if sl_generation loc = ''default'' then sl_directory loc = root
        else valid_generation (sl_generation loc) \<and> sl_directory loc = root @ [STORES, sl_generation loc])"

definition needed :: "path \<Rightarrow> storage_location \<Rightarrow> path set" where
  "needed root loc =
     (if sl_generation loc = ''default'' then {root} else {root, root @ [STORES], sl_directory loc})"

definition same_store :: "storage_location \<Rightarrow> storage_location \<Rightarrow> bool" where
  "same_store loc loc' \<longleftrightarrow>
     sl_generation loc' = sl_generation loc \<and> sl_directory loc' = sl_directory loc
     \<and> (sl_require_existing loc \<longrightarrow> sl_require_existing loc')"

lemma selector_generation_text:
  "g = ''default'' \<or> valid_generation g \<Longrightarrow> selector_generation (selector_text g) = Some g"
proof -
  assume "g = ''default'' \<or> valid_generation g"
  hence "length (selector_text g) \<le> 65"
    by (auto simp: selector_text_def HEADER_def valid_generation_def)
  thus ?thesis
    by (auto simp: selector_generation_def selector_text_def strip_prefix_Some_iff strip_suffix_Some_iff
        bind_eq_Some_conv)
qed

lemma names_selected:
  assumes "names root loc b" and "nodes (root @ [SELECTOR]) = Some (Regular b)"
    and "\<And>p. p \<in> needed root loc \<Longrightarrow> nodes p = Some Directory"
  shows "\<exists>loc'. selection_at nodes root = Inr loc' \<and> same_store loc loc'"
  using assms by (auto simp: names_def needed_def selection_at_def same_store_def split: if_splits)

lemma switching_selected:
  assumes "switching root d0 D {Some (Regular b)} d" and "names root loc b" and "needed root loc \<subseteq> D"
    and "power_loss d d'"
  shows "\<exists>loc'. selection_at (live d') root = Inr loc' \<and> same_store loc loc'"
proof (rule names_selected [OF assms(2)])
  show "live d' (root @ [SELECTOR]) = Some (Regular b)"
    using assms(1,4) choices_power_loss by (fastforce simp: switching_def)
  show "live d' p = Some Directory" if "p \<in> needed root loc" for p
    using assms(1,3,4) that choices_power_loss by (fastforce simp: switching_def)
qed

definition fresh_location :: "path \<Rightarrow> storage_location" where
  "fresh_location root = \<lparr>sl_generation = ''default'', sl_directory = root, sl_require_existing = False\<rparr>"

text \<open>Every loss of power finds the old selection.\<close>

definition still_selects :: "path \<Rightarrow> disk \<Rightarrow> storage_location \<Rightarrow> disk \<Rightarrow> bool" where
  "still_selects root d0 loc d \<longleftrightarrow>
     (\<exists>b. names root loc b \<and> switching root d0 (needed root loc) {Some (Regular b)} d)
     \<or> loc = fresh_location root
        \<and> switching root d0 {root} {None, Some (Regular (selector_text ''default''))} d
        \<and> choices d (root @ [STORES]) {None}"

lemma still_selected:
  assumes "still_selects root d0 loc d" and "power_loss d d'"
  shows "\<exists>loc'. selection_at (live d') root = Inr loc' \<and> same_store loc loc'"
  using assms(1) unfolding still_selects_def
proof (elim disjE exE conjE)
  assume loc: "loc = fresh_location root"
    and on: "switching root d0 {root} {None, Some (Regular (selector_text ''default''))} d"
    and none: "choices d (root @ [STORES]) {None}"
  have "live d' (root @ [SELECTOR]) \<in> {None, Some (Regular (selector_text ''default''))}"
    "live d' (root @ [STORES]) = None" "live d' root = Some Directory"
    using on none assms(2) choices_power_loss by (fastforce simp: switching_def)+
  thus ?thesis
    using selector_generation_text [of "''default''"]
    by (auto simp: selection_at_def loc fresh_location_def same_store_def)
qed (blast intro: switching_selected [OF _ _ _ assms(2)])

text \<open>What a recovery holds once it has begun.\<close>

definition begun :: "path \<Rightarrow> disk \<Rightarrow> storage_location \<Rightarrow> string \<Rightarrow> string \<Rightarrow> storage_restore \<Rightarrow> disk \<Rightarrow> bool" where
  "begun root d0 loc name b s d \<longleftrightarrow>
     names root loc b \<and> sr_database s = name
     \<and> switching root d0 (needed root loc \<union> needed root (sr_location s)) {Some (Regular b)} d
     \<and> sr_root s = root \<and> sl_directory (sr_location s) = root @ [STORES, sl_generation (sr_location s)]
     \<and> valid_generation (sl_generation (sr_location s)) \<and> sr_key s = None \<and> \<not> sr_activated s
     \<and> real_dir d (sl_directory (sr_location s)) \<and> live d0 (sl_directory (sr_location s)) = None"

lemma plain_generation: "valid_generation g \<Longrightarrow> plain_name g"
  by (auto simp: valid_generation_def plain_name_def root_component_def)

lemma plain_STORES: "plain_name STORES"
  by (simp add: STORES_def plain_name_def root_component_def)

lemma STORES_not_SELECTOR: "STORES \<noteq> SELECTOR"
  by (simp add: STORES_def SELECTOR_def)

lemma default_not_valid: "\<not> valid_generation ''default''"
  by (simp add: valid_generation_def)

lemma needed_candidate:
  "valid_generation (sl_generation l) \<Longrightarrow> sl_directory l = root @ [STORES, sl_generation l] \<Longrightarrow>
   needed root l = {root, root @ [STORES], root @ [STORES, sl_generation l]}"
  by (auto simp: needed_def default_not_valid)

lemma switching_insert:
  "switching root d0 D V d \<Longrightarrow> choices d p {Some Directory} \<Longrightarrow> switching root d0 (insert p D) V d"
  by (auto simp: switching_def)

lemma switching_less: "switching root d0 D V d \<Longrightarrow> D' \<subseteq> D \<Longrightarrow> switching root d0 D' V d"
  by (auto simp: switching_def)

text \<open>The candidate, once its parent directory was synchronized.\<close>

lemma wp_candidate:
  assumes on: "switching root d0 D {Some (Regular b)} d" and nm: "names root loc b"
    and D: "needed root loc \<subseteq> D" "root \<in> D" "root @ [STORES] \<in> D"
  shows "wp (io_bind (io_map_err (\<lambda>_. Storage) (create_temporary (root @ [STORES]) ''store-'' Directory)) (\<lambda>candidate.
      io_bind (sync_directory (root @ [STORES])) (\<lambda>_.
      io_bind (io_result (step Allocated)) (\<lambda>_.
      if \<not> valid_generation (last candidate) then io_fail Storage
      else
        io_return
          \<lparr>sr_root = root,
           sr_location = \<lparr>sl_generation = last candidate, sl_directory = candidate, sl_require_existing = True\<rparr>,
           sr_database = name, sr_key = None, sr_activated = False, sr_lock = lock\<rparr>))))
     (begun root d0 loc name b) (\<lambda>_. switching root d0 D {Some (Regular b)}) (switching root d0 D {Some (Regular b)}) d"
proof -
  let ?made = "\<lambda>g. set_entry (root @ [STORES, g]) (Some Directory) False d"
  have candidate: "switching root d0 D {Some (Regular b)} (?made g)"
      "switching root d0 D {Some (Regular b)} (settle_directory (root @ [STORES]) (?made g))"
      "valid_generation g \<Longrightarrow> begun root d0 loc name b \<lparr>sr_root = root,
           sr_location = \<lparr>sl_generation = g, sl_directory = root @ [STORES, g], sl_require_existing = True\<rparr>,
           sr_database = name, sr_key = None, sr_activated = False, sr_lock = lock\<rparr>
        (settle_directory (root @ [STORES]) (?made g))"
    if free: "live d (root @ [STORES, g]) = None" for g
  proof -
    let ?c = "root @ [STORES, g]"
    show made: "switching root d0 D {Some (Regular b)} (?made g)"
      by (rule switching_new [OF on free]) simp
    show set: "switching root d0 D {Some (Regular b)} (settle_directory (root @ [STORES]) (?made g))"
      by (rule switching_settle [OF made])
    assume valid: "valid_generation g"
    have here: "choices (settle_directory (root @ [STORES]) (?made g)) ?c {Some Directory}"
      by (rule choices_settled_to) (simp_all add: disk_simps stable_node_def butlast_append)
    have "real_dir (settle_directory (root @ [STORES]) (?made g)) ((root @ [STORES]) @ [g])"
      using set switching_dir [OF set D(3)] choices_live [OF here]
      by (intro real_dir_snoc plain_generation [OF valid] plain_STORES) (auto simp: switching_def)
    moreover have "?c \<in> newcomers root d0" using on free by (auto simp: switching_def intro: new_entry)
    ultimately show "begun root d0 loc name b \<lparr>sr_root = root,
           sr_location = \<lparr>sl_generation = g, sl_directory = root @ [STORES, g], sl_require_existing = True\<rparr>,
           sr_database = name, sr_key = None, sr_activated = False, sr_lock = lock\<rparr>
        (settle_directory (root @ [STORES]) (?made g))"
      using nm valid D switching_less [OF switching_insert [OF set here],
          of "needed root loc \<union> {root, root @ [STORES], root @ [STORES, g]}"]
      by (simp add: begun_def needed_candidate newcomers_def subset_insertI2)
  qed
  show ?thesis
    unfolding sync_directory_def using on candidate
    by (auto intro!: wp_bind wp_map_err wp_create_temporary wp_sync_dir wp_result wp_if wp_fail wp_return)
qed

lemma wp_allocate:
  assumes on: "switching root d0 (needed root loc) {Some (Regular b)} d" and nm: "names root loc b"
    and stores: "choices d (root @ [STORES]) {if stores_exist then Some Directory else None}"
  shows "wp (allocate_candidate step root name lock stores_exist)
           (begun root d0 loc name b)
           (\<lambda>_. switching root d0 (needed root loc) {Some (Regular b)})
           (switching root d0 (needed root loc) {Some (Regular b)}) d"
proof -
  let ?on = "switching root d0 (needed root loc) {Some (Regular b)}"
  have root: "root \<in> needed root loc" by (simp add: needed_def)
  have rest: "wp (io_bind (io_map_err (\<lambda>_. Storage) (create_temporary (root @ [STORES]) ''store-'' Directory)) (\<lambda>candidate.
      io_bind (sync_directory (root @ [STORES])) (\<lambda>_.
      io_bind (io_result (step Allocated)) (\<lambda>_.
      if \<not> valid_generation (last candidate) then io_fail Storage
      else
        io_return
          \<lparr>sr_root = root,
           sr_location = \<lparr>sl_generation = last candidate, sl_directory = candidate, sl_require_existing = True\<rparr>,
           sr_database = name, sr_key = None, sr_activated = False, sr_lock = lock\<rparr>))))
     (begun root d0 loc name b) (\<lambda>_. ?on) ?on x"
    if "switching root d0 (insert (root @ [STORES]) (needed root loc)) {Some (Regular b)} x" for x
    by (rule wp_conseq [OF wp_candidate [OF that nm]]) (use root in \<open>auto elim: switching_less\<close>)
  show ?thesis
  proof (cases stores_exist)
    case True
    thus ?thesis
      unfolding allocate_candidate_def Let_def using stores rest [OF switching_insert [OF on]]
      by (simp add: wp_bind [OF wp_return])
  next
    case False
    hence free: "live d (root @ [STORES]) = None" using choices_live [OF stores] by simp
    let ?made = "set_entry (root @ [STORES]) (Some Directory) False d"
    have made: "?on ?made" by (rule switching_new [OF on free]) (simp add: STORES_not_SELECTOR)
    have set: "?on (settle_directory root ?made)" by (rule switching_settle [OF made])
    have "choices (settle_directory root ?made) (root @ [STORES]) {Some Directory}"
      by (rule choices_settled_to) (simp_all add: disk_simps stable_node_def)
    from rest [OF switching_insert [OF set this]] show ?thesis
      unfolding allocate_candidate_def Let_def sync_directory_def using False on made
      by (auto intro!: wp_bind wp_map_err wp_create_new wp_sync_dir wp_if)
  qed
qed

text \<open>A settled selection: nothing about it is pending.\<close>

definition settled_selection :: "disk \<Rightarrow> path \<Rightarrow> storage_location \<Rightarrow> bool" where
  "settled_selection d root loc \<longleftrightarrow>
     real_dir d root \<and> quiet d root \<and> quiet d (root @ [SELECTOR]) \<and> quiet d (root @ [STORES])
     \<and> quiet d (sl_directory loc) \<and> selection_at (live d) root = Inr loc"

lemma settled_cases:
  assumes "settled_selection d root loc"
  obtains (fresh) "loc = fresh_location root" "choices d (root @ [SELECTOR]) {None}"
      "choices d (root @ [STORES]) {None}" "choices d root {Some Directory}" "real_dir d root"
  | (named) b where "names root loc b" "choices d (root @ [SELECTOR]) {Some (Regular b)}"
      "\<And>p. p \<in> needed root loc \<Longrightarrow> choices d p {Some Directory}" "real_dir d root" "sl_require_existing loc"
proof -
  have q: "quiet d root" "quiet d (root @ [SELECTOR])" "quiet d (root @ [STORES])" "quiet d (sl_directory loc)"
    and real: "real_dir d root" and sel: "selection_at (live d) root = Inr loc"
    using assms by (auto simp: settled_selection_def)
  note here = real_dir_live [OF real]
  show ?thesis
  proof (cases "live d (root @ [SELECTOR])")
    case None
    with sel q here real show ?thesis
      by (intro fresh) (auto simp: selection_at_def fresh_location_def choices_quiet split: option.splits)
  next
    case (Some n)
    then obtain b where b: "live d (root @ [SELECTOR]) = Some (Regular b)"
      using sel by (cases n) (auto simp: selection_at_def)
    show ?thesis
    proof (rule named)
      show "names root loc b"
        using sel b by (auto simp: selection_at_def names_def ok_or_def rbind_def is_dir_iff
            split: option.splits if_splits sum.splits)
      show "sl_require_existing loc"
        using sel b by (auto simp: selection_at_def ok_or_def rbind_def is_dir_iff
            split: option.splits if_splits sum.splits)
      show "choices d p {Some Directory}" if "p \<in> needed root loc" for p
        using that sel b q here by (auto simp: selection_at_def needed_def ok_or_def rbind_def is_dir_iff choices_quiet
            split: option.splits if_splits sum.splits)
    qed (use b q real in \<open>auto simp: choices_quiet\<close>)
  qed
qed

lemma wp_write_selection_frame:
  assumes p: "choices d p V" "p \<noteq> root @ [SELECTOR]" "\<And>s. p \<noteq> root @ [''.active-store-'' @ s]"
  shows "wp (write_selection root g) (\<lambda>_ x. choices x p V) (\<lambda>_ x. choices x p V) (\<lambda>x. choices x p V) d"
proof -
  have "wp (with_temporary root ''.active-store-'' (\<lambda>temp.
       io_bind (io_map_err (\<lambda>_. Storage) (write_bytes temp (selector_text g))) (\<lambda>_.
       io_bind (io_map_err (\<lambda>_. Storage) (sync_file temp)) (\<lambda>_.
       io_bind (io_map_err (\<lambda>_. Storage) (rename_over temp (root @ [SELECTOR]))) (\<lambda>_.
       sync_directory root)))))
     (\<lambda>_ x. choices x p V) (\<lambda>_ x. choices x p V) (\<lambda>x. choices x p V) d"
  proof (rule wp_with_temporary, goal_cases)
    case (3 t)
    hence t: "p \<noteq> root @ [t]" using p(3) by auto
    show ?case
      unfolding sync_directory_def using p t
      by (auto intro!: wp_rules choices_settle choices_flush simp: disk_simps)
  qed (use p in auto)
  thus ?thesis
    unfolding write_selection_def regular_def using p by (intro wp_bind wp_kind_of) auto
qed

lemma stores_not_temporary: "root @ [STORES] \<noteq> root @ [''.active-store-'' @ s]"
  by (simp add: STORES_def)

lemma wp_begin_named:
  assumes on: "switching root d0 (needed root loc) {Some (Regular b)} d" and nm: "names root loc b"
    and stores: "quiet d (root @ [STORES])"
  shows "wp (begin_locked step root name lock) (\<lambda>s x. \<exists>b. begun root d0 loc name b s x)
           (\<lambda>_. still_selects root d0 loc) (still_selects root d0 loc) d"
proof -
  have still: "switching root d0 (needed root loc) {Some (Regular b)} x \<Longrightarrow> still_selects root d0 loc x" for x
    using nm by (auto simp: still_selects_def)
  have sel: "live d (root @ [SELECTOR]) = Some (Regular b)"
    using on choices_live by (fastforce simp: switching_def)
  have rest: "wp (allocate_candidate step root name lock e) (\<lambda>s x. \<exists>b. begun root d0 loc name b s x)
      (\<lambda>_. still_selects root d0 loc) (still_selects root d0 loc) d"
    if "live d (root @ [STORES]) = (if e then Some Directory else None)" for e
    by (rule wp_conseq [OF wp_allocate [OF on nm]]) (use that stores still in \<open>auto simp: choices_quiet\<close>)
  show ?thesis
    unfolding begin_locked_def regular_def directory_def
    using still [OF on] sel rest
    by (auto intro!: wp_bind wp_kind_of wp_result wp_if wp_return simp: is_dir_iff)
qed

lemma wp_begin_fresh:
  assumes on: "switching root d0 {root} {None} d" and stores: "choices d (root @ [STORES]) {None}"
    and loc: "loc = fresh_location root"
  shows "wp (begin_locked step root name lock) (\<lambda>s x. \<exists>b. begun root d0 loc name b s x)
           (\<lambda>_. still_selects root d0 loc) (still_selects root d0 loc) d"
proof -
  let ?b = "selector_text ''default''"
  have nm: "names root loc ?b" and D: "needed root loc = {root}"
    using selector_generation_text [of "''default''"] by (auto simp: names_def loc fresh_location_def needed_def)
  have on': "switching root d0 {root} {None, Some (Regular ?b)} d" using on by (rule switching_mono) auto
  have start: "still_selects root d0 loc d" using on' stores by (simp add: still_selects_def loc)
  have none: "live d (root @ [STORES]) = None" "live d (root @ [SELECTOR]) = None"
    using choices_live [OF stores] choices_live [of d "root @ [SELECTOR]"] on by (auto simp: switching_def)
  have anchor: "wp (write_selection root ''default'')
      (\<lambda>_ x. switching root d0 {root} {Some (Regular ?b)} x \<and> choices x (root @ [STORES]) {None})
      (\<lambda>_ x. still_selects root d0 loc x) (\<lambda>x. still_selects root d0 loc x) d"
    by (rule wp_conseq [OF wp_conj [OF wp_write_selection [OF on'] wp_write_selection_frame [OF stores]]])
      (use stores_not_temporary STORES_not_SELECTOR in \<open>auto simp: still_selects_def loc\<close>)
  have rest: "wp (allocate_candidate step root name lock False) (\<lambda>s x. \<exists>b. begun root d0 loc name b s x)
      (\<lambda>_. still_selects root d0 loc) (still_selects root d0 loc) x"
    if "switching root d0 {root} {Some (Regular ?b)} x" "choices x (root @ [STORES]) {None}" for x
    by (rule wp_conseq [OF wp_allocate [of root d0 loc ?b]])
      (use that nm D in \<open>auto simp: still_selects_def\<close>)
  have anchored: "still_selects root d0 loc x" if "switching root d0 {root} {Some (Regular ?b)} x" for x
    using that nm D by (auto simp: still_selects_def)
  show ?thesis
    unfolding begin_locked_def regular_def directory_def
    using start none
    by (auto intro!: wp_bind wp_kind_of wp_result wp_conseq [OF anchor] rest anchored simp: is_dir_iff)
qed

lemma plain_SELECTOR: "plain_name SELECTOR"
  by (simp add: SELECTOR_def plain_name_def root_component_def)

lemma wp_store_root [wp_rules]:
  assumes "real_dir d root" and "\<And>e. E e d" and "K d" and "Q root d"
  shows "wp (store_root root) Q E K d"
proof -
  have here: "live d root = Some Directory" using assms(1) by (rule real_dir_live)
  have "resolve (live d) MAX_LINKS at root = Some q \<Longrightarrow> q = root" for at q
    using resolve_real_dir [OF assms(1)] by simp
  with assms here show ?thesis
    unfolding store_root_def by (auto intro!: wp_rules wp_canonicalize)
qed

lemma wp_begin:
  assumes settled: "settled_selection d root loc"
  shows "wp (begin_at step root name) (\<lambda>s x. \<exists>b. begun root d loc name b s x)
           (\<lambda>_. still_selects root d loc) (still_selects root d loc) d"
proof -
  let ?lock = "root @ [SELECTOR @ ''.tundra-lock'']"
  let ?locked = "set_entry ?lock (Some (Regular [])) False d"
  have lock: "?lock \<noteq> root @ [SELECTOR]" "?lock \<noteq> root @ [STORES]"
    by (simp_all add: STORES_def SELECTOR_def)
  have real: "real_dir d root" and stores: "quiet d (root @ [STORES])"
    using settled by (auto simp: settled_selection_def)
  have "still_selects root d loc x \<and>
      wp (begin_locked step root name l) (\<lambda>s x. \<exists>b. begun root d loc name b s x)
           (\<lambda>_. still_selects root d loc) (still_selects root d loc) x"
    if x: "x = d \<or> live d ?lock = None \<and> x = ?locked" for x l
    using settled
  proof (cases rule: settled_cases)
    case fresh
    have "switching root d {root} {None} d" using fresh by (simp add: switching_def since_refl)
    hence on: "switching root d {root} {None} x" using x lock switching_new by blast
    hence on': "switching root d {root} {None, Some (Regular (selector_text ''default''))} x"
      by (rule switching_mono) auto
    have none: "choices x (root @ [STORES]) {None}"
      using fresh(3) x lock(2) by (auto simp: choices_other)
    show ?thesis using wp_begin_fresh [OF on none fresh(1)] on' none fresh(1) by (simp add: still_selects_def)
  next
    case (named b)
    have "switching root d (needed root loc) {Some (Regular b)} d"
      using named by (simp add: switching_def since_refl)
    hence on: "switching root d (needed root loc) {Some (Regular b)} x" using x lock switching_new by blast
    have "quiet x (root @ [STORES])"
      using stores x lock(2) by (auto simp: quiet_def disk_simps)
    from wp_begin_named [OF on named(1) this] on named(1) show ?thesis by (auto simp: still_selects_def)
  qed
  note after = this
  show ?thesis
    unfolding begin_at_def
    using after [of d] after [of ?locked] real
    by (auto intro!: wp_bind wp_store_root wp_exclusive_lock plain_SELECTOR wp_if wp_fail wp_on_error
        wp_conseq [OF after [THEN conjunct2]] wp_drop_lock)
qed

section \<open>Working inside the candidate\<close>


text \<open>Nothing but entries of the candidate directory changes.\<close>

definition within :: "path \<Rightarrow> disk \<Rightarrow> path set \<Rightarrow> node option set \<Rightarrow> path \<Rightarrow> disk \<Rightarrow> bool" where
  "within root d0 D V cand d \<longleftrightarrow>
     switching root d0 D V d \<and> real_dir d cand
     \<and> (\<forall>n. cand @ [n] \<in> newcomers root d0 \<and> cand @ [n] \<noteq> root @ [SELECTOR])"

lemma real_dir_commit: "real_dir d p \<Longrightarrow> live d q \<noteq> Some Directory \<Longrightarrow> real_dir (commit_entry q b d) p"
  by (auto elim!: real_dir_cong simp: commit_entry_def)

lemma within_changes:
  assumes "within root d0 D V cand d" and "live d (cand @ [n]) \<noteq> Some Directory"
  shows "within root d0 D V cand (set_entry (cand @ [n]) v f d)"
    and "within root d0 D V cand (write_entry (cand @ [n]) b d)"
    and "within root d0 D V cand (flush_entry (cand @ [n]) d)"
    and "within root d0 D V cand (commit_entry (cand @ [n]) b d)"
    and "live d (cand @ [m]) \<noteq> Some Directory \<Longrightarrow> within root d0 D V cand (move_entry (cand @ [n]) (cand @ [m]) d)"
  using assms
  by (auto simp: within_def move_entry_def disk_simps
      intro!: switching_other real_dir_changes real_dir_commit)

lemma within_settle: "within root d0 D V cand d \<Longrightarrow> within root d0 D V cand (settle_directory dir d)"
  by (auto simp: within_def intro: switching_settle real_dir_changes)

lemma within_real: "within root d0 D V cand d \<Longrightarrow> real_dir d cand"
  by (simp add: within_def)

lemma wp_canonical_any:
  "(\<And>e. E e d) \<Longrightarrow> K d \<Longrightarrow> (\<And>q. Q q d) \<Longrightarrow> wp (canonical_path p) Q E K d"
  unfolding canonical_path_def Let_def by (auto intro!: wp_rules wp_canonicalize)

lemma wp_output_within:
  assumes J: "within root d0 D V cand d" and names: "plain_name n" "plain_name t"
    and fresh: "live d (cand @ [t]) = None" and apart: "t \<noteq> n"
  shows "wp (restore_output E boundary (cand @ [n]) key i report (cand @ [t]))
       (\<lambda>_. within root d0 D V cand) (\<lambda>_. within root d0 D V cand) (within root d0 D V cand)
       (set_entry (cand @ [t]) (Some (Regular [])) False d)"
proof -
  have start: "within root d0 D V cand (set_entry (cand @ [t]) (Some (Regular [])) False d)"
    by (rule within_changes [OF J]) (simp add: fresh)
  note real = within_real [OF J]
  show ?thesis
    unfolding restore_output_def Let_def butlast_snoc
    using start real names fresh apart
    by (auto intro!: wp_rules within_changes within_settle J real_dir_changes simp: disk_simps)
qed

lemma wp_checked_within:
  assumes J: "within root d0 D V cand d" and n: "ordinary_name n"
  shows "wp (with_temporary cand ''.tundra-restore-output-'' (restore_output E boundary (cand @ [n]) key i report))
       (\<lambda>_. within root d0 D V cand) (\<lambda>_. within root d0 D V cand) (within root d0 D V cand) d"
proof (rule wp_with_temporary_file)
  fix t
  assume "\<exists>s. t = ''.tundra-restore-output-'' @ s" and free: "live d (cand @ [t]) = None"
  hence t: "plain_name t" "t \<noteq> n" using temporary_names(1) [of t n] n by auto
  show "wp (restore_output E boundary (cand @ [n]) key i report (cand @ [t]))
     (\<lambda>a x. within root d0 D V cand x \<and> within root d0 D V cand x \<and>
        (live x (cand @ [t]) \<noteq> Some Directory \<longrightarrow> within root d0 D V cand (set_entry (cand @ [t]) None True x)))
     (\<lambda>e x. within root d0 D V cand x \<and> within root d0 D V cand x \<and>
        (live x (cand @ [t]) \<noteq> Some Directory \<longrightarrow> within root d0 D V cand (set_entry (cand @ [t]) None True x)))
     (within root d0 D V cand) (set_entry (cand @ [t]) (Some (Regular [])) False d)"
    by (rule wp_conseq [OF wp_output_within [OF J ordinary_plain [OF n] t(1) free t(2)]])
      (auto intro: within_changes)
qed (use J in auto)

lemma wp_input_within:
  assumes J: "within root d0 D V cand d" and n: "ordinary_name n"
  shows "wp (with_temporary cand ''.tundra-restore-input-'' (restore_input E boundary source (cand @ [n]) secret key))
       (\<lambda>_. within root d0 D V cand) (\<lambda>_. within root d0 D V cand) (within root d0 D V cand) d"
proof (rule wp_with_temporary_file)
  fix t
  assume free: "live d (cand @ [t]) = None"
  have made: "within root d0 D V cand (set_entry (cand @ [t]) (Some (Regular [])) False d)"
    by (rule within_changes [OF J]) (simp add: free)
  have written: "within root d0 D V cand (write_entry (cand @ [t]) b (set_entry (cand @ [t]) (Some (Regular [])) False d))" for b
    by (rule within_changes [OF made]) (simp add: disk_simps)
  let ?after = "\<lambda>x. within root d0 D V cand x \<and> within root d0 D V cand x \<and>
      (live x (cand @ [t]) \<noteq> Some Directory \<longrightarrow> within root d0 D V cand (set_entry (cand @ [t]) None True x))"
  have after: "within root d0 D V cand x \<Longrightarrow> ?after x" for x
    by (auto intro: within_changes)
  have inner: "wp (with_temporary cand ''.tundra-restore-output-'' (restore_output E boundary (cand @ [n]) key i report))
      (\<lambda>_. ?after) (\<lambda>_. ?after) (within root d0 D V cand) x" if "within root d0 D V cand x" for i report x
    by (rule wp_conseq [OF wp_checked_within [OF that n]]) (auto intro: within_changes)
  show "wp (restore_input E boundary source (cand @ [n]) secret key (cand @ [t]))
     (\<lambda>_. ?after) (\<lambda>_. ?after) (within root d0 D V cand) (set_entry (cand @ [t]) (Some (Regular [])) False d)"
    unfolding restore_input_def butlast_snoc
    using after made written
    by (intro wp_bind wp_copy_source wp_open_snapshot wp_result inner) blast+
qed (use J in auto)

lemma wp_restore_within:
  assumes J: "within root d0 D V cand d" and n: "ordinary_name n"
  shows "wp (restore_backup E source (cand @ [n]) password key)
       (\<lambda>_. within root d0 D V cand) (\<lambda>_. within root d0 D V cand) (within root d0 D V cand) d"
proof -
  have inner: "wp (with_temporary cand ''.tundra-restore-input-'' (restore_input E boundary source' (cand @ [n]) secret key))
      (\<lambda>a. wp (drop_lock l) (\<lambda>_. within root d0 D V cand) (\<lambda>_. within root d0 D V cand) (within root d0 D V cand))
      (\<lambda>e. wp (drop_lock l) (\<lambda>_. within root d0 D V cand) (\<lambda>_. within root d0 D V cand) (within root d0 D V cand))
      (within root d0 D V cand) x"
    if "within root d0 D V cand x" for boundary source' secret l x
    by (rule wp_conseq [OF wp_input_within [OF that n]]) (auto intro: wp_drop_lock)
  have locked: "within root d0 D V cand (set_entry (cand @ [m]) (Some (Regular [])) False d)"
    if "live d (cand @ [m]) = None" for m
    by (rule within_changes [OF J]) (simp add: that)
  show ?thesis
    unfolding restore_backup_def restore_snapshot_def
    using J within_real [OF J] ordinary_plain [OF n]
    by (auto intro!: wp_bind wp_result wp_canonical_any [where p = source] wp_canonical_path wp_exclusive_lock wp_finally wp_if wp_fail
        wp_try wp_stat wp_standalone_file wp_drop_lock inner locked)
qed

lemma wp_restore_store:
  assumes J: "within root d0 D V (sl_directory (sr_location s)) d" and n: "ordinary_name (sr_database s)"
  shows "wp (restore_store E source password key s)
       (\<lambda>(_, s') x. within root d0 D V (sl_directory (sr_location s)) x
          \<and> (s' = s \<or> (\<not> sr_activated s \<and> s' = s\<lparr>sr_key := Some key\<rparr>)))
       (\<lambda>_. within root d0 D V (sl_directory (sr_location s))) (within root d0 D V (sl_directory (sr_location s))) d"
  unfolding restore_store_def database_path_def
  using J by (auto intro!: wp_bind wp_if wp_return wp_try wp_conseq [OF wp_restore_within [OF J n]] split: sum.split)

section \<open>Activating\<close>

lemma within_new:
  "within root d0 D V cand d \<Longrightarrow> live d (cand @ [n]) = None \<Longrightarrow> within root d0 D V cand (set_entry (cand @ [n]) v f d)"
  by (rule within_changes) auto

text \<open>
  A file the key opens, of a version this program knows, whose wallets can be listed. SQLCipher reads
  back the database it has committed (\<open>reads_back\<close>): opening a candidate writes the current schema into
  it, so that what the verification has read is a database and what stays on the medium its commit.
\<close>

definition verified_bytes :: "('w, 'cs) environment \<Rightarrow> byte list \<Rightarrow> string \<Rightarrow> bool" where
  "verified_bytes E key c \<longleftrightarrow>
     (\<exists>i. decode (en_sqlcipher E) (Some (raw_key key)) c = Some i \<and> im_version i \<le> 8
        \<and> is_ok (wallet_list (en_bitcoin E) (en_bdk E) (im_db i)))"

definition reads_back :: "'cs sqlcipher \<Rightarrow> bool" where
  "reads_back S \<longleftrightarrow>
     (\<forall>k b i. decode S k b = Some i \<and> im_version i \<le> 8 \<longrightarrow>
        (\<exists>j. decode S k (encode S k (apply_schema S i)) = Some j \<and> im_version j \<le> 8 \<and> im_db j = im_db i))"

definition verified_nodes :: "('w, 'cs) environment \<Rightarrow> byte list \<Rightarrow> node option set" where
  "verified_nodes E key =
     {v. reads_back (en_sqlcipher E) \<longrightarrow> (\<exists>c. v = Some (Regular c) \<and> verified_bytes E key c)}"

abbreviation committed :: "'cs sqlcipher \<Rightarrow> byte list \<Rightarrow> 'cs image \<Rightarrow> string" where
  "committed S key i \<equiv> encode S (Some (raw_key key)) (apply_schema S i)"

lemma im_db_schema [simp]: "im_db (apply_schema S i) = im_db i"
  by (simp add: apply_schema_def)

lemma committed_verified:
  assumes "decode (en_sqlcipher E) (Some (raw_key key)) b = Some i" and "im_version i \<le> 8"
    and "is_ok (wallet_list (en_bitcoin E) (en_bdk E) (im_db i))"
  shows "Some (Regular (committed (en_sqlcipher E) key i)) \<in> verified_nodes E key"
  using assms unfolding verified_nodes_def verified_bytes_def reads_back_def by fastforce

lemma choices_commit_in: "choices d p V \<Longrightarrow> Some (Regular b) \<in> V \<Longrightarrow> choices (commit_entry p b d) p V"
  by (auto simp: choices_def survivors_def standing_def commit_entry_def)

text \<open>The file as a successful verification leaves it, and once its directory is synchronized.\<close>

definition opened_file :: "'cs sqlcipher \<Rightarrow> byte list \<Rightarrow> path \<Rightarrow> 'cs image \<Rightarrow> disk \<Rightarrow> bool" where
  "opened_file S key p i d \<longleftrightarrow>
     (\<exists>b. decode S (Some (raw_key key)) b = Some i) \<and> im_version i \<le> 8
     \<and> live d p = Some (Regular (committed S key i)) \<and> flushed d p"

definition verified_file :: "('w, 'cs) environment \<Rightarrow> byte list \<Rightarrow> path \<Rightarrow> disk \<Rightarrow> bool" where
  "verified_file E key p d \<longleftrightarrow>
     (\<exists>i. opened_file (en_sqlcipher E) key p i d \<and> is_ok (wallet_list (en_bitcoin E) (en_bdk E) (im_db i)))"

lemma verified_settled:
  assumes "verified_file E key (cand @ [n]) d"
  shows "choices (settle_directory cand d) (cand @ [n]) (verified_nodes E key)"
proof -
  obtain c where "live d (cand @ [n]) = Some (Regular c)" "flushed d (cand @ [n])" "Some (Regular c) \<in> verified_nodes E key"
    using assms by (auto simp: verified_file_def opened_file_def dest: committed_verified)
  then show ?thesis
    using choices_settled_to [of "cand @ [n]" cand d "Some (Regular c)"] by (auto simp: stable_node_def elim: choices_mono)
qed

lemma wp_open_within:
  assumes J: "within root d0 D V cand d" and n: "plain_name n"
  shows "wp (open_protected S (cand @ [n]) key)
       (\<lambda>(p, i) x. p = cand @ [n] \<and> within root d0 D V cand x
          \<and> (\<exists>b. live x p = Some (Regular b) \<and> decode S (Some (raw_key key)) b = Some i))
       (\<lambda>_. within root d0 D V cand) (within root d0 D V cand) d"
  unfolding open_protected_def
  by (intro wp_bind wp_result wp_canonical_path [OF within_real [OF J] n])
    (use J in \<open>auto intro!: wp_rules within_new simp: disk_simps split: sum.split io_error.split node.split\<close>)

lemma opened_commit:
  "decode S (Some (raw_key key)) b = Some i \<Longrightarrow> \<not> 8 < im_version i \<Longrightarrow>
     \<exists>j. opened_file S key p j (commit_entry p (committed S key i) d) \<and> apply_schema S i = apply_schema S j"
  by (intro exI [of _ i]) (auto simp: opened_file_def commit_entry_def)

lemma wp_core_open_within:
  assumes J: "within root d0 D V cand d" and n: "plain_name n"
  shows "wp (core_open_protected S (cand @ [n]) key)
       (\<lambda>core x. within root d0 D V cand x
          \<and> (\<exists>i. opened_file S key (cand @ [n]) i x \<and> oc_image core = apply_schema S i))
       (\<lambda>_. within root d0 D V cand) (within root d0 D V cand) d"
proof -
  let ?Q = "\<lambda>core x. within root d0 D V cand x
          \<and> (\<exists>i. opened_file S key (cand @ [n]) i x \<and> oc_image core = apply_schema S i)"
  have session: "wp (io_on_error (io_bind (open_protected S (cand @ [n]) key) (\<lambda>(p, i).
                    from_connection S (Some (raw_key key)) (Some p, i) lock)) (release lock))
      ?Q (\<lambda>_. within root d0 D V cand) (within root d0 D V cand) x"
    if "within root d0 D V cand x" for x lock
    unfolding from_connection_def
    by (auto intro!: wp_on_error wp_bind wp_conseq [OF wp_open_within [OF that n]] wp_release wp_if wp_fail
        wp_return wp_commit_database within_changes opened_commit)
  show ?thesis
    unfolding core_open_protected_def
    using J by (auto intro!: wp_bind wp_result wp_shared_lock [OF within_real [OF J] n] session within_new)
qed

lemma wp_verify_within:
  assumes J: "within root d0 D V (sl_directory (sr_location s)) d" and n: "plain_name (sr_database s)"
  shows "wp (verify_candidate E s key)
       (\<lambda>_ x. within root d0 D V (sl_directory (sr_location s)) x \<and> verified_file E key (database_path s) x)
       (\<lambda>_. within root d0 D V (sl_directory (sr_location s)))
       (within root d0 D V (sl_directory (sr_location s))) d"
  unfolding verify_candidate_def directory_def database_path_def
  using J by (auto intro!: wp_bind wp_kind_of wp_if wp_fail wp_return wp_storage_format [OF within_real [OF J] n]
      wp_conseq [OF wp_core_open_within [OF J n]] wp_finally wp_result wp_release simp: verified_file_def)

text \<open>Verifying a verified candidate again, whatever becomes of it, leaves a verified one.\<close>

lemma wp_true: "wp m (\<lambda>_ _. True) (\<lambda>_ _. True) (\<lambda>_. True) d"
  by (simp add: wp_def split: ending.split prod.split)

lemma verified_again:
  assumes "reads_back (en_sqlcipher E)" and "Some (Regular b) \<in> verified_nodes E key"
    and "decode (en_sqlcipher E) (Some (raw_key key)) b = Some i"
  shows "Some (Regular (committed (en_sqlcipher E) key i)) \<in> verified_nodes E key"
  by (rule committed_verified [OF assms(3)]) (use assms in \<open>auto simp: verified_nodes_def verified_bytes_def\<close>)

lemma wp_core_open_kept:
  assumes on: "choices d (dir @ [n]) (verified_nodes E key)" and real: "real_dir d dir" and n: "plain_name n"
    and reads: "reads_back (en_sqlcipher E)"
  shows "wp (core_open_protected (en_sqlcipher E) (dir @ [n]) key)
       (\<lambda>_ x. choices x (dir @ [n]) (verified_nodes E key)) (\<lambda>_ x. choices x (dir @ [n]) (verified_nodes E key))
       (\<lambda>x. choices x (dir @ [n]) (verified_nodes E key)) d"
proof -
  let ?J = "\<lambda>x. choices x (dir @ [n]) (verified_nodes E key)"
  have session: "wp (io_on_error (io_bind (open_protected (en_sqlcipher E) (dir @ [n]) key) (\<lambda>(p, i).
                    from_connection (en_sqlcipher E) (Some (raw_key key)) (Some p, i) lock)) (release lock))
      (\<lambda>_. ?J) (\<lambda>_. ?J) ?J x"
    if J: "?J x" and "real_dir x dir" for x lock
  proof -
    obtain b where b: "live x (dir @ [n]) = Some (Regular b)" "Some (Regular b) \<in> verified_nodes E key"
      using choices_live [OF J] reads by (auto simp: verified_nodes_def)
    show ?thesis
      unfolding from_connection_def
      using J that(2) b
      by (auto intro!: wp_on_error wp_bind wp_open_protected [OF _ n] wp_release wp_if wp_fail wp_return
          wp_commit_database choices_commit_in verified_again [OF reads])
  qed
  have here: "live d (dir @ [n]) \<noteq> None" using choices_live [OF on] reads by (auto simp: verified_nodes_def)
  show ?thesis
    unfolding core_open_protected_def
    using on real by (auto intro!: wp_bind wp_result wp_shared_lock [OF real n] session real_dir_changes simp: disk_simps)
qed

lemma wp_verify_kept:
  assumes on: "choices d (database_path s) (verified_nodes E key)" and real: "real_dir d (sl_directory (sr_location s))"
    and n: "plain_name (sr_database s)"
  shows "wp (verify_candidate E s key)
       (\<lambda>_ x. choices x (database_path s) (verified_nodes E key)) (\<lambda>_ x. choices x (database_path s) (verified_nodes E key))
       (\<lambda>x. choices x (database_path s) (verified_nodes E key)) d"
proof (cases "reads_back (en_sqlcipher E)")
  case True
  note kept = wp_core_open_kept [OF on [unfolded database_path_def] real n True]
  show ?thesis
    unfolding verify_candidate_def directory_def database_path_def
    using on [unfolded database_path_def]
    by (auto intro!: wp_bind wp_kind_of wp_if wp_fail wp_return wp_storage_format [OF real n]
        wp_conseq [OF kept] wp_finally wp_result wp_release)
next
  case False
  then have "choices x p (verified_nodes E key)" for x p by (simp add: verified_nodes_def choices_def)
  then show ?thesis using wp_true [of "verify_candidate E s key"] by simp
qed

text \<open>The candidate's location beside the old one's, and the two selectors.\<close>

lemma within_mono: "within root d0 D V cand d \<Longrightarrow> V \<subseteq> V' \<Longrightarrow> within root d0 D V' cand d"
  by (auto simp: within_def intro: switching_mono)

lemma candidate_real:
  assumes "switching root d0 D V d" and "root @ [STORES] \<in> D" and "root @ [STORES, g] \<in> D" and "valid_generation g"
  shows "real_dir d (root @ [STORES, g])"
proof -
  have "real_dir d ((root @ [STORES]) @ [g])"
    using assms switching_dir [OF assms(1,2)] switching_dir [OF assms(1,3)]
    by (intro real_dir_snoc plain_generation plain_STORES) (auto simp: switching_def)
  thus ?thesis by simp
qed

definition candidate_of :: "path \<Rightarrow> path set \<Rightarrow> storage_restore \<Rightarrow> bool" where
  "candidate_of root D s \<longleftrightarrow>
     sr_root s = root \<and> sl_directory (sr_location s) = root @ [STORES, sl_generation (sr_location s)]
     \<and> valid_generation (sl_generation (sr_location s)) \<and> needed root (sr_location s) \<subseteq> D"

abbreviation new_selector :: "storage_restore \<Rightarrow> node option" where
  "new_selector s \<equiv> Some (Regular (selector_text (sl_generation (sr_location s))))"

lemma wp_select:
  assumes J: "within root d0 D V (sl_directory (sr_location s)) d" and s: "candidate_of root D s"
    and new: "new_selector s \<in> V"
  shows "wp (write_selection root (sl_generation (sr_location s)))
       (\<lambda>_. within root d0 D {new_selector s} (sl_directory (sr_location s)))
       (\<lambda>_. within root d0 D V (sl_directory (sr_location s))) (within root d0 D V (sl_directory (sr_location s))) d"
proof -
  have on: "switching root d0 D V d" using J by (simp add: within_def)
  have "root @ [STORES] \<in> D" "root @ [STORES, sl_generation (sr_location s)] \<in> D"
    using s by (auto simp: candidate_of_def needed_candidate)
  hence "within root d0 D W (sl_directory (sr_location s)) x" if "switching root d0 D W x" for W x
    using that J s candidate_real [OF that] by (auto simp: within_def candidate_of_def)
  thus ?thesis by (intro wp_conseq [OF wp_write_selection [OF on new]])
qed

text \<open>
  What a recovery may have done to the selector. Before an activation has come to the rename the
  selector is the old one. After it the selector may be either, or the candidate's alone, and then the
  candidate's database is on the medium as a verification with the recovery's key has left it.
\<close>

definition verified_candidate :: "('w, 'cs) environment \<Rightarrow> byte list \<Rightarrow> storage_restore \<Rightarrow> disk \<Rightarrow> bool" where
  "verified_candidate E key s d \<longleftrightarrow> choices d (database_path s) (verified_nodes E key)"

definition may_switch ::
  "('w, 'cs) environment \<Rightarrow> path \<Rightarrow> disk \<Rightarrow> path set \<Rightarrow> string \<Rightarrow> byte list \<Rightarrow> storage_restore \<Rightarrow> disk \<Rightarrow> bool" where
  "may_switch E root d0 D b key s d \<longleftrightarrow>
     within root d0 D {Some (Regular b), new_selector s} (sl_directory (sr_location s)) d \<and> verified_candidate E key s d"

definition not_activated ::
  "('w, 'cs) environment \<Rightarrow> path \<Rightarrow> disk \<Rightarrow> path set \<Rightarrow> string \<Rightarrow> storage_restore \<Rightarrow> disk \<Rightarrow> bool" where
  "not_activated E root d0 D b s d \<longleftrightarrow>
     within root d0 D {Some (Regular b)} (sl_directory (sr_location s)) d
     \<or> (\<exists>key. sr_key s = Some key \<and> may_switch E root d0 D b key s d)"

lemma within_both:
  "within root d0 D {v} cand d \<Longrightarrow> within root d0 D {v, v'} cand d"
  "within root d0 D {v'} cand d \<Longrightarrow> within root d0 D {v, v'} cand d"
  by (auto elim: within_mono)

lemma database_apart:
  "candidate_of root D s \<Longrightarrow> database_path s \<noteq> root @ [n]"
  by (auto simp: candidate_of_def database_path_def)

lemma wp_select_verified:
  assumes J: "may_switch E root d0 D b key s d" and s: "candidate_of root D s"
  shows "wp (write_selection root (sl_generation (sr_location s)))
       (\<lambda>_ x. within root d0 D {new_selector s} (sl_directory (sr_location s)) x \<and> verified_candidate E key s x)
       (\<lambda>_. may_switch E root d0 D b key s) (may_switch E root d0 D b key s) d"
proof -
  have on: "within root d0 D {Some (Regular b), new_selector s} (sl_directory (sr_location s)) d"
    and there: "choices d (database_path s) (verified_nodes E key)"
    using J by (simp_all add: may_switch_def verified_candidate_def)
  have "wp (write_selection root (sl_generation (sr_location s)))
      (\<lambda>_ x. choices x (database_path s) (verified_nodes E key)) (\<lambda>_ x. choices x (database_path s) (verified_nodes E key))
      (\<lambda>x. choices x (database_path s) (verified_nodes E key)) d"
    by (rule wp_write_selection_frame [OF there]) (use database_apart [OF s] in auto)
  from wp_conj [OF wp_select [OF on s] this] show ?thesis
    by (rule wp_conseq) (simp_all add: may_switch_def verified_candidate_def)
qed

lemma io_bind_assoc: "io_bind (io_bind m f) g = io_bind m (\<lambda>a. io_bind (f a) g)"
  by (rule ext) (simp add: io_bind_def split: ending.split prod.split)

text \<open>Verification and the synchronization of the candidate come before the selector is written.\<close>

lemma wp_verify_first:
  assumes J: "not_activated E root d0 D b s d" and n: "plain_name (sr_database s)" and key: "sr_key s = Some key"
  shows "wp (io_bind (verify_candidate E s key) (\<lambda>_. sync_directory (sl_directory (sr_location s))))
       (\<lambda>_. may_switch E root d0 D b key s) (\<lambda>_. not_activated E root d0 D b s) (not_activated E root d0 D b s) d"
proof -
  let ?cand = "sl_directory (sr_location s)"
  have "?thesis" if on: "within root d0 D {Some (Regular b)} ?cand d"
  proof -
    have J: "not_activated E root d0 D b s x" if "within root d0 D {Some (Regular b)} ?cand x" for x
      using that by (simp add: not_activated_def)
    have finished: "may_switch E root d0 D b key s (settle_directory ?cand x)"
      if "within root d0 D {Some (Regular b)} ?cand x" "verified_file E key (database_path s) x" for x
      using within_settle [OF that(1)] verified_settled [OF that(2) [unfolded database_path_def]]
      by (auto simp: may_switch_def verified_candidate_def database_path_def intro: within_both)
    show ?thesis
      unfolding sync_directory_def using J finished on
      by (auto intro!: wp_bind wp_conseq [OF wp_verify_within [OF on n]] wp_map_err wp_sync_dir)
  qed
  moreover have ?thesis if "may_switch E root d0 D b key s d"
  proof -
    have on: "within root d0 D {Some (Regular b), new_selector s} ?cand d" and there: "choices d (database_path s) (verified_nodes E key)"
      using that by (simp_all add: may_switch_def verified_candidate_def)
    note both = wp_conj [OF wp_verify_within [OF on n] wp_verify_kept [OF there within_real [OF on] n]]
    have J: "may_switch E root d0 D b key s x \<and> not_activated E root d0 D b s x"
      if "within root d0 D {Some (Regular b), new_selector s} ?cand x" "choices x (database_path s) (verified_nodes E key)" for x
      using that key by (simp add: not_activated_def may_switch_def verified_candidate_def)
    show ?thesis
      unfolding sync_directory_def using J
      by (auto intro!: wp_bind wp_conseq [OF both] wp_map_err wp_sync_dir within_settle choices_settle)
  qed
  ultimately show ?thesis using J key by (auto simp: not_activated_def)
qed

lemma wp_switch_store:
  assumes J: "not_activated E root d0 D b s d" and n: "plain_name (sr_database s)" and s: "candidate_of root D s"
  shows "wp (switch_store E step s)
       (\<lambda>_ x. \<not> sr_activated s \<and> (\<exists>key. sr_key s = Some key
          \<and> within root d0 D {new_selector s} (sl_directory (sr_location s)) x \<and> verified_candidate E key s x))
       (\<lambda>_. not_activated E root d0 D b s) (not_activated E root d0 D b s) d"
proof -
  have root: "sr_root s = root" using s by (simp add: candidate_of_def)
  have still: "not_activated E root d0 D b s x" if "may_switch E root d0 D b key s x" "sr_key s = Some key" for key x
    using that by (auto simp: not_activated_def)
  have rest: "wp (io_bind (verify_candidate E s key) (\<lambda>_. io_bind (sync_directory (sl_directory (sr_location s))) (\<lambda>_. m)))
      Q (\<lambda>_. not_activated E root d0 D b s) (not_activated E root d0 D b s) d"
    if key: "sr_key s = Some key"
      and m: "\<And>x. may_switch E root d0 D b key s x \<Longrightarrow> wp m Q (\<lambda>_. not_activated E root d0 D b s) (not_activated E root d0 D b s) x"
    for key and m :: "(error, unit) io" and Q
  proof -
    have "wp (io_bind (io_bind (verify_candidate E s key) (\<lambda>_. sync_directory (sl_directory (sr_location s)))) (\<lambda>_. m))
      Q (\<lambda>_. not_activated E root d0 D b s) (not_activated E root d0 D b s) d"
      by (intro wp_bind wp_conseq [OF wp_verify_first [OF J n key]]) (use m in auto)
    then show ?thesis by (simp add: io_bind_assoc)
  qed
  show ?thesis
    unfolding switch_store_def root
    by (intro wp_if wp_fail J wp_bind wp_result rest)
      (use J s still in \<open>auto intro!: wp_bind wp_result wp_conseq [OF wp_select_verified] simp: ok_or_def split: option.splits\<close>)
qed

definition ongoing ::
  "('w, 'cs) environment \<Rightarrow> path \<Rightarrow> disk \<Rightarrow> path set \<Rightarrow> string \<Rightarrow> byte list set \<Rightarrow> storage_restore \<Rightarrow> disk \<Rightarrow> bool" where
  "ongoing E root d0 D b ks s d \<longleftrightarrow>
     candidate_of root D s \<and> ordinary_name (sr_database s)
     \<and> (if sr_activated s
        then within root d0 D {new_selector s} (sl_directory (sr_location s)) d \<and> (\<exists>key \<in> ks. verified_candidate E key s d)
        else not_activated E root d0 D b s d \<and> (\<forall>key. sr_key s = Some key \<longrightarrow> key \<in> ks))"

definition may_select ::
  "('w, 'cs) environment \<Rightarrow> path \<Rightarrow> disk \<Rightarrow> path set \<Rightarrow> string \<Rightarrow> byte list set \<Rightarrow> storage_restore \<Rightarrow> disk \<Rightarrow> bool" where
  "may_select E root d0 D b ks s d \<longleftrightarrow>
     candidate_of root D s
     \<and> (within root d0 D {Some (Regular b)} (sl_directory (sr_location s)) d \<or> (\<exists>key \<in> ks. may_switch E root d0 D b key s d))"

lemma ongoing_may_select: "ongoing E root d0 D b ks s d \<Longrightarrow> may_select E root d0 D b ks s d"
  by (auto simp: ongoing_def may_select_def not_activated_def may_switch_def split: if_splits intro: within_both)

lemma wp_activate:
  assumes J: "ongoing E root d0 D b ks s d"
  shows "wp (activate_at E step s)
       (\<lambda>(r, s') x. sr_location s' = sr_location s \<and> sr_database s' = sr_database s
          \<and> ongoing E root d0 D b ks s' x \<and> (r = Inr () \<longrightarrow> sr_activated s'))
       (\<lambda>_ x. False) (may_select E root d0 D b ks s) d"
proof -
  have s: "candidate_of root D s" "ordinary_name (sr_database s)" using J by (simp_all add: ongoing_def)
  show ?thesis
  proof (cases "sr_activated s")
    case True
    then have "switch_store E step s = io_fail Storage" by (simp add: switch_store_def)
    then show ?thesis
      unfolding activate_at_def using J ongoing_may_select [OF J] by (auto intro!: wp_bind wp_try wp_fail wp_return)
  next
    case False
    then have on: "not_activated E root d0 D b s d" and ks: "\<And>key. sr_key s = Some key \<Longrightarrow> key \<in> ks"
      using J by (simp_all add: ongoing_def)
    have may: "may_select E root d0 D b ks s x" if "not_activated E root d0 D b s x" for x
      using that s ks by (auto simp: may_select_def not_activated_def)
    have stays: "ongoing E root d0 D b ks s x" if "not_activated E root d0 D b s x" for x
      using that s ks False by (simp add: ongoing_def)
    have finished: "ongoing E root d0 D b ks (s\<lparr>sr_activated := True, sr_key := None\<rparr>) x"
      if "within root d0 D {new_selector s} (sl_directory (sr_location s)) x" "verified_candidate E key s x" "key \<in> ks" for key x
      using that s by (auto simp: ongoing_def candidate_of_def verified_candidate_def database_path_def)
    show ?thesis
      unfolding activate_at_def
      by (intro wp_bind wp_try wp_conseq [OF wp_switch_store [OF on ordinary_plain [OF s(2)] s(1)]])
        (use may stays finished ks in \<open>auto intro!: wp_return\<close>)
  qed
qed

text \<open>A candidate that may be selected is not restored into again.\<close>

lemma wp_restoring:
  assumes J: "ongoing E root d0 D b ks s d" and key: "key \<in> ks"
  shows "wp (restore_store E source password key s)
       (\<lambda>(_, s') x. sr_location s' = sr_location s \<and> sr_database s' = sr_database s \<and> ongoing E root d0 D b ks s' x
          \<and> sr_activated s' = sr_activated s)
       (\<lambda>_. may_select E root d0 D b ks s) (may_select E root d0 D b ks s) d"
proof (cases "sr_key s \<noteq> None \<or> sr_activated s")
  case True
  then show ?thesis unfolding restore_store_def using J by (auto intro: wp_return)
next
  case False
  have s: "candidate_of root D s" "ordinary_name (sr_database s)"
    and on: "within root d0 D {Some (Regular b)} (sl_directory (sr_location s)) d"
    using J False by (auto simp: ongoing_def not_activated_def)
  show ?thesis
    by (rule wp_conseq [OF wp_restore_store [OF on s(2)]])
      (use s False key in \<open>auto simp: ongoing_def candidate_of_def not_activated_def may_select_def\<close>)
qed

section \<open>A whole recovery\<close>

text \<open>The methods of a recovery in whatever order they are called, and its end.\<close>

datatype recovery_call = Restore_Call path string "byte list" | Activate_Call

fun recovery_calls ::
  "('w, 'cs) environment \<Rightarrow> (boundary \<Rightarrow> unit result) \<Rightarrow> recovery_call list \<Rightarrow> storage_restore \<Rightarrow>
   (error, storage_restore) io" where
  "recovery_calls E step [] s = io_return s"
| "recovery_calls E step (Restore_Call source password key # calls) s =
     io_bind (restore_store E source password key s) (\<lambda>(_, s). recovery_calls E step calls s)"
| "recovery_calls E step (Activate_Call # calls) s =
     io_bind (activate_at E step s) (\<lambda>(_, s). recovery_calls E step calls s)"

definition recovery ::
  "('w, 'cs) environment \<Rightarrow> (boundary \<Rightarrow> unit result) \<Rightarrow> path \<Rightarrow> string \<Rightarrow> recovery_call list \<Rightarrow>
   (error, storage_restore) io" where
  "recovery E step root name calls =
     io_bind (begin_at step root name) (\<lambda>s. io_finally (recovery_calls E step calls s) (drop_restore s))"

text \<open>The keys the recovery may give its candidate.\<close>

definition restore_keys :: "recovery_call list \<Rightarrow> byte list set" where
  "restore_keys calls = {key. \<exists>source password. Restore_Call source password key \<in> set calls}"

lemma restore_keys_Cons:
  "restore_keys (Restore_Call source password key # calls) = insert key (restore_keys calls)"
  "restore_keys (Activate_Call # calls) = restore_keys calls"
  by (auto simp: restore_keys_def)

lemma may_select_location:
  "sr_location s' = sr_location s \<Longrightarrow> sr_database s' = sr_database s \<Longrightarrow> candidate_of root D s \<Longrightarrow>
   may_select E root d0 D b ks s' d \<Longrightarrow> may_select E root d0 D b ks s d"
  by (simp add: may_select_def may_switch_def verified_candidate_def database_path_def)

lemma wp_calls:
  "ongoing E root d0 D b ks s d \<Longrightarrow> restore_keys calls \<subseteq> ks \<Longrightarrow>
   wp (recovery_calls E step calls s)
     (\<lambda>s' x. sr_location s' = sr_location s \<and> sr_database s' = sr_database s \<and> ongoing E root d0 D b ks s' x)
     (\<lambda>_. may_select E root d0 D b ks s) (may_select E root d0 D b ks s) d"
proof (induction calls arbitrary: s d)
  case Nil
  thus ?case by (auto intro: wp_return)
next
  case (Cons c calls)
  have s: "candidate_of root D s" using Cons.prems(1) by (simp add: ongoing_def)
  have ks: "restore_keys calls \<subseteq> ks" using Cons.prems(2) by (cases c) (auto simp: restore_keys_Cons)
  have rest: "wp (recovery_calls E step calls s')
      (\<lambda>s'' x. sr_location s'' = sr_location s \<and> sr_database s'' = sr_database s \<and> ongoing E root d0 D b ks s'' x)
      (\<lambda>_. may_select E root d0 D b ks s) (may_select E root d0 D b ks s) x"
    if "ongoing E root d0 D b ks s' x" "sr_location s' = sr_location s" "sr_database s' = sr_database s" for s' x
    by (rule wp_conseq [OF Cons.IH [OF that(1) ks]]) (use that(2,3) s in \<open>auto intro: may_select_location\<close>)
  show ?case
  proof (cases c)
    case (Restore_Call source password key)
    with Cons.prems(2) have "key \<in> ks" by (simp add: restore_keys_Cons)
    show ?thesis
      unfolding Restore_Call recovery_calls.simps
      by (rule wp_bind, rule wp_conseq [OF wp_restoring [OF Cons.prems(1) \<open>key \<in> ks\<close>]]) (auto intro: rest)
  next
    case Activate_Call
    then show ?thesis by (auto intro!: wp_bind wp_conseq [OF wp_activate [OF Cons.prems(1)]] rest)
  qed
qed

text \<open>Without an activation the selector stays.\<close>

lemma wp_restore_calls:
  "Activate_Call \<notin> set calls \<Longrightarrow> within root d0 D V (sl_directory (sr_location s)) d \<Longrightarrow>
   ordinary_name (sr_database s) \<Longrightarrow>
   wp (recovery_calls E step calls s)
     (\<lambda>s' x. sr_activated s' = sr_activated s \<and> within root d0 D V (sl_directory (sr_location s)) x)
     (\<lambda>_. within root d0 D V (sl_directory (sr_location s))) (within root d0 D V (sl_directory (sr_location s))) d"
proof (induction calls arbitrary: s d)
  case Nil
  thus ?case by (auto intro: wp_return)
next
  case (Cons c calls)
  then obtain source password key where c: "c = Restore_Call source password key" by (cases c) auto
  have rest: "wp (recovery_calls E step calls s')
      (\<lambda>s'' x. sr_activated s'' = sr_activated s \<and> within root d0 D V (sl_directory (sr_location s)) x)
      (\<lambda>_. within root d0 D V (sl_directory (sr_location s))) (within root d0 D V (sl_directory (sr_location s))) x"
    if "within root d0 D V (sl_directory (sr_location s)) x" "s' = s \<or> s' = s\<lparr>sr_key := Some key\<rparr>" for s' x
    using Cons.IH [of s' x] Cons.prems that by auto
  show ?case
    unfolding c recovery_calls.simps
    by (auto intro!: wp_bind wp_conseq [OF wp_restore_store [OF Cons.prems(2,3)]] rest)
qed

lemma begun_within:
  assumes "begun root d0 loc name b s d" and "tree d0"
  shows "within root d0 (needed root loc \<union> needed root (sr_location s)) {Some (Regular b)}
           (sl_directory (sr_location s)) d"
    and "candidate_of root (needed root loc \<union> needed root (sr_location s)) s"
proof -
  let ?cand = "sl_directory (sr_location s)"
  have none: "live d0 ?cand = None" and cand: "?cand = root @ [STORES, sl_generation (sr_location s)]"
    using assms(1) by (auto simp: begun_def)
  have "live d0 (?cand @ [n]) = None" for n
    using assms(2) none spec [OF assms(2) [unfolded tree_def], of "?cand @ [n]"] cand by (auto simp: butlast_append)
  thus "within root d0 (needed root loc \<union> needed root (sr_location s)) {Some (Regular b)} ?cand d"
    using assms(1) cand by (auto simp: within_def newcomers_def begun_def)
  show "candidate_of root (needed root loc \<union> needed root (sr_location s)) s"
    using assms(1) by (auto simp: candidate_of_def begun_def)
qed

text \<open>
  What the disk may be after a recovery: the old selection, or that of a directory that is new, whose
  database was verified with a key of the recovery.
\<close>

definition recovery_outcome ::
  "('w, 'cs) environment \<Rightarrow> path \<Rightarrow> disk \<Rightarrow> storage_location \<Rightarrow> string \<Rightarrow> recovery_call list \<Rightarrow> disk \<Rightarrow> bool" where
  "recovery_outcome E root d0 loc name calls d \<longleftrightarrow>
     still_selects root d0 loc d
     \<or> Activate_Call \<in> set calls
        \<and> (\<exists>b s. names root loc b \<and> live d0 (sl_directory (sr_location s)) = None \<and> sr_database s = name
             \<and> may_select E root d0 (needed root loc \<union> needed root (sr_location s)) b (restore_keys calls) s d)"

text \<open>A database that was verified, at a name in a directory of the disk.\<close>

definition verified_store ::
  "('w, 'cs) environment \<Rightarrow> string \<Rightarrow> recovery_call list \<Rightarrow> disk \<Rightarrow> path \<Rightarrow> bool" where
  "verified_store E name calls d dir \<longleftrightarrow>
     (\<exists>source password key c. Restore_Call source password key \<in> set calls
        \<and> live d (dir @ [name]) = Some (Regular c) \<and> verified_bytes E key c)"

lemma candidate_names:
  "candidate_of root D s \<Longrightarrow> names root (sr_location s) (selector_text (sl_generation (sr_location s)))"
  by (auto simp: candidate_of_def names_def selector_generation_text default_not_valid)

lemma verified_after:
  assumes "reads_back (en_sqlcipher E)" and "verified_candidate E key s d" and "key \<in> restore_keys calls" and "power_loss d d'"
  shows "verified_store E (sr_database s) calls d' (sl_directory (sr_location s))"
  using choices_power_loss [OF assms(2) [unfolded verified_candidate_def] assms(4)] assms(1,3)
  by (auto simp: verified_store_def verified_nodes_def restore_keys_def database_path_def)

lemma wp_recovery:
  assumes start: "settled_selection d0 root loc" and tree: "tree d0" and name: "ordinary_name name"
  shows "wp (recovery E step root name calls)
     (\<lambda>s x. recovery_outcome E root d0 loc name calls x
        \<and> (sr_activated s \<longrightarrow> (\<exists>D. candidate_of root D s \<and> switching root d0 D {new_selector s} x \<and> sr_database s = name
              \<and> (\<exists>key \<in> restore_keys calls. verified_candidate E key s x))))
     (\<lambda>_. recovery_outcome E root d0 loc name calls) (recovery_outcome E root d0 loc name calls) d0"
proof -
  let ?A = "Activate_Call \<in> set calls" and ?ks = "restore_keys calls" and ?out = "recovery_outcome E root d0 loc name calls"
  let ?done = "\<lambda>s x. sr_activated s \<longrightarrow> (\<exists>D. candidate_of root D s \<and> switching root d0 D {new_selector s} x \<and> sr_database s = name
              \<and> (\<exists>key \<in> restore_keys calls. verified_candidate E key s x))"
  have still: "still_selects root d0 loc x \<Longrightarrow> ?out x" for x
    by (simp add: recovery_outcome_def)
  have calls: "wp (recovery_calls E step calls s) (\<lambda>s' x. ?out x \<and> ?done s' x) (\<lambda>_. ?out) ?out x"
    if begun: "begun root d0 loc name b s x" for s b x
  proof -
    let ?D = "needed root loc \<union> needed root (sr_location s)" and ?cand = "sl_directory (sr_location s)"
    note on = begun_within [OF begun tree]
    have facts: "names root loc b" "live d0 ?cand = None" "\<not> sr_activated s" "sr_database s = name" "sr_key s = None"
      using begun by (auto simp: begun_def)
    have ongoing: "ongoing E root d0 ?D b ?ks s x"
      using on facts name by (auto simp: ongoing_def not_activated_def)
    have mine: "still_selects root d0 loc y" if "within root d0 ?D {Some (Regular b)} ?cand y" for y
      using that facts(1) by (auto simp: within_def still_selects_def intro: switching_less)
    have may: "?out y" if "may_select E root d0 ?D b ?ks s y" ?A for y
      using that facts unfolding recovery_outcome_def by blast
    show ?thesis
    proof (cases ?A)
      case True
      show ?thesis
      proof (rule wp_conseq [OF wp_calls [OF ongoing order_refl]])
        fix s' y
        assume after: "sr_location s' = sr_location s \<and> sr_database s' = sr_database s \<and> ongoing E root d0 ?D b ?ks s' y"
        hence "may_select E root d0 ?D b ?ks s y"
          using ongoing_may_select may_select_location [OF _ _ on(2)] by metis
        moreover have "?done s' y" using after facts by (auto simp: ongoing_def within_def)
        ultimately show "?out y \<and> ?done s' y" using may True by blast
      qed (use may True in auto)
    next
      case False
      show ?thesis
        by (rule wp_conseq [OF wp_restore_calls [OF False on(1)]]) (use facts name mine still in auto)
    qed
  qed
  show ?thesis
    unfolding recovery_def drop_restore_def
    by (auto intro!: wp_bind wp_conseq [OF wp_begin [OF start]] wp_finally still
        wp_conseq [OF calls] wp_drop_lock)
qed

lemma recovery_outcome_selected:
  assumes "recovery_outcome E root d0 loc name calls d" and "power_loss d d'" and reads: "reads_back (en_sqlcipher E)"
  shows "\<exists>loc'. selection_at (live d') root = Inr loc'
           \<and> (same_store loc loc'
              \<or> Activate_Call \<in> set calls \<and> live d0 (sl_directory loc') = None
                 \<and> verified_store E name calls d' (sl_directory loc'))"
proof -
  have "\<exists>loc'. selection_at (live d') root = Inr loc'
      \<and> (same_store loc loc' \<or> same_store (sr_location s) loc' \<and> verified_store E name calls d' (sl_directory (sr_location s)))"
    if nm: "names root loc b" and name: "sr_database s = name"
      and may: "may_select E root d0 (needed root loc \<union> needed root (sr_location s)) b (restore_keys calls) s d" for b s
  proof -
    let ?D = "needed root loc \<union> needed root (sr_location s)"
    have cand: "names root (sr_location s) (selector_text (sl_generation (sr_location s)))"
      using may by (auto simp: may_select_def intro: candidate_names)
    have at: "live d' (root @ [SELECTOR]) \<in> V \<and> (\<forall>p \<in> ?D. live d' p = Some Directory)"
      if "within root d0 ?D V (sl_directory (sr_location s)) d" for V
      using that choices_power_loss [OF _ assms(2)] unfolding within_def switching_def by fastforce
    have "(live d' (root @ [SELECTOR]) = Some (Regular b)
        \<or> live d' (root @ [SELECTOR]) = new_selector s \<and> verified_store E name calls d' (sl_directory (sr_location s)))
        \<and> (\<forall>p \<in> ?D. live d' p = Some Directory)"
      using may unfolding may_select_def
    proof (elim conjE disjE bexE)
      fix key assume key: "key \<in> restore_keys calls" and sw: "may_switch E root d0 ?D b key s d"
      then have "verified_store E name calls d' (sl_directory (sr_location s))"
        using verified_after [OF reads _ key assms(2), of s] name by (simp add: may_switch_def)
      moreover have "live d' (root @ [SELECTOR]) \<in> {Some (Regular b), new_selector s} \<and> (\<forall>p \<in> ?D. live d' p = Some Directory)"
        using sw by (intro at) (simp add: may_switch_def)
      ultimately show ?thesis by blast
    qed (use at [of "{Some (Regular b)}"] in simp)
    then show ?thesis
      using names_selected [OF nm, where nodes = "live d'"] names_selected [OF cand, where nodes = "live d'"] by blast
  qed
  note activated = this
  show ?thesis
    using assms(1) unfolding recovery_outcome_def
  proof (elim disjE conjE exE)
    fix b s
    assume "names root loc b" "sr_database s = name" and new: "live d0 (sl_directory (sr_location s)) = None"
      and may: "may_select E root d0 (needed root loc \<union> needed root (sr_location s)) b (restore_keys calls) s d"
      and A: "Activate_Call \<in> set calls"
    then obtain loc' where "selection_at (live d') root = Inr loc'"
      and "same_store loc loc' \<or> same_store (sr_location s) loc' \<and> verified_store E name calls d' (sl_directory (sr_location s))"
      using activated by blast
    with new A show ?thesis by (auto simp: same_store_def)
  next
    assume "still_selects root d0 loc d"
    from still_selected [OF this assms(2)] show ?thesis by blast
  qed
qed

text \<open>
  C9. A recovery switches stores atomically, and only to a store it has verified: whatever call fails,
  wherever the process is killed and in whatever order the methods are called, after a loss of power
  the selector names a complete selection, the store selected before or, only if an activation was
  called, a directory that did not exist before; there the database is on the medium, a key the
  recovery was given opens it at a version this program knows, and its wallets can be listed. If
  the recovery ended activated, the store selected is its candidate, with such a database. SQLCipher is
  assumed to read back what it committed.
\<close>

theorem recovery_is_atomic:
  assumes "settled_selection (files w) root loc" and "tree (files w)" and "ordinary_name name"
    and "reads_back (en_sqlcipher E)"
    and "recovery E step root name calls w = (r, w')" and "power_loss (files w') d'"
  shows "\<exists>loc'. selection_at (live d') root = Inr loc'
    \<and> (same_store loc loc'
       \<or> Activate_Call \<in> set calls \<and> live (files w) (sl_directory loc') = None
          \<and> verified_store E name calls d' (sl_directory loc'))
    \<and> (\<forall>s. r = Returned s \<and> sr_activated s \<longrightarrow>
         same_store (sr_location s) loc' \<and> verified_store E name calls d' (sl_directory loc'))"
proof -
  note run = wpD [OF wp_recovery [OF assms(1-3), where E = E and step = step and calls = calls]]
  have "recovery_outcome E root (files w) loc name calls (files w')"
    using run assms(5) by (cases r) blast+
  then obtain loc' where sel: "selection_at (live d') root = Inr loc'"
      "same_store loc loc' \<or> Activate_Call \<in> set calls \<and> live (files w) (sl_directory loc') = None
         \<and> verified_store E name calls d' (sl_directory loc')"
    using recovery_outcome_selected [OF _ assms(6,4)] by blast
  moreover have "same_store (sr_location s) loc' \<and> verified_store E name calls d' (sl_directory loc')"
    if "r = Returned s" "sr_activated s" for s
  proof -
    obtain D key where D: "candidate_of root D s" "switching root (files w) D {new_selector s} (files w')"
      and key: "sr_database s = name" "key \<in> restore_keys calls" "verified_candidate E key s (files w')"
      using run(1) assms(5) \<open>r = Returned s\<close> \<open>sr_activated s\<close> by blast
    have "same_store (sr_location s) loc'"
      using switching_selected [OF D(2) candidate_names [OF D(1)] _ assms(6)] D(1) sel(1) by (auto simp: candidate_of_def)
    with verified_after [OF assms(4) key(3,2) assms(6)] key(1) show ?thesis by (simp add: same_store_def)
  qed
  ultimately show ?thesis by blast
qed

text \<open>
  C21. A recovery never changes what existed: whatever fails and wherever the process is killed,
  every file and directory that was on the medium before, but the selector, is there afterwards as
  it was, the store selected before among them.
\<close>

theorem recovery_keeps_existing:
  assumes "settled_selection (files w) root loc" and "tree (files w)" and "ordinary_name name"
    and "recovery E step root name calls w = (r, w')" and "power_loss (files w') d'"
    and "live (files w) p = Some n" and "quiet (files w) p" and "p \<noteq> root @ [SELECTOR]"
  shows "live d' p = Some n"
proof -
  note run = wpD [OF wp_recovery [OF assms(1-3), where E = E and step = step and calls = calls]]
  have "recovery_outcome E root (files w) loc name calls (files w')"
    using run assms(4) by (cases r) blast+
  hence "since root (files w) (files w')"
    by (auto simp: recovery_outcome_def still_selects_def may_select_def may_switch_def within_def switching_def)
  from since_keeps [OF this _ assms(8), of "{Some n}"] assms(6,7)
  have "choices (files w') p {Some n}" by (simp add: choices_quiet)
  from choices_power_loss [OF this assms(5)] show ?thesis by simp
qed

end
