(* ===== verification/Selection_Cases.thy ===== *)
theory Selection_Cases
  imports Selection_Facts
begin

text \<open>
  A whole recovery carried out on a concrete disk, on which the properties of recoveries are
  applied, and two attempts that show why they begin on a settled selection.
\<close>

section \<open>A concrete recovery\<close>

definition recovery_world :: world where
  "recovery_world =
     backup_world\<lparr>suffixes := [''s'', ''ABCDEFGH01234567'', ''x'', ''y'', ''z'']\<rparr>"

lemma recovery_names [simp]:
  "plain_name SELECTOR" "plain_name STORES" "SELECTOR \<noteq> STORES" "STORES \<noteq> SELECTOR"
  "STORES \<noteq> CHR ''.'' # s" "CHR ''.'' # s \<noteq> STORES" "SELECTOR \<noteq> CHR ''.'' # s" "CHR ''.'' # s \<noteq> SELECTOR"
  "SELECTOR @ s \<noteq> STORES" "STORES \<noteq> SELECTOR @ s"
  "SELECTOR \<noteq> CHR ''b'' # s" "CHR ''b'' # s \<noteq> SELECTOR" "STORES \<noteq> CHR ''b'' # s" "CHR ''b'' # s \<noteq> STORES"
  "SELECTOR @ t \<noteq> CHR ''b'' # s" "CHR ''b'' # s \<noteq> SELECTOR @ t" "SELECTOR \<noteq> SELECTOR @ ''.tundra-lock''" "SELECTOR @ ''.tundra-lock'' \<noteq> SELECTOR"
  by (auto simp: plain_name_def root_component_def SELECTOR_def STORES_def)

lemma recovery_paths [simp]:
  "plain_name n \<Longrightarrow> file_name [a, b, c, n] = Some n" "parent_of [a, b, c, n] = Some [a, b, c]"
  "plain_name c \<Longrightarrow> nodes (at @ [c]) = Some Directory \<Longrightarrow> resolve nodes links at (c # rest) = resolve nodes links (at @ [c]) rest"
  "resolve nodes links at (root_component # rest) = resolve nodes links [root_component] rest"
  "plain_name ''store-ABCDEFGH01234567''" "''store-ABCDEFGH01234567'' \<noteq> root_component"
  "STORES \<noteq> root_component" "STORES \<noteq> ''..''"
  by (simp_all add: file_name_def parent_of_def plain_name_def root_component_def STORES_def)

lemma sample_database:
  "format_of sample_ciphertext = ProtectedOrUnknown" "im_version sample_restored = 8"
  by (simp_all add: format_of_def sample_ciphertext_def sqlite_header_def sample_restored_def restored_image_def
      apply_schema_def)

lemma calm_store:
  "fates v = [] \<Longrightarrow> locks v p = Free \<Longrightarrow> take_lock p False v = (Returned (), v\<lparr>locks := (locks v)(p := Shared 1)\<rparr>)"
  "fates v = [] \<Longrightarrow> atomic (\<lambda>d. (Inr a, f d)) v = (Returned a, v\<lparr>files := f (files v)\<rparr>)"
  by (simp_all add: take_lock_def atomic_def calm_call)

definition sample_calls :: "recovery_call list" where
  "sample_calls = [Restore_Call [root_component, ''b''] sample_password sample_storage_key, Activate_Call]"

lemma sample_recovery_returns:
  "\<exists>s w'. recovery sample_environment (\<lambda>_. Inr ()) [root_component] ''w'' sample_calls recovery_world
      = (Returned s, w') \<and> sr_activated s \<and> sl_generation (sr_location s) = ''store-ABCDEFGH01234567''"
  by (simp add: recovery_world_def begin_at_def begin_locked_def
     valid_database_name_def name_char_def is_alphanumeric_def store_root_def io_on_error_def
     write_selection_def allocate_candidate_def calm_kind kind_result_def ended_def regular_def directory_def sync_directory_def
     backup_runs valid_generation_def starts_with_def
     recovery_def sample_calls_def restore_store_def restore_backup_def database_path_def activate_at_def
     switch_store_def verify_candidate_def storage_format_def core_open_protected_def shared_lock_def
     from_connection_def commit_database_def release_def drop_restore_def wallet_list_def sample_database calm_store commit_entry_def)

lemma recovery_places:
  "settled_selection (files recovery_world) [root_component] (fresh_location [root_component])"
  "tree (files recovery_world)" "ordinary_name ''w''"
  "live (files recovery_world) [root_component, ''b''] = Some (Regular sample_backup)"
  "quiet (files recovery_world) [root_component, ''b'']" "[root_component, ''b''] \<noteq> [root_component] @ [SELECTOR]"
  using backup_places(1,3,5,9)
  by (auto simp: recovery_world_def settled_selection_def fresh_location_def selection_at_def tree_def backup_world_def
      split: if_splits)

lemma sample_reads_back: "reads_back (en_sqlcipher sample_environment)"
  by (auto simp: reads_back_def backup_codec backup_sqlcipher_def sample_environment_def sample_restored_def restored_image_def
      backup_snapshot_def exported_image_def sample_image_def SCHEMA_VERSION_def)

text \<open>The store selected afterwards is the candidate, and the key it was restored with opens it.\<close>

theorem recovery_is_atomic_witness:
  "\<exists>s w' loc' c. recovery sample_environment (\<lambda>_. Inr ()) [root_component] ''w'' sample_calls recovery_world = (Returned s, w')
    \<and> selection_at (live (all_flushed (files w'))) [root_component] = Inr loc'
    \<and> sl_generation loc' = ''store-ABCDEFGH01234567''
    \<and> live (all_flushed (files w')) (sl_directory loc' @ [''w'']) = Some (Regular c)
    \<and> verified_bytes sample_environment sample_storage_key c"
proof -
  obtain s w' where run: "recovery sample_environment (\<lambda>_. Inr ()) [root_component] ''w'' sample_calls recovery_world
      = (Returned s, w')" "sr_activated s" "sl_generation (sr_location s) = ''store-ABCDEFGH01234567''"
    using sample_recovery_returns by blast
  from recovery_is_atomic [OF recovery_places(1-3) sample_reads_back run(1) power_loss_all_flushed] run
  show ?thesis by (auto simp: same_store_def verified_store_def sample_calls_def)
qed

theorem recovery_keeps_existing_witness:
  "\<exists>s w'. recovery sample_environment (\<lambda>_. Inr ()) [root_component] ''w'' sample_calls recovery_world = (Returned s, w')
    \<and> live (all_flushed (files w')) [root_component, ''b''] = Some (Regular sample_backup)"
proof -
  obtain s w' where run: "recovery sample_environment (\<lambda>_. Inr ()) [root_component] ''w'' sample_calls recovery_world
      = (Returned s, w')"
    using sample_recovery_returns by blast
  from recovery_keeps_existing [OF recovery_places(1-3) run power_loss_all_flushed recovery_places(4-6)] run
  show ?thesis by blast
qed

section \<open>Attempts killed before a synchronization\<close>

definition first_attempt :: world where
  "first_attempt = \<lparr>files = \<lparr>live = [[root_component] \<mapsto> Directory], remnants = (\<lambda>_. []), flushed = (\<lambda>_. True)\<rparr>,
      locks = (\<lambda>_. Free), fates = replicate 13 Runs @ [Dies 0], suffixes = [''s''], cwd = [root_component]\<rparr>"

definition second_attempt :: "world \<Rightarrow> world" where
  "second_attempt w = w\<lparr>locks := (\<lambda>_. Free), fates := replicate 9 Runs @ [Dies 0]\<rparr>"

lemma interrupted_twice:
  "\<exists>w1 w2. begin_restore [root_component] ''w'' first_attempt = (Killed, w1)
     \<and> begin_restore [root_component] ''w'' (second_attempt w1) = (Killed, w2)
     \<and> live (files w2) [root_component, STORES] = Some Directory
     \<and> Absent \<in> set (remnants (files w2) [root_component, SELECTOR])"
  by (simp add: begin_restore_def first_attempt_def second_attempt_def begin_at_def begin_locked_def numeral_eq_Suc
      valid_database_name_def name_char_def is_alphanumeric_def store_root_def io_on_error_def write_selection_def
      allocate_candidate_def kind_of_def regular_def directory_def sync_directory_def io_bind_def io_map_err_def
      io_try_def io_finally_def io_return_def io_fail_def io_result_def canonical_path_def exclusive_lock_def
      lock_file_def acquire_def Let_def lock_name_def disk_simps with_temporary_def drop_lock_def system_call_def
      atomic_def stat_def canonicalize_def open_or_create_def write_bytes_def sync_file_def sync_dir_def
      rename_over_def create_new_def take_lock_def create_temporary_def free_suffixes_def)
    (simp add: move_entry_def set_entry_def flush_entry_def write_entry_def survivors_def standing_def)

lemma power_loss_forgets:
  assumes "Absent \<in> set (remnants d p)"
  shows "power_loss d \<lparr>live = (live d)(p := None), remnants = (\<lambda>_. []), flushed = (\<lambda>_. True)\<rparr>"
  using assms admits_standing by (fastforce simp: power_loss_def survivors_def)

text \<open>
  C40. Why a recovery is taken to begin on a settled selection: an earlier attempt killed before it
  synchronized the root leaves a selector that a second attempt finds and does not synchronize
  before it creates the directory of the stores. Killed there, and after a loss of power that keeps
  the directory and forgets the selector, the store that was in use is locked out.
\<close>

theorem interrupted_attempts_can_lock:
  "\<exists>w1 w2 d'. selection_at (live (files first_attempt)) [root_component] = Inr (fresh_location [root_component])
     \<and> begin_restore [root_component] ''w'' first_attempt = (Killed, w1)
     \<and> begin_restore [root_component] ''w'' (second_attempt w1) = (Killed, w2)
     \<and> power_loss (files w2) d' \<and> selection_at (live d') [root_component] = Inl StorageLocked"
proof -
  obtain w1 w2 where run: "begin_restore [root_component] ''w'' first_attempt = (Killed, w1)"
      "begin_restore [root_component] ''w'' (second_attempt w1) = (Killed, w2)"
      "live (files w2) [root_component, STORES] = Some Directory"
      "Absent \<in> set (remnants (files w2) [root_component, SELECTOR])"
    using interrupted_twice by blast
  show ?thesis
    using run power_loss_forgets [OF run(4)]
    by (intro exI conjI) (auto simp: selection_at_def first_attempt_def fresh_location_def)
qed

end
