(* ===== verification/Binding.thy ===== *)
theory Binding
  imports Store_Selection Sync_Operations Qr Usb Amount
begin

text \<open>
  \<^verbatim>\<open>crates/tundra-ffi/src/lib.rs\<close>: what the mobile applications call. Every method locks the object
  it belongs to, calls one operation of the core and copies its result into a record of the
  binding's own; an error becomes a code and its text.
\<close>

section \<open>Errors\<close>

text \<open>The texts of \<^verbatim>\<open>error.rs\<close>.\<close>

fun error_text :: "error \<Rightarrow> string" where
  "error_text (InvalidInput s) = ''Invalid input: '' @ s"
| "error_text Descriptor = ''Invalid or unsupported public descriptor''"
| "error_text UnsupportedKeys =
     ''Only public extended keys with origins and unhardened receive/change ranges are supported''"
| "error_text UnsupportedPolicy = ''Only native SegWit single-sig and 2-of-3 sorted multisig are supported''"
| "error_text NetworkMismatch = ''Descriptor network does not match the selected network''"
| "error_text BranchMismatch =
     ''Receive and change must describe the same wallet with distinct /0/* and /1/* branches''"
| "error_text AlreadyExists = ''Wallet already exists''"
| "error_text NotFound = ''Wallet, draft or coin was not found''"
| "error_text UnavailableCoin = ''Coin is frozen, reserved, unconfirmed, immature or no longer spendable''"
| "error_text CannotBuild = ''Selected coins cannot fund this transaction, including its fee''"
| "error_text Cancelled = ''Sync was cancelled; the previous wallet state was retained''"
| "error_text SyncFailed = ''Sync failed: check the endpoint, network and connection, then retry''"
| "error_text SyncLimit = ''Sync exceeded a bounded response, scan or time limit''"
| "error_text StaleSync = ''Wallet changed during sync; retry with the current state''"
| "error_text BroadcastPreflight = ''Broadcast preflight failed; this request did not submit a transaction''"
| "error_text SyncBusy = ''Another sync is already in progress''"
| "error_text (Unavailable s) = ''Not implemented in this development milestone: '' @ s"
| "error_text Storage = ''Wallet database operation failed''"
| "error_text StorageLocked = ''Protected wallet storage could not be opened; the existing files were retained''"
| "error_text StorageBusy = ''Wallet storage is in use; close other wallet sessions before upgrading storage''"
| "error_text CorruptState = ''Wallet state is corrupt or incompatible''"
| "error_text Poisoned = ''Application state is unavailable; restart the app''"

datatype error_code =
    InvalidInputCode
  | UnsupportedCode
  | NotFoundCode
  | ConflictCode
  | StorageCode
  | UnavailableCode
  | InternalCode

record app_error =
  ae_code :: error_code
  ae_detail :: string

fun error_code_of :: "error \<Rightarrow> error_code" where
  "error_code_of UnsupportedKeys = UnsupportedCode"
| "error_code_of UnsupportedPolicy = UnsupportedCode"
| "error_code_of NotFound = NotFoundCode"
| "error_code_of AlreadyExists = ConflictCode"
| "error_code_of UnavailableCoin = ConflictCode"
| "error_code_of Storage = StorageCode"
| "error_code_of StorageLocked = StorageCode"
| "error_code_of StorageBusy = StorageCode"
| "error_code_of (Unavailable _) = UnavailableCode"
| "error_code_of CorruptState = InternalCode"
| "error_code_of Poisoned = InternalCode"
| "error_code_of _ = InvalidInputCode"

definition app_error_of :: "error \<Rightarrow> app_error" where
  "app_error_of e = \<lparr>ae_code = error_code_of e, ae_detail = error_text e\<rparr>"

text \<open>\<^verbatim>\<open>Ok(call?.into())\<close>, on a result, beside a state, and on a computation over files.\<close>

type_synonym 'a app_result = "app_error + 'a"

definition into :: "('a \<Rightarrow> 'b) \<Rightarrow> 'a result \<Rightarrow> 'b app_result" where
  "into f r = (case r of Inl e \<Rightarrow> Inl (app_error_of e) | Inr a \<Rightarrow> Inr (f a))"

definition into_with :: "('a \<Rightarrow> 'b) \<Rightarrow> 'a result \<times> 's \<Rightarrow> 'b app_result \<times> 's" where
  "into_with f = (\<lambda>(r, s). (into f r, s))"

definition into_io :: "('a \<Rightarrow> 'b) \<Rightarrow> (error, 'a) io \<Rightarrow> (app_error, 'b) io" where
  "into_io f m = io_bind (io_map_err app_error_of m) (\<lambda>a. io_return (f a))"

text \<open>An object behind a mutex; a panic while it was locked poisons it.\<close>

datatype 'a mutex = Guarded 'a | Poisoned_Mutex

definition with_lock :: "('a \<Rightarrow> 'b result \<times> 'a) \<Rightarrow> 'a mutex \<Rightarrow> 'b result \<times> 'a mutex" where
  "with_lock f m =
     (case m of
        Poisoned_Mutex \<Rightarrow> (Inl Poisoned, m)
      | Guarded a \<Rightarrow> (let (r, a) = f a in (r, Guarded a)))"

section \<open>Paths\<close>

text \<open>
  A text as a \<^verbatim>\<open>Path\<close>: repeated separators and inner \<^verbatim>\<open>.\<close> components are not components; and back.
\<close>

fun split_path :: "string \<Rightarrow> string \<Rightarrow> string list" where
  "split_path part [] = [part]"
| "split_path part (c # text) =
     (if c = CHR ''/'' then part # split_path [] text else split_path (part @ [c]) text)"

definition path_of_text :: "string \<Rightarrow> path" where
  "path_of_text text =
     (let parts = split_path [] text;
          named = filter (\<lambda>c. c \<noteq> [] \<and> c \<noteq> ''.'') in
      if text = [] then []
      else if hd text = CHR ''/'' then root_component # named parts
      else (if hd parts = ''.'' then [''.''] else []) @ named parts)"

fun join_path :: "path \<Rightarrow> string" where
  "join_path [] = []"
| "join_path [c] = c"
| "join_path (c # rest) = c @ ''/'' @ join_path rest"

definition path_text :: "path \<Rightarrow> string" where
  "path_text p = (if p \<noteq> [] \<and> hd p = root_component then root_component @ join_path (tl p) else join_path p)"

section \<open>The records of the binding\<close>

datatype storage_file = MissingFile | LegacyPlaintext | ProtectedOrUnknownFile

fun storage_file_of :: "stored_format \<Rightarrow> storage_file" where
  "storage_file_of Missing = MissingFile"
| "storage_file_of Plaintext = LegacyPlaintext"
| "storage_file_of ProtectedOrUnknown = ProtectedOrUnknownFile"

datatype chain_code = MainnetChain | SignetChain | TestnetChain | RegtestChain

fun network_of :: "chain_code \<Rightarrow> network" where
  "network_of MainnetChain = Mainnet"
| "network_of SignetChain = Signet"
| "network_of TestnetChain = Testnet"
| "network_of RegtestChain = Regtest"

fun chain_code_of :: "network \<Rightarrow> chain_code" where
  "chain_code_of Mainnet = MainnetChain"
| "chain_code_of Signet = SignetChain"
| "chain_code_of Testnet = TestnetChain"
| "chain_code_of Regtest = RegtestChain"

datatype wallet_policy = SingleSigWallet | TwoOfThreeWallet

fun wallet_policy_of :: "policy \<Rightarrow> wallet_policy" where
  "wallet_policy_of SingleSig = SingleSigWallet"
| "wallet_policy_of TwoOfThree = TwoOfThreeWallet"

datatype coin_state = AvailableCoin | FrozenCoin | ReservedCoin | PendingCoin | ImmatureCoin

fun coin_state_of :: "coin_status \<Rightarrow> coin_state" where
  "coin_state_of Available = AvailableCoin"
| "coin_state_of Frozen = FrozenCoin"
| "coin_state_of Reserved = ReservedCoin"
| "coin_state_of Pending = PendingCoin"
| "coin_state_of Immature = ImmatureCoin"

record wallet_info =
  wi_id :: string
  wi_name :: string
  wi_network :: chain_code
  wi_policy :: wallet_policy
  wi_synced :: bool
  wi_synced_at :: "nat option"
  wi_total_sats :: "nat option"
  wi_available_sats :: "nat option"

definition wallet_info_of :: "wallet_summary \<Rightarrow> wallet_info" where
  "wallet_info_of w =
     \<lparr>wi_id = ws_id w, wi_name = ws_name w, wi_network = chain_code_of (ws_network w),
      wi_policy = wallet_policy_of (ws_policy w), wi_synced = (ws_synced_at w \<noteq> None),
      wi_synced_at = ws_synced_at w, wi_total_sats = total_sats w, wi_available_sats = available_sats w\<rparr>"

record backup_info =
  bk_created_at :: nat
  bk_wallets :: "wallet_info list"
  bk_drafts :: nat
  bk_submissions :: nat

definition backup_info_of :: "backup_summary \<Rightarrow> backup_info" where
  "backup_info_of v =
     \<lparr>bk_created_at = bs_created_at v, bk_wallets = map wallet_info_of (bs_wallets v),
      bk_drafts = bs_drafts v, bk_submissions = bs_submissions v\<rparr>"

record location_info =
  li_generation :: string
  li_directory :: string
  li_require_existing :: bool

definition location_info_of :: "storage_location \<Rightarrow> location_info" where
  "location_info_of v =
     \<lparr>li_generation = sl_generation v, li_directory = path_text (sl_directory v),
      li_require_existing = sl_require_existing v\<rparr>"

record recovery_review_request =
  rr_wallet_id :: string
  rr_draft_id :: string
  rr_expected_txid :: string
  rr_expected_attempt :: nat
  rr_review_acknowledged :: bool

record wallet_preview =
  wp_policy :: wallet_policy
  wp_network :: chain_code
  wp_first_address :: string

definition wallet_preview_of :: "import_preview \<Rightarrow> wallet_preview" where
  "wallet_preview_of p =
     \<lparr>wp_policy = wallet_policy_of (ip_policy p), wp_network = chain_code_of (ip_network p),
      wp_first_address = first_address p\<rparr>"

record coin_info =
  ci_outpoint :: string
  ci_sats :: nat
  ci_label :: string
  ci_address :: string
  ci_state :: coin_state

definition coin_info_of :: "coin \<Rightarrow> coin_info" where
  "coin_info_of c =
     \<lparr>ci_outpoint = coin_outpoint c, ci_sats = coin_sats c, ci_label = coin_label c,
      ci_address = coin_address c, ci_state = coin_state_of (coin_status c)\<rparr>"

record activity_info =
  ai_txid :: string
  ai_label :: string
  ai_delta_sats :: int
  ai_confirmed :: bool

definition activity_info_of :: "activity \<Rightarrow> activity_info" where
  "activity_info_of a =
     \<lparr>ai_txid = act_txid a, ai_label = act_label a, ai_delta_sats = delta_sats a,
      ai_confirmed = act_confirmed a\<rparr>"

record address_info =
  ad_address :: string
  ad_index :: nat
  ad_hardware_verified :: bool

definition address_info_of :: "receive_address \<Rightarrow> address_info" where
  "address_info_of a =
     \<lparr>ad_address = ra_address a, ad_index = ra_index a, ad_hardware_verified = hardware_verified a\<rparr>"

record label_import_preview =
  lip_matched :: nat
  lip_skipped :: nat
  lip_changed :: nat

definition label_import_preview_of :: "label_preview \<Rightarrow> label_import_preview" where
  "label_import_preview_of p = \<lparr>lip_matched = matched p, lip_skipped = skipped p, lip_changed = changed p\<rparr>"

datatype payment_intent = SendIntent string nat | SendMaxIntent string | ConsolidateIntent bool

fun payment_of :: "payment_intent \<Rightarrow> payment" where
  "payment_of (SendIntent address sats) = Send address sats"
| "payment_of (SendMaxIntent address) = SendMax address"
| "payment_of (ConsolidateIntent privacy_acknowledged) = Consolidate privacy_acknowledged"

record payment_request =
  pr_wallet_id :: string
  pr_intent :: payment_intent
  pr_selected_outpoints :: "string list option"
  pr_fee_sat_per_kwu :: nat
  pr_label :: string

definition draft_request_of :: "payment_request \<Rightarrow> draft_request" where
  "draft_request_of r =
     \<lparr>dr_wallet_id = pr_wallet_id r, dr_payment = payment_of (pr_intent r),
      selected_outpoints = pr_selected_outpoints r, dr_fee_sat_per_kwu = pr_fee_sat_per_kwu r,
      dr_label = pr_label r\<rparr>"

record input_info =
  ii_outpoint :: string
  ii_sats :: nat
  ii_label :: string

record output_info =
  oi_address :: string
  oi_sats :: nat
  oi_is_change :: bool
  oi_is_mine :: bool

record payment_review =
  pv_id :: string
  pv_wallet_id :: string
  pv_inputs :: "input_info list"
  pv_outputs :: "output_info list"
  pv_fee_sats :: nat
  pv_fee_sat_per_kwu :: "nat option"
  pv_label :: string
  pv_is_consolidation :: bool
  pv_state :: string

definition payment_review_of :: "draft_review \<Rightarrow> payment_review" where
  "payment_review_of r =
     \<lparr>pv_id = dv_id r, pv_wallet_id = dv_wallet_id r,
      pv_inputs = map (\<lambda>i. \<lparr>ii_outpoint = ri_outpoint i, ii_sats = ri_sats i, ii_label = ri_label i\<rparr>) (dv_inputs r),
      pv_outputs = map (\<lambda>o'. \<lparr>oi_address = ro_address o', oi_sats = ro_sats o', oi_is_change = is_change o',
                             oi_is_mine = ro_is_mine o'\<rparr>) (dv_outputs r),
      pv_fee_sats = fee_sats r, pv_fee_sat_per_kwu = dv_fee_sat_per_kwu r, pv_label = dv_label r,
      pv_is_consolidation = is_consolidation r, pv_state = dv_state r\<rparr>"

record input_signature_info =
  is_outpoint :: string
  is_valid_signatures :: nat
  is_required_signatures :: nat

record signing_info =
  si_draft_id :: string
  si_inputs :: "input_signature_info list"
  si_complete :: bool

definition signing_info_of :: "signing_progress \<Rightarrow> signing_info" where
  "signing_info_of p =
     \<lparr>si_draft_id = sp_draft_id p,
      si_inputs = map (\<lambda>i. \<lparr>is_outpoint = isp_outpoint i, is_valid_signatures = valid_signatures i,
                           is_required_signatures = required_signatures i\<rparr>) (sp_inputs p),
      si_complete = sp_complete p\<rparr>"

record final_transaction_info =
  fi_wallet_id :: string
  fi_draft_id :: string
  fi_txid :: string
  fi_wtxid :: string
  fi_fee_sats :: nat
  fi_weight_wu :: nat
  fi_vsize :: nat
  fi_transaction_bytes :: "byte list"

definition final_transaction_info_of :: "finalized_review \<Rightarrow> final_transaction_info" where
  "final_transaction_info_of v =
     \<lparr>fi_wallet_id = fr_wallet_id v, fi_draft_id = fr_draft_id v, fi_txid = fr_txid v, fi_wtxid = fr_wtxid v,
      fi_fee_sats = fr_fee_sats v, fi_weight_wu = weight_wu v, fi_vsize = vsize v,
      fi_transaction_bytes = transaction_bytes v\<rparr>"

datatype chain_observation = NotSeenChain | MempoolChain | ConfirmedChain

fun chain_observation_of :: "broadcast_observation \<Rightarrow> chain_observation" where
  "chain_observation_of SeenNowhere = NotSeenChain"
| "chain_observation_of SeenInMempool = MempoolChain"
| "chain_observation_of SeenConfirmed = ConfirmedChain"

record submit_request =
  sq_wallet_id :: string
  sq_draft_id :: string
  sq_endpoint :: string
  sq_expected_txid :: string
  sq_previous_attempt :: "nat option"
  sq_privacy_consent :: bool
  sq_retry_acknowledged :: bool

definition broadcast_request_of :: "submit_request \<Rightarrow> broadcast_request" where
  "broadcast_request_of v =
     \<lparr>br_wallet_id = sq_wallet_id v, br_draft_id = sq_draft_id v, br_endpoint = sq_endpoint v,
      expected_txid = sq_expected_txid v, previous_attempt = sq_previous_attempt v,
      privacy_consent = sq_privacy_consent v, retry_acknowledged = sq_retry_acknowledged v\<rparr>"

record submit_info =
  su_attempt_id :: nat
  su_wallet_id :: string
  su_draft_id :: string
  su_endpoint :: string
  su_txid :: string
  su_wtxid :: string
  su_requested_at :: nat
  su_acknowledged :: bool
  su_observation :: chain_observation

definition submit_info_of :: "broadcast_info \<Rightarrow> submit_info" where
  "submit_info_of v =
     \<lparr>su_attempt_id = bi_attempt_id v, su_wallet_id = bi_wallet_id v, su_draft_id = bi_draft_id v,
      su_endpoint = bi_endpoint v, su_txid = bi_txid v, su_wtxid = bi_wtxid v,
      su_requested_at = bi_requested_at v, su_acknowledged = acknowledged v,
      su_observation = chain_observation_of (bi_observation v)\<rparr>"

datatype usb_request = InspectRequest | RegisterPolicyRequest | VerifyReceiveRequest nat | SignDraftRequest string

fun usb_operation_of :: "usb_request \<Rightarrow> usb_operation" where
  "usb_operation_of InspectRequest = InspectOp"
| "usb_operation_of RegisterPolicyRequest = RegisterPolicy"
| "usb_operation_of (VerifyReceiveRequest index) = VerifyReceive index"
| "usb_operation_of (SignDraftRequest draft_id) = SignDraft draft_id"

datatype usb_status = WaitingUsb | CompleteUsb | CancelledUsb | FailedUsb

fun usb_status_of :: "usb_state \<Rightarrow> usb_status" where
  "usb_status_of Waiting = WaitingUsb"
| "usb_status_of UsbComplete = CompleteUsb"
| "usb_status_of UsbCancelled = CancelledUsb"
| "usb_status_of UsbFailed = FailedUsb"

record usb_info =
  un_state :: usb_status
  un_step :: nat
  un_packets :: "byte list list"
  un_app_version :: "string option"
  un_fingerprint :: "string option"

definition usb_info_of :: "usb_update \<Rightarrow> usb_info" where
  "usb_info_of v =
     \<lparr>un_state = usb_status_of (uu_state v), un_step = uu_step v, un_packets = packets v,
      un_app_version = app_version v, un_fingerprint = uu_fingerprint v\<rparr>"

datatype qr_encoding_choice = UrEncoding | BbqrEncoding

fun qr_format_of :: "qr_encoding_choice \<Rightarrow> qr_format" where
  "qr_format_of UrEncoding = UrFormat"
| "qr_format_of BbqrEncoding = BbqrFormat"

datatype scan_purpose = ScanSignedPsbt | ScanDescriptor chain_code

fun qr_purpose_of :: "scan_purpose \<Rightarrow> qr_purpose" where
  "qr_purpose_of ScanSignedPsbt = SignedPsbt"
| "qr_purpose_of (ScanDescriptor c) = DescriptorFor (network_of c)"

datatype qr_state = ScanningQr | CompleteQr | CancelledQr | FailedQr

fun qr_state_of :: "qr_phase \<Rightarrow> qr_state" where
  "qr_state_of QrScanning = ScanningQr"
| "qr_state_of QrComplete = CompleteQr"
| "qr_state_of QrCancelled = CancelledQr"
| "qr_state_of QrFailed = FailedQr"

record qr_info =
  qi_state :: qr_state
  qi_resolved_fragments :: nat
  qi_total_fragments :: "nat option"

definition qr_info_of :: "qr_progress \<Rightarrow> qr_info" where
  "qr_info_of v =
     \<lparr>qi_state = qr_state_of (qp_phase v), qi_resolved_fragments = resolved_fragments v,
      qi_total_fragments = total_fragments v\<rparr>"

record qr_image =
  qm_side :: nat
  qm_modules :: "nat list"

definition qr_image_of :: "qr_matrix \<Rightarrow> qr_image" where
  "qr_image_of m = \<lparr>qm_side = side m, qm_modules = modules m\<rparr>"

datatype sync_state = PreparedSync | ScanningSync | ApplyingSync | CompleteSync | CancelledSync | FailedSync

fun sync_state_of :: "sync_phase \<Rightarrow> sync_state" where
  "sync_state_of Prepared = PreparedSync"
| "sync_state_of Scanning = ScanningSync"
| "sync_state_of Applying = ApplyingSync"
| "sync_state_of Complete = CompleteSync"
| "sync_state_of CancelledPhase = CancelledSync"
| "sync_state_of Failed = FailedSync"

record sync_info =
  sn_id :: nat
  sn_wallet_id :: string
  sn_state :: sync_state
  sn_scanned_scripts :: nat
  sn_error :: "string option"

definition sync_info_of :: "sync_progress \<Rightarrow> sync_info" where
  "sync_info_of p =
     \<lparr>sn_id = sy_id p, sn_wallet_id = sy_wallet_id p, sn_state = sync_state_of (sy_phase p),
      sn_scanned_scripts = scanned_scripts p, sn_error = map_option error_text (sy_error p)\<rparr>"

section \<open>The parts of the platform\<close>

record ('w, 'cs, 'i, 'd, 'e) platform =
  pl_environment :: "('w, 'cs) environment"
  pl_crypto :: crypto
  pl_web :: web
  pl_chain :: "('w, 'cs) chain"
  pl_ledger :: "'i ledger"
  pl_qr :: "('d, 'e) qr_codec"
  pl_show_record :: "label_record \<Rightarrow> string"

abbreviation pl_bitcoin where "pl_bitcoin P \<equiv> en_bitcoin (pl_environment P)"
abbreviation pl_codec where "pl_codec P \<equiv> en_codec (pl_environment P)"
abbreviation pl_miniscript where "pl_miniscript P \<equiv> en_miniscript (pl_environment P)"
abbreviation pl_bdk where "pl_bdk P \<equiv> en_bdk (pl_environment P)"
abbreviation pl_parse where "pl_parse P \<equiv> en_parse (pl_environment P)"
abbreviation pl_sqlcipher where "pl_sqlcipher P \<equiv> en_sqlcipher (pl_environment P)"

section \<open>Functions over files\<close>

definition inspect_storage :: "string \<Rightarrow> (app_error, storage_file) io" where
  "inspect_storage p = into_io storage_file_of (storage_format (path_of_text p))"

definition upgrade_storage ::
  "('w, 'cs, 'i, 'd, 'e) platform \<Rightarrow> string \<Rightarrow> byte list \<Rightarrow> (app_error, unit) io" where
  "upgrade_storage P p key = into_io id (migrate_plaintext_storage (pl_sqlcipher P) (path_of_text p) key)"

definition app_inspect_backup ::
  "('w, 'cs, 'i, 'd, 'e) platform \<Rightarrow> string \<Rightarrow> string \<Rightarrow> (app_error, backup_info) io" where
  "app_inspect_backup P p password =
     into_io backup_info_of (inspect_backup (pl_environment P) (path_of_text p) password)"

definition app_restore_backup ::
  "('w, 'cs, 'i, 'd, 'e) platform \<Rightarrow> string \<Rightarrow> string \<Rightarrow> string \<Rightarrow> byte list \<Rightarrow> (app_error, backup_info) io" where
  "app_restore_backup P source destination password key =
     into_io backup_info_of
       (restore_backup (pl_environment P) (path_of_text source) (path_of_text destination) password key)"

definition app_selected_storage :: "string \<Rightarrow> (app_error, location_info) io" where
  "app_selected_storage root = into_io location_info_of (selected_storage (path_of_text root))"

text \<open>A recovery session.\<close>

definition app_restore_begin :: "string \<Rightarrow> string \<Rightarrow> (app_error, storage_restore mutex) io" where
  "app_restore_begin root database_name = into_io Guarded (begin_restore (path_of_text root) database_name)"

definition app_restore_location :: "storage_restore mutex \<Rightarrow> location_info app_result" where
  "app_restore_location m =
     into location_info_of
       (case m of Poisoned_Mutex \<Rightarrow> Inl Storage | Guarded s \<Rightarrow> Inr (sr_location s))"

definition app_restore_store ::
  "('w, 'cs, 'i, 'd, 'e) platform \<Rightarrow> string \<Rightarrow> string \<Rightarrow> byte list \<Rightarrow> storage_restore mutex \<Rightarrow>
   (error, backup_info app_result \<times> storage_restore mutex) io" where
  "app_restore_store P source password key m =
     (case m of
        Poisoned_Mutex \<Rightarrow> io_return (into backup_info_of (Inl Storage), m)
      | Guarded s \<Rightarrow>
          io_bind (restore_store (pl_environment P) (path_of_text source) password key s) (\<lambda>(r, s).
          io_return (into backup_info_of r, Guarded s)))"

definition app_activate ::
  "('w, 'cs, 'i, 'd, 'e) platform \<Rightarrow> storage_restore mutex \<Rightarrow>
   (error, unit app_result \<times> storage_restore mutex) io" where
  "app_activate P m =
     (case m of
        Poisoned_Mutex \<Rightarrow> io_return (into id (Inl Storage), m)
      | Guarded s \<Rightarrow>
          io_bind (activate (pl_environment P) s) (\<lambda>(r, s). io_return (into id r, Guarded s)))"

text \<open>
  An open core: its database behind the handle, and the table of its synchronizations. \<open>open_core\<close>
  keeps the file and what an export copies beside the tables.
\<close>

definition app_open :: "('w, 'cs, 'i, 'd, 'e) platform \<Rightarrow> string \<Rightarrow> (app_error, 'cs open_core) io" where
  "app_open P p = into_io id (core_open (pl_sqlcipher P) (path_of_text p))"

definition app_open_protected ::
  "('w, 'cs, 'i, 'd, 'e) platform \<Rightarrow> string \<Rightarrow> byte list \<Rightarrow> (app_error, 'cs open_core) io" where
  "app_open_protected P p key = into_io id (core_open_protected (pl_sqlcipher P) (path_of_text p) key)"

definition opened_core :: "'cs open_core \<Rightarrow> ('w, 'cs) core" where
  "opened_core c = \<lparr>co_db = im_db (oc_image c), co_entries = [], co_next = 0, co_threads = []\<rparr>"

definition app_export_backup ::
  "('w, 'cs, 'i, 'd, 'e) platform \<Rightarrow> nat result \<Rightarrow> 'cs open_core \<Rightarrow> string \<Rightarrow> string \<Rightarrow> ('w, 'cs) core \<Rightarrow>
   (app_error, backup_info) io" where
  "app_export_backup P at_time c p password s =
     into_io backup_info_of
       (export_backup (pl_environment P) at_time (c\<lparr>oc_image := (oc_image c)\<lparr>im_db := co_db s\<rparr>\<rparr>)
          (path_of_text p) password)"

section \<open>Wallets\<close>

definition with_db :: "('cs db \<Rightarrow> 'a result \<times> 'cs db) \<Rightarrow> ('w, 'cs) core \<Rightarrow> 'a result \<times> ('w, 'cs) core" where
  "with_db f s = (let (r, db) = f (co_db s) in (r, s\<lparr>co_db := db\<rparr>))"

definition app_wallets ::
  "('w, 'cs, 'i, 'd, 'e) platform \<Rightarrow> ('w, 'cs) core \<Rightarrow> wallet_info list app_result" where
  "app_wallets P s = into (map wallet_info_of) (wallet_list (pl_bitcoin P) (pl_bdk P) (co_db s))"

definition app_edit_coins ::
  "('w, 'cs, 'i, 'd, 'e) platform \<Rightarrow> string \<Rightarrow> string list \<Rightarrow> string option \<Rightarrow> bool option \<Rightarrow> ('w, 'cs) core \<Rightarrow>
   unit app_result \<times> ('w, 'cs) core" where
  "app_edit_coins P wid outpoints label frozen s =
     into_with id (with_db (edit_coins (pl_bitcoin P) (pl_bdk P) wid outpoints label frozen) s)"

definition app_preview_import ::
  "('w, 'cs, 'i, 'd, 'e) platform \<Rightarrow> string \<Rightarrow> chain_code \<Rightarrow> wallet_preview app_result" where
  "app_preview_import P payload network =
     into wallet_preview_of
       (preview_import (pl_bitcoin P) (pl_miniscript P) (pl_bdk P) (pl_parse P) payload (network_of network))"

definition app_import_wallet ::
  "('w, 'cs, 'i, 'd, 'e) platform \<Rightarrow> nat \<Rightarrow> string \<Rightarrow> string \<Rightarrow> chain_code \<Rightarrow> ('w, 'cs) core \<Rightarrow>
   wallet_info app_result \<times> ('w, 'cs) core" where
  "app_import_wallet P now name payload network s =
     into_with wallet_info_of
       (with_db (import_wallet (pl_bitcoin P) (pl_miniscript P) (pl_bdk P) (pl_parse P) now name payload
                   (network_of network)) s)"

definition app_receive_address ::
  "('w, 'cs, 'i, 'd, 'e) platform \<Rightarrow> string \<Rightarrow> ('w, 'cs) core \<Rightarrow> address_info app_result \<times> ('w, 'cs) core" where
  "app_receive_address P wid s = into_with address_info_of (with_db (receive_address (pl_bdk P) wid) s)"

definition app_coins ::
  "('w, 'cs, 'i, 'd, 'e) platform \<Rightarrow> string \<Rightarrow> ('w, 'cs) core \<Rightarrow> coin_info list app_result" where
  "app_coins P wid s = into (map coin_info_of) (coins (pl_bitcoin P) (pl_bdk P) wid (co_db s))"

definition app_output_source ::
  "('w, 'cs, 'i, 'd, 'e) platform \<Rightarrow> string \<Rightarrow> string \<Rightarrow> ('w, 'cs) core \<Rightarrow> payment_review option app_result" where
  "app_output_source P wid outpoint s =
     into (map_option payment_review_of) (output_source (pl_bitcoin P) (pl_bdk P) wid outpoint (co_db s))"

definition app_activity ::
  "('w, 'cs, 'i, 'd, 'e) platform \<Rightarrow> string \<Rightarrow> ('w, 'cs) core \<Rightarrow> activity_info list app_result" where
  "app_activity P wid s = into (map activity_info_of) (activity_of (pl_bitcoin P) (pl_bdk P) wid (co_db s))"

definition app_set_label ::
  "('w, 'cs, 'i, 'd, 'e) platform \<Rightarrow> string \<Rightarrow> string \<Rightarrow> string \<Rightarrow> string \<Rightarrow> ('w, 'cs) core \<Rightarrow>
   unit app_result \<times> ('w, 'cs) core" where
  "app_set_label P wid kind reference label s =
     into_with id (with_db (set_label (pl_bitcoin P) (pl_bdk P) wid kind reference label) s)"

definition app_set_frozen ::
  "('w, 'cs, 'i, 'd, 'e) platform \<Rightarrow> string \<Rightarrow> string \<Rightarrow> bool \<Rightarrow> ('w, 'cs) core \<Rightarrow>
   unit app_result \<times> ('w, 'cs) core" where
  "app_set_frozen P wid outpoint frozen s =
     into_with id (with_db (set_frozen (pl_bitcoin P) (pl_bdk P) wid outpoint frozen) s)"

definition app_import_labels ::
  "('w, 'cs, 'i, 'd, 'e) platform \<Rightarrow> string \<Rightarrow> string \<Rightarrow> bool \<Rightarrow> ('w, 'cs) core \<Rightarrow>
   label_import_preview app_result \<times> ('w, 'cs) core" where
  "app_import_labels P wid payload apply_labels s =
     into_with label_import_preview_of
       (with_db (import_labels (pl_bitcoin P) (pl_bdk P) (pl_parse P) wid payload apply_labels) s)"

definition app_export_labels ::
  "('w, 'cs, 'i, 'd, 'e) platform \<Rightarrow> string \<Rightarrow> ('w, 'cs) core \<Rightarrow> string app_result" where
  "app_export_labels P wid s =
     into id (export_labels (pl_bitcoin P) (pl_bdk P) (pl_show_record P) wid (co_db s))"

section \<open>Synchronizations\<close>

definition app_prepare_sync ::
  "('w, 'cs, 'i, 'd, 'e) platform \<Rightarrow> string \<Rightarrow> string \<Rightarrow> bool \<Rightarrow> ('w, 'cs) core \<Rightarrow>
   sync_info app_result \<times> ('w, 'cs) core" where
  "app_prepare_sync P wid source consent s =
     into_with sync_info_of (prepare_sync (pl_bdk P) (pl_web P) (pl_chain P) wid source consent s)"

definition app_run_sync :: "nat \<Rightarrow> bool \<Rightarrow> ('w, 'cs) core \<Rightarrow> unit app_result \<times> ('w, 'cs) core" where
  "app_run_sync i spawned s = into_with id (run_sync i spawned s)"

definition app_sync_progress :: "nat \<Rightarrow> ('w, 'cs) core \<Rightarrow> sync_info app_result" where
  "app_sync_progress i s = into sync_info_of (sync_progress_of i s)"

definition app_cancel_sync :: "nat \<Rightarrow> ('w, 'cs) core \<Rightarrow> sync_info app_result \<times> ('w, 'cs) core" where
  "app_cancel_sync i s = into_with sync_info_of (cancel_sync i s)"

definition app_sync_endpoint ::
  "('w, 'cs, 'i, 'd, 'e) platform \<Rightarrow> string \<Rightarrow> ('w, 'cs) core \<Rightarrow> string option app_result" where
  "app_sync_endpoint P wid s = into id (sync_endpoint (pl_bdk P) wid s)"

section \<open>Drafts and submissions\<close>

definition app_create_draft ::
  "('w, 'cs, 'i, 'd, 'e) platform \<Rightarrow> nat \<Rightarrow> payment_request \<Rightarrow> ('w, 'cs) core \<Rightarrow>
   payment_review app_result \<times> ('w, 'cs) core" where
  "app_create_draft P now request s =
     into_with payment_review_of
       (with_db (create_draft (pl_bitcoin P) (pl_codec P) (pl_bdk P) now (draft_request_of request)) s)"

definition app_drafts ::
  "('w, 'cs, 'i, 'd, 'e) platform \<Rightarrow> string \<Rightarrow> ('w, 'cs) core \<Rightarrow> payment_review list app_result" where
  "app_drafts P wid s = into (map payment_review_of) (draft_list (pl_bdk P) wid (co_db s))"

definition app_export_unsigned_psbt :: "string \<Rightarrow> string \<Rightarrow> ('w, 'cs) core \<Rightarrow> string app_result" where
  "app_export_unsigned_psbt wid d s = into id (export_unsigned_psbt wid d (co_db s))"

definition app_accept_signed_psbt ::
  "('w, 'cs, 'i, 'd, 'e) platform \<Rightarrow> string \<Rightarrow> string \<Rightarrow> byte list \<Rightarrow> ('w, 'cs) core \<Rightarrow>
   signing_info app_result \<times> ('w, 'cs) core" where
  "app_accept_signed_psbt P wid d payload s =
     into_with signing_info_of
       (with_db (accept_signed_psbt (pl_bitcoin P) (pl_codec P) (pl_crypto P) (pl_bdk P) wid d payload) s)"

definition app_signing_progress ::
  "('w, 'cs, 'i, 'd, 'e) platform \<Rightarrow> string \<Rightarrow> string \<Rightarrow> ('w, 'cs) core \<Rightarrow> signing_info app_result" where
  "app_signing_progress P wid d s =
     into signing_info_of
       (signing_progress_op (pl_bitcoin P) (pl_codec P) (pl_crypto P) (pl_bdk P) wid d (co_db s))"

definition app_export_signing_psbt ::
  "('w, 'cs, 'i, 'd, 'e) platform \<Rightarrow> string \<Rightarrow> string \<Rightarrow> ('w, 'cs) core \<Rightarrow> string app_result" where
  "app_export_signing_psbt P wid d s =
     into id (export_signing_psbt (pl_bitcoin P) (pl_codec P) (pl_crypto P) (pl_bdk P) wid d (co_db s))"

definition app_finalize_draft ::
  "('w, 'cs, 'i, 'd, 'e) platform \<Rightarrow> string \<Rightarrow> string \<Rightarrow> ('w, 'cs) core \<Rightarrow>
   final_transaction_info app_result \<times> ('w, 'cs) core" where
  "app_finalize_draft P wid d s =
     into_with final_transaction_info_of
       (with_db (finalize_draft (pl_bitcoin P) (pl_codec P) (pl_crypto P) (pl_bdk P) wid d) s)"

definition app_finalized_draft ::
  "('w, 'cs, 'i, 'd, 'e) platform \<Rightarrow> string \<Rightarrow> string \<Rightarrow> ('w, 'cs) core \<Rightarrow>
   final_transaction_info option app_result" where
  "app_finalized_draft P wid d s =
     into (map_option final_transaction_info_of)
       (finalized_draft (pl_bitcoin P) (pl_codec P) (pl_crypto P) (pl_bdk P) wid d (co_db s))"

definition app_export_draft_qr ::
  "('w, 'cs, 'i, 'd, 'e) platform \<Rightarrow> string \<Rightarrow> string \<Rightarrow> qr_encoding_choice \<Rightarrow> ('w, 'cs) core \<Rightarrow>
   string list app_result" where
  "app_export_draft_qr P wid d encoding s =
     into id
       (rbind (export_signing_psbt (pl_bitcoin P) (pl_codec P) (pl_crypto P) (pl_bdk P) wid d (co_db s)) (\<lambda>payload.
        encode_psbt (pl_codec P) (pl_qr P) (bytes_of payload) (qr_format_of encoding)))"

definition app_broadcast_draft ::
  "('w, 'cs, 'i, 'd, 'e) platform \<Rightarrow> 'cs exchange \<Rightarrow> submit_request \<Rightarrow> ('w, 'cs) core \<Rightarrow>
   submit_info app_result \<times> ('w, 'cs) core" where
  "app_broadcast_draft P x request s =
     into_with submit_info_of
       (with_db (broadcast_draft (pl_bitcoin P) (pl_codec P) (pl_crypto P) (pl_bdk P) (pl_web P) x
                   (broadcast_request_of request)) s)"

definition app_broadcast_status ::
  "('w, 'cs, 'i, 'd, 'e) platform \<Rightarrow> string \<Rightarrow> string \<Rightarrow> ('w, 'cs) core \<Rightarrow> submit_info option app_result" where
  "app_broadcast_status P wid d s =
     into (map_option submit_info_of) (broadcast_status (pl_bitcoin P) (pl_bdk P) wid d (co_db s))"

definition app_discard_draft :: "string \<Rightarrow> string \<Rightarrow> ('w, 'cs) core \<Rightarrow> unit app_result \<times> ('w, 'cs) core" where
  "app_discard_draft wid d s = into_with id (with_db (discard_draft wid d) s)"

definition app_recovery_required :: "string \<Rightarrow> string \<Rightarrow> ('w, 'cs) core \<Rightarrow> bool app_result" where
  "app_recovery_required wid d s = into id (Inr (recovery_required wid d (co_db s)))"

definition app_resume_recovered_submission ::
  "('w, 'cs, 'i, 'd, 'e) platform \<Rightarrow> recovery_review_request \<Rightarrow> ('w, 'cs) core \<Rightarrow>
   final_transaction_info app_result \<times> ('w, 'cs) core" where
  "app_resume_recovered_submission P request s =
     into_with final_transaction_info_of
       (with_db (resume_recovered_submission (pl_bitcoin P) (pl_codec P) (pl_crypto P) (pl_bdk P)
                   (rr_wallet_id request) (rr_draft_id request) (rr_expected_txid request)
                   (rr_expected_attempt request) (rr_review_acknowledged request)) s)"

section \<open>Devices and codes\<close>

text \<open>A session locks itself and then, in the core, the database.\<close>

definition app_prepare_usb ::
  "('w, 'cs, 'i, 'd, 'e) platform \<Rightarrow> nat \<Rightarrow> string \<Rightarrow> usb_request \<Rightarrow> ('w, 'cs) core \<Rightarrow> 'i usb mutex app_result" where
  "app_prepare_usb P now wid request s =
     into Guarded
       (prepare_usb (pl_bitcoin P) (pl_codec P) (pl_miniscript P) (pl_crypto P) (pl_bdk P) (pl_chain P)
          (pl_parse P) (pl_ledger P) now wid (usb_operation_of request) (co_db s))"

definition app_usb_progress :: "nat \<Rightarrow> 'i usb mutex \<Rightarrow> usb_info app_result \<times> 'i usb mutex" where
  "app_usb_progress now m =
     into_with usb_info_of (with_lock (\<lambda>u. let (p, u) = usb_progress_of now u in (Inr p, u)) m)"

definition app_usb_cancel :: "'i usb mutex \<Rightarrow> usb_info app_result \<times> 'i usb mutex" where
  "app_usb_cancel m =
     into_with usb_info_of (with_lock (\<lambda>u. let (p, u) = usb_cancel_of u in (Inr p, u)) m)"

definition app_usb_receive ::
  "('w, 'cs, 'i, 'd, 'e) platform \<Rightarrow> nat \<Rightarrow> nat \<Rightarrow> byte list \<Rightarrow> 'i usb mutex \<Rightarrow> ('w, 'cs) core \<Rightarrow>
   usb_info app_result \<times> 'i usb mutex \<times> ('w, 'cs) core" where
  "app_usb_receive P now step report m s =
     (case m of
        Poisoned_Mutex \<Rightarrow> (into usb_info_of (Inl Poisoned), m, s)
      | Guarded u \<Rightarrow>
          (case usb_receive (pl_bitcoin P) (pl_codec P) (pl_miniscript P) (pl_crypto P) (pl_bdk P) (pl_chain P)
                  (pl_parse P) (pl_ledger P) now step report u (co_db s) of
             (r, u, db) \<Rightarrow> (into usb_info_of r, Guarded u, s\<lparr>co_db := db\<rparr>)))"

definition app_scanner :: "scan_purpose \<Rightarrow> nat \<Rightarrow> 'd qr_decoder mutex" where
  "app_scanner purpose now = Guarded (qr_new (qr_purpose_of purpose) now)"

definition app_scanner_receive ::
  "('w, 'cs, 'i, 'd, 'e) platform \<Rightarrow> nat \<Rightarrow> string \<Rightarrow> 'd qr_decoder mutex \<Rightarrow>
   qr_info app_result \<times> 'd qr_decoder mutex" where
  "app_scanner_receive P now frame m =
     into_with qr_info_of
       (with_lock (\<lambda>d. qr_receive (pl_qr P)
          (accept_payload (pl_bitcoin P) (pl_codec P) (pl_miniscript P) (pl_bdk P) (pl_parse P)) d (now, frame)) m)"

definition app_scanner_progress :: "nat \<Rightarrow> 'd qr_decoder mutex \<Rightarrow> qr_info app_result \<times> 'd qr_decoder mutex" where
  "app_scanner_progress now m =
     into_with qr_info_of (with_lock (\<lambda>d. let (p, d) = qr_progress_of now d in (Inr p, d)) m)"

definition app_scanner_cancel :: "nat \<Rightarrow> 'd qr_decoder mutex \<Rightarrow> qr_info app_result \<times> 'd qr_decoder mutex" where
  "app_scanner_cancel now m =
     into_with qr_info_of (with_lock (\<lambda>d. let (p, d) = qr_cancel now d in (Inr p, d)) m)"

definition app_scanner_payload :: "'d qr_decoder mutex \<Rightarrow> byte list app_result" where
  "app_scanner_payload m = fst (into_with id (with_lock (\<lambda>d. (qr_payload d, d)) m))"

definition app_render_frame :: "('w, 'cs, 'i, 'd, 'e) platform \<Rightarrow> string \<Rightarrow> qr_image app_result" where
  "app_render_frame P frame = into qr_image_of (render_frame (pl_qr P) frame)"

section \<open>Amounts\<close>

definition app_format_balance :: "nat \<Rightarrow> string" where
  "app_format_balance = format_btc"

definition app_parse_btc_amount :: "string \<Rightarrow> nat app_result" where
  "app_parse_btc_amount v = into id (parse_btc v)"

definition app_parse_fee_rate :: "string \<Rightarrow> nat app_result" where
  "app_parse_fee_rate v = into id (parse_fee_rate v)"

definition app_format_fee_rate :: "nat \<Rightarrow> string" where
  "app_format_fee_rate = format_fee_rate"

end
