(* ===== verification/Binding_Facts.thy ===== *)
theory Binding_Facts
  imports Binding Reservation_Facts Sync_Machine
begin

text \<open>
  The core as the applications drive it: every method of the binding, and every step of the threads
  it starts, is a step of the core's database and of the table of its synchronizations, so what
  those keep holds whatever the applications call. Errors reach them distinguishable.
\<close>

section \<open>Errors\<close>

lemma prefix_texts:
  "error_text e = error_text (InvalidInput s) \<longleftrightarrow> e = InvalidInput s"
  "error_text e = error_text (Unavailable s) \<longleftrightarrow> e = Unavailable s"
  by (cases e; simp)+

lemma error_text_injective: "error_text e = error_text e' \<longleftrightarrow> e = e'"
  by (cases e'; cases e; simp)

text \<open>The applications can tell any two errors of the core apart, whatever code they share.\<close>

lemma app_error_injective: "app_error_of e = app_error_of e' \<longleftrightarrow> e = e'"
  by (auto simp: app_error_of_def error_text_injective)

lemma into_cases:
  "into f r = Inl x \<longleftrightarrow> (\<exists>e. r = Inl e \<and> x = app_error_of e)" "into f r = Inr y \<longleftrightarrow> (\<exists>a. r = Inr a \<and> y = f a)"
  by (auto simp: into_def split: sum.splits)

section \<open>The machine of the binding\<close>

inductive binding_step ::
  "('w, 'cs, 'i, 'd, 'e) platform \<Rightarrow> ('w, 'cs) core \<Rightarrow> ('w, 'cs) core \<Rightarrow> bool" for P where
  Edit_Call: "app_edit_coins P wid outpoints label frozen s = (r1, t) \<Longrightarrow> binding_step P s t"
| Import_Call: "app_import_wallet P now name payload network s = (r2, t) \<Longrightarrow> binding_step P s t"
| Address_Call: "app_receive_address P wid s = (r3, t) \<Longrightarrow> binding_step P s t"
| Label_Call: "app_set_label P wid kind reference label s = (r1, t) \<Longrightarrow> binding_step P s t"
| Freeze_Call: "app_set_frozen P wid outpoint freeze s = (r1, t) \<Longrightarrow> binding_step P s t"
| Labels_Call: "app_import_labels P wid payload apply_labels s = (r4, t) \<Longrightarrow> binding_step P s t"
| Draft_Call: "app_create_draft P now request s = (r5, t) \<Longrightarrow> binding_step P s t"
| Discard_Call: "app_discard_draft wid d s = (r1, t) \<Longrightarrow> binding_step P s t"
| Accept_Call: "app_accept_signed_psbt P wid d payload s = (r6, t) \<Longrightarrow> binding_step P s t"
| Finalize_Call: "app_finalize_draft P wid d s = (r7, t) \<Longrightarrow> binding_step P s t"
| Resume_Call: "app_resume_recovered_submission P review s = (r7, t) \<Longrightarrow> binding_step P s t"
| Device_Call: "app_usb_receive P now i report m s = (r8, m', t) \<Longrightarrow> binding_step P s t"
| Prepare_Call: "app_prepare_sync P wid source consent s = (r9, t) \<Longrightarrow> binding_step P s t"
| Run_Call: "app_run_sync i spawned s = (r1, t) \<Longrightarrow> binding_step P s t"
| Cancel_Call: "app_cancel_sync i s = (r9, t) \<Longrightarrow> binding_step P s t"
| Submit_Call: "app_broadcast_draft P x submission s = (r10, t) \<Longrightarrow>
    (\<And>db. core_run (pl_bitcoin P) (pl_codec P) (pl_crypto P) (pl_miniscript P) (pl_bdk P) (pl_chain P) (pl_ledger P)
       (pl_parse P) db (during_get x db)) \<Longrightarrow>
    (\<And>db. core_run (pl_bitcoin P) (pl_codec P) (pl_crypto P) (pl_miniscript P) (pl_bdk P) (pl_chain P) (pl_ledger P)
       (pl_parse P) db (during_post x db)) \<Longrightarrow> binding_step P s t"
| Attempt_Half: "run_tx (co_db s) (record_attempt (pl_bitcoin P) (pl_codec P) (pl_crypto P) (pl_bdk P) attempt e approved now)
      = (r11, db) \<Longrightarrow> binding_step P s (s\<lparr>co_db := db\<rparr>)"
| Acknowledge_Half: "binding_step P s (s\<lparr>co_db := sql_acknowledge i wid d (co_db s)\<rparr>)"
| Count_Thread: "(i, Running snap) \<in> set (co_threads s) \<Longrightarrow> count_script i s = (Inr (), t) \<Longrightarrow> binding_step P s t"
| Error_Thread: "(i, Running snap) \<in> set (co_threads s) \<Longrightarrow> binding_step P s (thread_failed i err s)"
| Commit_Thread: "(i, Running snap) \<in> set (co_threads s) \<Longrightarrow>
    commit_scan (pl_bitcoin P) (pl_bdk P) (pl_chain P) i snap observed_at result s = (Inr (), t) \<Longrightarrow>
    binding_step P s (thread_done i t)"
| Refused_Thread: "(i, Running snap) \<in> set (co_threads s) \<Longrightarrow>
    commit_scan (pl_bitcoin P) (pl_bdk P) (pl_chain P) i snap observed_at result s = (Inl err, t) \<Longrightarrow>
    binding_step P s (thread_failed i err t)"
| Report_Thread: "(i, Reporting err) \<in> set (co_threads s) \<Longrightarrow>
    binding_step P s (thread_done i (report_error i err s))"

inductive binding_run ::
  "('w, 'cs, 'i, 'd, 'e) platform \<Rightarrow> ('w, 'cs) core \<Rightarrow> ('w, 'cs) core \<Rightarrow> bool" for P where
  No_Call: "binding_run P s s"
| More_Calls: "binding_run P s t \<Longrightarrow> binding_step P t u \<Longrightarrow> binding_run P s u"

section \<open>Its steps are steps of the core\<close>

lemma with_db_call: "into_with f (with_db g s) = (r, t) \<Longrightarrow> \<exists>r' db. g (co_db s) = (r', db) \<and> t = s\<lparr>co_db := db\<rparr>"
  by (auto simp: into_with_def with_db_def split: prod.splits)

lemma into_with_call: "into_with f c = (r, t) \<Longrightarrow> \<exists>r'. c = (r', t)"
  by (auto simp: into_with_def split: prod.splits)

lemmas database_calls = app_edit_coins_def app_import_wallet_def app_receive_address_def app_set_label_def
  app_set_frozen_def app_import_labels_def app_create_draft_def app_discard_draft_def app_accept_signed_psbt_def
  app_finalize_draft_def app_resume_recovered_submission_def app_broadcast_draft_def

abbreviation platform_run where
  "platform_run P \<equiv> core_run (pl_bitcoin P) (pl_codec P) (pl_crypto P) (pl_miniscript P) (pl_bdk P) (pl_chain P)
     (pl_ledger P) (pl_parse P)"

abbreviation platform_step where
  "platform_step P \<equiv> core_step (pl_bitcoin P) (pl_codec P) (pl_crypto P) (pl_miniscript P) (pl_bdk P) (pl_chain P)
     (pl_ledger P) (pl_parse P)"

lemma one_step: "platform_step P db db' \<Longrightarrow> platform_run P db db'"
  by (rule More_Steps [OF No_Step])

lemma same_database:
  "t = s\<lparr>co_db := db\<rparr> \<Longrightarrow> platform_run P (co_db s) db \<Longrightarrow> platform_run P (co_db s) (co_db t)"
  by simp

lemma kept_database:
  "prepare_sync W T N wid source consent s = (r, t) \<Longrightarrow> co_db t = co_db s"
  "run_sync i spawned s = (r', t) \<Longrightarrow> co_db t = co_db s"
  "cancel_sync i s = (r, t) \<Longrightarrow> co_db t = co_db s"
  "count_script i s = (r', t) \<Longrightarrow> co_db t = co_db s"
  "co_db (thread_failed i e s) = co_db s" "co_db (thread_done i s) = co_db s" "co_db (report_error i e s) = co_db s"
  by (auto simp: prepare_sync_def run_sync_def begin_run_def cancel_sync_def count_script_def thread_failed_def
      thread_done_def report_error_def Let_def split: sum.splits option.splits if_splits prod.splits)

lemma commit_runs:
  assumes "commit_scan (pl_bitcoin P) (pl_bdk P) (pl_chain P) i snap observed_at result s = (r, t)"
  shows "platform_run P (co_db s) (co_db t)"
proof -
  consider "co_db t = co_db s"
    | u wid where "run_tx (co_db s) (apply_scan (pl_bitcoin P) (pl_bdk P) (pl_chain P) wid snap observed_at result)
        = (u, co_db t)"
    using assms by (auto simp: commit_scan_def split: option.splits if_splits sum.splits prod.splits)
  then show ?thesis
    by cases (auto intro: No_Step one_step core_step.Scan_Step)
qed

lemma binding_step_core: "binding_step P s t \<Longrightarrow> platform_run P (co_db s) (co_db t)"
proof (induction rule: binding_step.induct)
  case (Submit_Call x submission s r10 t)
  then show ?case
    using broadcast_draft_run [OF Submit_Call(2,3)]
    by (auto simp: app_broadcast_draft_def dest!: with_db_call) (metis snd_conv)
next
  case (Device_Call now i report m s r8 m' t)
  then show ?case
    by (auto simp: app_usb_receive_def No_Step split: mutex.splits prod.splits intro!: one_step Device_Step)
next
  case (Attempt_Half s attempt e approved now r11 db)
  then show ?case by (auto intro!: one_step Attempt_Step)
next
  case (Acknowledge_Half s i wid d)
  then show ?case by (auto intro!: one_step Acknowledge_Step)
next
  case (Commit_Thread i snap s observed_at result t)
  then show ?case using commit_runs by (simp add: kept_database)
next
  case (Refused_Thread i snap s observed_at result err t)
  then show ?case using commit_runs by (simp add: kept_database)
next
  case (Prepare_Call wid source consent s r9 t)
  then show ?case by (auto simp: app_prepare_sync_def kept_database No_Step dest!: into_with_call)
next
  case (Run_Call i spawned s r1 t)
  then show ?case by (auto simp: app_run_sync_def kept_database No_Step dest!: into_with_call)
next
  case (Cancel_Call i s r9 t)
  then show ?case by (auto simp: app_cancel_sync_def kept_database No_Step dest!: into_with_call)
next
  case (Edit_Call wid outpoints label frozen s r1 t)
  then show ?case unfolding database_calls by (blast dest: with_db_call intro: one_step Edit_Step same_database)
next
  case (Import_Call now name payload network s r2 t)
  then show ?case unfolding database_calls by (blast dest: with_db_call intro: one_step Import_Step same_database)
next
  case (Address_Call wid s r3 t)
  then show ?case unfolding database_calls by (blast dest: with_db_call intro: one_step Address_Step same_database)
next
  case (Label_Call wid kind reference label s r1 t)
  then show ?case unfolding database_calls by (blast dest: with_db_call intro: one_step Label_Step same_database)
next
  case (Freeze_Call wid outpoint freeze s r1 t)
  then show ?case unfolding database_calls by (blast dest: with_db_call intro: one_step Freeze_Step same_database)
next
  case (Labels_Call wid payload apply_labels s r4 t)
  then show ?case unfolding database_calls by (blast dest: with_db_call intro: one_step Labels_Step same_database)
next
  case (Draft_Call now request s r5 t)
  then show ?case unfolding database_calls by (blast dest: with_db_call intro: one_step Draft_Step same_database)
next
  case (Discard_Call wid d s r1 t)
  then show ?case unfolding database_calls by (blast dest: with_db_call intro: one_step Discard_Step same_database)
next
  case (Accept_Call wid d payload s r6 t)
  then show ?case unfolding database_calls by (blast dest: with_db_call intro: one_step Accept_Step same_database)
next
  case (Finalize_Call wid d s r7 t)
  then show ?case unfolding database_calls by (blast dest: with_db_call intro: one_step Finalize_Step same_database)
next
  case (Resume_Call review s r7 t)
  then show ?case unfolding database_calls by (blast dest: with_db_call intro: one_step Resume_Step same_database)
qed (auto simp: kept_database No_Step)

abbreviation platform_sync where
  "platform_sync P \<equiv> sync_step (pl_bitcoin P) (pl_bdk P) (pl_web P) (pl_chain P)"

lemma other_database: "t = s\<lparr>co_db := db\<rparr> \<Longrightarrow> platform_sync P s t"
  by (simp add: Other_Call)

lemma binding_step_sync: "binding_step P s t \<Longrightarrow> platform_sync P s t"
proof (induction rule: binding_step.induct)
  case (Device_Call now i report m s r8 m' t)
  then have "t = s \<or> (\<exists>db. t = s\<lparr>co_db := db\<rparr>)"
    by (auto simp: app_usb_receive_def split: mutex.splits prod.splits)
  then show ?case using Other_Call [of _ _ _ _ s] by (metis core.surjective core.update_convs(1))
next
  case (Prepare_Call wid source consent s r9 t)
  then show ?case unfolding app_prepare_sync_def by (blast dest: into_with_call intro: Prepare_Step)
next
  case (Run_Call i spawned s r1 t)
  then show ?case unfolding app_run_sync_def by (blast dest: into_with_call intro: Run_Step)
next
  case (Cancel_Call i s r9 t)
  then show ?case unfolding app_cancel_sync_def by (blast dest: into_with_call intro: Cancel_Step)
qed (auto simp: database_calls dest!: with_db_call intro: sync_step.intros)

lemma binding_run_core: "binding_run P s t \<Longrightarrow> platform_run P (co_db s) (co_db t)"
  by (induction rule: binding_run.induct) (auto intro: No_Step binding_step_core core_run_trans)

lemma binding_run_sync:
  "binding_run P s t \<Longrightarrow> sync_run (pl_bitcoin P) (pl_bdk P) (pl_web P) (pl_chain P) s t"
  by (induction rule: binding_run.induct) (auto intro: sync_run.intros binding_step_sync)

text \<open>
  C24. Whatever the applications call, in whatever order and interleaved with the threads and
  devices they started, from an opened store whose database satisfies the schema on: every database
  satisfies it, with its CHECK constraints and no more than 64 submissions of a draft, its
  reservations are exactly the coins of its live drafts, and the table of synchronizations has at
  most 32 entries under distinct ids, at most one of a wallet that is not over.
\<close>

theorem binding_keeps_invariants:
  assumes "binding_run P (opened_core c) s"
    and "wf_db (im_db (oc_image c))" and "checked_db (im_db (oc_image c))" and "attempts_bounded (im_db (oc_image c))"
    and "reviews_named (im_db (oc_image c))" and "reservations_exact (im_db (oc_image c))"
  shows "wf_db (co_db s) \<and> checked_db (co_db s) \<and> attempts_bounded (co_db s) \<and> reservations_exact (co_db s)
    \<and> length (co_entries s) \<le> 32 \<and> distinct (map fst (co_entries s))
    \<and> (\<forall>(i, x) \<in> set (co_entries s). \<forall>(j, y) \<in> set (co_entries s).
         \<not> terminal (op_phase x) \<and> \<not> terminal (op_phase y) \<and> op_wallet x = op_wallet y \<longrightarrow> i = j)"
proof -
  have run: "platform_run P (im_db (oc_image c)) (co_db s)"
    using binding_run_core [OF assms(1)] by (simp add: opened_core_def)
  have "ops_inv s"
    using binding_run_sync [OF assms(1)] ops_inv_reachable by (auto simp: opened_core_def fresh_core_def)
  then show ?thesis
    using schema.inv_run [OF run assms(2)] checks.inv_run [OF run assms(3)] attempts.inv_run [OF run assms(4)]
      core_run_exact [OF run assms(2,5,6)]
    by (auto simp: ops_inv_def MAX_OPERATIONS_def one_live_def unique_keys_def Sync_Operations.live_def)
qed

definition sample_platform :: "crypto \<Rightarrow> web \<Rightarrow> (nat, nat) chain \<Rightarrow> unit ledger \<Rightarrow> (unit, unit) qr_codec \<Rightarrow> nat sqlcipher \<Rightarrow>
    (nat, nat, unit, unit, unit) platform" where
  "sample_platform K T N L Q S =
     \<lparr>pl_environment = \<lparr>en_bitcoin = sample_bitcoin, en_codec = sample_codec, en_miniscript = sample_miniscript,
        en_bdk = sample_bdk, en_parse = (\<lambda>_. None), en_print = (\<lambda>_. []), en_review_len = (\<lambda>_. 0), en_sqlcipher = S\<rparr>,
      pl_crypto = K, pl_web = T, pl_chain = N, pl_ledger = L, pl_qr = Q, pl_show_record = (\<lambda>_. [])\<rparr>"

definition empty_core :: "nat open_core" where
  "empty_core = \<lparr>oc_path = None, oc_key = None,
     oc_image = \<lparr>im_application = 0, im_version = 8, im_schema = [], im_manifest = [], im_db = empty_db,
       im_raw = (\<lambda>_. \<lparr>raw_length = 0, raw_value = None\<rparr>), im_cipher_faults = False, im_integrity = ''ok'',
       im_foreign_faults = False\<rparr>, oc_lock = None\<rparr>"

lemma empty_core_db: "im_db (oc_image empty_core) = empty_db"
  by (simp add: empty_core_def)

theorem binding_keeps_invariants_witness:
  "\<exists>(P :: (nat, nat, unit, unit, unit) platform) s. binding_run P (opened_core empty_core) s \<and> wallets (co_db s) \<noteq> []
     \<and> wf_db (co_db s) \<and> length (co_entries s) \<le> 32"
proof -
  fix K T N L Q S
  let ?P = "sample_platform K T N L Q S"
  let ?s = "opened_core empty_core :: (nat, nat) core"
  obtain r db row where i: "import_wallet sample_bitcoin sample_miniscript sample_bdk (\<lambda>_. None) 1 ''n'' sample_pair
      Signet (empty_db :: nat db) = (Inr r, db)" and w: "wallets db = [(ip_id sample_preview, row)]"
    using sample_import_wallet by blast
  have "app_import_wallet ?P 1 ''n'' sample_pair SignetChain ?s = (Inr (wallet_info_of r), ?s\<lparr>co_db := db\<rparr>)"
    using i by (simp add: app_import_wallet_def sample_platform_def with_db_def opened_core_def empty_core_def
        into_with_def into_def)
  then have run: "binding_run ?P ?s (?s\<lparr>co_db := db\<rparr>)"
    by (intro More_Calls [OF No_Call] Import_Call)
  have "wf_db (co_db (?s\<lparr>co_db := db\<rparr>)) \<and> length (co_entries (?s\<lparr>co_db := db\<rparr>)) \<le> 32"
    using binding_keeps_invariants [OF run] empty_invariants empty_exact unfolding empty_core_db by blast
  with run w show ?thesis
    by (intro exI [of _ ?P] exI [of _ "?s\<lparr>co_db := db\<rparr>"]) simp
qed

end
